(* ===== verification/Prelude.thy ===== *)
theory Prelude
  imports Main "HOL-Library.Word" "HOL-Library.AList"
begin

text \<open>
  Shared vocabulary of the development: the machine integers of the Rust sources, the outcome of a
  Rust call (\<open>Ok\<close>, \<open>Err\<close> or a panic), the byte buffer that codecs read from and append to, Rust's
  \<open>String\<close> and its UTF-8 check, association lists, invariants of transition systems, and the collections of simplification rules the component theories
  extend.
\<close>

unbundle bit_operations_syntax

section \<open>Machine integers\<close>

type_synonym u8 = "8 word"
type_synonym u16 = "16 word"
type_synonym u32 = "32 word"

text \<open>The bytes of a buffer that are not yet read (\<open>src\<close>) or that were appended (\<open>dest\<close>).\<close>

type_synonym bytes = "u8 list"

section \<open>Outcomes of Rust calls\<close>

text \<open>
  A call returns \<open>Ok\<close>, returns \<open>Err\<close>, or panics (an \<open>unwrap\<close> of \<open>None\<close>, a read past the end of
  the buffer, an index out of range). The operator \<open>?\<close> of the sources is \<open>bind\<close>.
\<close>

datatype ('e, 'a) res = Ok 'a | Err 'e | Panic

primrec bind :: "('e, 'a) res \<Rightarrow> ('a \<Rightarrow> ('e, 'b) res) \<Rightarrow> ('e, 'b) res" where
  "bind (Ok x) f = f x"
| "bind (Err e) f = Err e"
| "bind Panic f = Panic"

primrec map_ok :: "('a \<Rightarrow> 'b) \<Rightarrow> ('e, 'a) res \<Rightarrow> ('e, 'b) res" where
  "map_ok f (Ok x) = Ok (f x)"
| "map_ok f (Err e) = Err e"
| "map_ok f Panic = Panic"

text \<open>\<open>unwrap_or\<close> and \<open>unwrap\<close> of \<open>Result\<close>.\<close>

primrec unwrap_or :: "('e, 'a) res \<Rightarrow> 'a \<Rightarrow> 'a" where
  "unwrap_or (Ok x) d = x"
| "unwrap_or (Err e) d = d"
| "unwrap_or Panic d = d"

primrec unwrap :: "('e, 'a) res \<Rightarrow> ('f, 'a) res" where
  "unwrap (Ok x) = Ok x"
| "unwrap (Err e) = Panic"
| "unwrap Panic = Panic"

text \<open>Running a list of fallible writers in order, each giving the bytes it appends.\<close>

primrec seq_enc :: "('e, bytes) res list \<Rightarrow> ('e, bytes) res" where
  "seq_enc [] = Ok []"
| "seq_enc (m # ms) = bind m (\<lambda>a. bind (seq_enc ms) (\<lambda>b. Ok (a @ b)))"

named_theorems codec_simps \<open>round trips of encoders and decoders\<close>
named_theorems size_simps \<open>lengths of encodings against computed sizes\<close>
named_theorems byte_simps \<open>masks, shifts and casts on machine integers\<close>

lemma bind_eq_Ok_iff [simp]: "bind m f = Ok y \<longleftrightarrow> (\<exists>x. m = Ok x \<and> f x = Ok y)"
  by (cases m) auto

lemma Ok_eq_bind_iff [simp]: "Ok y = bind m f \<longleftrightarrow> (\<exists>x. m = Ok x \<and> f x = Ok y)"
  by (cases m) auto

lemma bind_assoc: "bind (bind m f) g = bind m (\<lambda>x. bind (f x) g)"
  by (cases m) auto

lemma bind_Ok_right [simp]: "bind m Ok = m"
  by (cases m) auto

lemma map_ok_eq_Ok_iff [simp]: "map_ok f m = Ok y \<longleftrightarrow> (\<exists>x. m = Ok x \<and> f x = y)"
  by (cases m) auto

lemma bind_cong [fundef_cong]:
  "m = m' \<Longrightarrow> (\<And>x. m' = Ok x \<Longrightarrow> f x = g x) \<Longrightarrow> bind m f = bind m' g"
  by (cases m') auto

lemma seq_enc_append:
  "seq_enc (ms @ ns) = bind (seq_enc ms) (\<lambda>a. bind (seq_enc ns) (\<lambda>b. Ok (a @ b)))"
proof (induction ms)
  case Nil
  then show ?case by (cases "seq_enc ns") auto
next
  case (Cons m ms)
  then show ?case
    by (cases m; cases "seq_enc ms"; cases "seq_enc ns") auto
qed

lemma seq_enc_map_Ok [simp]: "seq_enc (map (\<lambda>x. Ok (f x)) xs) = Ok (concat (map f xs))"
  by (induction xs) auto

section \<open>Reading and appending\<close>

text \<open>
  \<open>Buf::get_*\<close> read big-endian integers from the front of the buffer and panic when too few bytes
  remain; \<open>BufMut::put_*\<close> append them. An encoder is modelled by the bytes it appends, because no
  encoder reads or changes what \<open>dest\<close> already holds.
\<close>

fun get_u8 :: "bytes \<Rightarrow> ('e, u8 \<times> bytes) res" where
  "get_u8 [] = Panic"
| "get_u8 (b # src) = Ok (b, src)"

fun get_u16 :: "bytes \<Rightarrow> ('e, u16 \<times> bytes) res" where
  "get_u16 (a # b # src) = Ok (word_cat a b, src)"
| "get_u16 _ = Panic"

fun get_u32 :: "bytes \<Rightarrow> ('e, u32 \<times> bytes) res" where
  "get_u32 (a # b # c # d # src) = Ok (word_cat (word_cat a b :: u16) (word_cat c d :: u16), src)"
| "get_u32 _ = Panic"

definition put_u8 :: "u8 \<Rightarrow> bytes" where
  "put_u8 v = [v]"

definition put_u16 :: "u16 \<Rightarrow> bytes" where
  "put_u16 v = [ucast (drop_bit 8 v), ucast v]"

definition put_u32 :: "u32 \<Rightarrow> bytes" where
  "put_u32 v = put_u16 (ucast (drop_bit 16 v)) @ put_u16 (ucast v)"

text \<open>\<open>try_copy_to_slice\<close> of \<open>n\<close> bytes: \<open>None\<close> when fewer remain.\<close>

definition try_take :: "nat \<Rightarrow> bytes \<Rightarrow> (bytes \<times> bytes) option" where
  "try_take n src = (if n \<le> length src then Some (take n src, drop n src) else None)"

lemma word_cat_halves_16: "word_cat (ucast (drop_bit 8 v) :: u8) (ucast v :: u8) = (v :: u16)"
  by (rule bit_word_eqI) (auto simp: bit_word_cat_iff bit_ucast_iff bit_drop_bit_eq)

lemma word_cat_halves_32: "word_cat (ucast (drop_bit 16 v) :: u16) (ucast v :: u16) = (v :: u32)"
  by (rule bit_word_eqI) (auto simp: bit_word_cat_iff bit_ucast_iff bit_drop_bit_eq)

lemma get_put_u8 [codec_simps]: "get_u8 (put_u8 v @ rest) = Ok (v, rest)"
  by (simp add: put_u8_def)

lemma get_put_u16 [codec_simps]: "get_u16 (put_u16 v @ rest) = Ok (v, rest)"
  by (simp add: put_u16_def word_cat_halves_16)

lemma get_put_u32 [codec_simps]: "get_u32 (put_u32 v @ rest) = Ok (v, rest)"
  by (simp add: put_u32_def put_u16_def word_cat_halves_16 word_cat_halves_32)

lemma length_put [simp, size_simps]:
  "length (put_u8 a) = 1" "length (put_u16 b) = 2" "length (put_u32 c) = 4"
  by (simp_all add: put_u8_def put_u16_def put_u32_def)

lemma get_u8_length: "get_u8 src = Ok (v, rest) \<Longrightarrow> length src = length rest + 1"
  by (cases src) auto

lemma get_u16_length: "get_u16 src = Ok (v, rest) \<Longrightarrow> length src = length rest + 2"
  by (cases src rule: get_u16.cases) auto

lemma get_u32_length: "get_u32 src = Ok (v, rest) \<Longrightarrow> length src = length rest + 4"
  by (cases src rule: get_u32.cases) auto

lemmas get_length = get_u8_length get_u16_length get_u32_length

lemma try_take_append [codec_simps]: "n = length xs \<Longrightarrow> try_take n (xs @ rest) = Some (xs, rest)"
  by (simp add: try_take_def)

lemma try_take_SomeD:
  "try_take n src = Some (xs, rest) \<Longrightarrow> src = xs @ rest \<and> length xs = n"
  by (auto simp: try_take_def split: if_splits)

section \<open>Strings\<close>

text \<open>
  A Rust \<open>String\<close> is the \<open>string\<close> of its UTF-8 bytes, so \<open>len()\<close> is \<open>length\<close>. \<open>rust_str\<close> says that
  the bytes are well-formed UTF-8, which the type \<open>String\<close> guarantees; \<open>valid_utf8\<close> is the check of
  \<open>String::from_utf8\<close>.
\<close>

definition as_bytes :: "string \<Rightarrow> bytes" where
  "as_bytes s = map of_char s"

definition of_bytes :: "bytes \<Rightarrow> string" where
  "of_bytes bs = map (\<lambda>b. char_of (unat b)) bs"

definition utf8_cont :: "u8 \<Rightarrow> bool" where
  "utf8_cont b \<longleftrightarrow> 0x80 \<le> b \<and> b \<le> 0xBF"

fun valid_utf8 :: "bytes \<Rightarrow> bool" where
  "valid_utf8 [] = True"
| "valid_utf8 (b # bs) =
    (if b \<le> 0x7F then valid_utf8 bs
     else if 0xC2 \<le> b \<and> b \<le> 0xDF then
       (case bs of c # r \<Rightarrow> utf8_cont c \<and> valid_utf8 r | _ \<Rightarrow> False)
     else if 0xE0 \<le> b \<and> b \<le> 0xEF then
       (case bs of c # d # r \<Rightarrow>
          utf8_cont c \<and> (b = 0xE0 \<longrightarrow> 0xA0 \<le> c) \<and> (b = 0xED \<longrightarrow> c \<le> 0x9F) \<and> utf8_cont d
          \<and> valid_utf8 r
        | _ \<Rightarrow> False)
     else if 0xF0 \<le> b \<and> b \<le> 0xF4 then
       (case bs of c # d # e # r \<Rightarrow>
          utf8_cont c \<and> (b = 0xF0 \<longrightarrow> 0x90 \<le> c) \<and> (b = 0xF4 \<longrightarrow> c \<le> 0x8F) \<and> utf8_cont d
          \<and> utf8_cont e \<and> valid_utf8 r
        | _ \<Rightarrow> False)
     else False)"

definition from_utf8 :: "bytes \<Rightarrow> string option" where
  "from_utf8 bs = (if valid_utf8 bs then Some (of_bytes bs) else None)"

definition rust_str :: "string \<Rightarrow> bool" where
  "rust_str s \<longleftrightarrow> valid_utf8 (as_bytes s)"

lemma unat_of_char: "unat (of_char c :: u8) = (of_char c :: nat)"
proof -
  have lt: "(of_char c :: nat) < 256" by simp
  have "(of_char c :: u8) = of_nat (of_char c)" by (simp add: of_nat_of_char)
  also have "unat \<dots> = of_char c" using lt by (subst unat_of_nat) simp
  finally show ?thesis .
qed

lemma of_char_char_of_unat: "(of_char (char_of (unat b)) :: u8) = b"
proof -
  have b: "unat b < 256" using unsigned_less [of b, where ?'a = nat] by simp
  have "unat (of_char (char_of (unat b)) :: u8) = unat b"
    using b by (simp add: unat_of_char)
  then show ?thesis by (simp only: word_unat_eq_iff)
qed

lemma of_bytes_as_bytes [simp]: "of_bytes (as_bytes s) = s"
  by (simp add: of_bytes_def as_bytes_def unat_of_char comp_def)

lemma as_bytes_of_bytes [simp]: "as_bytes (of_bytes bs) = bs"
  by (simp add: of_bytes_def as_bytes_def of_char_char_of_unat comp_def)

lemma length_as_bytes [simp]: "length (as_bytes s) = length s"
  by (simp add: as_bytes_def)

lemma length_of_bytes [simp]: "length (of_bytes bs) = length bs"
  by (simp add: of_bytes_def)

lemma from_utf8_as_bytes [codec_simps]: "rust_str s \<Longrightarrow> from_utf8 (as_bytes s) = Some s"
  by (simp add: from_utf8_def rust_str_def)

lemma from_utf8_SomeD: "from_utf8 bs = Some s \<Longrightarrow> rust_str s \<and> bs = as_bytes s"
  by (auto simp: from_utf8_def rust_str_def split: if_splits)

lemma valid_utf8_ascii: "\<forall>b \<in> set bs. b \<le> 0x7F \<Longrightarrow> valid_utf8 bs"
  by (induction bs) auto

lemma rust_str_Nil [simp]: "rust_str []"
  by (simp add: rust_str_def as_bytes_def)

section \<open>Masks, shifts and casts\<close>

lemma unat_u8_less [byte_simps]: "unat (b :: u8) < 256"
  using unsigned_less [of b, where ?'a = nat] by simp

lemma unat_u16_less [byte_simps]: "unat (b :: u16) < 65536"
  using unsigned_less [of b, where ?'a = nat] by simp

lemma unat_and_low7 [byte_simps]: "unat (b AND 0x7F :: u8) = unat b mod 128"
proof -
  have "b AND 0x7F = take_bit 7 b"
    by (simp add: take_bit_eq_mask mask_eq_exp_minus_1)
  then show ?thesis by (simp add: take_bit_eq_mod unat_mod)
qed

lemma and_bit7_eq_0_iff [byte_simps]: "(b AND 0x80 = (0 :: u8)) \<longleftrightarrow> unat b < 128"
proof -
  have "b AND 0x80 = 0 \<longleftrightarrow> \<not> bit b 7"
    using and_exp_eq_0_iff_not_bit [of b 7] by simp
  also have "\<dots> \<longleftrightarrow> \<not> bit (unat b) 7"
    by (simp only: bit_unsigned_iff) simp
  also have "\<dots> \<longleftrightarrow> unat b < 128"
  proof -
    have "unat b div 128 = (if unat b < 128 then 0 else 1)"
      using unat_u8_less [of b] by (auto intro: div_less div_nat_eqI)
    then show ?thesis by (simp add: bit_iff_odd)
  qed
  finally show ?thesis .
qed

lemma unat_or_bit7 [byte_simps]:
  assumes "unat b < 128"
  shows "unat (b OR 0x80 :: u8) = unat b + 128"
proof -
  have "b AND 0x80 = 0" using assms by (simp add: and_bit7_eq_0_iff)
  then have e: "b OR 0x80 = b + 0x80" by (simp add: word_plus_and_or [of b "0x80", symmetric])
  show ?thesis using assms unfolding e by (simp add: unat_word_ariths)
qed

lemma unat_drop_bit7 [byte_simps]: "unat (drop_bit 7 v :: u32) = unat v div 128"
  by (simp add: drop_bit_eq_div unat_div)

lemma unat_low7_cast [byte_simps]: "unat (ucast (v mod 0x80) :: u8) = unat (v :: u32) mod 128"
  by (simp add: unat_mod unsigned_ucast_eq take_bit_eq_mod)

lemma unat_push_bit_u32 [byte_simps]: "unat (push_bit n (w :: u32)) = (unat w * 2 ^ n) mod 2 ^ 32"
  by (simp add: unsigned_push_bit_eq) (simp add: take_bit_eq_mod push_bit_eq_mult)

lemma unat_ucast_u8_u32 [byte_simps]: "unat (ucast (b :: u8) :: u32) = unat b"
  using unat_u8_less [of b] by (simp add: unsigned_ucast_eq take_bit_eq_mod)

lemma unat_of_nat_u16 [byte_simps]: "n < 65536 \<Longrightarrow> unat (of_nat n :: u16) = n"
  by (simp add: unat_of_nat)

lemma unat_of_nat_u32 [byte_simps]: "n < 4294967296 \<Longrightarrow> unat (of_nat n :: u32) = n"
  by (simp add: unat_of_nat)

section \<open>Association lists\<close>

lemma set_update_subset: "set (AList.update k v l) \<subseteq> insert (k, v) (set l)"
  by (induction l) auto

lemma set_delete_subset: "set (AList.delete k l) \<subseteq> set l"
  by (induction l) auto

lemma nth_update_cases: "xs[i := x] ! j = (if i = j \<and> i < length xs then x else xs ! j)"
  by (cases "i < length xs") (simp_all add: nth_list_update list_update_beyond)

section \<open>Invariants of transition systems\<close>

text \<open>A predicate every transition keeps, and one that also holds where the system starts.\<close>

locale transition_system =
  fixes trans :: "'s \<Rightarrow> 's \<Rightarrow> bool" and I :: "'s \<Rightarrow> bool"
  assumes step_keeps: "I s \<Longrightarrow> trans s t \<Longrightarrow> I t"
begin

lemma steps_keep: "trans\<^sup>*\<^sup>* s t \<Longrightarrow> I s \<Longrightarrow> I t"
  by (induction rule: rtranclp_induct) (auto intro: step_keeps)

end

locale transition_invariant = transition_system trans I for trans :: "'s \<Rightarrow> 's \<Rightarrow> bool" and I +
  fixes start :: 's
  assumes start_keeps: "I start"
begin

lemma reachable_keeps: "trans\<^sup>*\<^sup>* start s \<Longrightarrow> I s"
  by (rule steps_keep [OF _ start_keeps])

end

end
