(* ===== verification/Codec_Basics.thy ===== *)
theory Codec_Basics
  imports Prelude
begin

text \<open>
  The elementary codecs of \<open>vaux-mqtt/src/codec/mod.rs\<close>: packet types, reason codes, QoS levels,
  strings, binary data, variable byte integers. A codec error is represented by its \<open>ErrorKind\<close>;
  the text of \<open>MqttCodecError::reason\<close> is for display only and no code branches on it.
  A decoder returns the value, the number of bytes it reports, and the rest of the buffer.
\<close>

section \<open>Errors\<close>

datatype ErrorKind =
    EK_InsufficientData nat nat
  | EK_MalformedPacket
  | EK_InvalidPacket
  | EK_UnsupportedQosLevel
  | EK_UnsupportedResponseType
  | EK_UnsupportedReason u8
  | EK_UnsupportedProperty u8
  | EK_InvalidUTF8
  | EK_InvalidPacketIdentifier

type_synonym 'a codec_result = "(ErrorKind, 'a) res"

text \<open>\<open>MqttCodecError::new\<close>: the default kind.\<close>

definition MqttCodecError_new :: ErrorKind where
  "MqttCodecError_new = EK_MalformedPacket"

section \<open>Packet types\<close>

datatype PacketType =
    PT_Connect | PT_ConnAck | PT_Publish | PT_PubAck | PT_PubRec | PT_PubRel | PT_PubComp
  | PT_Subscribe | PT_SubAck | PT_Unsubscribe | PT_UnsubAck | PT_PingReq | PT_PingResp
  | PT_Disconnect | PT_Auth

primrec PacketType_as_u8 :: "PacketType \<Rightarrow> u8" where
  "PacketType_as_u8 PT_Connect = 0x10"
| "PacketType_as_u8 PT_ConnAck = 0x20"
| "PacketType_as_u8 PT_Publish = 0x30"
| "PacketType_as_u8 PT_PubAck = 0x40"
| "PacketType_as_u8 PT_PubRec = 0x50"
| "PacketType_as_u8 PT_PubRel = 0x60"
| "PacketType_as_u8 PT_PubComp = 0x70"
| "PacketType_as_u8 PT_Subscribe = 0x80"
| "PacketType_as_u8 PT_SubAck = 0x90"
| "PacketType_as_u8 PT_Unsubscribe = 0xa0"
| "PacketType_as_u8 PT_UnsubAck = 0xb0"
| "PacketType_as_u8 PT_PingReq = 0xc0"
| "PacketType_as_u8 PT_PingResp = 0xd0"
| "PacketType_as_u8 PT_Disconnect = 0xe0"
| "PacketType_as_u8 PT_Auth = 0xf0"

definition PacketType_from_u8 :: "u8 \<Rightarrow> PacketType" where
  "PacketType_from_u8 val =
    (let v = val AND 0xf0 in
     if v = 0x10 then PT_Connect
     else if v = 0x20 then PT_ConnAck
     else if v = 0x30 then PT_Publish
     else if v = 0x40 then PT_PubAck
     else if v = 0x50 then PT_PubRec
     else if v = 0x60 then PT_PubRel
     else if v = 0x70 then PT_PubComp
     else if v = 0x80 then PT_Subscribe
     else if v = 0x90 then PT_SubAck
     else if v = 0xa0 then PT_Unsubscribe
     else if v = 0xb0 then PT_UnsubAck
     else if v = 0xc0 then PT_PingReq
     else if v = 0xd0 then PT_PingResp
     else if v = 0xe0 then PT_Disconnect
     else PT_Auth)"

lemma PacketType_from_as_u8 [simp, codec_simps]: "PacketType_from_u8 (PacketType_as_u8 t) = t"
  by (cases t) (simp_all add: PacketType_from_u8_def)

section \<open>Reason codes\<close>

datatype Reason =
    R_Success | R_GrantedQoS1 | R_GrantedQoS2 | R_DisconnectWillMsg | R_NoSubscribers
  | R_NoSubscriptionExisted | R_ContinueAuth | R_Reauthenticate | R_UnspecifiedErr
  | R_MalformedPacket | R_ProtocolErr | R_ImplementationErr | R_UnsupportedProtocolVersion
  | R_InvalidClientId | R_AuthenticationErr | R_NotAuthorized | R_ServerUnavailable
  | R_ServerBusy | R_Banned | R_ServerShutdown | R_AuthMethodErr | R_KeepAliveTimeout
  | R_SessionTakeOver | R_InvalidTopicFilter | R_InvalidTopicName | R_PacketIdInUse
  | R_PacketIdNotFound | R_ReceiveMaxExceeded | R_InvalidTopicAlias | R_PacketTooLarge
  | R_MessageRate | R_QuotaExceeded | R_AdminAction | R_PayloadFormatErr | R_RetainUnsupported
  | R_QoSUnsupported | R_UseDiffServer | R_ServerMoved | R_SharedSubUnsupported
  | R_ConnRateExceeded | R_MaxConnectTime | R_SubIdUnsupported | R_WildcardSubUnsupported

text \<open>The associated constants \<open>NormalDisconnect\<close> and \<open>GrantedQoS0\<close>.\<close>

abbreviation R_NormalDisconnect :: Reason where
  "R_NormalDisconnect \<equiv> R_Success"

abbreviation R_GrantedQoS0 :: Reason where
  "R_GrantedQoS0 \<equiv> R_Success"

primrec Reason_as_u8 :: "Reason \<Rightarrow> u8" where
  "Reason_as_u8 R_Success = 0x00"
| "Reason_as_u8 R_GrantedQoS1 = 0x01"
| "Reason_as_u8 R_GrantedQoS2 = 0x02"
| "Reason_as_u8 R_DisconnectWillMsg = 0x04"
| "Reason_as_u8 R_NoSubscribers = 0x10"
| "Reason_as_u8 R_NoSubscriptionExisted = 0x11"
| "Reason_as_u8 R_ContinueAuth = 0x18"
| "Reason_as_u8 R_Reauthenticate = 0x19"
| "Reason_as_u8 R_UnspecifiedErr = 0x80"
| "Reason_as_u8 R_MalformedPacket = 0x81"
| "Reason_as_u8 R_ProtocolErr = 0x82"
| "Reason_as_u8 R_ImplementationErr = 0x83"
| "Reason_as_u8 R_UnsupportedProtocolVersion = 0x84"
| "Reason_as_u8 R_InvalidClientId = 0x85"
| "Reason_as_u8 R_AuthenticationErr = 0x86"
| "Reason_as_u8 R_NotAuthorized = 0x87"
| "Reason_as_u8 R_ServerUnavailable = 0x88"
| "Reason_as_u8 R_ServerBusy = 0x89"
| "Reason_as_u8 R_Banned = 0x8a"
| "Reason_as_u8 R_ServerShutdown = 0x8b"
| "Reason_as_u8 R_AuthMethodErr = 0x8c"
| "Reason_as_u8 R_KeepAliveTimeout = 0x8d"
| "Reason_as_u8 R_SessionTakeOver = 0x8e"
| "Reason_as_u8 R_InvalidTopicFilter = 0x8f"
| "Reason_as_u8 R_InvalidTopicName = 0x90"
| "Reason_as_u8 R_PacketIdInUse = 0x91"
| "Reason_as_u8 R_PacketIdNotFound = 0x92"
| "Reason_as_u8 R_ReceiveMaxExceeded = 0x93"
| "Reason_as_u8 R_InvalidTopicAlias = 0x94"
| "Reason_as_u8 R_PacketTooLarge = 0x95"
| "Reason_as_u8 R_MessageRate = 0x96"
| "Reason_as_u8 R_QuotaExceeded = 0x97"
| "Reason_as_u8 R_AdminAction = 0x98"
| "Reason_as_u8 R_PayloadFormatErr = 0x99"
| "Reason_as_u8 R_RetainUnsupported = 0x9a"
| "Reason_as_u8 R_QoSUnsupported = 0x9b"
| "Reason_as_u8 R_UseDiffServer = 0x9c"
| "Reason_as_u8 R_ServerMoved = 0x9d"
| "Reason_as_u8 R_SharedSubUnsupported = 0x9e"
| "Reason_as_u8 R_ConnRateExceeded = 0x9f"
| "Reason_as_u8 R_MaxConnectTime = 0xa0"
| "Reason_as_u8 R_SubIdUnsupported = 0xa1"
| "Reason_as_u8 R_WildcardSubUnsupported = 0xa2"

definition Reason_table :: "(u8 \<times> Reason) list" where
  "Reason_table =
    [(0x00, R_Success), (0x01, R_GrantedQoS1), (0x02, R_GrantedQoS2), (0x04, R_DisconnectWillMsg),
     (0x10, R_NoSubscribers), (0x11, R_NoSubscriptionExisted), (0x18, R_ContinueAuth),
     (0x19, R_Reauthenticate), (0x80, R_UnspecifiedErr), (0x81, R_MalformedPacket),
     (0x82, R_ProtocolErr), (0x83, R_ImplementationErr), (0x84, R_UnsupportedProtocolVersion),
     (0x85, R_InvalidClientId), (0x86, R_AuthenticationErr), (0x87, R_NotAuthorized),
     (0x88, R_ServerUnavailable), (0x89, R_ServerBusy), (0x8a, R_Banned), (0x8b, R_ServerShutdown),
     (0x8c, R_AuthMethodErr), (0x8d, R_KeepAliveTimeout), (0x8e, R_SessionTakeOver),
     (0x8f, R_InvalidTopicFilter), (0x90, R_InvalidTopicName), (0x91, R_PacketIdInUse),
     (0x92, R_PacketIdNotFound), (0x93, R_ReceiveMaxExceeded), (0x94, R_InvalidTopicAlias),
     (0x95, R_PacketTooLarge), (0x96, R_MessageRate), (0x97, R_QuotaExceeded),
     (0x98, R_AdminAction), (0x99, R_PayloadFormatErr), (0x9a, R_RetainUnsupported),
     (0x9b, R_QoSUnsupported), (0x9c, R_UseDiffServer), (0x9d, R_ServerMoved),
     (0x9e, R_SharedSubUnsupported), (0x9f, R_ConnRateExceeded), (0xa0, R_MaxConnectTime),
     (0xa1, R_SubIdUnsupported), (0xa2, R_WildcardSubUnsupported)]"

definition Reason_try_from :: "u8 \<Rightarrow> Reason codec_result" where
  "Reason_try_from value =
    (case map_of Reason_table value of Some r \<Rightarrow> Ok r | None \<Rightarrow> Err MqttCodecError_new)"

lemma Reason_try_from_as_u8 [simp, codec_simps]: "Reason_try_from (Reason_as_u8 r) = Ok r"
  by (cases r) (simp_all add: Reason_try_from_def Reason_table_def)

lemma Reason_try_from_OkD: "Reason_try_from v = Ok r \<Longrightarrow> Reason_as_u8 r = v"
proof -
  assume "Reason_try_from v = Ok r"
  then have "map_of Reason_table v = Some r"
    by (simp add: Reason_try_from_def split: option.splits)
  then have "(v, r) \<in> set Reason_table" by (rule map_of_SomeD)
  moreover have "list_all (\<lambda>(v, r). Reason_as_u8 r = v) Reason_table"
    by (simp add: Reason_table_def)
  ultimately show ?thesis by (auto simp: list_all_iff)
qed

definition Reason_codec_size :: "Reason \<Rightarrow> u32" where
  "Reason_codec_size r = 1"

definition Reason_encode :: "Reason \<Rightarrow> bytes codec_result" where
  "Reason_encode r = Ok (put_u8 (Reason_as_u8 r))"

definition Reason_decode :: "bytes \<Rightarrow> (Reason \<times> nat \<times> bytes) codec_result" where
  "Reason_decode src =
    bind (get_u8 src) (\<lambda>(val, src). bind (Reason_try_from val) (\<lambda>r. Ok (r, 1, src)))"

definition codec_size_vec_reason :: "Reason list \<Rightarrow> u32" where
  "codec_size_vec_reason rs = of_nat (length rs)"

definition Vec_Reason_encode :: "Reason list \<Rightarrow> bytes codec_result" where
  "Vec_Reason_encode rs = Ok (concat (map (\<lambda>r. put_u8 (Reason_as_u8 r)) rs))"

text \<open>\<open>Vec<Reason>::decode\<close> reads every remaining byte and pushes it onto the vector.\<close>

fun Vec_Reason_loop :: "nat \<Rightarrow> Reason list \<Rightarrow> bytes \<Rightarrow> (Reason list \<times> bytes) codec_result" where
  "Vec_Reason_loop 0 self src = Ok (self, src)"
| "Vec_Reason_loop (Suc n) self src =
    bind (get_u8 src) (\<lambda>(b, src). bind (Reason_try_from b) (\<lambda>r.
      Vec_Reason_loop n (self @ [r]) src))"

definition Vec_Reason_decode :: "Reason list \<Rightarrow> bytes \<Rightarrow> (Reason list \<times> nat \<times> bytes) codec_result" where
  "Vec_Reason_decode self src =
    (let len = length src in
     bind (Vec_Reason_loop len self src) (\<lambda>(self, src). Ok (self, len, src)))"

lemma Vec_Reason_loop_enc:
  "Vec_Reason_loop (length rs) self (concat (map (\<lambda>r. put_u8 (Reason_as_u8 r)) rs) @ rest) =
    Ok (self @ rs, rest)"
  by (induction rs arbitrary: self) (simp_all add: put_u8_def)

section \<open>QoS levels\<close>

datatype QoSLevel = AtMostOnce | AtLeastOnce | ExactlyOnce

primrec QoSLevel_as_u8 :: "QoSLevel \<Rightarrow> u8" where
  "QoSLevel_as_u8 AtMostOnce = 0"
| "QoSLevel_as_u8 AtLeastOnce = 1"
| "QoSLevel_as_u8 ExactlyOnce = 2"

definition QoSLevel_try_from :: "u8 \<Rightarrow> QoSLevel codec_result" where
  "QoSLevel_try_from value =
    (if value = 0x00 then Ok AtMostOnce
     else if value = 0x01 then Ok AtLeastOnce
     else if value = 0x02 then Ok ExactlyOnce
     else Err MqttCodecError_new)"

definition QoSLevel_encode :: "QoSLevel \<Rightarrow> bytes codec_result" where
  "QoSLevel_encode q = Ok (put_u8 (QoSLevel_as_u8 q))"

definition QoSLevel_decode :: "bytes \<Rightarrow> (QoSLevel \<times> nat \<times> bytes) codec_result" where
  "QoSLevel_decode src =
    bind (get_u8 src) (\<lambda>(val, src). bind (QoSLevel_try_from val) (\<lambda>q. Ok (q, 1, src)))"

definition QoSLevel_property_size :: "QoSLevel \<Rightarrow> u32" where
  "QoSLevel_property_size q = 2"

lemma QoSLevel_try_from_as_u8 [simp, codec_simps]: "QoSLevel_try_from (QoSLevel_as_u8 q) = Ok q"
  by (cases q) (simp_all add: QoSLevel_try_from_def)

text \<open>QoS levels are ordered as their discriminants, which the broker uses to downgrade.\<close>

instantiation QoSLevel :: linorder
begin

definition less_eq_QoSLevel :: "QoSLevel \<Rightarrow> QoSLevel \<Rightarrow> bool" where
  "less_eq_QoSLevel a b \<longleftrightarrow> QoSLevel_as_u8 a \<le> QoSLevel_as_u8 b"

definition less_QoSLevel :: "QoSLevel \<Rightarrow> QoSLevel \<Rightarrow> bool" where
  "less_QoSLevel a b \<longleftrightarrow> QoSLevel_as_u8 a < QoSLevel_as_u8 b"

instance
proof
  fix a b c :: QoSLevel
  show "a < b \<longleftrightarrow> a \<le> b \<and> \<not> b \<le> a"
    by (auto simp: less_eq_QoSLevel_def less_QoSLevel_def)
  show "a \<le> a" by (simp add: less_eq_QoSLevel_def)
  show "a \<le> b \<Longrightarrow> b \<le> c \<Longrightarrow> a \<le> c" by (auto simp: less_eq_QoSLevel_def)
  show "a \<le> b \<Longrightarrow> b \<le> a \<Longrightarrow> a = b"
    by (cases a; cases b) (simp_all add: less_eq_QoSLevel_def word_le_nat_alt)
  show "a \<le> b \<or> b \<le> a" by (auto simp: less_eq_QoSLevel_def)
qed

end

end
