(* ===== verification/Varint.thy ===== *)
theory Varint
  imports Codec_Basics
begin

text \<open>
  Variable byte integers (\<open>variable_byte_int_size\<close>, \<open>encode_variable_byte_int\<close>,
  \<open>decode_variable_byte_int\<close> of \<open>codec/mod.rs\<close>). The encoder follows the wire format for every
  \<open>u32\<close>; the decoder accepts at most three bytes, because its guard \<open>shift > 21\<close> is tested after
  the shift was advanced. Both directions are stated below, with the values that do not survive.
\<close>

definition MIN_VARIABLE_BYTE_INT :: u32 where
  "MIN_VARIABLE_BYTE_INT = 0"

definition MAX_VARIABLE_BYTE_INT :: u32 where
  "MAX_VARIABLE_BYTE_INT = 268435455"

definition variable_byte_int_size :: "u32 \<Rightarrow> u32" where
  "variable_byte_int_size v =
    (if v \<le> 127 then 1 else if v \<le> 16383 then 2 else if v \<le> 2097151 then 3 else 4)"

function vbi_bytes :: "u32 \<Rightarrow> bytes" where
  "vbi_bytes input_val =
    (let next_byte = ucast (input_val mod 0x80) :: u8; rest = drop_bit 7 input_val in
     if rest > 0 then (next_byte OR 0x80) # vbi_bytes rest else [next_byte])"
  by pat_completeness auto
termination
proof (relation "measure unat")
  show "wf (measure (unat :: u32 \<Rightarrow> nat))" by simp
next
  fix v :: u32 and nb :: u8 and rest :: u32
  assume "nb = ucast (v mod 0x80)" and r: "rest = drop_bit 7 v" and "0 < rest"
  then have "0 < unat v div 128" using unat_drop_bit7 [of v]
    by (metis unat_gt_0 word_greater_zero_iff)
  then have "unat v div 128 < unat v" by simp
  then show "(rest, v) \<in> measure unat" by (simp add: r unat_drop_bit7)
qed

declare vbi_bytes.simps [simp del]

definition encode_variable_byte_int :: "u32 \<Rightarrow> bytes codec_result" where
  "encode_variable_byte_int v = Ok (vbi_bytes v)"

definition encode_opt_variable_byte_int :: "u32 option \<Rightarrow> bytes codec_result" where
  "encode_opt_variable_byte_int val =
    (case val of Some v \<Rightarrow> encode_variable_byte_int v | None \<Rightarrow> Ok [])"

definition codec_size_opt_variable_byte_int :: "u32 option \<Rightarrow> u32" where
  "codec_size_opt_variable_byte_int src =
    (case src of Some v \<Rightarrow> variable_byte_int_size v | None \<Rightarrow> 0)"

text \<open>One turn of the \<open>while decode\<close> loop; \<open>next_byte\<close> has been read already.\<close>

fun vbi_loop :: "u32 \<Rightarrow> nat \<Rightarrow> u8 \<Rightarrow> bytes \<Rightarrow> (u32 \<times> nat \<times> bytes) codec_result" where
  "vbi_loop result shift next_byte src =
    (let result = result + push_bit shift (ucast (next_byte AND 0x7f)); shift = shift + 7 in
     if next_byte AND 0x80 = 0 then
       (if shift > 21 then Err MqttCodecError_new else Ok (result, shift div 7, src))
     else
       (case src of
          [] \<Rightarrow> Err (EK_InsufficientData 1 0)
        | b # src' \<Rightarrow>
            if shift > 21 then Err MqttCodecError_new else vbi_loop result shift b src'))"

definition decode_variable_byte_int :: "bytes \<Rightarrow> (u32 \<times> nat \<times> bytes) codec_result" where
  "decode_variable_byte_int src =
    (case src of
       [] \<Rightarrow> Err (EK_InsufficientData 1 0)
     | b # src' \<Rightarrow> vbi_loop 0 0 b src')"

definition decode_opt_variable_byte_int :: "bytes \<Rightarrow> (u32 option \<times> nat \<times> bytes) codec_result" where
  "decode_opt_variable_byte_int src =
    bind (decode_variable_byte_int src) (\<lambda>(v, n, src). Ok (Some v, n, src))"

declare vbi_loop.simps [simp del]

section \<open>The encoding, byte by byte\<close>

lemma drop_bit7_pos_iff: "0 < drop_bit 7 (v :: u32) \<longleftrightarrow> 128 \<le> unat v"
proof -
  have "0 < drop_bit 7 v \<longleftrightarrow> 0 < unat (drop_bit 7 v)" 
    by (simp add: unat_gt_0 word_greater_zero_iff)
  also have "\<dots> \<longleftrightarrow> 128 \<le> unat v" by (simp only: unat_drop_bit7) linarith
  finally show ?thesis .
qed

lemma vbi_bytes_last: "unat v < 128 \<Longrightarrow> vbi_bytes v = [ucast (v mod 0x80)]"
  using drop_bit7_pos_iff [of v] by (subst vbi_bytes.simps) (simp add: Let_def)

lemma vbi_bytes_more:
  "128 \<le> unat v \<Longrightarrow> vbi_bytes v = (ucast (v mod 0x80) OR 0x80) # vbi_bytes (drop_bit 7 v)"
  using drop_bit7_pos_iff [of v] by (subst vbi_bytes.simps) (simp add: Let_def)

lemma vbi_bytes_not_Nil [simp]: "vbi_bytes v \<noteq> []"
  by (subst vbi_bytes.simps) (simp add: Let_def)

lemma length_vbi_1: "unat v < 128 \<Longrightarrow> length (vbi_bytes v) = 1"
  by (simp add: vbi_bytes_last)

lemma length_vbi_2: "128 \<le> unat v \<Longrightarrow> unat v < 16384 \<Longrightarrow> length (vbi_bytes v) = 2"
  by (simp add: vbi_bytes_more length_vbi_1 unat_drop_bit7)

lemma length_vbi_3: "16384 \<le> unat v \<Longrightarrow> unat v < 2097152 \<Longrightarrow> length (vbi_bytes v) = 3"
  using length_vbi_2 [of "drop_bit 7 v"] by (simp add: vbi_bytes_more unat_drop_bit7)

lemma length_vbi_4: "2097152 \<le> unat v \<Longrightarrow> unat v < 268435456 \<Longrightarrow> length (vbi_bytes v) = 4"
  using length_vbi_3 [of "drop_bit 7 v"] by (simp add: vbi_bytes_more unat_drop_bit7)

lemma length_vbi_5: "268435456 \<le> unat v \<Longrightarrow> length (vbi_bytes v) = 5"
  using length_vbi_4 [of "drop_bit 7 v"] unsigned_less [of v, where ?'a = nat]
  by (simp add: vbi_bytes_more unat_drop_bit7)

lemma variable_byte_int_size_nat:
  "unat (variable_byte_int_size v) =
    (if unat v < 128 then 1 else if unat v < 16384 then 2 else if unat v < 2097152 then 3 else 4)"
  by (auto simp: variable_byte_int_size_def word_le_nat_alt)

lemma length_vbi_small: "unat v < 2097152 \<Longrightarrow> length (vbi_bytes v) \<le> 3"
  by (cases "unat v < 128"; cases "unat v < 16384")
    (simp_all add: length_vbi_1 length_vbi_2 length_vbi_3)

lemma length_vbi_large: "2097152 \<le> unat v \<Longrightarrow> 4 \<le> length (vbi_bytes v)"
  by (cases "unat v < 268435456") (simp_all add: length_vbi_4 length_vbi_5)

lemma length_vbi_bytes [size_simps]:
  "unat v < 268435456 \<Longrightarrow> length (vbi_bytes v) = unat (variable_byte_int_size v)"
  by (cases "unat v < 128"; cases "unat v < 16384"; cases "unat v < 2097152")
    (simp_all add: variable_byte_int_size_nat length_vbi_1 length_vbi_2 length_vbi_3 length_vbi_4)

section \<open>Decoding what was encoded\<close>

lemma low7_of_last: "unat v < 128 \<Longrightarrow> ucast ((ucast (v mod 0x80) :: u8) AND 0x7f) = (v :: u32)"
  by (simp add: word_unat_eq_iff byte_simps)

lemma low7_of_more: "ucast ((ucast (v mod 0x80) OR 0x80 :: u8) AND 0x7f) = (v mod 0x80 :: u32)"
  by (simp add: word_unat_eq_iff byte_simps unat_mod)

lemma push_bit_split_7:
  "push_bit n (v mod 0x80) + push_bit (n + 7) (drop_bit 7 v) = push_bit n (v :: u32)"
proof -
  have "push_bit n (v mod 0x80) + push_bit (n + 7) (drop_bit 7 v) = (v div 128 * 128 + v mod 128) * 2 ^ n"
    by (simp add: push_bit_eq_mult drop_bit_eq_div power_add algebra_simps)
  also have "\<dots> = push_bit n v"
    by (simp only: div_mult_mod_eq) (simp add: push_bit_eq_mult)
  finally show ?thesis .
qed

lemma vbi_loop_last:
  "unat b < 128 \<Longrightarrow> vbi_loop r n b src =
    (if n > 14 then Err MqttCodecError_new
     else Ok (r + push_bit n (ucast (b AND 0x7f)), (n + 7) div 7, src))"
  by (subst vbi_loop.simps) (simp add: Let_def and_bit7_eq_0_iff)

lemma vbi_loop_more:
  "128 \<le> unat b \<Longrightarrow> vbi_loop r n b (c # src) =
    (if n > 14 then Err MqttCodecError_new
     else vbi_loop (r + push_bit n (ucast (b AND 0x7f))) (n + 7) c src)"
  by (subst vbi_loop.simps) (simp add: Let_def and_bit7_eq_0_iff)

lemma unat_more_byte: "128 \<le> unat (ucast (v mod 0x80 :: u32) OR 0x80 :: u8)"
  using unat_or_bit7 [of "ucast (v mod 0x80)"] by (simp add: unat_low7_cast)

lemma vbi_loop_enc:
  "vbi_loop r (7 * k) (hd (vbi_bytes v)) (tl (vbi_bytes v) @ rest) =
    (if k + length (vbi_bytes v) \<le> 3 then Ok (r + push_bit (7 * k) v, k + length (vbi_bytes v), rest)
     else Err MqttCodecError_new)"
proof (induction "unat v" arbitrary: v r k rule: less_induct)
  case less
  show ?case
  proof (cases "unat v < 128")
    case True
    then show ?thesis
      by (simp add: vbi_bytes_last vbi_loop_last unat_low7_cast low7_of_last)
  next
    case False
    define w where "w = drop_bit 7 v"
    have lt: "unat w < unat v" using False by (simp add: w_def unat_drop_bit7)
    have hd_tl: "tl (vbi_bytes v) @ rest = hd (vbi_bytes w) # (tl (vbi_bytes w) @ rest)"
      using False by (simp add: vbi_bytes_more w_def flip: append_Cons)
    have *: "vbi_loop r (7 * k) (hd (vbi_bytes v)) (tl (vbi_bytes v) @ rest) =
        (if 7 * k > 14 then Err MqttCodecError_new
         else vbi_loop (r + push_bit (7 * k) (v mod 0x80)) (7 * Suc k) (hd (vbi_bytes w))
           (tl (vbi_bytes w) @ rest))"
      unfolding hd_tl using False unat_more_byte [of v]
      by (simp add: vbi_bytes_more vbi_loop_more low7_of_more add.commute)
    have len: "length (vbi_bytes v) = Suc (length (vbi_bytes w))"
      using False by (simp add: vbi_bytes_more w_def)
    have "vbi_bytes w \<noteq> []" by simp
    then have pos: "0 < length (vbi_bytes w)" by blast
    have sum: "r + push_bit (7 * k) (v mod 0x80) + push_bit (7 * Suc k) w = r + push_bit (7 * k) v"
      using push_bit_split_7 [of "7 * k" v] by (simp add: w_def add.assoc add.commute [of 7])
    show ?thesis
      unfolding * less [OF lt] sum len using pos by auto
  qed
qed

lemma decode_variable_byte_int_enc:
  "decode_variable_byte_int (vbi_bytes v @ rest) =
    (if unat v < 2097152 then Ok (v, length (vbi_bytes v), rest) else Err MqttCodecError_new)"
proof -
  have eq: "vbi_bytes v @ rest = hd (vbi_bytes v) # (tl (vbi_bytes v) @ rest)"
    by (simp flip: append_Cons)
  have "decode_variable_byte_int (vbi_bytes v @ rest) =
      vbi_loop 0 (7 * 0) (hd (vbi_bytes v)) (tl (vbi_bytes v) @ rest)"
    unfolding eq by (simp add: decode_variable_byte_int_def)
  then show ?thesis
    unfolding vbi_loop_enc using length_vbi_small [of v] length_vbi_large [of v]
    by (cases "unat v < 2097152") auto
qed

lemma decode_variable_byte_int_ok [codec_simps]:
  "unat v < 2097152 \<Longrightarrow>
    decode_variable_byte_int (vbi_bytes v @ rest) = Ok (v, length (vbi_bytes v), rest)"
  by (simp add: decode_variable_byte_int_enc)

section \<open>What a successful decode returns\<close>

lemma vbi_acc_bound:
  assumes "k \<le> 2" and "unat r < 128 ^ k"
  shows "unat (r + push_bit (7 * k) (ucast (b AND 0x7f :: u8)) :: u32) < 128 ^ Suc k"
proof -
  define d where "d = unat (b AND 0x7f)"
  have d: "d \<le> 127" unfolding d_def by (simp add: unat_and_low7)
  have k3: "(128 :: nat) ^ Suc k \<le> 128 ^ 3" using assms(1) by (intro power_increasing) auto
  have "d * 128 ^ k \<le> 127 * 128 ^ k" using d by (rule mult_le_mono1)
  then have b: "unat r + d * 128 ^ k < 128 ^ Suc k" using assms(2) by (simp only: power_Suc)
  have p: "unat (push_bit (7 * k) (ucast (b AND 0x7f)) :: u32) = d * 128 ^ k"
    using b k3 by (simp add: unat_push_bit_u32 unat_ucast_u8_u32 d_def power_mult)
  show ?thesis
    using b k3 by (simp add: unat_word_ariths p)
qed

lemma vbi_loop_OkD:
  assumes "vbi_loop r (7 * k) b src = Ok (v, n, rest)" and "unat r < 128 ^ k"
  shows "n \<le> 3 \<and> k < n \<and> length src + 1 + k = length rest + n \<and> unat v < 128 ^ n"
  using assms
proof (induction src arbitrary: r k b)
  case (Nil r k b)
  then have "unat b < 128"
    by (subst (asm) vbi_loop.simps) (auto simp: Let_def and_bit7_eq_0_iff split: if_splits)
  with Nil vbi_acc_bound [of k r b] show ?case
    by (auto simp: vbi_loop_last split: if_splits)
next
  case (Cons c src r k b)
  show ?case
  proof (cases "unat b < 128")
    case True
    with Cons vbi_acc_bound [of k r b] show ?thesis
      by (auto simp: vbi_loop_last split: if_splits)
  next
    case False
    with Cons.prems have k: "k \<le> 2"
      and l: "vbi_loop (r + push_bit (7 * k) (ucast (b AND 0x7f))) (7 * Suc k) c src = Ok (v, n, rest)"
      by (auto simp: vbi_loop_more add.commute split: if_splits)
    from Cons.IH [OF l] vbi_acc_bound [OF k Cons.prems(2)] show ?thesis by auto
  qed
qed

lemma decode_variable_byte_int_OkD:
  assumes "decode_variable_byte_int src = Ok (v, n, rest)"
  shows "1 \<le> n \<and> n \<le> 3 \<and> length src = length rest + n \<and> unat v < 2097152"
proof -
  from assms obtain b src' where src: "src = b # src'" and l: "vbi_loop 0 (7 * 0) b src' = Ok (v, n, rest)"
    by (auto simp: decode_variable_byte_int_def split: list.splits)
  from vbi_loop_OkD [OF l] have n: "n \<le> 3" "0 < n" "length src' + 1 = length rest + n"
    and v: "unat v < 128 ^ n" by auto
  have "(128 :: nat) ^ n \<le> 128 ^ 3" using n by (intro power_increasing) auto
  with n v src show ?thesis by auto
qed

lemma decode_variable_byte_int_no_panic: "decode_variable_byte_int src \<noteq> Panic"
proof -
  have "vbi_loop r k b src \<noteq> Panic" for r k b src
    by (induction r k b src rule: vbi_loop.induct)
      (subst vbi_loop.simps, auto simp: Let_def split: list.splits)
  then show ?thesis by (simp add: decode_variable_byte_int_def split: list.splits)
qed

end
