(* ===== verification/Codec_Strings.thy ===== *)
theory Codec_Strings
  imports Varint
begin

text \<open>
  Strings, binary data and the scalar \<open>Decode\<close> instances of \<open>codec/mod.rs\<close>, and the interface
  \<open>item_codec\<close>: what a codec of one item must promise so that the \<open>while src.has_remaining()\<close>
  loops over a vector of items read back what was written.
\<close>

section \<open>Strings\<close>

definition encode_string :: "string \<Rightarrow> bytes codec_result" where
  "encode_string src =
    (if length src > 65535 then Err MqttCodecError_new
     else Ok (put_u16 (of_nat (length src)) @ as_bytes src))"

definition String_codec_size :: "string \<Rightarrow> u32" where
  "String_codec_size s = 2 + of_nat (length s)"

definition String_decode :: "bytes \<Rightarrow> (string \<times> nat \<times> bytes) codec_result" where
  "String_decode src =
    (if length src < 2 then Err MqttCodecError_new
     else bind (get_u16 src) (\<lambda>(len, src).
       case try_take (unat len) src of
         None \<Rightarrow> Err (EK_InsufficientData (unat len) (length src))
       | Some (dest_vec, src) \<Rightarrow>
           (case from_utf8 dest_vec of
              None \<Rightarrow> Err MqttCodecError_new
            | Some s \<Rightarrow> Ok (s, unat len + 2, src))))"

definition decode_string :: "bytes \<Rightarrow> (string \<times> nat \<times> bytes) codec_result" where
  "decode_string src = String_decode src"

text \<open>What a Rust \<open>String\<close> needs to survive \<open>encode_string\<close> and decoding.\<close>

definition wf_string :: "string \<Rightarrow> bool" where
  "wf_string s \<longleftrightarrow> rust_str s \<and> length s \<le> 65535"

definition string_bytes :: "string \<Rightarrow> bytes" where
  "string_bytes s = put_u16 (of_nat (length s)) @ as_bytes s"

lemma encode_string_ok [simp]: "length s \<le> 65535 \<Longrightarrow> encode_string s = Ok (string_bytes s)"
  by (simp add: encode_string_def string_bytes_def)

lemma encode_string_OkD: "encode_string s = Ok bs \<Longrightarrow> length s \<le> 65535 \<and> bs = string_bytes s"
  by (auto simp: encode_string_def string_bytes_def split: if_splits)

lemma length_string_bytes [simp, size_simps]: "length (string_bytes s) = length s + 2"
  by (simp add: string_bytes_def)

lemma String_decode_enc [codec_simps]:
  assumes "wf_string s"
  shows "String_decode (string_bytes s @ rest) = Ok (s, length s + 2, rest)"
  using assms
  by (simp add: wf_string_def String_decode_def string_bytes_def codec_simps byte_simps)

lemma String_decode_OkD:
  assumes "String_decode src = Ok (s, n, rest)"
  shows "src = string_bytes s @ rest \<and> n = length s + 2 \<and> wf_string s"
proof -
  from assms obtain len src' where g: "get_u16 src = (Ok (len, src') :: (ErrorKind, _) res)"
    by (auto simp: String_decode_def split: if_splits)
  with assms obtain bs where t: "try_take (unat len) src' = Some (bs, rest)"
    and u: "from_utf8 bs = Some s" and n: "n = unat len + 2"
    by (auto simp: String_decode_def split: if_splits option.splits)
  from try_take_SomeD [OF t] have src': "src' = bs @ rest" and l: "length bs = unat len" by auto
  from from_utf8_SomeD [OF u] have bs: "bs = as_bytes s" and r: "rust_str s" by auto
  from g obtain a b where src: "src = a # b # src'" and len: "len = word_cat a b"
    by (cases src rule: get_u16.cases) auto
  have ls: "length s = unat len" using l bs by simp
  have "put_u16 len = [a, b]"
    unfolding len put_u16_def
    by (auto intro!: bit_word_eqI simp: bit_word_cat_iff bit_ucast_iff bit_drop_bit_eq)
  then have "src = string_bytes s @ rest"
    by (simp add: string_bytes_def src src' bs ls)
  then show ?thesis using n r ls unat_u16_less [of len] by (simp add: wf_string_def)
qed

lemma String_decode_length: "String_decode src = Ok (s, n, rest) \<Longrightarrow> length rest + 2 \<le> length src"
  using String_decode_OkD by fastforce

lemma String_decode_no_panic: "String_decode src \<noteq> Panic"
  by (cases src rule: get_u16.cases) (auto simp: String_decode_def split: option.splits)

section \<open>Binary data\<close>

definition encode_array_field :: "bytes \<Rightarrow> bytes codec_result" where
  "encode_array_field src =
    (if length src > 65535 then Err MqttCodecError_new
     else Ok (put_u16 (of_nat (length src)) @ src))"

definition Vec_u8_decode :: "bytes \<Rightarrow> (bytes \<times> nat \<times> bytes) codec_result" where
  "Vec_u8_decode src =
    (if length src < 2 then Err MqttCodecError_new
     else bind (get_u16 src) (\<lambda>(len, src).
       case try_take (unat len) src of
         None \<Rightarrow> Err (EK_InsufficientData (unat len) (length src))
       | Some (data, src) \<Rightarrow> Ok (data, unat len + 2, src)))"

definition decode_array_field :: "bytes \<Rightarrow> (bytes \<times> nat \<times> bytes) codec_result" where
  "decode_array_field src = Vec_u8_decode src"

definition array_bytes :: "bytes \<Rightarrow> bytes" where
  "array_bytes d = put_u16 (of_nat (length d)) @ d"

lemma encode_array_field_ok [simp]: "length d \<le> 65535 \<Longrightarrow> encode_array_field d = Ok (array_bytes d)"
  by (simp add: encode_array_field_def array_bytes_def)

lemma encode_array_field_OkD: "encode_array_field d = Ok bs \<Longrightarrow> length d \<le> 65535 \<and> bs = array_bytes d"
  by (auto simp: encode_array_field_def array_bytes_def split: if_splits)

lemma length_array_bytes [simp, size_simps]: "length (array_bytes d) = length d + 2"
  by (simp add: array_bytes_def)

lemma Vec_u8_decode_enc [codec_simps]:
  "length d \<le> 65535 \<Longrightarrow> Vec_u8_decode (array_bytes d @ rest) = Ok (d, length d + 2, rest)"
  by (simp add: Vec_u8_decode_def array_bytes_def codec_simps byte_simps)

lemma Vec_u8_decode_length: "Vec_u8_decode src = Ok (d, n, rest) \<Longrightarrow> length src = length rest + n"
  by (cases src rule: get_u16.cases)
    (auto simp: Vec_u8_decode_def try_take_def split: if_splits option.splits)

lemma Vec_u8_decode_no_panic: "Vec_u8_decode src \<noteq> Panic"
  by (cases src rule: get_u16.cases) (auto simp: Vec_u8_decode_def split: option.splits)

section \<open>Scalars and raw payloads\<close>

definition bool_decode :: "bytes \<Rightarrow> (bool \<times> nat \<times> bytes) codec_result" where
  "bool_decode src =
    bind (get_u8 src) (\<lambda>(v, src).
      if v = 0 then Ok (False, 1, src)
      else if v = 1 then Ok (True, 1, src)
      else Err MqttCodecError_new)"

definition u8_decode :: "bytes \<Rightarrow> (u8 \<times> nat \<times> bytes) codec_result" where
  "u8_decode src = bind (get_u8 src) (\<lambda>(v, src). Ok (v, 1, src))"

definition u16_decode :: "bytes \<Rightarrow> (u16 \<times> nat \<times> bytes) codec_result" where
  "u16_decode src = bind (get_u16 src) (\<lambda>(v, src). Ok (v, 2, src))"

definition u32_decode :: "bytes \<Rightarrow> (u32 \<times> nat \<times> bytes) codec_result" where
  "u32_decode src = bind (get_u32 src) (\<lambda>(v, src). Ok (v, 4, src))"

lemma scalar_decode_enc [codec_simps]:
  "u8_decode (put_u8 a @ rest) = Ok (a, 1, rest)"
  "u16_decode (put_u16 b @ rest) = Ok (b, 2, rest)"
  "u32_decode (put_u32 c @ rest) = Ok (c, 4, rest)"
  by (simp_all add: u8_decode_def u16_decode_def u32_decode_def codec_simps)

definition codec_size_vec_u8_raw :: "bytes \<Rightarrow> u32" where
  "codec_size_vec_u8_raw src = of_nat (length src)"

definition encode_vec_u8_raw :: "bytes \<Rightarrow> bytes codec_result" where
  "encode_vec_u8_raw src = Ok src"

definition decode_vec_u8_raw :: "bytes \<Rightarrow> (bytes option \<times> nat \<times> bytes) codec_result" where
  "decode_vec_u8_raw src =
    (let len = length src in
     case try_take len src of
       None \<Rightarrow> Err (EK_InsufficientData len (length src))
     | Some (dest, src) \<Rightarrow> Ok (Some dest, len, src))"

definition decode_opt_vec_u8_raw :: "bytes \<Rightarrow> (bytes option \<times> nat \<times> bytes) codec_result" where
  "decode_opt_vec_u8_raw src = (let len = length src in Ok (Some (take len src), len, drop len src))"

definition codec_size_opt_vec_u8_raw :: "bytes option \<Rightarrow> u32" where
  "codec_size_opt_vec_u8_raw src = (case src of Some bs \<Rightarrow> of_nat (length bs) | None \<Rightarrow> 0)"

definition encode_opt_vec_u8_raw_ref :: "bytes option \<Rightarrow> bytes codec_result" where
  "encode_opt_vec_u8_raw_ref src = (case src of Some bs \<Rightarrow> Ok bs | None \<Rightarrow> Ok [])"

lemma raw_decoders_agree: "decode_vec_u8_raw src = decode_opt_vec_u8_raw src"
  by (simp add: decode_vec_u8_raw_def decode_opt_vec_u8_raw_def try_take_def)

section \<open>Vectors of items\<close>

text \<open>
  The derived \<open>Decode\<close> reads a vector field with \<open>while src.has_remaining()\<close>, decoding one item at a
  time. An item codec fits the loop when decoding undoes encoding and every item takes up bytes.
\<close>

locale item_codec =
  fixes enc :: "'a \<Rightarrow> bytes"
    and wf :: "'a \<Rightarrow> bool"
    and dec :: "bytes \<Rightarrow> ('a \<times> nat \<times> bytes) codec_result"
    and dec_all :: "bytes \<Rightarrow> ('a list \<times> nat \<times> bytes) codec_result"
  assumes dec_enc: "wf x \<Longrightarrow> dec (enc x @ rest) = Ok (x, length (enc x), rest)"
    and enc_pos: "enc x \<noteq> []"
    and dec_all_Nil: "dec_all [] = Ok ([], 0, [])"
    and dec_all_step: "src \<noteq> [] \<Longrightarrow> dec_all src =
      bind (dec src) (\<lambda>(x, n, src). bind (dec_all src) (\<lambda>(xs, m, src). Ok (x # xs, n + m, src)))"
begin

lemma dec_all_enc:
  "\<forall>x \<in> set xs. wf x \<Longrightarrow>
    dec_all (concat (map enc xs)) = Ok (xs, length (concat (map enc xs)), [])"
proof (induction xs)
  case Nil
  then show ?case by (simp add: dec_all_Nil)
next
  case (Cons x xs)
  then have "wf x" by simp
  then show ?case using Cons
    by (simp add: dec_all_step enc_pos dec_enc)
qed

end

function decode_strings :: "bytes \<Rightarrow> (string list \<times> nat \<times> bytes) codec_result" where
  "decode_strings src =
    (if src = [] then Ok ([], 0, [])
     else bind (String_decode src) (\<lambda>(item, n, src).
       bind (decode_strings src) (\<lambda>(items, m, src). Ok (item # items, n + m, src))))"
  by pat_completeness auto
termination
  by (relation "measure length") (auto dest: String_decode_length)

declare decode_strings.simps [simp del]

function decode_reasons :: "bytes \<Rightarrow> (Reason list \<times> nat \<times> bytes) codec_result" where
  "decode_reasons src =
    (if src = [] then Ok ([], 0, [])
     else bind (Reason_decode src) (\<lambda>(item, n, src).
       bind (decode_reasons src) (\<lambda>(items, m, src). Ok (item # items, n + m, src))))"
  by pat_completeness auto
termination
  by (relation "measure length") (auto simp: Reason_decode_def dest: get_u8_length)

declare decode_reasons.simps [simp del]

interpretation strings: item_codec string_bytes wf_string String_decode decode_strings
proof
  show "wf_string x \<Longrightarrow> String_decode (string_bytes x @ rest) = Ok (x, length (string_bytes x), rest)"
    for x rest by (simp add: String_decode_enc)
  show "string_bytes x \<noteq> []" for x by (simp add: string_bytes_def put_u16_def)
  show "decode_strings [] = Ok ([], 0, [])" by (simp add: decode_strings.simps)
  show "src \<noteq> [] \<Longrightarrow> decode_strings src = bind (String_decode src) (\<lambda>(x, n, src).
      bind (decode_strings src) (\<lambda>(xs, m, src). Ok (x # xs, n + m, src)))" for src
    by (subst decode_strings.simps) simp
qed

interpretation reasons: item_codec "\<lambda>r. put_u8 (Reason_as_u8 r)" "\<lambda>_. True" Reason_decode decode_reasons
proof
  show "Reason_decode (put_u8 (Reason_as_u8 x) @ rest) = Ok (x, length (put_u8 (Reason_as_u8 x)), rest)"
    for x rest by (simp add: Reason_decode_def codec_simps)
  show "put_u8 (Reason_as_u8 x) \<noteq> []" for x by (simp add: put_u8_def)
  show "decode_reasons [] = Ok ([], 0, [])" by (simp add: decode_reasons.simps)
  show "src \<noteq> [] \<Longrightarrow> decode_reasons src = bind (Reason_decode src) (\<lambda>(x, n, src).
      bind (decode_reasons src) (\<lambda>(xs, m, src). Ok (x # xs, n + m, src)))" for src
    by (subst decode_reasons.simps) simp
qed

text \<open>\<open>Encode\<close> and \<open>Decode\<close> for \<open>Vec<String>\<close>.\<close>

definition Vec_String_encode :: "string list \<Rightarrow> bytes codec_result" where
  "Vec_String_encode self = seq_enc (map encode_string self)"

definition Vec_String_decode :: "string list \<Rightarrow> bytes \<Rightarrow> (string list \<times> nat \<times> bytes) codec_result" where
  "Vec_String_decode self src = bind (decode_strings src) (\<lambda>(xs, n, src). Ok (self @ xs, n, src))"

lemma seq_enc_strings:
  "\<forall>s \<in> set xs. length s \<le> 65535 \<Longrightarrow> seq_enc (map encode_string xs) = Ok (concat (map string_bytes xs))"
  by (induction xs) auto

end
