(* ===== verification/Fixed_Header.thy ===== *)
theory Fixed_Header
  imports Codec_Strings
begin

text \<open>
  The fixed header (\<open>vaux-mqtt/src/codec/fixed.rs\<close>): the packet type and the flag nibble with its
  QoS, DUP and RETAIN fields. \<open>qos()\<close> unwraps the two QoS bits, so it panics on the reserved
  pattern \<open>11\<close>; \<open>decode\<close> checks the flags of every packet type except \<open>Publish\<close>.
\<close>

definition QOS_MASK :: u8 where "QOS_MASK = 0b00000110"
definition RETAIN_MASK :: u8 where "RETAIN_MASK = 0b00000001"
definition DUP_MASK :: u8 where "DUP_MASK = 0b00001000"
definition PACKET_RESERVED_NONE :: u8 where "PACKET_RESERVED_NONE = 0x00"
definition PACKET_RESERVED_BIT1 :: u8 where "PACKET_RESERVED_BIT1 = 0x02"

lemmas header_masks = QOS_MASK_def RETAIN_MASK_def DUP_MASK_def PACKET_RESERVED_NONE_def
  PACKET_RESERVED_BIT1_def

record FixedHeader =
  fh_packet_type :: PacketType
  fh_flags :: u8

definition FixedHeader_new :: "PacketType \<Rightarrow> FixedHeader" where
  "FixedHeader_new pt =
    (if pt \<in> {PT_PubRel, PT_Subscribe, PT_Unsubscribe}
     then \<lparr>fh_packet_type = pt, fh_flags = PACKET_RESERVED_BIT1\<rparr>
     else \<lparr>fh_packet_type = pt, fh_flags = PACKET_RESERVED_NONE\<rparr>)"

text \<open>\<open>derive(Default)\<close>: the default packet type is \<open>Connect\<close>.\<close>

definition FixedHeader_default :: FixedHeader where
  "FixedHeader_default = \<lparr>fh_packet_type = PT_Connect, fh_flags = 0\<rparr>"

definition FixedHeader_dup :: "FixedHeader \<Rightarrow> bool" where
  "FixedHeader_dup h \<longleftrightarrow> fh_flags h AND DUP_MASK \<noteq> 0"

definition FixedHeader_set_dup :: "FixedHeader \<Rightarrow> bool \<Rightarrow> FixedHeader" where
  "FixedHeader_set_dup h dup =
    h\<lparr>fh_flags := (fh_flags h AND NOT DUP_MASK) OR push_bit 3 (of_bool dup)\<rparr>"

definition FixedHeader_retain :: "FixedHeader \<Rightarrow> bool" where
  "FixedHeader_retain h \<longleftrightarrow> fh_flags h AND RETAIN_MASK \<noteq> 0"

definition FixedHeader_set_retain :: "FixedHeader \<Rightarrow> bool \<Rightarrow> FixedHeader" where
  "FixedHeader_set_retain h retain =
    h\<lparr>fh_flags := (fh_flags h AND NOT RETAIN_MASK) OR of_bool retain\<rparr>"

definition FixedHeader_qos :: "FixedHeader \<Rightarrow> ('e, QoSLevel) res" where
  "FixedHeader_qos h = unwrap (QoSLevel_try_from (drop_bit 1 (fh_flags h AND QOS_MASK)))"

definition FixedHeader_set_qos :: "FixedHeader \<Rightarrow> QoSLevel \<Rightarrow> FixedHeader" where
  "FixedHeader_set_qos h qos =
    h\<lparr>fh_flags := (fh_flags h AND NOT QOS_MASK) OR push_bit 1 (QoSLevel_as_u8 qos)\<rparr>"

definition FixedHeader_set_flags :: "FixedHeader \<Rightarrow> u8 \<Rightarrow> FixedHeader codec_result" where
  "FixedHeader_set_flags h flags =
    (if flags AND QOS_MASK = QOS_MASK then Err EK_UnsupportedQosLevel
     else Ok (h\<lparr>fh_flags := flags\<rparr>))"

definition FixedHeader_clear_flags :: "FixedHeader \<Rightarrow> FixedHeader" where
  "FixedHeader_clear_flags h = h\<lparr>fh_flags := 0\<rparr>"

definition FixedHeader_encode :: "FixedHeader \<Rightarrow> bytes codec_result" where
  "FixedHeader_encode h = Ok (put_u8 (PacketType_as_u8 (fh_packet_type h) OR (fh_flags h AND 0x0f)))"

definition FixedHeader_decode :: "bytes \<Rightarrow> (FixedHeader \<times> nat \<times> bytes) codec_result" where
  "FixedHeader_decode src =
    (if length src < 2 then Err (EK_InsufficientData 2 (length src))
     else bind (get_u8 src) (\<lambda>(first_byte, src).
       let flags = first_byte AND 0x0f; pt = PacketType_from_u8 (first_byte AND 0xF0) in
       if pt \<in> {PT_PubRel, PT_Subscribe, PT_Unsubscribe} \<and> flags \<noteq> PACKET_RESERVED_BIT1
       then Err MqttCodecError_new
       else if pt \<in> {PT_Connect, PT_PubAck, PT_ConnAck, PT_PubRec, PT_PubComp, PT_SubAck, PT_UnsubAck,
                     PT_PingReq, PT_PingResp, PT_Disconnect, PT_Auth} \<and> flags \<noteq> PACKET_RESERVED_NONE
       then Err MqttCodecError_new
       else Ok (\<lparr>fh_packet_type = pt, fh_flags = flags\<rparr>, 1, src)))"

section \<open>Fields of a flag byte\<close>

text \<open>Writing a field \<open>x\<close> under mask \<open>m\<close> and reading it, or reading another field, back.\<close>

lemma mask_write_same:
  "x AND NOT m = 0 \<Longrightarrow> (f AND NOT m OR x) AND m = (x :: 'a :: len word)"
  by (auto simp: bit_eq_iff bit_simps)

lemma mask_write_other:
  "x AND m' = 0 \<Longrightarrow> m AND m' = 0 \<Longrightarrow> (f AND NOT m OR x) AND m' = (f AND m' :: 'a :: len word)"
  by (auto simp: bit_eq_iff bit_simps)

lemma mask_write_within:
  "f AND NOT k = 0 \<Longrightarrow> x AND NOT k = 0 \<Longrightarrow> (f AND NOT m OR x) AND NOT k = (0 :: 'a :: len word)"
  by (auto simp: bit_eq_iff bit_simps)

lemma mask_or_high:
  "a AND m = 0 \<Longrightarrow> (a OR (f AND m)) AND m = (f AND m :: 'a :: len word)"
  by (auto simp: bit_eq_iff bit_simps)

lemma mask_or_low:
  "m AND m' = 0 \<Longrightarrow> a AND m' = a \<Longrightarrow> (a OR (f AND m)) AND m' = (a :: 'a :: len word)"
  by (auto simp: bit_eq_iff bit_simps)

lemma two_bits_range: "x AND 3 = 0 \<or> x AND 3 = 1 \<or> x AND 3 = 2 \<or> x AND 3 = (3 :: u8)"
proof -
  have "unat (x AND 3) < 4"
    by (rule le_less_trans [OF word_and_le1 [THEN word_le_nat_alt [THEN iffD1]]]) simp
  then have "unat (x AND 3) = 0 \<or> unat (x AND 3) = 1 \<or> unat (x AND 3) = 2 \<or> unat (x AND 3) = 3"
    by linarith
  then show ?thesis by (simp add: word_unat_eq_iff)
qed

lemma and_push_bit: "f AND push_bit n m = push_bit n (drop_bit n f AND m :: 'a :: len word)"
  by (auto simp: bit_eq_iff bit_simps)

section \<open>The accessors\<close>

lemma qos_field_cases:
  "(f AND QOS_MASK = 0 \<and> drop_bit 1 (f AND QOS_MASK) = 0) \<or>
   (f AND QOS_MASK = 2 \<and> drop_bit 1 (f AND QOS_MASK) = 1) \<or>
   (f AND QOS_MASK = 4 \<and> drop_bit 1 (f AND QOS_MASK) = 2) \<or>
   (f AND QOS_MASK = QOS_MASK \<and> drop_bit 1 (f AND QOS_MASK) = 3)"
proof -
  have "(6 :: u8) = push_bit 1 3" by simp
  then have e: "f AND QOS_MASK = push_bit 1 (drop_bit 1 f AND 3)"
    by (simp only: QOS_MASK_def and_push_bit)
  show ?thesis
    unfolding e using two_bits_range [of "drop_bit 1 f"] by (elim disjE) (simp_all add: QOS_MASK_def)
qed

lemma FixedHeader_qos_panic_iff:
  "FixedHeader_qos h = Panic \<longleftrightarrow> fh_flags h AND QOS_MASK = QOS_MASK"
  using qos_field_cases [of "fh_flags h"]
  by (elim disjE conjE)
    (simp_all only: FixedHeader_qos_def QoSLevel_try_from_def, simp_all add: QOS_MASK_def)

lemma FixedHeader_qos_no_err [simp]: "FixedHeader_qos h \<noteq> Err e"
  by (cases "QoSLevel_try_from (drop_bit 1 (fh_flags h AND QOS_MASK))")
    (simp_all add: FixedHeader_qos_def)

lemma qos_field:
  "push_bit 1 (QoSLevel_as_u8 q) AND NOT QOS_MASK = 0"
  "push_bit 1 (QoSLevel_as_u8 q) AND DUP_MASK = 0" "push_bit 1 (QoSLevel_as_u8 q) AND RETAIN_MASK = 0"
  "drop_bit 1 (push_bit 1 (QoSLevel_as_u8 q)) = QoSLevel_as_u8 q"
  by (cases q; simp add: header_masks)+

lemma dup_field:
  "push_bit 3 (of_bool d :: u8) AND NOT DUP_MASK = 0" "(push_bit 3 (of_bool d :: u8) = 0) = (\<not> d)"
  "push_bit 3 (of_bool d :: u8) AND QOS_MASK = 0" "push_bit 3 (of_bool d :: u8) AND RETAIN_MASK = 0"
  by (cases d; simp add: header_masks)+

lemma retain_field:
  "(of_bool r :: u8) AND NOT RETAIN_MASK = 0" "((of_bool r :: u8) = 0) = (\<not> r)"
  "(of_bool r :: u8) AND QOS_MASK = 0" "(of_bool r :: u8) AND DUP_MASK = 0"
  by (cases r; simp add: header_masks)+

lemma masks_disjoint:
  "QOS_MASK AND DUP_MASK = 0" "QOS_MASK AND RETAIN_MASK = 0" "DUP_MASK AND QOS_MASK = 0"
  "DUP_MASK AND RETAIN_MASK = 0" "RETAIN_MASK AND QOS_MASK = 0" "RETAIN_MASK AND DUP_MASK = 0"
  by (simp_all add: header_masks)

lemma fh_upd: "fh_flags (h\<lparr>fh_flags := x\<rparr>) = x" "fh_packet_type (h\<lparr>fh_flags := x\<rparr>) = fh_packet_type h"
  by simp_all

lemmas header_fields = qos_field dup_field retain_field masks_disjoint mask_write_same mask_write_other

lemma FixedHeader_qos_set_qos [simp]: "FixedHeader_qos (FixedHeader_set_qos h q) = Ok q"
  by (simp only: FixedHeader_qos_def FixedHeader_set_qos_def fh_upd header_fields
      QoSLevel_try_from_as_u8 unwrap.simps)

lemma FixedHeader_dup_set_dup [simp]: "FixedHeader_dup (FixedHeader_set_dup h d) = d"
  by (simp only: FixedHeader_dup_def FixedHeader_set_dup_def fh_upd header_fields not_not)

lemma FixedHeader_retain_set_retain [simp]: "FixedHeader_retain (FixedHeader_set_retain h r) = r"
  by (simp only: FixedHeader_retain_def FixedHeader_set_retain_def fh_upd header_fields not_not)

lemma FixedHeader_set_qos_frame [simp]:
  "FixedHeader_dup (FixedHeader_set_qos h q) = FixedHeader_dup h"
  "FixedHeader_retain (FixedHeader_set_qos h q) = FixedHeader_retain h"
  "fh_packet_type (FixedHeader_set_qos h q) = fh_packet_type h"
  by (simp_all only: FixedHeader_dup_def FixedHeader_retain_def FixedHeader_set_qos_def
      fh_upd header_fields)

lemma FixedHeader_set_dup_frame [simp]:
  "FixedHeader_qos (FixedHeader_set_dup h d) = FixedHeader_qos h"
  "FixedHeader_retain (FixedHeader_set_dup h d) = FixedHeader_retain h"
  "fh_packet_type (FixedHeader_set_dup h d) = fh_packet_type h"
  by (simp_all only: FixedHeader_qos_def FixedHeader_retain_def FixedHeader_set_dup_def
      fh_upd header_fields)

lemma FixedHeader_set_retain_frame [simp]:
  "FixedHeader_qos (FixedHeader_set_retain h r) = FixedHeader_qos h"
  "FixedHeader_dup (FixedHeader_set_retain h r) = FixedHeader_dup h"
  "fh_packet_type (FixedHeader_set_retain h r) = fh_packet_type h"
  by (simp_all only: FixedHeader_qos_def FixedHeader_dup_def FixedHeader_set_retain_def
      fh_upd header_fields)

section \<open>Encoding and decoding\<close>

text \<open>The flags a well-formed header of each type carries.\<close>

definition wf_header :: "FixedHeader \<Rightarrow> bool" where
  "wf_header h \<longleftrightarrow>
    (if fh_packet_type h = PT_Publish then fh_flags h AND NOT 0x0f = 0
     else fh_flags h = fh_flags (FixedHeader_new (fh_packet_type h)))"

definition header_byte :: "FixedHeader \<Rightarrow> u8" where
  "header_byte h = PacketType_as_u8 (fh_packet_type h) OR (fh_flags h AND 0x0f)"

lemma FixedHeader_encode_eq: "FixedHeader_encode h = Ok [header_byte h]"
  by (simp add: FixedHeader_encode_def header_byte_def put_u8_def)

lemma PacketType_as_u8_masks:
  "PacketType_as_u8 t AND 0x0f = 0" "PacketType_as_u8 t AND 0xf0 = PacketType_as_u8 t"
  by (cases t; simp)+

lemma header_byte_masks:
  "header_byte h AND 0x0f = fh_flags h AND 0x0f"
  "header_byte h AND 0xf0 = PacketType_as_u8 (fh_packet_type h)"
  by (simp_all add: header_byte_def mask_or_high mask_or_low PacketType_as_u8_masks)

lemma wf_header_flags: "wf_header h \<Longrightarrow> fh_flags h AND 0x0f = fh_flags h"
proof -
  assume wf: "wf_header h"
  show ?thesis
  proof (cases "fh_packet_type h = PT_Publish")
    case True
    with wf have "fh_flags h AND NOT 0x0f = 0" by (simp add: wf_header_def)
    then show ?thesis by (auto simp: bit_eq_iff bit_simps)
  next
    case False
    with wf show ?thesis
      by (auto simp: wf_header_def FixedHeader_new_def header_masks)
  qed
qed

lemma FixedHeader_decode_enc [codec_simps]:
  assumes "wf_header h" and "rest \<noteq> []"
  shows "FixedHeader_decode (header_byte h # rest) = Ok (h, 1, rest)"
proof -
  have "length rest > 0" using assms(2) by simp
  then have len: "\<not> length (header_byte h # rest) < 2" by simp
  have t: "PacketType_from_u8 (header_byte h AND 0xF0) = fh_packet_type h"
    by (simp only: header_byte_masks PacketType_from_as_u8)
  have fl: "header_byte h AND 0x0f = fh_flags h"
    by (simp only: header_byte_masks wf_header_flags [OF assms(1)])
  have "fh_packet_type h \<noteq> PT_Publish \<Longrightarrow> fh_flags h = fh_flags (FixedHeader_new (fh_packet_type h))"
    using assms(1) by (simp add: wf_header_def)
  then show ?thesis
    unfolding FixedHeader_decode_def if_not_P [OF len] get_u8.simps bind.simps prod.case Let_def t fl
    by (cases h, cases "fh_packet_type h") (auto simp: FixedHeader_new_def)
qed

lemma FixedHeader_decode_OkD:
  assumes "FixedHeader_decode src = Ok (h, n, rest)"
  shows "n = 1 \<and> length src = Suc (length rest) \<and> rest \<noteq> [] \<and> wf_header h"
proof -
  from assms obtain b where src: "src = b # rest" and n: "n = 1" and r: "rest \<noteq> []"
    by (cases src) (auto simp: FixedHeader_decode_def Let_def split: if_splits)
  have hb: "(b AND 0x0f) AND NOT 0x0f = 0" by (auto simp: bit_eq_iff bit_simps)
  have "wf_header h"
    using assms src hb
    by (cases "PacketType_from_u8 (b AND 0xF0)")
      (auto simp: FixedHeader_decode_def Let_def wf_header_def FixedHeader_new_def header_masks
        split: if_splits)
  then show ?thesis using src n r by simp
qed

lemma wf_header_new [simp]: "wf_header (FixedHeader_new t)"
  by (cases t) (simp_all add: wf_header_def FixedHeader_new_def header_masks)

lemma fh_packet_type_new [simp]: "fh_packet_type (FixedHeader_new t) = t"
  by (simp add: FixedHeader_new_def)

end
