(* ===== verification/Properties.thy ===== *)
theory Properties
  imports Fixed_Header
begin

text \<open>
  Property identifiers and user properties (\<open>vaux-mqtt/src/property.rs\<close>) and the payload format
  (\<open>vaux-mqtt/src/publish.rs\<close>). The hash map of user properties is the association list of its
  entries in iteration order, keys distinct; theorems hold for every such list, so for every
  iteration order the map may have.
\<close>

datatype PropertyType =
    P_PayloadFormat | P_MessageExpiry | P_ContentType | P_ResponseTopic | P_CorrelationData
  | P_SubscriptionIdentifier | P_SessionExpiryInterval | P_AssignedClientId | P_KeepAlive
  | P_AuthMethod | P_AuthData | P_ReqProblemInfo | P_WillDelay | P_ReqRespInfo | P_RespInfo
  | P_ServerReference | P_ReasonString | P_RecvMax | P_TopicAliasMax | P_TopicAlias | P_MaxQoS
  | P_RetainAvail | P_UserProperty | P_MaxPacketSize | P_WildcardSubAvail | P_SubIdAvail
  | P_ShardSubAvail

primrec PropertyType_as_u8 :: "PropertyType \<Rightarrow> u8" where
  "PropertyType_as_u8 P_PayloadFormat = 0x01"
| "PropertyType_as_u8 P_MessageExpiry = 0x02"
| "PropertyType_as_u8 P_ContentType = 0x03"
| "PropertyType_as_u8 P_ResponseTopic = 0x08"
| "PropertyType_as_u8 P_CorrelationData = 0x09"
| "PropertyType_as_u8 P_SubscriptionIdentifier = 0x0b"
| "PropertyType_as_u8 P_SessionExpiryInterval = 0x11"
| "PropertyType_as_u8 P_AssignedClientId = 0x12"
| "PropertyType_as_u8 P_KeepAlive = 0x13"
| "PropertyType_as_u8 P_AuthMethod = 0x15"
| "PropertyType_as_u8 P_AuthData = 0x16"
| "PropertyType_as_u8 P_ReqProblemInfo = 0x17"
| "PropertyType_as_u8 P_WillDelay = 0x18"
| "PropertyType_as_u8 P_ReqRespInfo = 0x19"
| "PropertyType_as_u8 P_RespInfo = 0x1a"
| "PropertyType_as_u8 P_ServerReference = 0x1c"
| "PropertyType_as_u8 P_ReasonString = 0x1f"
| "PropertyType_as_u8 P_RecvMax = 0x21"
| "PropertyType_as_u8 P_TopicAliasMax = 0x22"
| "PropertyType_as_u8 P_TopicAlias = 0x23"
| "PropertyType_as_u8 P_MaxQoS = 0x24"
| "PropertyType_as_u8 P_RetainAvail = 0x25"
| "PropertyType_as_u8 P_UserProperty = 0x26"
| "PropertyType_as_u8 P_MaxPacketSize = 0x27"
| "PropertyType_as_u8 P_WildcardSubAvail = 0x28"
| "PropertyType_as_u8 P_SubIdAvail = 0x29"
| "PropertyType_as_u8 P_ShardSubAvail = 0x2a"

definition PropertyType_table :: "(u8 \<times> PropertyType) list" where
  "PropertyType_table =
    [(0x01, P_PayloadFormat), (0x02, P_MessageExpiry), (0x03, P_ContentType),
     (0x08, P_ResponseTopic), (0x09, P_CorrelationData), (0x0b, P_SubscriptionIdentifier),
     (0x11, P_SessionExpiryInterval), (0x12, P_AssignedClientId), (0x13, P_KeepAlive),
     (0x15, P_AuthMethod), (0x16, P_AuthData), (0x17, P_ReqProblemInfo), (0x18, P_WillDelay),
     (0x19, P_ReqRespInfo), (0x1a, P_RespInfo), (0x1c, P_ServerReference),
     (0x1f, P_ReasonString), (0x21, P_RecvMax), (0x22, P_TopicAliasMax), (0x23, P_TopicAlias),
     (0x24, P_MaxQoS), (0x25, P_RetainAvail), (0x26, P_UserProperty), (0x27, P_MaxPacketSize),
     (0x28, P_WildcardSubAvail), (0x29, P_SubIdAvail), (0x2a, P_ShardSubAvail)]"

definition PropertyType_try_from :: "u8 \<Rightarrow> PropertyType codec_result" where
  "PropertyType_try_from value =
    (case map_of PropertyType_table value of Some p \<Rightarrow> Ok p | None \<Rightarrow> Err MqttCodecError_new)"

lemma PropertyType_try_from_as_u8 [simp, codec_simps]:
  "PropertyType_try_from (PropertyType_as_u8 p) = Ok p"
  by (cases p) (simp_all add: PropertyType_try_from_def PropertyType_table_def)

lemma PropertyType_try_from_OkD: "PropertyType_try_from v = Ok p \<Longrightarrow> PropertyType_as_u8 p = v"
proof -
  assume "PropertyType_try_from v = Ok p"
  then have "map_of PropertyType_table v = Some p"
    by (simp add: PropertyType_try_from_def split: option.splits)
  then have "(v, p) \<in> set PropertyType_table" by (rule map_of_SomeD)
  moreover have "list_all (\<lambda>(v, p). PropertyType_as_u8 p = v) PropertyType_table"
    by (simp add: PropertyType_table_def)
  ultimately show ?thesis by (auto simp: list_all_iff)
qed

section \<open>User properties\<close>

type_synonym UserProperty = "(string \<times> string list) list"

definition UserProperty_new :: UserProperty where
  "UserProperty_new = []"

text \<open>\<open>entry(key).or_default().push(value)\<close>\<close>

fun UserProperty_add :: "UserProperty \<Rightarrow> string \<Rightarrow> string \<Rightarrow> UserProperty" where
  "UserProperty_add [] key value = [(key, [value])]"
| "UserProperty_add ((k, vs) # m) key value =
    (if k = key then (k, vs @ [value]) # m else (k, vs) # UserProperty_add m key value)"

definition UserProperty_clear :: "UserProperty \<Rightarrow> UserProperty" where
  "UserProperty_clear m = []"

definition UserProperty_clear_codec :: "UserProperty \<Rightarrow> string \<Rightarrow> UserProperty" where
  "UserProperty_clear_codec m key = filter (\<lambda>(k, _). k \<noteq> key) m"

definition UserProperty_get :: "UserProperty \<Rightarrow> string \<Rightarrow> string list option" where
  "UserProperty_get m key = map_of m key"

definition UserProperty_is_empty :: "UserProperty \<Rightarrow> bool" where
  "UserProperty_is_empty m \<longleftrightarrow> m = []"

definition UserProperty_len :: "UserProperty \<Rightarrow> nat" where
  "UserProperty_len m = length m"

text \<open>The key-value pairs in the order the two nested \<open>for\<close> loops visit them.\<close>

definition UserProperty_pairs :: "UserProperty \<Rightarrow> (string \<times> string) list" where
  "UserProperty_pairs m = concat (map (\<lambda>(key, values). map (\<lambda>value. (key, value)) values) m)"

definition UserProperty_property_size :: "UserProperty \<Rightarrow> u32" where
  "UserProperty_property_size m =
    sum_list (map (\<lambda>(key, value). 1 + (2 + of_nat (length key)) + (2 + of_nat (length value)))
      (UserProperty_pairs m))"

definition UserProperty_encode :: "UserProperty \<Rightarrow> bytes codec_result" where
  "UserProperty_encode m =
    seq_enc (map (\<lambda>(key, value).
        seq_enc [Ok (put_u8 (PropertyType_as_u8 P_UserProperty)), encode_string key, encode_string value])
      (UserProperty_pairs m))"

text \<open>
  \<open>decode_string\<close> already counts the two length bytes, so the reported length exceeds the bytes
  read by four.
\<close>

definition UserProperty_decode :: "UserProperty \<Rightarrow> bytes \<Rightarrow> (UserProperty \<times> nat \<times> bytes) codec_result" where
  "UserProperty_decode self src =
    bind (decode_string src) (\<lambda>(key_value, key_len, src).
    bind (decode_string src) (\<lambda>(value, len, src).
      Ok (UserProperty_add self key_value value, 2 + key_len + 2 + len, src)))"

text \<open>The map invariant: distinct keys, no empty value list (\<open>or_default().push\<close> never leaves one).\<close>

definition wf_user_properties :: "UserProperty \<Rightarrow> bool" where
  "wf_user_properties m \<longleftrightarrow> distinct (map fst m) \<and> (\<forall>(k, vs) \<in> set m. vs \<noteq> [])"

lemma keys_UserProperty_add: "set (map fst (UserProperty_add m k v)) = insert k (set (map fst m))"
  by (induction m k v rule: UserProperty_add.induct) auto

lemma wf_UserProperty_add: "wf_user_properties m \<Longrightarrow> wf_user_properties (UserProperty_add m k v)"
proof (induction m k v rule: UserProperty_add.induct)
  case (2 k vs m key v)
  then show ?case
    using keys_UserProperty_add [of m key v] by (auto simp: wf_user_properties_def)
qed (simp add: wf_user_properties_def)

lemma UserProperty_get_add:
  "UserProperty_get (UserProperty_add m k v) k' =
    (if k' = k then Some ((case UserProperty_get m k of None \<Rightarrow> [] | Some vs \<Rightarrow> vs) @ [v])
     else UserProperty_get m k')"
  by (induction m k v rule: UserProperty_add.induct) (auto simp: UserProperty_get_def)

lemma UserProperty_get_clear_codec:
  "UserProperty_get (UserProperty_clear_codec m k) k' = (if k' = k then None else UserProperty_get m k')"
  by (induction m) (auto simp: UserProperty_get_def UserProperty_clear_codec_def)

lemma wf_UserProperty_clear_codec: "wf_user_properties m \<Longrightarrow> wf_user_properties (UserProperty_clear_codec m k)"
  by (auto simp: wf_user_properties_def UserProperty_clear_codec_def distinct_map_filter)

lemma UserProperty_decode_enc:
  assumes "wf_string k" and "wf_string v"
  shows "UserProperty_decode m (string_bytes k @ string_bytes v @ rest) =
    Ok (UserProperty_add m k v, length k + length v + 8, rest)"
  using assms by (simp add: UserProperty_decode_def decode_string_def codec_simps)

section \<open>Payload format\<close>

datatype PayloadFormat = PF_Bin | PF_Utf8

primrec PayloadFormat_as_u8 :: "PayloadFormat \<Rightarrow> u8" where
  "PayloadFormat_as_u8 PF_Bin = 0x00"
| "PayloadFormat_as_u8 PF_Utf8 = 0x01"

definition PayloadFormat_try_from :: "u8 \<Rightarrow> PayloadFormat codec_result" where
  "PayloadFormat_try_from value =
    (if value = 0x00 then Ok PF_Bin else if value = 0x01 then Ok PF_Utf8 else Err MqttCodecError_new)"

definition PayloadFormat_encode :: "PayloadFormat \<Rightarrow> bytes codec_result" where
  "PayloadFormat_encode f = Ok (put_u8 (PayloadFormat_as_u8 f))"

definition PayloadFormat_decode :: "bytes \<Rightarrow> (PayloadFormat \<times> nat \<times> bytes) codec_result" where
  "PayloadFormat_decode src =
    bind (get_u8 src) (\<lambda>(v, src). bind (PayloadFormat_try_from v) (\<lambda>f. Ok (f, 1, src)))"

definition PayloadFormat_codec_size :: "PayloadFormat \<Rightarrow> u32" where
  "PayloadFormat_codec_size f = 1"

definition PayloadFormat_property_size :: "PayloadFormat \<Rightarrow> u32" where
  "PayloadFormat_property_size f = 2"

lemma PayloadFormat_try_from_as_u8 [simp, codec_simps]:
  "PayloadFormat_try_from (PayloadFormat_as_u8 f) = Ok f"
  by (cases f) (simp_all add: PayloadFormat_try_from_def)

lemma enum_decode_enc [codec_simps]:
  "PayloadFormat_decode (put_u8 (PayloadFormat_as_u8 f) @ rest) = Ok (f, 1, rest)"
  "QoSLevel_decode (put_u8 (QoSLevel_as_u8 q) @ rest) = Ok (q, 1, rest)"
  "Reason_decode (put_u8 (Reason_as_u8 r) @ rest) = Ok (r, 1, rest)"
  by (simp_all add: PayloadFormat_decode_def QoSLevel_decode_def Reason_decode_def codec_simps)

end
