(* ===== verification/Codec_Macro.thy ===== *)
theory Codec_Macro
  imports Properties
begin

text \<open>
  The code that \<open>vaux-macro\<close> generates. Each \<open>encode_for_*\<close>, \<open>size_for_*\<close> and \<open>decode_for_*\<close> function of
  the macro crate emits the statements for one field; the definition of the same name is the meaning
  of those statements. A packet theory lists its fields with them in declaration order.
  The second half relates the three: computed sizes are the lengths of encodings
  (\<open>sized\<close>, \<open>sized_seq\<close>), and the property loop reads back a list of property entries that the match
  arms account for exactly (locale \<open>property_arms\<close>).
\<close>

section \<open>Encoding a field\<close>

text \<open>\<open>prop_ident_encode\<close>: the identifier byte, for a property field only.\<close>

definition prop_ident_encode :: "PropertyType option \<Rightarrow> bytes" where
  "prop_ident_encode pt = (case pt of Some p \<Rightarrow> put_u8 (PropertyType_as_u8 p) | None \<Rightarrow> [])"

definition encode_for_string :: "PropertyType option \<Rightarrow> string \<Rightarrow> bytes codec_result" where
  "encode_for_string pt s = seq_enc [Ok (prop_ident_encode pt), encode_string s]"

definition encode_for_string_opt :: "PropertyType option \<Rightarrow> string option \<Rightarrow> bytes codec_result" where
  "encode_for_string_opt pt field =
    (case field of Some v \<Rightarrow> seq_enc [Ok (prop_ident_encode pt), encode_string v] | None \<Rightarrow> Ok [])"

text \<open>\<open>encode_for_vec\<close> for \<open>Vec<u8>\<close> and for a vector of items outside the properties.\<close>

definition encode_for_vec_u8 :: "PropertyType option \<Rightarrow> bytes \<Rightarrow> bytes codec_result" where
  "encode_for_vec_u8 pt field = seq_enc [Ok (prop_ident_encode pt), encode_array_field field]"

definition encode_for_vec :: "('a \<Rightarrow> bytes codec_result) \<Rightarrow> 'a list \<Rightarrow> bytes codec_result" where
  "encode_for_vec item_encode field = seq_enc (map item_encode field)"

text \<open>\<open>encode_for_primitive\<close>, one case per primitive type.\<close>

datatype prim = Prim_u8 u8 | Prim_u16 u16 | Prim_u32 u32 | Prim_bool bool

primrec put_prim :: "prim \<Rightarrow> bytes" where
  "put_prim (Prim_u8 v) = put_u8 v"
| "put_prim (Prim_u16 v) = put_u16 v"
| "put_prim (Prim_u32 v) = put_u32 v"
| "put_prim (Prim_bool v) = put_u8 (if v then 1 else 0)"

definition encode_for_primitive :: "PropertyType option \<Rightarrow> prim \<Rightarrow> bytes codec_result" where
  "encode_for_primitive pt v = Ok (prop_ident_encode pt @ put_prim v)"

definition encode_for_primitive_opt :: "PropertyType option \<Rightarrow> prim option \<Rightarrow> bytes codec_result" where
  "encode_for_primitive_opt pt field =
    (case field of Some v \<Rightarrow> Ok (prop_ident_encode pt @ put_prim v) | None \<Rightarrow> Ok [])"

text \<open>\<open>encode_for_option\<close> with a type that has its own \<open>Encode\<close>.\<close>

definition encode_for_option :: "PropertyType option \<Rightarrow> ('a \<Rightarrow> bytes codec_result) \<Rightarrow> 'a option \<Rightarrow> bytes codec_result" where
  "encode_for_option pt enc field =
    (case field of Some v \<Rightarrow> seq_enc [Ok (prop_ident_encode pt), enc v] | None \<Rightarrow> Ok [])"

text \<open>\<open>encode_for_encode_with\<close> on an optional field: the function gets the whole option.\<close>

definition encode_for_encode_with_opt ::
    "PropertyType option \<Rightarrow> ('a option \<Rightarrow> bytes codec_result) \<Rightarrow> 'a option \<Rightarrow> bytes codec_result" where
  "encode_for_encode_with_opt pt path field =
    (case field of Some _ \<Rightarrow> seq_enc [Ok (prop_ident_encode pt), path field] | None \<Rightarrow> Ok [])"

text \<open>The \<open>skip_if\<close> wrapper of \<open>encode_internal\<close> and \<open>property_encode_internal\<close>.\<close>

definition skip_if :: "bool \<Rightarrow> bytes codec_result \<Rightarrow> bytes codec_result" where
  "skip_if skip m = (if \<not> skip then m else Ok [])"

text \<open>
  \<open>encode_internal\<close>: fixed header and remaining length for a packet, the header fields, the
  abbreviation check, then the rest; \<open>property_encode_internal\<close>: the property length and the
  properties.
\<close>

definition property_encode_internal :: "u32 \<Rightarrow> bytes codec_result list \<Rightarrow> bytes codec_result" where
  "property_encode_internal property_size property_fields =
    seq_enc (encode_variable_byte_int property_size # property_fields)"

definition encode_internal ::
    "(FixedHeader \<times> u32) option \<Rightarrow> bytes codec_result list \<Rightarrow> bool \<Rightarrow> bytes codec_result list \<Rightarrow>
     bytes codec_result list \<Rightarrow> bytes codec_result list \<Rightarrow> bytes codec_result" where
  "encode_internal packet header_fields abbreviated non_abbreviated property_encode payload_fields =
    seq_enc
      ((case packet of
          Some (fixed_header, codec_size) \<Rightarrow>
            [FixedHeader_encode fixed_header, encode_variable_byte_int codec_size]
        | None \<Rightarrow> [])
       @ header_fields
       @ (if abbreviated then [] else non_abbreviated @ property_encode @ payload_fields))"

section \<open>The size of a field\<close>

text \<open>All sizes are \<open>u32\<close> sums, as in the generated \<open>codec_size\<close> and \<open>property_size\<close>.\<close>

definition size_for_string_property :: "string \<Rightarrow> u32" where
  "size_for_string_property s = 1 + (of_nat (length s) + 2)"

definition size_for_string_property_opt :: "string option \<Rightarrow> u32" where
  "size_for_string_property_opt field =
    (case field of Some v \<Rightarrow> 1 + (of_nat (length v) + 2) | None \<Rightarrow> 0)"

definition size_for_string :: "string \<Rightarrow> u32" where
  "size_for_string s = 2 + of_nat (length s)"

definition size_for_option_string :: "string option \<Rightarrow> u32" where
  "size_for_option_string field = (case field of Some v \<Rightarrow> 2 + of_nat (length v) | None \<Rightarrow> 0)"

text \<open>\<open>size_for_primitive_internal\<close>\<close>

primrec prim_size :: "prim \<Rightarrow> u32" where
  "prim_size (Prim_u8 _) = 1"
| "prim_size (Prim_u16 _) = 2"
| "prim_size (Prim_u32 _) = 4"
| "prim_size (Prim_bool _) = 1"

definition size_for_primitive_property_opt :: "prim option \<Rightarrow> u32" where
  "size_for_primitive_property_opt field = (case field of Some v \<Rightarrow> 1 + prim_size v | None \<Rightarrow> 0)"

definition size_for_primitive_optional :: "prim option \<Rightarrow> u32" where
  "size_for_primitive_optional field = (case field of Some v \<Rightarrow> prim_size v | None \<Rightarrow> 0)"

text \<open>\<open>size_for_codec_size\<close>: \<open>size_of\<close> is the field type's \<open>codec_size\<close> or \<open>property_size\<close>.\<close>

definition size_for_codec_size_opt :: "('a \<Rightarrow> u32) \<Rightarrow> 'a option \<Rightarrow> u32" where
  "size_for_codec_size_opt size_of field = (case field of Some v \<Rightarrow> size_of v | None \<Rightarrow> 0)"

definition size_for_vec_u8 :: "bool \<Rightarrow> bytes \<Rightarrow> u32" where
  "size_for_vec_u8 is_property field =
    (if field \<noteq> [] then (if is_property then 1 else 0) + (2 + of_nat (length field)) else 0)"

definition size_for_vec :: "('a \<Rightarrow> u32) \<Rightarrow> 'a list \<Rightarrow> u32" where
  "size_for_vec size_of field = (if field \<noteq> [] then sum_list (map size_of field) else 0)"

text \<open>\<open>size_with_path\<close> on an optional property.\<close>

definition size_with_path_opt_property :: "('a option \<Rightarrow> u32) \<Rightarrow> 'a option \<Rightarrow> u32" where
  "size_with_path_opt_property path field = (case field of Some _ \<Rightarrow> 1 + path field | None \<Rightarrow> 0)"

definition size_with_path_opt :: "('a option \<Rightarrow> u32) \<Rightarrow> 'a option \<Rightarrow> u32" where
  "size_with_path_opt path field = (case field of Some _ \<Rightarrow> path field | None \<Rightarrow> 0)"

definition skip_if_size :: "bool \<Rightarrow> u32 \<Rightarrow> u32" where
  "skip_if_size skip n = (if \<not> skip then n else 0)"

text \<open>\<open>derive_codec_size\<close> for a struct with properties.\<close>

definition derive_codec_size :: "u32 list \<Rightarrow> bool \<Rightarrow> u32 list \<Rightarrow> u32 \<Rightarrow> u32" where
  "derive_codec_size field_sizes abbreviated non_abbreviated property_size =
    (if abbreviated then sum_list field_sizes
     else sum_list field_sizes + sum_list non_abbreviated + property_size
       + variable_byte_int_size property_size)"

section \<open>Decoding properties\<close>

text \<open>
  A match arm returns the updated struct, what it adds to \<open>property_bytes_read\<close>, what it adds to
  \<open>bytes_read\<close>, and the rest of the buffer. \<open>decode_for_vec\<close> is the one arm that adds to
  \<open>bytes_read\<close>, whether or not its field is a property.
\<close>

type_synonym 'r arm_result = "('r \<times> nat \<times> nat \<times> bytes) codec_result"
type_synonym 'r arms = "PropertyType \<Rightarrow> 'r \<Rightarrow> bytes \<Rightarrow> 'r arm_result"

definition decode_for_primitive :: "(bytes \<Rightarrow> ('a \<times> bytes) codec_result) \<Rightarrow> nat \<Rightarrow> ('a \<Rightarrow> 'r) \<Rightarrow> bytes \<Rightarrow> 'r arm_result" where
  "decode_for_primitive reader n assign src =
    bind (reader src) (\<lambda>(v, src). Ok (assign v, n, 0, src))"

text \<open>\<open>src.get_u8() != 0\<close>, the reader of \<open>bool\<close>.\<close>

definition get_bool :: "bytes \<Rightarrow> (bool \<times> bytes) codec_result" where
  "get_bool src = bind (get_u8 src) (\<lambda>(b, src). Ok (b \<noteq> 0, src))"

text \<open>\<open>decode_for_type\<close> and \<open>decode_for_string\<close>, and \<open>decode_for_decode_with\<close>.\<close>

definition decode_for_type :: "(bytes \<Rightarrow> ('a \<times> nat \<times> bytes) codec_result) \<Rightarrow> ('a \<Rightarrow> 'r) \<Rightarrow> bytes \<Rightarrow> 'r arm_result" where
  "decode_for_type dec assign src = bind (dec src) (\<lambda>(v, n, src). Ok (assign v, n, 0, src))"

definition decode_for_vec_u8 :: "(bytes \<Rightarrow> 'r) \<Rightarrow> bytes \<Rightarrow> 'r arm_result" where
  "decode_for_vec_u8 assign src =
    bind (Vec_u8_decode src) (\<lambda>(v, var_bytes_read, src). Ok (assign v, 0, var_bytes_read, src))"

text \<open>
  \<open>u16::decode\<close> and \<open>u32::decode\<close>, which the arm of an optional field calls, read what a mandatory
  field's arm reads itself. \<open>bool::decode\<close> does not: it refuses a byte above 1.
\<close>

lemma decode_for_type_prim [simp]:
  "decode_for_type u32_decode assign32 src = decode_for_primitive get_u32 4 assign32 src"
  "decode_for_type u16_decode assign16 src = decode_for_primitive get_u16 2 assign16 src"
  by (cases src rule: get_u32.cases;
      simp add: decode_for_type_def decode_for_primitive_def u32_decode_def u16_decode_def)+

definition unsupported_property :: "PropertyType \<Rightarrow> 'r arm_result" where
  "unsupported_property pt = Err (EK_UnsupportedProperty (PropertyType_as_u8 pt))"

text \<open>
  The \<open>while property_bytes_read < property_length\<close> loop. Each turn reads at least the identifier
  byte, so \<open>property_length - property_bytes_read\<close> decreases.
\<close>

function prop_loop :: "'r arms \<Rightarrow> nat \<Rightarrow> nat \<Rightarrow> nat \<Rightarrow> 'r \<Rightarrow> bytes \<Rightarrow> 'r arm_result" where
  "prop_loop arms property_length property_bytes_read bytes_read self src =
    (if property_bytes_read < property_length then
       bind (get_u8 src) (\<lambda>(b, src).
       bind (PropertyType_try_from b) (\<lambda>property_type.
       bind (arms property_type self src) (\<lambda>(self, dp, db, src).
         prop_loop arms property_length (property_bytes_read + 1 + dp) (bytes_read + db) self src)))
     else Ok (self, property_bytes_read, bytes_read, src))"
  by pat_completeness auto
termination
  by (relation "measure (\<lambda>(arms, len, read, bread, self, src). len - read)") auto

declare prop_loop.simps [simp del]

text \<open>\<open>decode_properties\<close> of \<open>decode_internal\<close>: the number returned is added to \<open>bytes_read\<close>.\<close>

definition decode_properties :: "'r arms \<Rightarrow> 'r \<Rightarrow> bytes \<Rightarrow> ('r \<times> nat \<times> bytes) codec_result" where
  "decode_properties arms self src =
    bind (decode_variable_byte_int src) (\<lambda>(property_length, var_bytes_read, src).
    bind (prop_loop arms (unat property_length) 0 0 self src) (\<lambda>(self, property_bytes_read, bytes_read, src).
      Ok (self, var_bytes_read + bytes_read + property_bytes_read, src)))"

lemma prop_loop_done [simp]:
  "property_length \<le> n \<Longrightarrow> prop_loop arms property_length n b self src = Ok (self, n, b, src)"
  by (subst prop_loop.simps) simp

lemma prop_loop_step:
  "n < property_length \<Longrightarrow> arms p self src = Ok (self', dp, db, src') \<Longrightarrow>
    prop_loop arms property_length n b self (PropertyType_as_u8 p # src) =
    prop_loop arms property_length (n + 1 + dp) (b + db) self' src'"
  by (subst prop_loop.simps) simp

lemma prop_loop_empty: "n < property_length \<Longrightarrow> prop_loop arms property_length n b self [] = Panic"
  by (subst prop_loop.simps) simp

text \<open>What every arm keeps, the loop keeps.\<close>

lemma prop_loop_keeps:
  assumes keeps: "\<And>p s src s' dp db src'. arms p s src = Ok (s', dp, db, src') \<Longrightarrow> P s \<Longrightarrow> P s'"
    and "prop_loop arms len n b self src = Ok (self', n', b', src')" and "P self"
  shows "P self'"
  using assms(2,3)
proof (induction "len - n" arbitrary: n b self src rule: less_induct)
  case less
  show ?case
  proof (cases "n < len")
    case True
    with less.prems(1) obtain c src1 p self1 dp db src2 where
      a: "arms p self src1 = Ok (self1, dp, db, src2)"
      and l: "prop_loop arms len (n + 1 + dp) (b + db) self1 src2 = Ok (self', n', b', src')"
      by (subst (asm) prop_loop.simps) (auto split: prod.splits)
    show ?thesis by (rule less.hyps [OF _ l keeps [OF a less.prems(2)]]) (use True in simp)
  qed (use less.prems in simp)
qed

lemma decode_properties_keeps:
  assumes "\<And>p s src s' dp db src'. arms p s src = Ok (s', dp, db, src') \<Longrightarrow> P s \<Longrightarrow> P s'"
    and "decode_properties arms self src = Ok (self', n, src')" and "P self"
  shows "P self'"
  using assms(2,3) prop_loop_keeps [where P = P, OF assms(1)] by (auto simp: decode_properties_def split: prod.splits)

section \<open>Computed sizes are encoded lengths\<close>

definition sized :: "bytes codec_result \<Rightarrow> u32 \<Rightarrow> bool" where
  "sized m n \<longleftrightarrow> (\<forall>bs. m = Ok bs \<longrightarrow> n = of_nat (length bs))"

lemma sizedI: "(\<And>bs. m = Ok bs \<Longrightarrow> n = of_nat (length bs)) \<Longrightarrow> sized m n"
  by (simp add: sized_def)

lemma sizedD: "sized m n \<Longrightarrow> m = Ok bs \<Longrightarrow> n = of_nat (length bs)"
  by (simp add: sized_def)

lemma sized_Nil [simp]: "sized (Ok []) 0"
  by (simp add: sized_def)

lemma sized_seq: "list_all2 sized ms ns \<Longrightarrow> sized (seq_enc ms) (sum_list ns)"
  by (induction rule: list_all2_induct) (auto simp: sized_def)

lemma sized_seq_map: "(\<And>x. sized (f x) (g x)) \<Longrightarrow> sized (seq_enc (map f xs)) (sum_list (map g xs))"
  by (rule sized_seq) (simp add: list_all2_conv_all_nth)

lemma length_prop_ident: "length (prop_ident_encode pt) = (if pt = None then 0 else 1)"
  by (auto simp: prop_ident_encode_def)

lemma length_put_prim [simp]: "of_nat (length (put_prim v)) = prim_size v"
  by (cases v) simp_all

lemma sized_prim_opt [simp]:
  "sized (encode_for_primitive_opt (Some p) field) (size_for_primitive_property_opt field)"
  "sized (encode_for_primitive_opt None field) (size_for_primitive_optional field)"
  by (auto simp: sized_def encode_for_primitive_opt_def size_for_primitive_property_opt_def
      size_for_primitive_optional_def length_prop_ident split: option.splits)

lemma sized_prim [simp]: "sized (encode_for_primitive None v) (prim_size v)"
  by (auto simp: sized_def encode_for_primitive_def length_prop_ident)

lemma sized_string [simp]:
  "sized (encode_for_string (Some p) s) (size_for_string_property s)"
  "sized (encode_for_string None s) (size_for_string s)"
  by (auto simp: sized_def encode_for_string_def size_for_string_property_def size_for_string_def
      length_prop_ident dest!: encode_string_OkD)

lemma sized_string_opt [simp]:
  "sized (encode_for_string_opt (Some p) field) (size_for_string_property_opt field)"
  "sized (encode_for_string_opt None field) (size_for_option_string field)"
  by (auto simp: sized_def encode_for_string_opt_def size_for_string_property_opt_def
      size_for_option_string_def length_prop_ident dest!: encode_string_OkD split: option.splits)

lemma sized_vec_u8 [simp]:
  "sized (skip_if (field = []) (encode_for_vec_u8 (Some p) field))
    (skip_if_size (field = []) (size_for_vec_u8 True field))"
  "sized (skip_if (field = []) (encode_for_vec_u8 None field))
    (skip_if_size (field = []) (size_for_vec_u8 False field))"
  by (auto simp: sized_def skip_if_def skip_if_size_def encode_for_vec_u8_def size_for_vec_u8_def
      length_prop_ident dest!: encode_array_field_OkD)

lemma sized_enum_opt [simp]:
  "sized (encode_for_option (Some p) QoSLevel_encode q) (size_for_codec_size_opt QoSLevel_property_size q)"
  "sized (encode_for_option (Some p) PayloadFormat_encode f)
    (size_for_codec_size_opt PayloadFormat_property_size f)"
  "sized (encode_for_option None Reason_encode r) (size_for_codec_size_opt Reason_codec_size r)"
  by (auto simp: sized_def encode_for_option_def size_for_codec_size_opt_def QoSLevel_encode_def
      PayloadFormat_encode_def Reason_encode_def QoSLevel_property_size_def length_prop_ident
      PayloadFormat_property_size_def Reason_codec_size_def split: option.splits)

lemma sized_reason [simp]: "sized (Reason_encode r) (Reason_codec_size r)"
  by (simp add: sized_def Reason_encode_def Reason_codec_size_def)

lemma sized_user_properties [simp]: "sized (UserProperty_encode m) (UserProperty_property_size m)"
  unfolding UserProperty_encode_def UserProperty_property_size_def
  by (rule sized_seq_map) (auto simp: sized_def dest!: encode_string_OkD)

lemma sized_raw [simp]: "sized (encode_opt_vec_u8_raw_ref p) (codec_size_opt_vec_u8_raw p)"
  by (auto simp: sized_def encode_opt_vec_u8_raw_ref_def codec_size_opt_vec_u8_raw_def split: option.splits)

text \<open>
  A subscription identifier is sized as at most four bytes, so its value must be in the range of a
  variable byte integer for the size to be right.
\<close>

lemma sized_vbi: "unat v < 268435456 \<Longrightarrow> sized (encode_variable_byte_int v) (variable_byte_int_size v)"
  by (simp add: sized_def encode_variable_byte_int_def length_vbi_bytes)

definition vbi_in_range :: "u32 option \<Rightarrow> bool" where
  "vbi_in_range field \<longleftrightarrow> pred_option (\<lambda>v. unat v < 268435456) field"

lemma sized_vbi_opt [simp]:
  "vbi_in_range field \<Longrightarrow>
    sized (encode_for_encode_with_opt (Some p) encode_opt_variable_byte_int field)
      (size_with_path_opt_property codec_size_opt_variable_byte_int field)"
  by (auto simp: sized_def vbi_in_range_def encode_for_encode_with_opt_def size_with_path_opt_property_def
      encode_opt_variable_byte_int_def codec_size_opt_variable_byte_int_def encode_variable_byte_int_def
      length_prop_ident length_vbi_bytes split: option.splits)

lemma sized_vec:
  "(\<And>x. sized (enc x) (size_of x)) \<Longrightarrow> sized (encode_for_vec enc xs) (size_for_vec size_of xs)"
  using sized_seq_map [of enc size_of xs] by (cases xs) (simp_all add: encode_for_vec_def size_for_vec_def)

lemma seq_enc_Cons_Ok: "seq_enc (Ok a # ms) = bind (seq_enc ms) (\<lambda>b. Ok (a @ b))"
  by simp

text \<open>The remaining length a derived packet encoder announces is the number of bytes that follow.\<close>

lemma packet_sized:
  assumes enc: "encode_internal (Some (h, cs)) hf ab na [property_encode_internal ps pf] pl = Ok bs"
    and cs: "cs = derive_codec_size fs ab nas ps"
    and sz: "sized (seq_enc (hf @ (if ab then [] else pl))) (sum_list fs)"
      "sized (seq_enc na) (sum_list nas)" "sized (seq_enc pf) ps"
    and ps: "unat ps < 268435456"
  shows "\<exists>body. bs = header_byte h # vbi_bytes cs @ body \<and> cs = of_nat (length body)"
proof -
  from enc obtain body where bs: "bs = header_byte h # vbi_bytes cs @ body"
    and body: "seq_enc (hf @ (if ab then [] else na @ [property_encode_internal ps pf] @ pl)) = Ok body"
    by (auto simp: encode_internal_def FixedHeader_encode_eq encode_variable_byte_int_def)
  have "cs = of_nat (length body)"
  proof (cases ab)
    case True
    with body sz(1) cs show ?thesis by (auto simp: derive_codec_size_def dest: sizedD)
  next
    case False
    with body obtain a b c d where a: "seq_enc hf = Ok a" and b: "seq_enc na = Ok b"
      and c: "seq_enc pf = Ok c" and d: "seq_enc pl = Ok d"
      and bd: "body = a @ b @ (vbi_bytes ps @ c) @ d"
      by (auto simp: seq_enc_append property_encode_internal_def encode_variable_byte_int_def)
    have "seq_enc (hf @ pl) = Ok (a @ d)" using a d by (simp add: seq_enc_append)
    with False sz(1) have "sum_list fs = of_nat (length (a @ d))" by (auto dest: sizedD)
    moreover have "sum_list nas = of_nat (length b)" "ps = of_nat (length c)"
      using sz(2,3) b c by (auto dest: sizedD)
    moreover have "variable_byte_int_size ps = of_nat (length (vbi_bytes ps))"
      using length_vbi_bytes [OF ps] by simp
    ultimately show ?thesis
      using False cs bd by (simp add: derive_codec_size_def)
  qed
  with bs show ?thesis by blast
qed

section \<open>Reading properties back\<close>

text \<open>
  A property entry: its identifier, the bytes after the identifier, and the change its match arm
  makes. The arm is honest about an entry when it consumes exactly those bytes and counts them in
  \<open>property_bytes_read\<close>.
\<close>

type_synonym 'r prop_entry = "PropertyType \<times> bytes \<times> ('r \<Rightarrow> 'r)"

definition entry_bytes :: "'r prop_entry \<Rightarrow> bytes" where
  "entry_bytes e = (case e of (p, body, upd) \<Rightarrow> put_u8 (PropertyType_as_u8 p) @ body)"

definition entries_bytes :: "'r prop_entry list \<Rightarrow> bytes" where
  "entries_bytes es = concat (map entry_bytes es)"

definition apply_entries :: "'r prop_entry list \<Rightarrow> 'r \<Rightarrow> 'r" where
  "apply_entries es r = fold (\<lambda>(p, body, upd). upd) es r"

definition honest :: "'r arms \<Rightarrow> 'r prop_entry \<Rightarrow> bool" where
  "honest arms e \<longleftrightarrow> (case e of (p, body, upd) \<Rightarrow>
    (\<forall>r rest. arms p r (body @ rest) = Ok (upd r, length body, 0, rest)))"

lemma entries_bytes_simps [simp]:
  "entries_bytes [] = []" "entries_bytes (e # es) = entry_bytes e @ entries_bytes es"
  "entries_bytes (es @ fs) = entries_bytes es @ entries_bytes fs"
  by (simp_all add: entries_bytes_def)

lemma apply_entries_simps [simp]:
  "apply_entries [] r = r" "apply_entries ((p, body, upd) # es) r = apply_entries es (upd r)"
  "apply_entries (es @ fs) r = apply_entries fs (apply_entries es r)"
  by (simp_all add: apply_entries_def)

lemma prop_loop_entries:
  assumes "\<forall>e \<in> set es. honest arms e" and "n + length (entries_bytes es) \<le> len"
  shows "prop_loop arms len n b r (entries_bytes es @ rest) =
    prop_loop arms len (n + length (entries_bytes es)) b (apply_entries es r) rest"
  using assms
proof (induction es arbitrary: n r)
  case Nil
  then show ?case by simp
next
  case (Cons e es)
  obtain p body upd where e: "e = (p, body, upd)" by (cases e)
  from Cons.prems e have arm: "arms p r (body @ entries_bytes es @ rest) =
      Ok (upd r, length body, 0, entries_bytes es @ rest)"
    by (auto simp: honest_def)
  have lt: "n < len" using Cons.prems e by (simp add: entry_bytes_def)
  have "prop_loop arms len n b r (entries_bytes (e # es) @ rest) =
      prop_loop arms len (n + 1 + length body) b (upd r) (entries_bytes es @ rest)"
    using prop_loop_step [where arms = arms, OF lt arm] by (simp add: e entry_bytes_def put_u8_def)
  also have "\<dots> = prop_loop arms len (n + 1 + length body + length (entries_bytes es)) b
      (apply_entries es (upd r)) rest"
    by (rule Cons.IH) (use Cons.prems in \<open>simp_all add: e entry_bytes_def\<close>)
  finally show ?case by (simp add: e entry_bytes_def add.assoc)
qed

text \<open>
  A generated arm for a binary property, last in the packet: its bytes are not counted in
  \<open>property_bytes_read\<close>, so the loop asks for another identifier and finds the buffer empty.
\<close>

lemma prop_loop_vec_last_panics:
  assumes "\<forall>e \<in> set es. honest arms e"
    and arm: "\<And>r src. arms p r src = decode_for_vec_u8 (\<lambda>v. upd v r) src"
    and d: "length d \<le> 65535"
    and len: "len = length (entries_bytes es @ put_u8 (PropertyType_as_u8 p) @ array_bytes d)"
  shows "prop_loop arms len 0 0 r (entries_bytes es @ put_u8 (PropertyType_as_u8 p) @ array_bytes d) = Panic"
proof -
  let ?n = "length (entries_bytes es)"
  have a: "arms p (apply_entries es r) (array_bytes d @ []) =
      Ok (upd d (apply_entries es r), 0, length d + 2, [])"
    using d by (simp only: arm decode_for_vec_u8_def Vec_u8_decode_enc) simp
  have "prop_loop arms len 0 0 r (entries_bytes es @ put_u8 (PropertyType_as_u8 p) @ array_bytes d) =
      prop_loop arms len ?n 0 (apply_entries es r) (put_u8 (PropertyType_as_u8 p) @ array_bytes d)"
    using prop_loop_entries [OF assms(1), where n = 0 and len = len] len by simp
  also have "\<dots> = prop_loop arms len (?n + 1 + 0) (0 + (length d + 2)) (upd d (apply_entries es r)) []"
    using prop_loop_step [where arms = arms and n = ?n and property_length = len, OF _ a] len
    by (simp add: put_u8_def)
  also have "\<dots> = Panic"
    by (rule prop_loop_empty) (simp add: len)
  finally show ?thesis .
qed

text \<open>The entries one field contributes.\<close>

definition entry_opt :: "PropertyType \<Rightarrow> ('a \<Rightarrow> bytes) \<Rightarrow> 'a option \<Rightarrow> ('a option \<Rightarrow> 'r \<Rightarrow> 'r) \<Rightarrow> 'r prop_entry list" where
  "entry_opt p enc field upd = (case field of Some v \<Rightarrow> [(p, enc v, upd (Some v))] | None \<Rightarrow> [])"

lemma apply_entry_opt [simp]: "upd None r = r \<Longrightarrow> apply_entries (entry_opt p enc field upd) r = upd field r"
  by (cases field) (simp_all add: entry_opt_def)

definition opt_bytes :: "PropertyType \<Rightarrow> ('a \<Rightarrow> bytes) \<Rightarrow> 'a option \<Rightarrow> bytes" where
  "opt_bytes p enc field = (case field of Some v \<Rightarrow> prop_ident_encode (Some p) @ enc v | None \<Rightarrow> [])"

named_theorems entry_simps \<open>what the encoder of one property field writes, as entries\<close>

lemma entries_bytes_opt [entry_simps]: "entries_bytes (entry_opt p enc field upd) = opt_bytes p enc field"
  by (auto simp: entry_opt_def entry_bytes_def prop_ident_encode_def opt_bytes_def split: option.splits)

lemma honest_entry_opt:
  "(\<And>v r rest. field = Some v \<Longrightarrow>
      arms p r (enc v @ rest) = Ok (upd (Some v) r, length (enc v), 0, rest)) \<Longrightarrow>
    \<forall>e \<in> set (entry_opt p enc field upd). honest arms e"
  by (auto simp: entry_opt_def honest_def split: option.splits)

lemma field_prim_opt [entry_simps]:
  "encode_for_primitive_opt (Some p) (map_option Prim_u16 f16) = Ok (opt_bytes p put_u16 f16)"
  "encode_for_primitive_opt (Some p) (map_option Prim_u32 f32) = Ok (opt_bytes p put_u32 f32)"
  by (auto simp: encode_for_primitive_opt_def opt_bytes_def split: option.splits)

definition put_bool :: "bool \<Rightarrow> bytes" where
  "put_bool v = put_u8 (if v then 1 else 0)"

lemma field_bool_opt [entry_simps]:
  "encode_for_primitive_opt (Some p) (map_option Prim_bool f) = Ok (opt_bytes p put_bool f)"
  by (auto simp: encode_for_primitive_opt_def opt_bytes_def put_bool_def split: option.splits)

definition wf_string_opt :: "string option \<Rightarrow> bool" where
  "wf_string_opt f \<longleftrightarrow> pred_option wf_string f"

lemma field_string_opt [entry_simps]:
  "wf_string_opt f \<Longrightarrow>
    encode_for_string_opt (Some p) f = Ok (opt_bytes p string_bytes f)"
  by (auto simp: encode_for_string_opt_def opt_bytes_def wf_string_opt_def wf_string_def split: option.splits)

lemma field_enum_opt [entry_simps]:
  "encode_for_option (Some p) QoSLevel_encode q =
    Ok (opt_bytes p (\<lambda>q. put_u8 (QoSLevel_as_u8 q)) q)"
  "encode_for_option (Some p) PayloadFormat_encode f =
    Ok (opt_bytes p (\<lambda>f. put_u8 (PayloadFormat_as_u8 f)) f)"
  by (auto simp: encode_for_option_def opt_bytes_def QoSLevel_encode_def PayloadFormat_encode_def
      split: option.splits)

definition vbi_decodable :: "u32 option \<Rightarrow> bool" where
  "vbi_decodable f \<longleftrightarrow> pred_option (\<lambda>v. unat v < 2097152) f"

lemma field_vbi_opt [entry_simps]:
  "encode_for_encode_with_opt (Some p) encode_opt_variable_byte_int f =
    Ok (opt_bytes p vbi_bytes f)"
  by (auto simp: encode_for_encode_with_opt_def opt_bytes_def encode_opt_variable_byte_int_def
      encode_variable_byte_int_def split: option.splits)

definition entry_vec :: "PropertyType \<Rightarrow> bytes \<Rightarrow> (bytes \<Rightarrow> 'r \<Rightarrow> 'r) \<Rightarrow> 'r prop_entry list" where
  "entry_vec p field upd = (if field = [] then [] else [(p, array_bytes field, upd field)])"

definition vec_bytes :: "PropertyType \<Rightarrow> bytes \<Rightarrow> bytes" where
  "vec_bytes p field = (if field = [] then [] else put_u8 (PropertyType_as_u8 p) @ array_bytes field)"

lemma entries_bytes_vec [entry_simps]: "entries_bytes (entry_vec p field upd) = vec_bytes p field"
  by (simp add: entry_vec_def entry_bytes_def vec_bytes_def)

lemma apply_entry_vec [simp]: "upd [] r = r \<Longrightarrow> apply_entries (entry_vec p field upd) r = upd field r"
  by (simp add: entry_vec_def)

lemma field_vec [entry_simps]:
  "length field \<le> 65535 \<Longrightarrow> skip_if (field = []) (encode_for_vec_u8 (Some p) field) =
    Ok (vec_bytes p field)"
  by (simp add: skip_if_def encode_for_vec_u8_def vec_bytes_def prop_ident_encode_def)

text \<open>A mandatory string property is always written.\<close>

definition entry_string :: "PropertyType \<Rightarrow> string \<Rightarrow> (string \<Rightarrow> 'r \<Rightarrow> 'r) \<Rightarrow> 'r prop_entry list" where
  "entry_string p field upd = [(p, string_bytes field, upd field)]"

lemma entries_bytes_string [entry_simps]:
  "entries_bytes (entry_string p field upd) = put_u8 (PropertyType_as_u8 p) @ string_bytes field"
  by (simp add: entry_string_def entry_bytes_def)

lemma apply_entry_string [simp]: "apply_entries (entry_string p field upd) r = upd field r"
  by (simp add: entry_string_def)

lemma field_string [entry_simps]:
  "wf_string field \<Longrightarrow> encode_for_string (Some p) field =
    Ok (put_u8 (PropertyType_as_u8 p) @ string_bytes field)"
  by (simp add: encode_for_string_def prop_ident_encode_def wf_string_def)

lemma field_no_vec [entry_simps]: "skip_if True m = Ok []"
  by (simp add: skip_if_def)

lemma field_no_user_properties [entry_simps]: "UserProperty_encode [] = Ok []"
  by (simp add: UserProperty_encode_def UserProperty_pairs_def)

text \<open>Match arms of the usual shapes are honest.\<close>

lemma honest_prim:
  "(\<And>r src. arms p r src = decode_for_primitive get_u16 2 (\<lambda>v. upd16 (Some v) r) src) \<Longrightarrow>
    \<forall>e \<in> set (entry_opt p put_u16 f16 upd16). honest arms e"
  "(\<And>r src. arms p r src = decode_for_primitive get_u32 4 (\<lambda>v. upd32 (Some v) r) src) \<Longrightarrow>
    \<forall>e \<in> set (entry_opt p put_u32 f32 upd32). honest arms e"
  by (auto intro!: honest_entry_opt simp: decode_for_primitive_def get_put_u16 get_put_u32)

text \<open>On a byte an encoder wrote, both readers of a \<open>bool\<close> agree.\<close>

lemma bool_arms_enc [simp]:
  "decode_for_type bool_decode assign (put_bool v @ rest) = Ok (assign v, Suc 0, 0, rest)"
  "decode_for_primitive get_bool (Suc 0) assign (put_bool v @ rest) = Ok (assign v, Suc 0, 0, rest)"
  by (cases v; simp add: decode_for_type_def decode_for_primitive_def bool_decode_def get_bool_def put_bool_def put_u8_def)+

lemma honest_bool:
  "(\<And>r v rest. arms p r (put_bool v @ rest) = Ok (upd (Some v) r, 1, 0, rest)) \<Longrightarrow>
    \<forall>e \<in> set (entry_opt p put_bool f upd). honest arms e"
  by (rule honest_entry_opt) (simp add: put_bool_def put_u8_def)

lemma honest_type:
  assumes "\<And>r src. arms p r src = decode_for_type dec (\<lambda>v. upd (Some v) r) src"
    and "\<And>v rest. f = Some v \<Longrightarrow> dec (enc v @ rest) = Ok (v, length (enc v), rest)"
  shows "\<forall>e \<in> set (entry_opt p enc f upd). honest arms e"
  by (rule honest_entry_opt) (simp add: assms decode_for_type_def)

lemma honest_string:
  "(\<And>r src. arms p r src = decode_for_type String_decode (\<lambda>v. upd (Some v) r) src) \<Longrightarrow>
    wf_string_opt f \<Longrightarrow> \<forall>e \<in> set (entry_opt p string_bytes f upd). honest arms e"
  by (rule honest_type [where dec = String_decode]) (simp_all add: wf_string_opt_def String_decode_enc)

lemma honest_enum:
  "(\<And>r src. arms p r src = decode_for_type QoSLevel_decode (\<lambda>v. updq (Some v) r) src) \<Longrightarrow>
    \<forall>e \<in> set (entry_opt p (\<lambda>q. put_u8 (QoSLevel_as_u8 q)) q updq). honest arms e"
  "(\<And>r src. arms p r src = decode_for_type PayloadFormat_decode (\<lambda>v. updf (Some v) r) src) \<Longrightarrow>
    \<forall>e \<in> set (entry_opt p (\<lambda>f. put_u8 (PayloadFormat_as_u8 f)) f updf). honest arms e"
  by (rule honest_type [where dec = QoSLevel_decode], simp, simp add: enum_decode_enc)
    (rule honest_type [where dec = PayloadFormat_decode], simp, simp add: enum_decode_enc)

lemma honest_vbi:
  "(\<And>r src. arms p r src = decode_for_type decode_opt_variable_byte_int (\<lambda>v. upd v r) src) \<Longrightarrow>
    vbi_decodable f \<Longrightarrow> \<forall>e \<in> set (entry_opt p vbi_bytes f upd). honest arms e"
  by (rule honest_entry_opt)
    (simp add: vbi_decodable_def decode_for_type_def decode_opt_variable_byte_int_def decode_variable_byte_int_ok)

text \<open>
  The hand-written match arms of \<open>Connect\<close> and \<open>Publish\<close> count a binary property as a property; the
  generated ones do not, which is what \<open>honest\<close> excludes.
\<close>

lemma honest_vec:
  "(\<And>r src. arms p r src = decode_for_type Vec_u8_decode (\<lambda>v. upd v r) src) \<Longrightarrow>
    length field \<le> 65535 \<Longrightarrow> \<forall>e \<in> set (entry_vec p field upd). honest arms e"
  by (simp add: entry_vec_def honest_def decode_for_type_def Vec_u8_decode_enc)

lemma honest_entry_string:
  "(\<And>r src. arms p r src = decode_for_type String_decode (\<lambda>v. upd v r) src) \<Longrightarrow>
    wf_string field \<Longrightarrow> \<forall>e \<in> set (entry_string p field upd). honest arms e"
  by (simp add: entry_string_def honest_def decode_for_type_def String_decode_enc)

lemma vbi_decodable_in_range: "vbi_decodable f \<Longrightarrow> vbi_in_range f"
  by (cases f) (auto simp: vbi_decodable_def vbi_in_range_def)

lemmas honest_rules = honest_entry_string honest_prim honest_bool honest_string honest_enum honest_vbi honest_vec

text \<open>
  The interface between a struct and its generated property code: the entries describe what
  \<open>property_encode\<close> writes, the match arms are honest about them, and replaying them on the blank
  struct restores it.
\<close>

locale property_arms =
  fixes arms :: "'r arms"
    and property_size :: "'r \<Rightarrow> u32"
    and property_fields :: "'r \<Rightarrow> bytes codec_result list"
    and entries :: "'r \<Rightarrow> 'r prop_entry list"
    and blank :: "'r \<Rightarrow> 'r"
    and wf :: "'r \<Rightarrow> bool"
  assumes fields_entries: "wf r \<Longrightarrow> seq_enc (property_fields r) = Ok (entries_bytes (entries r))"
    and size_entries: "wf r \<Longrightarrow> property_size r = of_nat (length (entries_bytes (entries r)))"
    and entries_honest: "wf r \<Longrightarrow> \<forall>e \<in> set (entries r). honest arms e"
    and entries_replay: "wf r \<Longrightarrow> apply_entries (entries r) (blank r) = r"
begin

lemma property_encode_ok:
  "wf r \<Longrightarrow> property_encode_internal (property_size r) (property_fields r) =
    Ok (vbi_bytes (property_size r) @ entries_bytes (entries r))"
  by (simp add: property_encode_internal_def encode_variable_byte_int_def fields_entries)

lemma decode_properties_enc:
  assumes "wf r" and "length (entries_bytes (entries r)) < 2097152"
  shows "decode_properties arms (blank r)
      (vbi_bytes (property_size r) @ entries_bytes (entries r) @ rest) =
    Ok (r, length (vbi_bytes (property_size r)) + length (entries_bytes (entries r)), rest)"
proof -
  have u: "unat (property_size r) = length (entries_bytes (entries r))"
    using assms by (simp add: size_entries byte_simps)
  show ?thesis
    using prop_loop_entries [OF entries_honest [OF assms(1)], where n = 0 and b = 0 and rest = rest] assms
    by (simp add: decode_properties_def decode_variable_byte_int_ok u entries_replay)
qed

end

section \<open>What a packet codec promises to the framing\<close>

text \<open>
  A packet is sent as the byte of its fixed header, the length of its body as a variable byte
  integer, and the body; the packet's own decoder gets exactly the body. \<open>decoded p\<close> is what the
  decoder makes of the body of \<open>p\<close>.
\<close>

locale packet_codec =
  fixes header :: "'p \<Rightarrow> FixedHeader"
    and encode :: "'p \<Rightarrow> bytes codec_result"
    and decode :: "FixedHeader \<Rightarrow> bytes \<Rightarrow> ('p \<times> nat \<times> bytes) codec_result"
    and body :: "'p \<Rightarrow> bytes"
    and decoded :: "'p \<Rightarrow> 'p"
    and sendable :: "'p \<Rightarrow> bool"
  assumes encode_ok: "sendable p \<Longrightarrow>
      encode p = Ok (header_byte (header p) # vbi_bytes (of_nat (length (body p))) @ body p)"
    and decode_body: "sendable p \<Longrightarrow> decode (header p) (body p) = Ok (decoded p, length (body p), [])"
    and body_small: "sendable p \<Longrightarrow> length (body p) < 2097152"
    and header_wf: "sendable p \<Longrightarrow> wf_header (header p)"
begin

definition wire :: "'p \<Rightarrow> bytes" where
  "wire p = header_byte (header p) # vbi_bytes (of_nat (length (body p))) @ body p"

lemma encode_wire: "sendable p \<Longrightarrow> encode p = Ok (wire p)"
  by (simp add: wire_def encode_ok)

end

text \<open>Assembling \<open>encode_ok\<close> for a generated encoder.\<close>

lemma encode_internal_ok:
  assumes "cs = derive_codec_size fs ab nas ps"
    and "sized (seq_enc (hf @ (if ab then [] else pl))) (sum_list fs)"
      "sized (seq_enc na) (sum_list nas)" "sized (seq_enc pf) ps"
    and "unat ps < 268435456"
    and body: "seq_enc (hf @ (if ab then [] else na @ [property_encode_internal ps pf] @ pl)) = Ok body"
  shows "encode_internal (Some (h, cs)) hf ab na [property_encode_internal ps pf] pl =
    Ok (header_byte h # vbi_bytes (of_nat (length body)) @ body)"
proof -
  have e: "encode_internal (Some (h, cs)) hf ab na [property_encode_internal ps pf] pl =
      Ok (header_byte h # vbi_bytes cs @ body)"
    using body by (simp add: encode_internal_def FixedHeader_encode_eq encode_variable_byte_int_def)
  from packet_sized [OF e assms(1-5)] have "cs = of_nat (length body)" by auto
  with e show ?thesis by simp
qed

end
