(* ===== verification/Packet_ConnAck.thy ===== *)
theory Packet_ConnAck
  imports Codec_Macro
begin

text \<open>
  The CONNACK packet (\<open>vaux-mqtt/src/connack.rs\<close>): its struct, the accessors, and the size, encoder
  and decoder that \<open>#[packet]\<close> generates for it.
\<close>

record ConnAck =
  ca_fixed_header :: FixedHeader
  ca_ack_flags :: u8
  ca_reason :: Reason
  ca_session_expiry_interval :: "u32 option"
  ca_receive_maximum :: "u16 option"
  ca_maximum_qos :: "QoSLevel option"
  ca_retain_available :: "bool option"
  ca_maximum_packet_size :: "u32 option"
  ca_assigned_client_id :: "string option"
  ca_topic_alias_maximum :: "u16 option"
  ca_reason_string :: "string option"
  ca_subscription_identifier_available :: "bool option"
  ca_user_properties :: UserProperty
  ca_wildcard_subscription_available :: "bool option"
  ca_shared_subscription_available :: "bool option"
  ca_server_keep_alive :: "u16 option"
  ca_response_information :: "string option"
  ca_server_reference :: "string option"
  ca_auth_method :: "string option"
  ca_auth_data :: bytes

definition CONNACK_SESSION_PRESENT_MASK :: u8 where
  "CONNACK_SESSION_PRESENT_MASK = 0x01"

definition ConnAck_default :: ConnAck where
  "ConnAck_default =
    \<lparr>ca_fixed_header = FixedHeader_new PT_ConnAck, ca_ack_flags = 0, ca_reason = R_Success,
     ca_session_expiry_interval = None, ca_receive_maximum = None, ca_maximum_qos = None,
     ca_retain_available = None, ca_maximum_packet_size = None, ca_assigned_client_id = None,
     ca_topic_alias_maximum = None, ca_reason_string = None,
     ca_subscription_identifier_available = None, ca_user_properties = [],
     ca_wildcard_subscription_available = None, ca_shared_subscription_available = None,
     ca_server_keep_alive = None, ca_response_information = None, ca_server_reference = None,
     ca_auth_method = None, ca_auth_data = []\<rparr>"

definition ConnAck_session_present :: "ConnAck \<Rightarrow> bool" where
  "ConnAck_session_present p \<longleftrightarrow> ca_ack_flags p AND CONNACK_SESSION_PRESENT_MASK \<noteq> 0"

definition ConnAck_set_session_present :: "ConnAck \<Rightarrow> bool \<Rightarrow> ConnAck" where
  "ConnAck_set_session_present p present =
    (if present then p\<lparr>ca_ack_flags := ca_ack_flags p OR CONNACK_SESSION_PRESENT_MASK\<rparr>
     else p\<lparr>ca_ack_flags := ca_ack_flags p AND NOT CONNACK_SESSION_PRESENT_MASK\<rparr>)"

definition ConnAck_set_session_expiry :: "ConnAck \<Rightarrow> u32 \<Rightarrow> ConnAck" where
  "ConnAck_set_session_expiry p interval =
    (if interval = 0 then p\<lparr>ca_session_expiry_interval := None\<rparr>
     else p\<lparr>ca_session_expiry_interval := Some interval\<rparr>)"

definition ConnAck_set_server_keep_alive :: "ConnAck \<Rightarrow> u16 \<Rightarrow> ConnAck" where
  "ConnAck_set_server_keep_alive p keep_alive =
    (if keep_alive = 0 then p\<lparr>ca_server_keep_alive := None\<rparr>
     else p\<lparr>ca_server_keep_alive := Some keep_alive\<rparr>)"

definition ConnAck_set_receive_max :: "ConnAck \<Rightarrow> u16 \<Rightarrow> ConnAck" where
  "ConnAck_set_receive_max p mx =
    (if mx = 0 then p\<lparr>ca_receive_maximum := None\<rparr> else p\<lparr>ca_receive_maximum := Some mx\<rparr>)"

definition ConnAck_property_size :: "ConnAck \<Rightarrow> u32" where
  "ConnAck_property_size p = sum_list
    [size_for_primitive_property_opt (map_option Prim_u32 (ca_session_expiry_interval p)),
     size_for_primitive_property_opt (map_option Prim_u16 (ca_receive_maximum p)),
     size_for_codec_size_opt QoSLevel_property_size (ca_maximum_qos p),
     size_for_primitive_property_opt (map_option Prim_bool (ca_retain_available p)),
     size_for_primitive_property_opt (map_option Prim_u32 (ca_maximum_packet_size p)),
     size_for_string_property_opt (ca_assigned_client_id p),
     size_for_primitive_property_opt (map_option Prim_u16 (ca_topic_alias_maximum p)),
     size_for_string_property_opt (ca_reason_string p),
     size_for_primitive_property_opt (map_option Prim_bool (ca_subscription_identifier_available p)),
     UserProperty_property_size (ca_user_properties p),
     size_for_primitive_property_opt (map_option Prim_bool (ca_wildcard_subscription_available p)),
     size_for_primitive_property_opt (map_option Prim_bool (ca_shared_subscription_available p)),
     size_for_primitive_property_opt (map_option Prim_u16 (ca_server_keep_alive p)),
     size_for_string_property_opt (ca_response_information p),
     size_for_string_property_opt (ca_server_reference p),
     size_for_string_property_opt (ca_auth_method p),
     skip_if_size (ca_auth_data p = []) (size_for_vec_u8 True (ca_auth_data p))]"

definition ConnAck_property_fields :: "ConnAck \<Rightarrow> bytes codec_result list" where
  "ConnAck_property_fields p =
    [encode_for_primitive_opt (Some P_SessionExpiryInterval) (map_option Prim_u32 (ca_session_expiry_interval p)),
     encode_for_primitive_opt (Some P_RecvMax) (map_option Prim_u16 (ca_receive_maximum p)),
     encode_for_option (Some P_MaxQoS) QoSLevel_encode (ca_maximum_qos p),
     encode_for_primitive_opt (Some P_RetainAvail) (map_option Prim_bool (ca_retain_available p)),
     encode_for_primitive_opt (Some P_MaxPacketSize) (map_option Prim_u32 (ca_maximum_packet_size p)),
     encode_for_string_opt (Some P_AssignedClientId) (ca_assigned_client_id p),
     encode_for_primitive_opt (Some P_TopicAliasMax) (map_option Prim_u16 (ca_topic_alias_maximum p)),
     encode_for_string_opt (Some P_ReasonString) (ca_reason_string p),
     encode_for_primitive_opt (Some P_SubIdAvail) (map_option Prim_bool (ca_subscription_identifier_available p)),
     UserProperty_encode (ca_user_properties p),
     encode_for_primitive_opt (Some P_WildcardSubAvail) (map_option Prim_bool (ca_wildcard_subscription_available p)),
     encode_for_primitive_opt (Some P_ShardSubAvail) (map_option Prim_bool (ca_shared_subscription_available p)),
     encode_for_primitive_opt (Some P_KeepAlive) (map_option Prim_u16 (ca_server_keep_alive p)),
     encode_for_string_opt (Some P_RespInfo) (ca_response_information p),
     encode_for_string_opt (Some P_ServerReference) (ca_server_reference p),
     encode_for_string_opt (Some P_AuthMethod) (ca_auth_method p),
     skip_if (ca_auth_data p = []) (encode_for_vec_u8 (Some P_AuthData) (ca_auth_data p))]"

text \<open>The fields outside the properties.\<close>

definition ConnAck_field_sizes :: "ConnAck \<Rightarrow> u32 list" where
  "ConnAck_field_sizes p = [prim_size (Prim_u8 (ca_ack_flags p)), Reason_codec_size (ca_reason p)]"

definition ConnAck_header_fields :: "ConnAck \<Rightarrow> bytes codec_result list" where
  "ConnAck_header_fields p =
    [encode_for_primitive None (Prim_u8 (ca_ack_flags p)), Reason_encode (ca_reason p)]"

definition ConnAck_codec_size :: "ConnAck \<Rightarrow> u32" where
  "ConnAck_codec_size p = derive_codec_size (ConnAck_field_sizes p) False [] (ConnAck_property_size p)"

definition ConnAck_encode :: "ConnAck \<Rightarrow> bytes codec_result" where
  "ConnAck_encode p =
    encode_internal (Some (ca_fixed_header p, ConnAck_codec_size p))
      (ConnAck_header_fields p) False []
      [property_encode_internal (ConnAck_property_size p) (ConnAck_property_fields p)] []"

definition ConnAck_arms :: "ConnAck arms" where
  "ConnAck_arms property_type self src =
    (case property_type of
       P_SessionExpiryInterval \<Rightarrow>
         decode_for_type u32_decode (\<lambda>v. self\<lparr>ca_session_expiry_interval := Some v\<rparr>) src
     | P_RecvMax \<Rightarrow> decode_for_type u16_decode (\<lambda>v. self\<lparr>ca_receive_maximum := Some v\<rparr>) src
     | P_MaxQoS \<Rightarrow> decode_for_type QoSLevel_decode (\<lambda>v. self\<lparr>ca_maximum_qos := Some v\<rparr>) src
     | P_RetainAvail \<Rightarrow> decode_for_type bool_decode (\<lambda>v. self\<lparr>ca_retain_available := Some v\<rparr>) src
     | P_MaxPacketSize \<Rightarrow>
         decode_for_type u32_decode (\<lambda>v. self\<lparr>ca_maximum_packet_size := Some v\<rparr>) src
     | P_AssignedClientId \<Rightarrow>
         decode_for_type String_decode (\<lambda>v. self\<lparr>ca_assigned_client_id := Some v\<rparr>) src
     | P_TopicAliasMax \<Rightarrow>
         decode_for_type u16_decode (\<lambda>v. self\<lparr>ca_topic_alias_maximum := Some v\<rparr>) src
     | P_ReasonString \<Rightarrow> decode_for_type String_decode (\<lambda>v. self\<lparr>ca_reason_string := Some v\<rparr>) src
     | P_SubIdAvail \<Rightarrow>
         decode_for_type bool_decode (\<lambda>v. self\<lparr>ca_subscription_identifier_available := Some v\<rparr>) src
     | P_UserProperty \<Rightarrow>
         decode_for_type (UserProperty_decode (ca_user_properties self))
           (\<lambda>v. self\<lparr>ca_user_properties := v\<rparr>) src
     | P_WildcardSubAvail \<Rightarrow>
         decode_for_type bool_decode (\<lambda>v. self\<lparr>ca_wildcard_subscription_available := Some v\<rparr>) src
     | P_ShardSubAvail \<Rightarrow>
         decode_for_type bool_decode (\<lambda>v. self\<lparr>ca_shared_subscription_available := Some v\<rparr>) src
     | P_KeepAlive \<Rightarrow> decode_for_type u16_decode (\<lambda>v. self\<lparr>ca_server_keep_alive := Some v\<rparr>) src
     | P_RespInfo \<Rightarrow> decode_for_type String_decode (\<lambda>v. self\<lparr>ca_response_information := Some v\<rparr>) src
     | P_ServerReference \<Rightarrow>
         decode_for_type String_decode (\<lambda>v. self\<lparr>ca_server_reference := Some v\<rparr>) src
     | P_AuthMethod \<Rightarrow> decode_for_type String_decode (\<lambda>v. self\<lparr>ca_auth_method := Some v\<rparr>) src
     | P_AuthData \<Rightarrow> decode_for_vec_u8 (\<lambda>v. self\<lparr>ca_auth_data := v\<rparr>) src
     | _ \<Rightarrow> unsupported_property property_type)"

definition ConnAck_decode :: "ConnAck \<Rightarrow> bytes \<Rightarrow> (ConnAck \<times> nat \<times> bytes) codec_result" where
  "ConnAck_decode self src =
    bind (get_u8 src) (\<lambda>(v, src).
    bind (Reason_decode src) (\<lambda>(r, n, src).
    bind (decode_properties ConnAck_arms (self\<lparr>ca_ack_flags := v, ca_reason := r\<rparr>) src) (\<lambda>(self, m, src).
      Ok (self, 1 + n + m, src))))"

section \<open>Accessors\<close>

lemma ConnAck_session_present_set [simp]:
  "ConnAck_session_present (ConnAck_set_session_present p b) = b"
proof -
  have one: "(f OR m) AND m = m" "(f AND NOT m) AND m = (0 :: u8)" for f m :: u8
    by (auto simp: bit_eq_iff bit_simps)
  show ?thesis
    by (cases b)
      (simp_all add: ConnAck_session_present_def ConnAck_set_session_present_def one,
        simp add: CONNACK_SESSION_PRESENT_MASK_def)
qed

section \<open>Size and round trip\<close>

text \<open>The properties of a packet the generated decoder reads back: no user property, no authentication data.\<close>

definition ConnAck_wf :: "ConnAck \<Rightarrow> bool" where
  "ConnAck_wf p \<longleftrightarrow>
    ca_user_properties p = [] \<and> ca_auth_data p = [] \<and>
    wf_string_opt (ca_assigned_client_id p) \<and> wf_string_opt (ca_reason_string p) \<and>
    wf_string_opt (ca_response_information p) \<and> wf_string_opt (ca_server_reference p) \<and>
    wf_string_opt (ca_auth_method p)"

definition ConnAck_entries :: "ConnAck \<Rightarrow> ConnAck prop_entry list" where
  "ConnAck_entries p =
    entry_opt P_SessionExpiryInterval put_u32 (ca_session_expiry_interval p) (\<lambda>v r. r\<lparr>ca_session_expiry_interval := v\<rparr>) @
    entry_opt P_RecvMax put_u16 (ca_receive_maximum p) (\<lambda>v r. r\<lparr>ca_receive_maximum := v\<rparr>) @
    entry_opt P_MaxQoS (\<lambda>q. put_u8 (QoSLevel_as_u8 q)) (ca_maximum_qos p) (\<lambda>v r. r\<lparr>ca_maximum_qos := v\<rparr>) @
    entry_opt P_RetainAvail put_bool (ca_retain_available p) (\<lambda>v r. r\<lparr>ca_retain_available := v\<rparr>) @
    entry_opt P_MaxPacketSize put_u32 (ca_maximum_packet_size p) (\<lambda>v r. r\<lparr>ca_maximum_packet_size := v\<rparr>) @
    entry_opt P_AssignedClientId string_bytes (ca_assigned_client_id p) (\<lambda>v r. r\<lparr>ca_assigned_client_id := v\<rparr>) @
    entry_opt P_TopicAliasMax put_u16 (ca_topic_alias_maximum p) (\<lambda>v r. r\<lparr>ca_topic_alias_maximum := v\<rparr>) @
    entry_opt P_ReasonString string_bytes (ca_reason_string p) (\<lambda>v r. r\<lparr>ca_reason_string := v\<rparr>) @
    entry_opt P_SubIdAvail put_bool (ca_subscription_identifier_available p) (\<lambda>v r. r\<lparr>ca_subscription_identifier_available := v\<rparr>) @
    entry_opt P_WildcardSubAvail put_bool (ca_wildcard_subscription_available p) (\<lambda>v r. r\<lparr>ca_wildcard_subscription_available := v\<rparr>) @
    entry_opt P_ShardSubAvail put_bool (ca_shared_subscription_available p) (\<lambda>v r. r\<lparr>ca_shared_subscription_available := v\<rparr>) @
    entry_opt P_KeepAlive put_u16 (ca_server_keep_alive p) (\<lambda>v r. r\<lparr>ca_server_keep_alive := v\<rparr>) @
    entry_opt P_RespInfo string_bytes (ca_response_information p) (\<lambda>v r. r\<lparr>ca_response_information := v\<rparr>) @
    entry_opt P_ServerReference string_bytes (ca_server_reference p) (\<lambda>v r. r\<lparr>ca_server_reference := v\<rparr>) @
    entry_opt P_AuthMethod string_bytes (ca_auth_method p) (\<lambda>v r. r\<lparr>ca_auth_method := v\<rparr>)"

text \<open>The struct as \<open>decode\<close> has it when the properties begin.\<close>

definition ConnAck_blank :: "ConnAck \<Rightarrow> ConnAck" where
  "ConnAck_blank p = ConnAck_default\<lparr>ca_fixed_header := ca_fixed_header p,
    ca_ack_flags := ca_ack_flags p, ca_reason := ca_reason p\<rparr>"

lemma ConnAck_fields_sized: "sized (seq_enc (ConnAck_property_fields p)) (ConnAck_property_size p)"
  unfolding ConnAck_property_fields_def ConnAck_property_size_def by (rule sized_seq) simp

lemma ConnAck_fields_entries:
  "ConnAck_wf p \<Longrightarrow> seq_enc (ConnAck_property_fields p) = Ok (entries_bytes (ConnAck_entries p))"
  by (simp add: ConnAck_wf_def ConnAck_property_fields_def ConnAck_entries_def entry_simps)

interpretation connack: property_arms ConnAck_arms ConnAck_property_size ConnAck_property_fields
  ConnAck_entries ConnAck_blank ConnAck_wf
proof
  fix p assume wf: "ConnAck_wf p"
  then show enc: "seq_enc (ConnAck_property_fields p) = Ok (entries_bytes (ConnAck_entries p))"
    by (rule ConnAck_fields_entries)
  show "ConnAck_property_size p = of_nat (length (entries_bytes (ConnAck_entries p)))"
    by (rule sizedD [OF ConnAck_fields_sized enc])
  show "\<forall>e \<in> set (ConnAck_entries p). honest ConnAck_arms e"
    using wf unfolding ConnAck_entries_def set_append ball_Un ConnAck_wf_def
    by (intro conjI honest_rules) (simp_all add: ConnAck_arms_def)
  show "apply_entries (ConnAck_entries p) (ConnAck_blank p) = p"
    using wf by (cases p) (simp add: ConnAck_entries_def ConnAck_blank_def ConnAck_default_def ConnAck_wf_def)
qed

definition ConnAck_body :: "ConnAck \<Rightarrow> bytes" where
  "ConnAck_body p = put_u8 (ca_ack_flags p) @ put_u8 (Reason_as_u8 (ca_reason p)) @
    vbi_bytes (ConnAck_property_size p) @ entries_bytes (ConnAck_entries p)"

text \<open>A CONNACK that survives the wire: built on the default header and short enough to be framed.\<close>

definition ConnAck_sendable :: "ConnAck \<Rightarrow> bool" where
  "ConnAck_sendable p \<longleftrightarrow> ConnAck_wf p \<and> ca_fixed_header p = FixedHeader_new PT_ConnAck \<and>
    length (ConnAck_body p) < 2097152"

lemma ConnAck_header_sized: "sized (seq_enc (ConnAck_header_fields p)) (sum_list (ConnAck_field_sizes p))"
  unfolding ConnAck_header_fields_def ConnAck_field_sizes_def
  by (rule sized_seq) (simp del: prim_size.simps)

lemma ConnAck_encode_framed:
  assumes "ConnAck_encode p = Ok bs" and "unat (ConnAck_property_size p) < 268435456"
  shows "\<exists>body. bs = header_byte (ca_fixed_header p) # vbi_bytes (ConnAck_codec_size p) @ body \<and>
    ConnAck_codec_size p = of_nat (length body)"
  by (rule packet_sized [OF assms(1) [unfolded ConnAck_encode_def] ConnAck_codec_size_def])
    (use assms(2) in \<open>simp_all add: ConnAck_header_sized ConnAck_fields_sized\<close>)

interpretation connack: packet_codec ca_fixed_header ConnAck_encode "\<lambda>h. ConnAck_decode ConnAck_default"
  ConnAck_body "\<lambda>p. p" ConnAck_sendable
proof
  fix p assume s: "ConnAck_sendable p"
  then have wf: "ConnAck_wf p" and small: "length (ConnAck_body p) < 2097152"
    and h: "ca_fixed_header p = FixedHeader_new PT_ConnAck"
    by (auto simp: ConnAck_sendable_def)
  have e: "length (entries_bytes (ConnAck_entries p)) < 2097152" using small by (simp add: ConnAck_body_def)
  have ps: "unat (ConnAck_property_size p) < 268435456"
    using connack.size_entries [OF wf] e by (simp add: byte_simps)
  have header: "seq_enc (ConnAck_header_fields p) =
      Ok (put_u8 (ca_ack_flags p) @ put_u8 (Reason_as_u8 (ca_reason p)))"
    by (simp add: ConnAck_header_fields_def encode_for_primitive_def prop_ident_encode_def Reason_encode_def)
  show "ConnAck_encode p =
      Ok (header_byte (ca_fixed_header p) # vbi_bytes (of_nat (length (ConnAck_body p))) @ ConnAck_body p)"
    unfolding ConnAck_encode_def
    by (rule encode_internal_ok [OF ConnAck_codec_size_def])
      (use ps ConnAck_header_sized [of p] in \<open>simp_all add: ConnAck_fields_sized ConnAck_body_def
        seq_enc_append connack.property_encode_ok [OF wf] header\<close>)
  have "ConnAck_default\<lparr>ca_ack_flags := ca_ack_flags p, ca_reason := ca_reason p\<rparr> = ConnAck_blank p"
    by (simp add: ConnAck_blank_def ConnAck_default_def h)
  then show "ConnAck_decode ConnAck_default (ConnAck_body p) = Ok (p, length (ConnAck_body p), [])"
    using connack.decode_properties_enc [OF wf e, of "[]"]
    by (simp add: ConnAck_decode_def ConnAck_body_def get_put_u8 enum_decode_enc)
  show "length (ConnAck_body p) < 2097152" by (rule small)
  show "wf_header (ca_fixed_header p)" by (simp add: h)
qed

text \<open>
  Authentication data does not survive: the generated arm leaves its bytes out of
  \<open>property_bytes_read\<close>, and the loop then reads past the end of the packet.
\<close>

lemma ConnAck_auth_data_panics:
  assumes wf: "ConnAck_wf (p\<lparr>ca_auth_data := []\<rparr>)" and d: "ca_auth_data p \<noteq> []" "length (ca_auth_data p) \<le> 65535"
    and enc: "seq_enc (ConnAck_property_fields p) = Ok props" and small: "length props < 2097152"
  shows "decode_properties ConnAck_arms self (vbi_bytes (ConnAck_property_size p) @ props) = Panic"
proof -
  let ?q = "p\<lparr>ca_auth_data := []\<rparr>"
  have props: "props = entries_bytes (ConnAck_entries ?q) @ put_u8 (PropertyType_as_u8 P_AuthData) @
      array_bytes (ca_auth_data p)"
    using wf enc d
    by (simp add: ConnAck_wf_def ConnAck_property_fields_def ConnAck_entries_def entry_simps
        skip_if_def encode_for_vec_u8_def prop_ident_encode_def)
  have u: "unat (ConnAck_property_size p) = length props"
    using sizedD [OF ConnAck_fields_sized enc] small by (simp add: byte_simps)
  have "prop_loop ConnAck_arms (length props) 0 0 self props = Panic"
    unfolding props
    by (rule prop_loop_vec_last_panics [OF connack.entries_honest [OF wf], where upd = "\<lambda>v r. r\<lparr>ca_auth_data := v\<rparr>"])
      (use d in \<open>simp_all add: ConnAck_arms_def\<close>)
  then show ?thesis
    using u small by (simp add: decode_properties_def decode_variable_byte_int_ok)
qed

end
