(* ===== verification/Packet_Resp.thy ===== *)
theory Packet_Resp
  imports Codec_Macro
begin

text \<open>
  The packets with an abbreviated form: PUBACK, PUBREC, PUBREL and PUBCOMP, which share the struct
  \<open>PubResp\<close> (\<open>vaux-mqtt/src/pubresp.rs\<close>), and DISCONNECT (\<open>vaux-mqtt/src/disconnect.rs\<close>).
\<close>

section \<open>PUBACK, PUBREC, PUBREL, PUBCOMP\<close>

record PubResp =
  pr_fixed_header :: FixedHeader
  pr_packet_id :: u16
  pr_reason :: "Reason option"
  pr_reason_desc :: "string option"
  pr_user_properties :: UserProperty

text \<open>\<open>derive(Default)\<close>: the header is \<open>FixedHeader::default()\<close>, whose type is \<open>Connect\<close>.\<close>

definition PubResp_default :: PubResp where
  "PubResp_default =
    \<lparr>pr_fixed_header = FixedHeader_default, pr_packet_id = 0, pr_reason = None,
     pr_reason_desc = None, pr_user_properties = []\<rparr>"

definition PubResp_new_puback_with_packet_id :: "u16 \<Rightarrow> PubResp" where
  "PubResp_new_puback_with_packet_id pid =
    PubResp_default\<lparr>pr_fixed_header := FixedHeader_new PT_PubAck, pr_packet_id := pid\<rparr>"

definition PubResp_new_pubrec_with_packet_id :: "u16 \<Rightarrow> PubResp" where
  "PubResp_new_pubrec_with_packet_id pid =
    PubResp_default\<lparr>pr_fixed_header := FixedHeader_new PT_PubRec, pr_packet_id := pid\<rparr>"

definition PubResp_new_pubrel_with_packet_id :: "u16 \<Rightarrow> PubResp" where
  "PubResp_new_pubrel_with_packet_id pid =
    PubResp_default\<lparr>pr_fixed_header := FixedHeader_new PT_PubRel, pr_packet_id := pid\<rparr>"

definition PubResp_new_pubcomp_with_packet_id :: "u16 \<Rightarrow> PubResp" where
  "PubResp_new_pubcomp_with_packet_id pid =
    PubResp_default\<lparr>pr_fixed_header := FixedHeader_new PT_PubComp, pr_packet_id := pid\<rparr>"

definition PubResp_new_with_fixed_header :: "FixedHeader \<Rightarrow> PubResp codec_result" where
  "PubResp_new_with_fixed_header h =
    (if fh_packet_type h \<in> {PT_PubAck, PT_PubRec, PT_PubComp, PT_PubRel}
     then Ok (PubResp_default\<lparr>pr_fixed_header := h\<rparr>)
     else Err EK_InvalidPacket)"

definition PubResp_supported_reason :: "PubResp \<Rightarrow> Reason \<Rightarrow> bool" where
  "PubResp_supported_reason p reason =
    (case fh_packet_type (pr_fixed_header p) of
       PT_PubAck \<Rightarrow> reason \<in> {R_Success, R_NoSubscribers, R_UnspecifiedErr, R_ImplementationErr,
         R_NotAuthorized, R_InvalidTopicName, R_PacketIdInUse, R_QuotaExceeded, R_PayloadFormatErr}
     | PT_PubRec \<Rightarrow> reason \<in> {R_Success, R_NoSubscribers, R_UnspecifiedErr, R_ImplementationErr,
         R_NotAuthorized, R_InvalidTopicName, R_PacketIdInUse, R_QuotaExceeded, R_PayloadFormatErr}
     | PT_PubComp \<Rightarrow> reason \<in> {R_Success, R_PacketIdInUse}
     | PT_PubRel \<Rightarrow> reason \<in> {R_Success, R_PacketIdInUse}
     | _ \<Rightarrow> False)"

definition PubResp_set_reason :: "PubResp \<Rightarrow> Reason \<Rightarrow> PubResp codec_result" where
  "PubResp_set_reason p reason =
    (if PubResp_supported_reason p reason then Ok (p\<lparr>pr_reason := Some reason\<rparr>)
     else Err (EK_UnsupportedReason (Reason_as_u8 reason)))"

definition PubResp_property_size :: "PubResp \<Rightarrow> u32" where
  "PubResp_property_size p = sum_list
    [size_for_string_property_opt (pr_reason_desc p),
     UserProperty_property_size (pr_user_properties p)]"

definition PubResp_property_fields :: "PubResp \<Rightarrow> bytes codec_result list" where
  "PubResp_property_fields p =
    [encode_for_string_opt (Some P_ReasonString) (pr_reason_desc p),
     UserProperty_encode (pr_user_properties p)]"

definition PubResp_arms :: "PubResp arms" where
  "PubResp_arms property_type self src =
    (case property_type of
       P_ReasonString \<Rightarrow>
         decode_for_type String_decode (\<lambda>v. self\<lparr>pr_reason_desc := Some v\<rparr>) src
     | P_UserProperty \<Rightarrow>
         decode_for_type (UserProperty_decode (pr_user_properties self)) (\<lambda>v. self\<lparr>pr_user_properties := v\<rparr>) src
     | _ \<Rightarrow> unsupported_property property_type)"

text \<open>\<open>abbreviated_when\<close>: success, and no property.\<close>

definition PubResp_abbreviated :: "PubResp \<Rightarrow> bool" where
  "PubResp_abbreviated p \<longleftrightarrow>
    (case pr_reason p of Some r \<Rightarrow> r | None \<Rightarrow> R_Success) = R_Success \<and> PubResp_property_size p = 0"

definition PubResp_codec_size :: "PubResp \<Rightarrow> u32" where
  "PubResp_codec_size p =
    derive_codec_size [prim_size (Prim_u16 (pr_packet_id p))] (PubResp_abbreviated p)
      [size_for_codec_size_opt Reason_codec_size (pr_reason p)] (PubResp_property_size p)"

definition PubResp_encode :: "PubResp \<Rightarrow> bytes codec_result" where
  "PubResp_encode p =
    encode_internal (Some (pr_fixed_header p, PubResp_codec_size p))
      [encode_for_primitive None (Prim_u16 (pr_packet_id p))] (PubResp_abbreviated p)
      [encode_for_option None Reason_encode (pr_reason p)]
      [property_encode_internal (PubResp_property_size p) (PubResp_property_fields p)] []"

definition PubResp_decode :: "PubResp \<Rightarrow> bytes \<Rightarrow> (PubResp \<times> nat \<times> bytes) codec_result" where
  "PubResp_decode self src =
    bind (get_u16 src) (\<lambda>(v, src).
      let self = self\<lparr>pr_packet_id := v\<rparr> in
      if src = [] then Ok (self, 2, src)
      else
        bind (Reason_decode src) (\<lambda>(r, n, src).
        bind (decode_properties PubResp_arms (self\<lparr>pr_reason := Some r\<rparr>) src) (\<lambda>(self, m, src).
          Ok (self, 2 + n + m, src))))"

text \<open>Properties the generated decoder reads back: no user property.\<close>

definition PubResp_wf :: "PubResp \<Rightarrow> bool" where
  "PubResp_wf p \<longleftrightarrow> wf_string_opt (pr_reason_desc p) \<and>
    pr_user_properties p = []"

definition PubResp_entries :: "PubResp \<Rightarrow> PubResp prop_entry list" where
  "PubResp_entries p =
    entry_opt P_ReasonString string_bytes (pr_reason_desc p) (\<lambda>v r. r\<lparr>pr_reason_desc := v\<rparr>)"

text \<open>The struct as \<open>decode\<close> has it when the properties begin.\<close>

definition PubResp_blank :: "PubResp \<Rightarrow> PubResp" where
  "PubResp_blank p = PubResp_default\<lparr>pr_fixed_header := pr_fixed_header p, pr_packet_id := pr_packet_id p,
    pr_reason := pr_reason p\<rparr>"

lemma PubResp_fields_sized:
  "sized (seq_enc (PubResp_property_fields p)) (PubResp_property_size p)"
  unfolding PubResp_property_fields_def PubResp_property_size_def by (rule sized_seq) simp

lemma PubResp_fields_entries:
  "PubResp_wf p \<Longrightarrow> seq_enc (PubResp_property_fields p) = Ok (entries_bytes (PubResp_entries p))"
  by (simp add: PubResp_wf_def PubResp_property_fields_def PubResp_entries_def entry_simps)

interpretation pubresp: property_arms PubResp_arms PubResp_property_size PubResp_property_fields
  PubResp_entries PubResp_blank PubResp_wf
proof
  fix p assume wf: "PubResp_wf p"
  from wf show enc: "seq_enc (PubResp_property_fields p) = Ok (entries_bytes (PubResp_entries p))"
    by (rule PubResp_fields_entries)
  show "PubResp_property_size p = of_nat (length (entries_bytes (PubResp_entries p)))"
    by (rule sizedD [OF PubResp_fields_sized enc])
  show "\<forall>e \<in> set (PubResp_entries p). honest PubResp_arms e"
    using wf unfolding PubResp_entries_def PubResp_wf_def
    by (intro honest_rules) (simp_all add: PubResp_arms_def)
  show "apply_entries (PubResp_entries p) (PubResp_blank p) = p"
    using wf by (cases p) (simp add: PubResp_entries_def PubResp_blank_def PubResp_default_def PubResp_wf_def)
qed

lemma sized_prim_field:
  "sized (seq_enc [encode_for_primitive None (Prim_u16 v)]) (sum_list [prim_size (Prim_u16 v)])"
  by (rule sized_seq) (simp del: prim_size.simps)

lemma sized_reason_opt_field:
  "sized (seq_enc [encode_for_option None Reason_encode r]) (sum_list [size_for_codec_size_opt Reason_codec_size r])"
  by (rule sized_seq) simp

lemma PubResp_encode_framed:
  assumes "PubResp_encode p = Ok bs" and "unat (PubResp_property_size p) < 268435456"
  shows "\<exists>body. bs = header_byte (pr_fixed_header p) # vbi_bytes (PubResp_codec_size p) @ body \<and>
    PubResp_codec_size p = of_nat (length body)"
  by (rule packet_sized [OF assms(1) [unfolded PubResp_encode_def] PubResp_codec_size_def])
    (use assms(2) sized_prim_field [of "pr_packet_id p"] in
      \<open>simp_all only: sized_reason_opt_field PubResp_fields_sized append_Nil2 if_cancel\<close>)

definition PubResp_body :: "PubResp \<Rightarrow> bytes" where
  "PubResp_body p = put_u16 (pr_packet_id p) @
    (if PubResp_abbreviated p then []
     else (case pr_reason p of Some r \<Rightarrow> put_u8 (Reason_as_u8 r) | None \<Rightarrow> []) @
       vbi_bytes (PubResp_property_size p) @ entries_bytes (PubResp_entries p))"

text \<open>
  What the decoder makes of the body: the header is the one of \<open>PubResp::default()\<close>, and the
  abbreviated form decodes to no reason.
\<close>

definition PubResp_decoded :: "PubResp \<Rightarrow> PubResp" where
  "PubResp_decoded p =
    (if PubResp_abbreviated p then PubResp_default\<lparr>pr_packet_id := pr_packet_id p\<rparr>
     else p\<lparr>pr_fixed_header := FixedHeader_default\<rparr>)"

text \<open>A response that is written out in full needs a reason code, which the encoder skips when it is \<open>None\<close>.\<close>

definition PubResp_sendable :: "PubResp \<Rightarrow> bool" where
  "PubResp_sendable p \<longleftrightarrow> PubResp_wf p \<and> wf_header (pr_fixed_header p) \<and>
    (PubResp_abbreviated p \<or> pr_reason p \<noteq> None) \<and> length (PubResp_body p) < 2097152"

text \<open>
  So a decoded response is the one that was sent but for its fixed header, which is the default one because
  \<open>decode\<close> starts from \<open>PubAck::default()\<close>, and for a success reason in the abbreviated form.
\<close>

lemma PubResp_decoded_eq:
  assumes "PubResp_sendable p"
  shows "PubResp_decoded p = p\<lparr>pr_fixed_header := FixedHeader_default,
    pr_reason := (if pr_reason p = Some R_Success \<and> pr_reason_desc p = None then None else pr_reason p)\<rparr>"
proof -
  have wf: "wf_string_opt (pr_reason_desc p)" "pr_user_properties p = []" and r: "PubResp_abbreviated p \<or> pr_reason p \<noteq> None"
    using assms by (simp_all add: PubResp_sendable_def PubResp_wf_def)
  have "size_for_string_property_opt (Some s) \<noteq> 0" if "wf_string s" for s
    using that by (auto simp: size_for_string_property_opt_def wf_string_def word_unat_eq_iff unat_word_ariths unat_of_nat)
  then have "PubResp_property_size p = 0 \<longleftrightarrow> pr_reason_desc p = None"
    using wf by (cases "pr_reason_desc p") (auto simp: PubResp_property_size_def UserProperty_property_size_def UserProperty_pairs_def size_for_string_property_opt_def wf_string_opt_def)
  with r wf(2) show ?thesis
    by (cases "pr_reason p") (auto simp: PubResp_decoded_def PubResp_abbreviated_def PubResp_default_def)
qed

lemma PubResp_decode_body:
  assumes "PubResp_sendable p"
  shows "PubResp_decode PubResp_default (PubResp_body p) = Ok (PubResp_decoded p, length (PubResp_body p), [])"
proof (cases "PubResp_abbreviated p")
  case True
  then show ?thesis
    by (simp add: PubResp_decode_def PubResp_body_def PubResp_decoded_def Let_def
        get_put_u16 [where rest = "[]", simplified])
next
  case False
  with assms obtain r where r: "pr_reason p = Some r" and wf: "PubResp_wf p"
    and small: "length (entries_bytes (PubResp_entries p)) < 2097152"
    by (auto simp: PubResp_sendable_def PubResp_body_def)
  let ?q = "p\<lparr>pr_fixed_header := FixedHeader_default\<rparr>"
  have q: "PubResp_wf ?q" "PubResp_entries ?q = PubResp_entries p" "PubResp_property_size ?q = PubResp_property_size p"
    using wf by (simp_all add: PubResp_wf_def PubResp_entries_def PubResp_property_size_def)
  have blank: "PubResp_blank ?q = PubResp_default\<lparr>pr_packet_id := pr_packet_id p, pr_reason := Some r\<rparr>"
    by (simp add: PubResp_blank_def PubResp_default_def r)
  from pubresp.decode_properties_enc [OF q(1), of "[]"] small False show ?thesis
    by (simp add: PubResp_decode_def PubResp_body_def PubResp_decoded_def Let_def r q blank get_put_u16
        enum_decode_enc put_u8_def [symmetric] append_Cons [symmetric] del: append_Cons)
qed

interpretation pubresp: packet_codec pr_fixed_header PubResp_encode "\<lambda>h. PubResp_decode PubResp_default"
  PubResp_body PubResp_decoded PubResp_sendable
proof
  fix p assume s: "PubResp_sendable p"
  then have wf: "PubResp_wf p" and small: "length (PubResp_body p) < 2097152"
    and h: "wf_header (pr_fixed_header p)"
    by (auto simp: PubResp_sendable_def)
  have "unat (PubResp_property_size p) < 268435456"
  proof (cases "PubResp_abbreviated p")
    case False
    with small pubresp.size_entries [OF wf] show ?thesis by (simp add: PubResp_body_def byte_simps)
  qed (simp add: PubResp_abbreviated_def)
  then show "PubResp_encode p =
      Ok (header_byte (pr_fixed_header p) # vbi_bytes (of_nat (length (PubResp_body p))) @ PubResp_body p)"
    unfolding PubResp_encode_def
    by (intro encode_internal_ok [OF PubResp_codec_size_def])
      (use sized_prim_field [of "pr_packet_id p"] in
        \<open>simp_all only: sized_reason_opt_field PubResp_fields_sized append_Nil2 if_cancel\<close>,
        auto simp: PubResp_body_def encode_for_primitive_def prop_ident_encode_def encode_for_option_def
          Reason_encode_def pubresp.property_encode_ok [OF wf] split: option.splits)
  show "PubResp_decode PubResp_default (PubResp_body p) = Ok (PubResp_decoded p, length (PubResp_body p), [])"
    using s by (rule PubResp_decode_body)
qed (auto simp: PubResp_sendable_def)

section \<open>DISCONNECT\<close>

record Disconnect =
  dc_fixed_header :: FixedHeader
  dc_reason :: Reason
  dc_session_expiry_interval :: "u32 option"
  dc_reason_string :: "string option"
  dc_server_reference :: "string option"
  dc_user_properties :: UserProperty

definition Disconnect_default :: Disconnect where
  "Disconnect_default =
    \<lparr>dc_fixed_header = FixedHeader_new PT_Disconnect, dc_reason = R_NormalDisconnect,
     dc_session_expiry_interval = None, dc_reason_string = None, dc_server_reference = None,
     dc_user_properties = []\<rparr>"

definition Disconnect_new :: "Reason \<Rightarrow> Disconnect" where
  "Disconnect_new reason = Disconnect_default\<lparr>dc_fixed_header := FixedHeader_new PT_Disconnect, dc_reason := reason\<rparr>"

definition Disconnect_new_with_fixed_header :: "FixedHeader \<Rightarrow> Disconnect codec_result" where
  "Disconnect_new_with_fixed_header h = Ok (Disconnect_default\<lparr>dc_fixed_header := h\<rparr>)"

definition Disconnect_property_size :: "Disconnect \<Rightarrow> u32" where
  "Disconnect_property_size p = sum_list
    [size_for_primitive_property_opt (map_option Prim_u32 (dc_session_expiry_interval p)),
     size_for_string_property_opt (dc_reason_string p),
     size_for_string_property_opt (dc_server_reference p),
     UserProperty_property_size (dc_user_properties p)]"

definition Disconnect_property_fields :: "Disconnect \<Rightarrow> bytes codec_result list" where
  "Disconnect_property_fields p =
    [encode_for_primitive_opt (Some P_SessionExpiryInterval) (map_option Prim_u32 (dc_session_expiry_interval p)),
     encode_for_string_opt (Some P_ReasonString) (dc_reason_string p),
     encode_for_string_opt (Some P_ServerReference) (dc_server_reference p),
     UserProperty_encode (dc_user_properties p)]"

definition Disconnect_arms :: "Disconnect arms" where
  "Disconnect_arms property_type self src =
    (case property_type of
       P_SessionExpiryInterval \<Rightarrow>
         decode_for_type u32_decode (\<lambda>v. self\<lparr>dc_session_expiry_interval := Some v\<rparr>) src
     | P_ReasonString \<Rightarrow>
         decode_for_type String_decode (\<lambda>v. self\<lparr>dc_reason_string := Some v\<rparr>) src
     | P_ServerReference \<Rightarrow>
         decode_for_type String_decode (\<lambda>v. self\<lparr>dc_server_reference := Some v\<rparr>) src
     | P_UserProperty \<Rightarrow>
         decode_for_type (UserProperty_decode (dc_user_properties self)) (\<lambda>v. self\<lparr>dc_user_properties := v\<rparr>) src
     | _ \<Rightarrow> unsupported_property property_type)"

definition Disconnect_abbreviated :: "Disconnect \<Rightarrow> bool" where
  "Disconnect_abbreviated p \<longleftrightarrow> dc_reason p = R_NormalDisconnect \<and> Disconnect_property_size p = 0"

definition Disconnect_codec_size :: "Disconnect \<Rightarrow> u32" where
  "Disconnect_codec_size p =
    derive_codec_size [] (Disconnect_abbreviated p) [Reason_codec_size (dc_reason p)] (Disconnect_property_size p)"

definition Disconnect_encode :: "Disconnect \<Rightarrow> bytes codec_result" where
  "Disconnect_encode p =
    encode_internal (Some (dc_fixed_header p, Disconnect_codec_size p)) [] (Disconnect_abbreviated p)
      [Reason_encode (dc_reason p)]
      [property_encode_internal (Disconnect_property_size p) (Disconnect_property_fields p)] []"

definition Disconnect_decode :: "Disconnect \<Rightarrow> bytes \<Rightarrow> (Disconnect \<times> nat \<times> bytes) codec_result" where
  "Disconnect_decode self src =
    (if src = [] then Ok (self, 0, src)
     else
       bind (Reason_decode src) (\<lambda>(r, n, src).
       bind (decode_properties Disconnect_arms (self\<lparr>dc_reason := r\<rparr>) src) (\<lambda>(self, m, src).
         Ok (self, n + m, src))))"

text \<open>Properties the generated decoder reads back: no user property.\<close>

definition Disconnect_wf :: "Disconnect \<Rightarrow> bool" where
  "Disconnect_wf p \<longleftrightarrow> wf_string_opt (dc_reason_string p) \<and>
    wf_string_opt (dc_server_reference p) \<and>
    dc_user_properties p = []"

definition Disconnect_entries :: "Disconnect \<Rightarrow> Disconnect prop_entry list" where
  "Disconnect_entries p =
    entry_opt P_SessionExpiryInterval put_u32 (dc_session_expiry_interval p) (\<lambda>v r. r\<lparr>dc_session_expiry_interval := v\<rparr>) @
    entry_opt P_ReasonString string_bytes (dc_reason_string p) (\<lambda>v r. r\<lparr>dc_reason_string := v\<rparr>) @
    entry_opt P_ServerReference string_bytes (dc_server_reference p) (\<lambda>v r. r\<lparr>dc_server_reference := v\<rparr>)"

definition Disconnect_blank :: "Disconnect \<Rightarrow> Disconnect" where
  "Disconnect_blank p = Disconnect_default\<lparr>dc_fixed_header := dc_fixed_header p, dc_reason := dc_reason p\<rparr>"

lemma Disconnect_fields_sized:
  "sized (seq_enc (Disconnect_property_fields p)) (Disconnect_property_size p)"
  unfolding Disconnect_property_fields_def Disconnect_property_size_def by (rule sized_seq) simp

lemma Disconnect_fields_entries:
  "Disconnect_wf p \<Longrightarrow> seq_enc (Disconnect_property_fields p) = Ok (entries_bytes (Disconnect_entries p))"
  by (simp add: Disconnect_wf_def Disconnect_property_fields_def Disconnect_entries_def entry_simps)

interpretation disconnect: property_arms Disconnect_arms Disconnect_property_size Disconnect_property_fields
  Disconnect_entries Disconnect_blank Disconnect_wf
proof
  fix p assume wf: "Disconnect_wf p"
  from wf show enc: "seq_enc (Disconnect_property_fields p) = Ok (entries_bytes (Disconnect_entries p))"
    by (rule Disconnect_fields_entries)
  show "Disconnect_property_size p = of_nat (length (entries_bytes (Disconnect_entries p)))"
    by (rule sizedD [OF Disconnect_fields_sized enc])
  show "\<forall>e \<in> set (Disconnect_entries p). honest Disconnect_arms e"
    using wf unfolding Disconnect_entries_def set_append ball_Un Disconnect_wf_def
    by (intro conjI honest_rules) (simp_all add: Disconnect_arms_def)
  show "apply_entries (Disconnect_entries p) (Disconnect_blank p) = p"
    using wf by (cases p) (simp add: Disconnect_entries_def Disconnect_blank_def Disconnect_default_def Disconnect_wf_def)
qed

lemma sized_reason_field: "sized (seq_enc [Reason_encode r]) (sum_list [Reason_codec_size r])"
  by (rule sized_seq) simp

lemma sized_no_field: "sized (seq_enc []) (sum_list [])"
  by simp

lemma Disconnect_encode_framed:
  assumes "Disconnect_encode p = Ok bs" and "unat (Disconnect_property_size p) < 268435456"
  shows "\<exists>body. bs = header_byte (dc_fixed_header p) # vbi_bytes (Disconnect_codec_size p) @ body \<and>
    Disconnect_codec_size p = of_nat (length body)"
  by (rule packet_sized [OF assms(1) [unfolded Disconnect_encode_def] Disconnect_codec_size_def])
    (use assms(2) in \<open>simp_all only: sized_no_field sized_reason_field Disconnect_fields_sized append_Nil2 if_cancel\<close>)

definition Disconnect_body :: "Disconnect \<Rightarrow> bytes" where
  "Disconnect_body p =
    (if Disconnect_abbreviated p then []
     else put_u8 (Reason_as_u8 (dc_reason p)) @
       vbi_bytes (Disconnect_property_size p) @ entries_bytes (Disconnect_entries p))"

definition Disconnect_sendable :: "Disconnect \<Rightarrow> bool" where
  "Disconnect_sendable p \<longleftrightarrow> Disconnect_wf p \<and> dc_fixed_header p = FixedHeader_new PT_Disconnect \<and>
    length (Disconnect_body p) < 2097152 \<and> length (entries_bytes (Disconnect_entries p)) < 2097152"

lemma no_entries_default:
  assumes "Disconnect_wf p" and "Disconnect_abbreviated p" and "dc_fixed_header p = FixedHeader_new PT_Disconnect"
    and "length (entries_bytes (Disconnect_entries p)) < 2097152"
  shows "p = Disconnect_default"
proof -
  have "of_nat (length (entries_bytes (Disconnect_entries p))) = (0 :: u32)"
    using disconnect.size_entries [OF assms(1)] assms(2) by (simp add: Disconnect_abbreviated_def)
  then have "entries_bytes (Disconnect_entries p) = []"
    using assms(4) unat_of_nat_u32 [of "length (entries_bytes (Disconnect_entries p))"] by simp
  then have "Disconnect_entries p = []"
    by (cases "Disconnect_entries p") (auto simp: entry_bytes_def put_u8_def split: prod.splits)
  with disconnect.entries_replay [OF assms(1)] show ?thesis
    using assms(2,3) by (simp add: Disconnect_blank_def Disconnect_default_def Disconnect_abbreviated_def)
qed

lemma Disconnect_decode_body:
  assumes "Disconnect_sendable p"
  shows "Disconnect_decode Disconnect_default (Disconnect_body p) = Ok (p, length (Disconnect_body p), [])"
proof (cases "Disconnect_abbreviated p")
  case True
  with assms no_entries_default [of p] have "p = Disconnect_default" by (simp add: Disconnect_sendable_def)
  with True show ?thesis by (simp add: Disconnect_decode_def Disconnect_body_def)
next
  case False
  from assms have wf: "Disconnect_wf p" and small: "length (entries_bytes (Disconnect_entries p)) < 2097152"
    and h: "dc_fixed_header p = FixedHeader_new PT_Disconnect"
    by (auto simp: Disconnect_sendable_def)
  have blank: "Disconnect_blank p = Disconnect_default\<lparr>dc_reason := dc_reason p\<rparr>"
    by (simp add: Disconnect_blank_def Disconnect_default_def h)
  from disconnect.decode_properties_enc [OF wf small, of "[]"] False show ?thesis
    by (simp add: Disconnect_decode_def Disconnect_body_def enum_decode_enc blank)
qed

interpretation disconnect: packet_codec dc_fixed_header Disconnect_encode "\<lambda>h. Disconnect_decode Disconnect_default"
  Disconnect_body "\<lambda>p. p" Disconnect_sendable
proof
  fix p assume s: "Disconnect_sendable p"
  then have wf: "Disconnect_wf p" and small: "length (entries_bytes (Disconnect_entries p)) < 2097152"
    by (auto simp: Disconnect_sendable_def)
  have "unat (Disconnect_property_size p) < 268435456"
    using disconnect.size_entries [OF wf] small by (simp add: byte_simps)
  then show "Disconnect_encode p =
      Ok (header_byte (dc_fixed_header p) # vbi_bytes (of_nat (length (Disconnect_body p))) @ Disconnect_body p)"
    unfolding Disconnect_encode_def
    by (intro encode_internal_ok [OF Disconnect_codec_size_def])
      (simp_all only: sized_no_field sized_reason_field Disconnect_fields_sized append_Nil append_Nil2 if_cancel,
        auto simp: Disconnect_body_def Reason_encode_def disconnect.property_encode_ok [OF wf])
  show "Disconnect_decode Disconnect_default (Disconnect_body p) = Ok (p, length (Disconnect_body p), [])"
    using s by (rule Disconnect_decode_body)
qed (auto simp: Disconnect_sendable_def)

end
