(* ===== verification/Listing_Packets.thy ===== *)
theory Listing_Packets
  imports Codec_Macro
begin

text \<open>
  SUBSCRIBE, SUBACK, UNSUBSCRIBE and UNSUBACK have one shape: a packet identifier, properties, and a
  vector that takes the rest of the packet (\<open>payload_type = "remaining"\<close>). The locale states what the
  generated code of such a struct satisfies and proves framing and the round trip once; the packet
  theories interpret it.
\<close>

locale listing_packet =
  property_arms arms property_size property_fields entries blank wf +
  item_codec item_enc item_wf item_dec item_dec_all
  for arms :: "'r arms" and property_size property_fields entries blank wf
    and item_enc :: "'a \<Rightarrow> bytes" and item_wf item_dec item_dec_all +
  fixes header :: "'r \<Rightarrow> FixedHeader"
    and packet_id :: "'r \<Rightarrow> u16"
    and items :: "'r \<Rightarrow> 'a list"
    and clear :: "'r \<Rightarrow> 'r"
    and put_items :: "'a list \<Rightarrow> 'r \<Rightarrow> 'r"
    and start :: "u16 \<Rightarrow> 'r"
    and item_encode :: "'a \<Rightarrow> bytes codec_result"
    and items_size :: "'a list \<Rightarrow> u32"
    and codec_size :: "'r \<Rightarrow> u32"
    and encode :: "'r \<Rightarrow> bytes codec_result"
    and decode :: "bytes \<Rightarrow> ('r \<times> nat \<times> bytes) codec_result"
    and in_range :: "'r \<Rightarrow> bool"
    and body :: "'r \<Rightarrow> bytes"
    and sendable :: "'r \<Rightarrow> bool"
  assumes codec_size_eq: "codec_size p =
      derive_codec_size [prim_size (Prim_u16 (packet_id p)), items_size (items p)] False [] (property_size p)"
    and encode_eq: "encode p =
      encode_internal (Some (header p, codec_size p))
        [encode_for_primitive None (Prim_u16 (packet_id p))] False []
        [property_encode_internal (property_size p) (property_fields p)]
        [encode_for_vec item_encode (items p)]"
    and decode_eq: "decode src =
      bind (get_u16 src) (\<lambda>(v, src).
      bind (decode_properties arms (start v) src) (\<lambda>(q, n, src).
      bind (item_dec_all src) (\<lambda>(xs, m, src). Ok (put_items xs q, 2 + n + m, src))))"
    and item_encode_ok: "item_wf x \<Longrightarrow> item_encode x = Ok (item_enc x)"
    and items_sized: "sized (encode_for_vec item_encode xs) (items_size xs)"
    and fields_sized: "in_range p \<Longrightarrow> sized (seq_enc (property_fields p)) (property_size p)"
    and wf_in_range: "wf p \<Longrightarrow> in_range p"
    and clear_wf: "wf p \<Longrightarrow> wf (clear p)"
    and clear_properties: "entries (clear p) = entries p" "property_size (clear p) = property_size p"
    and put_items_clear: "put_items (items p) (clear p) = p"
    and body_eq: "body p = put_u16 (packet_id p) @ vbi_bytes (property_size p) @ entries_bytes (entries p) @
      concat (map item_enc (items p))"
    and sendableD: "sendable p \<Longrightarrow> wf p" "sendable p \<Longrightarrow> \<forall>x \<in> set (items p). item_wf x"
      "sendable p \<Longrightarrow> wf_header (header p)" "sendable p \<Longrightarrow> length (body p) < 2097152"
      "sendable p \<Longrightarrow> blank (clear p) = start (packet_id p)"
begin

lemma listing_sized:
  "sized (seq_enc ([encode_for_primitive None (Prim_u16 i)] @
      (if False then [] else [encode_for_vec item_encode xs])))
    (sum_list [prim_size (Prim_u16 i), items_size xs])"
  by (rule sized_seq) (simp add: items_sized del: prim_size.simps)

lemma encode_framed:
  assumes "encode p = Ok bs" and "in_range p" and "unat (property_size p) < 268435456"
  shows "\<exists>body. bs = header_byte (header p) # vbi_bytes (codec_size p) @ body \<and>
    codec_size p = of_nat (length body)"
  by (rule packet_sized [OF assms(1) [unfolded encode_eq] codec_size_eq])
    (use assms(2,3) listing_sized [of "packet_id p" "items p"] in \<open>simp_all add: fields_sized\<close>)

lemma entries_small: "sendable p \<Longrightarrow> length (entries_bytes (entries p)) < 2097152"
  using sendableD(4) [of p] by (simp add: body_eq)

lemma seq_items: "\<forall>x \<in> set xs. item_wf x \<Longrightarrow> encode_for_vec item_encode xs = Ok (concat (map item_enc xs))"
  by (induction xs) (simp_all add: encode_for_vec_def item_encode_ok)

lemma encode_sendable:
  assumes s: "sendable p"
  shows "encode p = Ok (header_byte (header p) # vbi_bytes (of_nat (length (body p))) @ body p)"
proof -
  have ps: "unat (property_size p) < 268435456"
    using size_entries [OF sendableD(1) [OF s]] entries_small [OF s] by (simp add: byte_simps)
  show ?thesis
    unfolding encode_eq
    by (rule encode_internal_ok [OF codec_size_eq])
      (use ps listing_sized [of "packet_id p" "items p"] sendableD(1,2) [OF s] in \<open>simp_all add: fields_sized wf_in_range
        body_eq encode_for_primitive_def prop_ident_encode_def property_encode_ok seq_items\<close>)
qed

lemma decode_sendable:
  assumes s: "sendable p"
  shows "decode (body p) = Ok (p, length (body p), [])"
proof -
  have "decode_properties arms (start (packet_id p))
      (vbi_bytes (property_size p) @ entries_bytes (entries p) @ concat (map item_enc (items p))) =
      Ok (clear p, length (vbi_bytes (property_size p)) + length (entries_bytes (entries p)),
        concat (map item_enc (items p)))"
    using decode_properties_enc [OF clear_wf [OF sendableD(1) [OF s]], of "concat (map item_enc (items p))"]
      entries_small [OF s]
    by (simp add: clear_properties sendableD(5) [OF s])
  then show ?thesis
    using dec_all_enc [OF sendableD(2) [OF s]]
    by (simp add: decode_eq body_eq get_put_u16 put_items_clear)
qed

end

sublocale listing_packet \<subseteq> packet_codec header encode "\<lambda>h. decode" body "\<lambda>p. p" sendable
  by unfold_locales (simp_all add: encode_sendable decode_sendable sendableD)

end
