(* ===== verification/Packet_Subscribe.thy ===== *)
theory Packet_Subscribe
  imports Listing_Packets
begin

text \<open>
  SUBSCRIBE and SUBACK (\<open>vaux-mqtt/src/subscribe.rs\<close>): the subscription options with their bit fields,
  the packets' operations, and the codecs that \<open>#[packet]\<close> generates.
\<close>

section \<open>Retain handling\<close>

datatype RetainHandling = RH_Send | RH_SendNew | RH_None

primrec RetainHandling_as_u8 :: "RetainHandling \<Rightarrow> u8" where
  "RetainHandling_as_u8 RH_Send = 0"
| "RetainHandling_as_u8 RH_SendNew = 1"
| "RetainHandling_as_u8 RH_None = 2"

definition RetainHandling_try_from :: "u8 \<Rightarrow> RetainHandling codec_result" where
  "RetainHandling_try_from value =
    (if value = 0x00 then Ok RH_Send
     else if value = 0x01 then Ok RH_SendNew
     else if value = 0x02 then Ok RH_None
     else Err MqttCodecError_new)"

lemma RetainHandling_try_from_as_u8 [simp, codec_simps]:
  "RetainHandling_try_from (RetainHandling_as_u8 r) = Ok r"
  by (cases r) (simp_all add: RetainHandling_try_from_def)

section \<open>Subscription filters\<close>

record SubscriptionFilter =
  sf_filter :: string
  sf_options :: u8

definition SF_QOS_BITS :: u8 where "SF_QOS_BITS = 0b00000011"
definition SF_NO_LOCAL_BIT :: u8 where "SF_NO_LOCAL_BIT = 0b00000100"
definition SF_RAP_BIT :: u8 where "SF_RAP_BIT = 0b00001000"
definition SF_RETAIN_BITS :: u8 where "SF_RETAIN_BITS = 0b00110000"

lemmas sf_masks = SF_QOS_BITS_def SF_NO_LOCAL_BIT_def SF_RAP_BIT_def SF_RETAIN_BITS_def

definition SubscriptionFilter_qos :: "SubscriptionFilter \<Rightarrow> QoSLevel" where
  "SubscriptionFilter_qos f = unwrap_or (QoSLevel_try_from (sf_options f AND SF_QOS_BITS)) AtMostOnce"

definition SubscriptionFilter_set_qos :: "SubscriptionFilter \<Rightarrow> QoSLevel \<Rightarrow> SubscriptionFilter" where
  "SubscriptionFilter_set_qos f qos =
    f\<lparr>sf_options := (sf_options f AND NOT SF_QOS_BITS) OR (QoSLevel_as_u8 qos AND SF_QOS_BITS)\<rparr>"

definition SubscriptionFilter_with_qos :: "SubscriptionFilter \<Rightarrow> QoSLevel \<Rightarrow> SubscriptionFilter" where
  "SubscriptionFilter_with_qos f qos = SubscriptionFilter_set_qos f qos"

definition SubscriptionFilter_new :: "string \<Rightarrow> QoSLevel \<Rightarrow> SubscriptionFilter" where
  "SubscriptionFilter_new filt qos = SubscriptionFilter_set_qos \<lparr>sf_filter = filt, sf_options = 0\<rparr> qos"

definition SubscriptionFilter_no_local :: "SubscriptionFilter \<Rightarrow> bool" where
  "SubscriptionFilter_no_local f \<longleftrightarrow> sf_options f AND SF_NO_LOCAL_BIT \<noteq> 0"

definition SubscriptionFilter_set_no_local :: "SubscriptionFilter \<Rightarrow> bool \<Rightarrow> SubscriptionFilter" where
  "SubscriptionFilter_set_no_local f no_local =
    f\<lparr>sf_options := (sf_options f AND NOT SF_NO_LOCAL_BIT) OR push_bit 2 (of_bool no_local)\<rparr>"

definition SubscriptionFilter_retain_as_published :: "SubscriptionFilter \<Rightarrow> bool" where
  "SubscriptionFilter_retain_as_published f \<longleftrightarrow> sf_options f AND SF_RAP_BIT \<noteq> 0"

definition SubscriptionFilter_set_retain_as_published :: "SubscriptionFilter \<Rightarrow> bool \<Rightarrow> SubscriptionFilter" where
  "SubscriptionFilter_set_retain_as_published f rap =
    f\<lparr>sf_options := (sf_options f AND NOT SF_RAP_BIT) OR push_bit 3 (of_bool rap)\<rparr>"

definition SubscriptionFilter_retain_handling :: "SubscriptionFilter \<Rightarrow> RetainHandling" where
  "SubscriptionFilter_retain_handling f =
    unwrap_or (RetainHandling_try_from (drop_bit 4 (sf_options f AND SF_RETAIN_BITS))) RH_Send"

definition SubscriptionFilter_set_retain_handling :: "SubscriptionFilter \<Rightarrow> RetainHandling \<Rightarrow> SubscriptionFilter" where
  "SubscriptionFilter_set_retain_handling f retain =
    f\<lparr>sf_options := (sf_options f AND NOT SF_RETAIN_BITS) OR push_bit 4 (RetainHandling_as_u8 retain)\<rparr>"

definition SubscriptionFilter_codec_size :: "SubscriptionFilter \<Rightarrow> u32" where
  "SubscriptionFilter_codec_size f = sum_list [size_for_string (sf_filter f), prim_size (Prim_u8 (sf_options f))]"

definition SubscriptionFilter_encode :: "SubscriptionFilter \<Rightarrow> bytes codec_result" where
  "SubscriptionFilter_encode f =
    encode_internal None
      [encode_for_string None (sf_filter f), encode_for_primitive None (Prim_u8 (sf_options f))]
      False [] [] []"

definition SubscriptionFilter_decode :: "bytes \<Rightarrow> (SubscriptionFilter \<times> nat \<times> bytes) codec_result" where
  "SubscriptionFilter_decode src =
    bind (String_decode src) (\<lambda>(filt, n, src).
    bind (get_u8 src) (\<lambda>(options, src).
      Ok (\<lparr>sf_filter = filt, sf_options = options\<rparr>, n + 1, src)))"

text \<open>The \<open>while src.has_remaining()\<close> loop for \<open>Vec<SubscriptionFilter>\<close>.\<close>

lemma SubscriptionFilter_decode_length:
  "SubscriptionFilter_decode src = Ok (f, n, rest) \<Longrightarrow> length rest < length src"
  by (auto simp: SubscriptionFilter_decode_def dest!: String_decode_length get_u8_length)

function decode_filters :: "bytes \<Rightarrow> (SubscriptionFilter list \<times> nat \<times> bytes) codec_result" where
  "decode_filters src =
    (if src = [] then Ok ([], 0, [])
     else bind (SubscriptionFilter_decode src) (\<lambda>(item, n, src).
       bind (decode_filters src) (\<lambda>(items, m, src). Ok (item # items, n + m, src))))"
  by pat_completeness auto
termination
  by (relation "measure length") (auto dest: SubscriptionFilter_decode_length)

declare decode_filters.simps [simp del]

subsection \<open>Option bits\<close>

lemma sf_qos_field:
  "(QoSLevel_as_u8 q AND SF_QOS_BITS) AND NOT SF_QOS_BITS = 0" "QoSLevel_as_u8 q AND SF_QOS_BITS = QoSLevel_as_u8 q"
  "QoSLevel_as_u8 q AND SF_NO_LOCAL_BIT = 0" "QoSLevel_as_u8 q AND SF_RAP_BIT = 0" "QoSLevel_as_u8 q AND SF_RETAIN_BITS = 0"
  "QoSLevel_as_u8 q AND NOT SF_QOS_BITS = 0"
  by (cases q; simp add: sf_masks)+

lemma sf_no_local_field:
  "push_bit 2 (of_bool b :: u8) AND NOT SF_NO_LOCAL_BIT = 0" "(push_bit 2 (of_bool b :: u8) = 0) = (\<not> b)"
  "push_bit 2 (of_bool b :: u8) AND SF_QOS_BITS = 0" "push_bit 2 (of_bool b :: u8) AND SF_RAP_BIT = 0"
  "push_bit 2 (of_bool b :: u8) AND SF_RETAIN_BITS = 0"
  by (cases b; simp add: sf_masks)+

lemma sf_rap_field:
  "push_bit 3 (of_bool b :: u8) AND NOT SF_RAP_BIT = 0" "(push_bit 3 (of_bool b :: u8) = 0) = (\<not> b)"
  "push_bit 3 (of_bool b :: u8) AND SF_QOS_BITS = 0" "push_bit 3 (of_bool b :: u8) AND SF_NO_LOCAL_BIT = 0"
  "push_bit 3 (of_bool b :: u8) AND SF_RETAIN_BITS = 0"
  by (cases b; simp add: sf_masks)+

lemma sf_retain_field:
  "push_bit 4 (RetainHandling_as_u8 r) AND NOT SF_RETAIN_BITS = 0"
  "drop_bit 4 (push_bit 4 (RetainHandling_as_u8 r)) = RetainHandling_as_u8 r"
  "push_bit 4 (RetainHandling_as_u8 r) AND SF_QOS_BITS = 0" "push_bit 4 (RetainHandling_as_u8 r) AND SF_NO_LOCAL_BIT = 0"
  "push_bit 4 (RetainHandling_as_u8 r) AND SF_RAP_BIT = 0"
  by (cases r; simp add: sf_masks)+

lemma sf_masks_disjoint:
  "SF_QOS_BITS AND SF_NO_LOCAL_BIT = 0" "SF_QOS_BITS AND SF_RAP_BIT = 0" "SF_QOS_BITS AND SF_RETAIN_BITS = 0"
  "SF_NO_LOCAL_BIT AND SF_QOS_BITS = 0" "SF_NO_LOCAL_BIT AND SF_RAP_BIT = 0" "SF_NO_LOCAL_BIT AND SF_RETAIN_BITS = 0"
  "SF_RAP_BIT AND SF_QOS_BITS = 0" "SF_RAP_BIT AND SF_NO_LOCAL_BIT = 0" "SF_RAP_BIT AND SF_RETAIN_BITS = 0"
  "SF_RETAIN_BITS AND SF_QOS_BITS = 0" "SF_RETAIN_BITS AND SF_NO_LOCAL_BIT = 0" "SF_RETAIN_BITS AND SF_RAP_BIT = 0"
  by (simp_all add: sf_masks)

lemma sf_upd: "sf_options (f\<lparr>sf_options := x\<rparr>) = x" "sf_filter (f\<lparr>sf_options := x\<rparr>) = sf_filter f"
  by simp_all

lemmas sf_fields = sf_qos_field sf_no_local_field sf_rap_field sf_retain_field sf_masks_disjoint
  mask_write_same mask_write_other sf_upd

lemmas sf_getters = SubscriptionFilter_qos_def SubscriptionFilter_no_local_def
  SubscriptionFilter_retain_as_published_def SubscriptionFilter_retain_handling_def

lemma SubscriptionFilter_set_qos_laws [simp]:
  "SubscriptionFilter_qos (SubscriptionFilter_set_qos f q) = q"
  "SubscriptionFilter_no_local (SubscriptionFilter_set_qos f q) = SubscriptionFilter_no_local f"
  "SubscriptionFilter_retain_as_published (SubscriptionFilter_set_qos f q) = SubscriptionFilter_retain_as_published f"
  "SubscriptionFilter_retain_handling (SubscriptionFilter_set_qos f q) = SubscriptionFilter_retain_handling f"
  "sf_filter (SubscriptionFilter_set_qos f q) = sf_filter f"
  by (simp_all only: sf_getters SubscriptionFilter_set_qos_def sf_fields QoSLevel_try_from_as_u8 unwrap_or.simps)

lemma SubscriptionFilter_set_no_local_laws [simp]:
  "SubscriptionFilter_no_local (SubscriptionFilter_set_no_local f b) = b"
  "SubscriptionFilter_qos (SubscriptionFilter_set_no_local f b) = SubscriptionFilter_qos f"
  "SubscriptionFilter_retain_as_published (SubscriptionFilter_set_no_local f b) = SubscriptionFilter_retain_as_published f"
  "SubscriptionFilter_retain_handling (SubscriptionFilter_set_no_local f b) = SubscriptionFilter_retain_handling f"
  "sf_filter (SubscriptionFilter_set_no_local f b) = sf_filter f"
  by (simp_all only: sf_getters SubscriptionFilter_set_no_local_def sf_fields not_not)

lemma SubscriptionFilter_set_retain_as_published_laws [simp]:
  "SubscriptionFilter_retain_as_published (SubscriptionFilter_set_retain_as_published f b) = b"
  "SubscriptionFilter_qos (SubscriptionFilter_set_retain_as_published f b) = SubscriptionFilter_qos f"
  "SubscriptionFilter_no_local (SubscriptionFilter_set_retain_as_published f b) = SubscriptionFilter_no_local f"
  "SubscriptionFilter_retain_handling (SubscriptionFilter_set_retain_as_published f b) = SubscriptionFilter_retain_handling f"
  "sf_filter (SubscriptionFilter_set_retain_as_published f b) = sf_filter f"
  by (simp_all only: sf_getters SubscriptionFilter_set_retain_as_published_def sf_fields not_not)

lemma SubscriptionFilter_set_retain_handling_laws [simp]:
  "SubscriptionFilter_retain_handling (SubscriptionFilter_set_retain_handling f r) = r"
  "SubscriptionFilter_qos (SubscriptionFilter_set_retain_handling f r) = SubscriptionFilter_qos f"
  "SubscriptionFilter_no_local (SubscriptionFilter_set_retain_handling f r) = SubscriptionFilter_no_local f"
  "SubscriptionFilter_retain_as_published (SubscriptionFilter_set_retain_handling f r) = SubscriptionFilter_retain_as_published f"
  "sf_filter (SubscriptionFilter_set_retain_handling f r) = sf_filter f"
  by (simp_all only: sf_getters SubscriptionFilter_set_retain_handling_def sf_fields
      RetainHandling_try_from_as_u8 unwrap_or.simps)

subsection \<open>The filter codec\<close>

definition filter_bytes :: "SubscriptionFilter \<Rightarrow> bytes" where
  "filter_bytes f = string_bytes (sf_filter f) @ put_u8 (sf_options f)"

definition wf_filter :: "SubscriptionFilter \<Rightarrow> bool" where
  "wf_filter f \<longleftrightarrow> wf_string (sf_filter f)"

lemma SubscriptionFilter_encode_ok: "wf_filter f \<Longrightarrow> SubscriptionFilter_encode f = Ok (filter_bytes f)"
  by (simp add: SubscriptionFilter_encode_def encode_internal_def encode_for_string_def
      encode_for_primitive_def prop_ident_encode_def filter_bytes_def wf_filter_def wf_string_def)

lemma SubscriptionFilter_sized: "sized (SubscriptionFilter_encode f) (SubscriptionFilter_codec_size f)"
  unfolding SubscriptionFilter_encode_def SubscriptionFilter_codec_size_def encode_internal_def
  by (simp only: option.case append_Nil if_False append_Nil2) (rule sized_seq, simp del: prim_size.simps)

interpretation filters: item_codec filter_bytes wf_filter SubscriptionFilter_decode decode_filters
proof
  show "wf_filter x \<Longrightarrow> SubscriptionFilter_decode (filter_bytes x @ rest) = Ok (x, length (filter_bytes x), rest)"
    for x rest by (simp add: SubscriptionFilter_decode_def filter_bytes_def wf_filter_def String_decode_enc get_put_u8)
  show "filter_bytes x \<noteq> []" for x by (simp add: filter_bytes_def put_u8_def)
  show "decode_filters [] = Ok ([], 0, [])" by (simp add: decode_filters.simps)
  show "src \<noteq> [] \<Longrightarrow> decode_filters src = bind (SubscriptionFilter_decode src) (\<lambda>(x, n, src).
      bind (decode_filters src) (\<lambda>(xs, m, src). Ok (x # xs, n + m, src)))" for src
    by (subst decode_filters.simps) simp
qed

section \<open>SUBSCRIBE\<close>

record Subscribe =
  su_fixed_header :: FixedHeader
  su_packet_id :: u16
  su_subscription_id :: "u32 option"
  su_user_props :: UserProperty
  su_filter :: "SubscriptionFilter list"

definition Subscribe_default :: Subscribe where
  "Subscribe_default =
    \<lparr>su_fixed_header = FixedHeader_new PT_Subscribe, su_packet_id = 0, su_subscription_id = None,
     su_user_props = [], su_filter = []\<rparr>"

definition Subscribe_new_with_fixed_header :: "FixedHeader \<Rightarrow> Subscribe codec_result" where
  "Subscribe_new_with_fixed_header h =
    (if fh_packet_type h \<noteq> PT_Subscribe then Err MqttCodecError_new
     else Ok (Subscribe_default\<lparr>su_fixed_header := h\<rparr>))"

definition Subscribe_new_with_packet_id :: "u16 \<Rightarrow> Subscribe" where
  "Subscribe_new_with_packet_id pid = Subscribe_default\<lparr>su_packet_id := pid\<rparr>"

definition Subscribe_new_with_filter :: "u16 \<Rightarrow> SubscriptionFilter list \<Rightarrow> Subscribe" where
  "Subscribe_new_with_filter pid filts = Subscribe_default\<lparr>su_packet_id := pid, su_filter := filts\<rparr>"

text \<open>\<open>MqttError::new_from_spec(V5, "3.8.3", ..)\<close> carries no kind: the error is the unit value.\<close>

definition Subscribe_set_subscription_id :: "Subscribe \<Rightarrow> u32 \<Rightarrow> (unit, Subscribe) res" where
  "Subscribe_set_subscription_id p sid =
    (if \<not> (MIN_VARIABLE_BYTE_INT \<le> sid \<and> sid \<le> MAX_VARIABLE_BYTE_INT) then Err ()
     else Ok (p\<lparr>su_subscription_id := Some sid\<rparr>))"

definition Subscribe_add_filter :: "Subscribe \<Rightarrow> SubscriptionFilter \<Rightarrow> Subscribe" where
  "Subscribe_add_filter p f = p\<lparr>su_filter := su_filter p @ [f]\<rparr>"

text \<open>\<open>Vec::remove\<close> at an index that is in range.\<close>

definition vec_remove :: "'a list \<Rightarrow> nat \<Rightarrow> 'a list" where
  "vec_remove xs i = take i xs @ drop (Suc i) xs"

definition Subscribe_remove_filter_at :: "Subscribe \<Rightarrow> nat \<Rightarrow> Subscribe \<times> SubscriptionFilter option" where
  "Subscribe_remove_filter_at p index =
    (if index < length (su_filter p)
     then (p\<lparr>su_filter := vec_remove (su_filter p) index\<rparr>, Some (su_filter p ! index))
     else (p, None))"

text \<open>\<open>iter().position(..)\<close>\<close>

fun position :: "('a \<Rightarrow> bool) \<Rightarrow> 'a list \<Rightarrow> nat option" where
  "position f [] = None"
| "position f (x # xs) = (if f x then Some 0 else map_option Suc (position f xs))"

definition Subscribe_remove_filter_with_topic :: "Subscribe \<Rightarrow> string \<Rightarrow> Subscribe \<times> SubscriptionFilter option" where
  "Subscribe_remove_filter_with_topic p topic =
    (case position (\<lambda>f. sf_filter f = topic) (su_filter p) of
       Some pos \<Rightarrow> (p\<lparr>su_filter := vec_remove (su_filter p) pos\<rparr>, Some (su_filter p ! pos))
     | None \<Rightarrow> (p, None))"

definition Subscribe_clear_filters :: "Subscribe \<Rightarrow> Subscribe" where
  "Subscribe_clear_filters p = p\<lparr>su_filter := []\<rparr>"

definition Subscribe_property_size :: "Subscribe \<Rightarrow> u32" where
  "Subscribe_property_size p = sum_list
    [size_with_path_opt_property codec_size_opt_variable_byte_int (su_subscription_id p),
     UserProperty_property_size (su_user_props p)]"

definition Subscribe_property_fields :: "Subscribe \<Rightarrow> bytes codec_result list" where
  "Subscribe_property_fields p =
    [encode_for_encode_with_opt (Some P_SubscriptionIdentifier) encode_opt_variable_byte_int (su_subscription_id p),
     UserProperty_encode (su_user_props p)]"

definition Subscribe_arms :: "Subscribe arms" where
  "Subscribe_arms property_type self src =
    (case property_type of
       P_SubscriptionIdentifier \<Rightarrow>
         decode_for_type decode_opt_variable_byte_int (\<lambda>v. self\<lparr>su_subscription_id := v\<rparr>) src
     | P_UserProperty \<Rightarrow>
         decode_for_type (UserProperty_decode (su_user_props self)) (\<lambda>v. self\<lparr>su_user_props := v\<rparr>) src
     | _ \<Rightarrow> unsupported_property property_type)"

definition Subscribe_codec_size :: "Subscribe \<Rightarrow> u32" where
  "Subscribe_codec_size p =
    derive_codec_size [prim_size (Prim_u16 (su_packet_id p)), size_for_vec SubscriptionFilter_codec_size (su_filter p)] False []
      (Subscribe_property_size p)"

definition Subscribe_encode :: "Subscribe \<Rightarrow> bytes codec_result" where
  "Subscribe_encode p =
    encode_internal (Some (su_fixed_header p, Subscribe_codec_size p))
      [encode_for_primitive None (Prim_u16 (su_packet_id p))] False []
      [property_encode_internal (Subscribe_property_size p) (Subscribe_property_fields p)]
      [encode_for_vec SubscriptionFilter_encode (su_filter p)]"

definition Subscribe_decode :: "Subscribe \<Rightarrow> bytes \<Rightarrow> (Subscribe \<times> nat \<times> bytes) codec_result" where
  "Subscribe_decode self src =
    bind (get_u16 src) (\<lambda>(v, src).
    bind (decode_properties Subscribe_arms (self\<lparr>su_packet_id := v\<rparr>) src) (\<lambda>(self, n, src).
    bind (decode_filters src) (\<lambda>(value, m, src).
      Ok (self\<lparr>su_filter := value\<rparr>, 2 + n + m, src))))"

subsection \<open>Operations\<close>

lemma position_Some:
  "position f xs = Some i \<Longrightarrow> i < length xs \<and> f (xs ! i) \<and> (\<forall>j < i. \<not> f (xs ! j))"
  by (induction f xs arbitrary: i rule: position.induct)
    (auto split: if_splits simp: nth_Cons less_Suc_eq_0_disj split: nat.splits)

lemma position_None: "position f xs = None \<longleftrightarrow> (\<forall>x \<in> set xs. \<not> f x)"
  by (induction f xs rule: position.induct) auto

lemma vec_remove_insert: "i < length xs \<Longrightarrow> take i xs @ [xs ! i] @ drop (Suc i) xs = xs"
  by (simp add: id_take_nth_drop [symmetric])

subsection \<open>Size and round trip\<close>

text \<open>Properties the generated decoder reads back: no user property, a short subscription identifier.\<close>

definition Subscribe_wf :: "Subscribe \<Rightarrow> bool" where
  "Subscribe_wf p \<longleftrightarrow> vbi_decodable (su_subscription_id p) \<and>
    su_user_props p = []"

definition Subscribe_entries :: "Subscribe \<Rightarrow> Subscribe prop_entry list" where
  "Subscribe_entries p =
    entry_opt P_SubscriptionIdentifier vbi_bytes (su_subscription_id p) (\<lambda>v r. r\<lparr>su_subscription_id := v\<rparr>)"

text \<open>The struct when its properties begin, with the items it will get last.\<close>

definition Subscribe_blank :: "Subscribe \<Rightarrow> Subscribe" where
  "Subscribe_blank p = Subscribe_default\<lparr>su_fixed_header := su_fixed_header p, su_packet_id := su_packet_id p,
    su_filter := su_filter p\<rparr>"

lemma Subscribe_fields_sized:
  "vbi_in_range (su_subscription_id p) \<Longrightarrow> sized (seq_enc (Subscribe_property_fields p)) (Subscribe_property_size p)"
  unfolding Subscribe_property_fields_def Subscribe_property_size_def by (rule sized_seq) simp

lemma Subscribe_fields_entries:
  "Subscribe_wf p \<Longrightarrow> seq_enc (Subscribe_property_fields p) = Ok (entries_bytes (Subscribe_entries p))"
  by (simp add: Subscribe_wf_def Subscribe_property_fields_def Subscribe_entries_def entry_simps)

interpretation subscribe: property_arms Subscribe_arms Subscribe_property_size Subscribe_property_fields
  Subscribe_entries Subscribe_blank Subscribe_wf
proof
  fix p assume wf: "Subscribe_wf p"
  have vbi: "vbi_in_range (su_subscription_id p)"
    using wf by (simp add: Subscribe_wf_def vbi_decodable_in_range)
  from wf show enc: "seq_enc (Subscribe_property_fields p) = Ok (entries_bytes (Subscribe_entries p))"
    by (rule Subscribe_fields_entries)
  show "Subscribe_property_size p = of_nat (length (entries_bytes (Subscribe_entries p)))"
    by (rule sizedD [OF Subscribe_fields_sized [OF vbi] enc])
  show "\<forall>e \<in> set (Subscribe_entries p). honest Subscribe_arms e"
    using wf unfolding Subscribe_entries_def Subscribe_wf_def
    by (intro honest_rules) (simp_all add: Subscribe_arms_def)
  show "apply_entries (Subscribe_entries p) (Subscribe_blank p) = p"
    using wf by (cases p) (simp add: Subscribe_entries_def Subscribe_blank_def Subscribe_default_def Subscribe_wf_def)
qed

definition Subscribe_body :: "Subscribe \<Rightarrow> bytes" where
  "Subscribe_body p = put_u16 (su_packet_id p) @ vbi_bytes (Subscribe_property_size p) @
    entries_bytes (Subscribe_entries p) @ concat (map (filter_bytes) (su_filter p))"

definition Subscribe_sendable :: "Subscribe \<Rightarrow> bool" where
  "Subscribe_sendable p \<longleftrightarrow> Subscribe_wf p \<and> su_fixed_header p = FixedHeader_new PT_Subscribe \<and>
    (\<forall>x \<in> set (su_filter p). (wf_filter) x) \<and> length (Subscribe_body p) < 2097152"

lemma Subscribe_clear [simp]:
  "Subscribe_wf (p\<lparr>su_filter := []\<rparr>) = Subscribe_wf p" "Subscribe_entries (p\<lparr>su_filter := []\<rparr>) = Subscribe_entries p"
  "Subscribe_property_size (p\<lparr>su_filter := []\<rparr>) = Subscribe_property_size p"
  by (simp_all add: Subscribe_wf_def Subscribe_entries_def Subscribe_property_size_def)

interpretation subscribe: listing_packet Subscribe_arms Subscribe_property_size Subscribe_property_fields Subscribe_entries Subscribe_blank Subscribe_wf
  "filter_bytes" "wf_filter" SubscriptionFilter_decode decode_filters su_fixed_header su_packet_id su_filter
  "\<lambda>p. p\<lparr>su_filter := []\<rparr>" "\<lambda>xs p. p\<lparr>su_filter := xs\<rparr>"
  "\<lambda>v. Subscribe_default\<lparr>su_packet_id := v\<rparr>" SubscriptionFilter_encode "size_for_vec SubscriptionFilter_codec_size"
  Subscribe_codec_size Subscribe_encode "Subscribe_decode Subscribe_default" "\<lambda>p. vbi_in_range (su_subscription_id p)" Subscribe_body Subscribe_sendable
proof
  show "sized (encode_for_vec SubscriptionFilter_encode xs) (size_for_vec SubscriptionFilter_codec_size xs)" for xs
    by (rule sized_vec) (rule SubscriptionFilter_sized)
  show "Subscribe_sendable p \<Longrightarrow> Subscribe_blank (p\<lparr>su_filter := []\<rparr>) = Subscribe_default\<lparr>su_packet_id := su_packet_id p\<rparr>" for p
    by (simp add: Subscribe_sendable_def Subscribe_blank_def Subscribe_default_def)
  show "Subscribe_wf p \<Longrightarrow> (\<lambda>p. vbi_in_range (su_subscription_id p)) p" for p
    by (simp add: Subscribe_wf_def vbi_decodable_in_range)
qed (simp_all add: Subscribe_codec_size_def Subscribe_encode_def Subscribe_decode_def Subscribe_sendable_def Subscribe_body_def
    Subscribe_fields_sized SubscriptionFilter_encode_ok)

section \<open>SUBACK\<close>

record SubAck =
  sa_fixed_header :: FixedHeader
  sa_packet_id :: u16
  sa_reason :: "string option"
  sa_user_properties :: UserProperty
  sa_reason_codes :: "Reason list"

definition SubAck_default :: SubAck where
  "SubAck_default =
    \<lparr>sa_fixed_header = FixedHeader_new PT_SubAck, sa_packet_id = 0, sa_reason = None,
     sa_user_properties = [], sa_reason_codes = []\<rparr>"

definition SubAck_new_with_fixed_header :: "FixedHeader \<Rightarrow> SubAck codec_result" where
  "SubAck_new_with_fixed_header h =
    (if fh_packet_type h \<noteq> PT_SubAck then Err MqttCodecError_new
     else Ok (SubAck_default\<lparr>sa_fixed_header := h\<rparr>))"

definition SubAck_new_with_packet_id :: "u16 \<Rightarrow> SubAck codec_result" where
  "SubAck_new_with_packet_id pid =
    (if pid = 0 then Err EK_InvalidPacketIdentifier else Ok (SubAck_default\<lparr>sa_packet_id := pid\<rparr>))"

definition SubAck_set_packet_id :: "SubAck \<Rightarrow> u16 \<Rightarrow> SubAck codec_result" where
  "SubAck_set_packet_id p pid =
    (if pid = 0 then Err EK_InvalidPacketIdentifier else Ok (p\<lparr>sa_packet_id := pid\<rparr>))"

definition SubAck_property_size :: "SubAck \<Rightarrow> u32" where
  "SubAck_property_size p = sum_list
    [size_for_string_property_opt (sa_reason p),
     UserProperty_property_size (sa_user_properties p)]"

definition SubAck_property_fields :: "SubAck \<Rightarrow> bytes codec_result list" where
  "SubAck_property_fields p =
    [encode_for_string_opt (Some P_ReasonString) (sa_reason p),
     UserProperty_encode (sa_user_properties p)]"

definition SubAck_arms :: "SubAck arms" where
  "SubAck_arms property_type self src =
    (case property_type of
       P_ReasonString \<Rightarrow>
         decode_for_type String_decode (\<lambda>v. self\<lparr>sa_reason := Some v\<rparr>) src
     | P_UserProperty \<Rightarrow>
         decode_for_type (UserProperty_decode (sa_user_properties self)) (\<lambda>v. self\<lparr>sa_user_properties := v\<rparr>) src
     | _ \<Rightarrow> unsupported_property property_type)"

definition SubAck_codec_size :: "SubAck \<Rightarrow> u32" where
  "SubAck_codec_size p =
    derive_codec_size [prim_size (Prim_u16 (sa_packet_id p)), codec_size_vec_reason (sa_reason_codes p)] False []
      (SubAck_property_size p)"

definition SubAck_encode :: "SubAck \<Rightarrow> bytes codec_result" where
  "SubAck_encode p =
    encode_internal (Some (sa_fixed_header p, SubAck_codec_size p))
      [encode_for_primitive None (Prim_u16 (sa_packet_id p))] False []
      [property_encode_internal (SubAck_property_size p) (SubAck_property_fields p)]
      [encode_for_vec Reason_encode (sa_reason_codes p)]"

definition SubAck_decode :: "SubAck \<Rightarrow> bytes \<Rightarrow> (SubAck \<times> nat \<times> bytes) codec_result" where
  "SubAck_decode self src =
    bind (get_u16 src) (\<lambda>(v, src).
    bind (decode_properties SubAck_arms (self\<lparr>sa_packet_id := v\<rparr>) src) (\<lambda>(self, n, src).
    bind (decode_reasons src) (\<lambda>(value, m, src).
      Ok (self\<lparr>sa_reason_codes := value\<rparr>, 2 + n + m, src))))"

text \<open>Properties the generated decoder reads back: no user property.\<close>

definition SubAck_wf :: "SubAck \<Rightarrow> bool" where
  "SubAck_wf p \<longleftrightarrow> wf_string_opt (sa_reason p) \<and>
    sa_user_properties p = []"

definition SubAck_entries :: "SubAck \<Rightarrow> SubAck prop_entry list" where
  "SubAck_entries p =
    entry_opt P_ReasonString string_bytes (sa_reason p) (\<lambda>v r. r\<lparr>sa_reason := v\<rparr>)"

text \<open>The struct when its properties begin, with the items it will get last.\<close>

definition SubAck_blank :: "SubAck \<Rightarrow> SubAck" where
  "SubAck_blank p = SubAck_default\<lparr>sa_fixed_header := sa_fixed_header p, sa_packet_id := sa_packet_id p,
    sa_reason_codes := sa_reason_codes p\<rparr>"

lemma SubAck_fields_sized:
  "sized (seq_enc (SubAck_property_fields p)) (SubAck_property_size p)"
  unfolding SubAck_property_fields_def SubAck_property_size_def by (rule sized_seq) simp

lemma SubAck_fields_entries:
  "SubAck_wf p \<Longrightarrow> seq_enc (SubAck_property_fields p) = Ok (entries_bytes (SubAck_entries p))"
  by (simp add: SubAck_wf_def SubAck_property_fields_def SubAck_entries_def entry_simps)

interpretation suback: property_arms SubAck_arms SubAck_property_size SubAck_property_fields
  SubAck_entries SubAck_blank SubAck_wf
proof
  fix p assume wf: "SubAck_wf p"
  from wf show enc: "seq_enc (SubAck_property_fields p) = Ok (entries_bytes (SubAck_entries p))"
    by (rule SubAck_fields_entries)
  show "SubAck_property_size p = of_nat (length (entries_bytes (SubAck_entries p)))"
    by (rule sizedD [OF SubAck_fields_sized enc])
  show "\<forall>e \<in> set (SubAck_entries p). honest SubAck_arms e"
    using wf unfolding SubAck_entries_def SubAck_wf_def
    by (intro honest_rules) (simp_all add: SubAck_arms_def)
  show "apply_entries (SubAck_entries p) (SubAck_blank p) = p"
    using wf by (cases p) (simp add: SubAck_entries_def SubAck_blank_def SubAck_default_def SubAck_wf_def)
qed

lemma sized_reasons: "sized (encode_for_vec Reason_encode rs) (codec_size_vec_reason rs)"
proof -
  have "sum_list (map Reason_codec_size rs) = codec_size_vec_reason rs"
    by (induction rs) (simp_all add: Reason_codec_size_def codec_size_vec_reason_def)
  then show ?thesis
    using sized_seq_map [of Reason_encode Reason_codec_size rs] by (simp add: encode_for_vec_def)
qed

definition SubAck_body :: "SubAck \<Rightarrow> bytes" where
  "SubAck_body p = put_u16 (sa_packet_id p) @ vbi_bytes (SubAck_property_size p) @
    entries_bytes (SubAck_entries p) @ concat (map (\<lambda>r. put_u8 (Reason_as_u8 r)) (sa_reason_codes p))"

definition SubAck_sendable :: "SubAck \<Rightarrow> bool" where
  "SubAck_sendable p \<longleftrightarrow> SubAck_wf p \<and> sa_fixed_header p = FixedHeader_new PT_SubAck \<and>
    (\<forall>x \<in> set (sa_reason_codes p). (\<lambda>_. True) x) \<and> length (SubAck_body p) < 2097152"

lemma SubAck_clear [simp]:
  "SubAck_wf (p\<lparr>sa_reason_codes := []\<rparr>) = SubAck_wf p" "SubAck_entries (p\<lparr>sa_reason_codes := []\<rparr>) = SubAck_entries p"
  "SubAck_property_size (p\<lparr>sa_reason_codes := []\<rparr>) = SubAck_property_size p"
  by (simp_all add: SubAck_wf_def SubAck_entries_def SubAck_property_size_def)

interpretation suback: listing_packet SubAck_arms SubAck_property_size SubAck_property_fields SubAck_entries SubAck_blank SubAck_wf
  "\<lambda>r. put_u8 (Reason_as_u8 r)" "\<lambda>_. True" Reason_decode decode_reasons sa_fixed_header sa_packet_id sa_reason_codes
  "\<lambda>p. p\<lparr>sa_reason_codes := []\<rparr>" "\<lambda>xs p. p\<lparr>sa_reason_codes := xs\<rparr>"
  "\<lambda>v. SubAck_default\<lparr>sa_packet_id := v\<rparr>" Reason_encode "codec_size_vec_reason"
  SubAck_codec_size SubAck_encode "SubAck_decode SubAck_default" "\<lambda>_. True" SubAck_body SubAck_sendable
proof
  show "sized (encode_for_vec Reason_encode xs) (codec_size_vec_reason xs)" for xs
    by (rule sized_reasons)
  show "SubAck_sendable p \<Longrightarrow> SubAck_blank (p\<lparr>sa_reason_codes := []\<rparr>) = SubAck_default\<lparr>sa_packet_id := sa_packet_id p\<rparr>" for p
    by (simp add: SubAck_sendable_def SubAck_blank_def SubAck_default_def)
  show "SubAck_wf p \<Longrightarrow> (\<lambda>_. True) p" for p
    by (simp add: SubAck_wf_def vbi_decodable_in_range)
qed (simp_all add: SubAck_codec_size_def SubAck_encode_def SubAck_decode_def SubAck_sendable_def SubAck_body_def
    SubAck_fields_sized Reason_encode_def)

end
