(* ===== verification/Packet_Unsubscribe.thy ===== *)
theory Packet_Unsubscribe
  imports Listing_Packets
begin

text \<open>
  UNSUBSCRIBE and UNSUBACK (\<open>vaux-mqtt/src/unsubscribe.rs\<close>). The reason string of UNSUBACK is not
  optional, so the property is always written.
\<close>

section \<open>UNSUBACK\<close>

record UnsubAck =
  ua_fixed_header :: FixedHeader
  ua_packet_id :: u16
  ua_reason :: string
  ua_user_properties :: UserProperty
  ua_reason_code :: "Reason list"

definition UnsubAck_default :: UnsubAck where
  "UnsubAck_default =
    \<lparr>ua_fixed_header = FixedHeader_new PT_UnsubAck, ua_packet_id = 0, ua_reason = [],
     ua_user_properties = [], ua_reason_code = []\<rparr>"

definition UnsubAck_new_with_fixed_header :: "FixedHeader \<Rightarrow> UnsubAck codec_result" where
  "UnsubAck_new_with_fixed_header h =
    (if fh_packet_type h \<noteq> PT_UnsubAck then Err MqttCodecError_new
     else Ok (UnsubAck_default\<lparr>ua_fixed_header := h\<rparr>))"

definition UnsubAck_property_size :: "UnsubAck \<Rightarrow> u32" where
  "UnsubAck_property_size p = sum_list
    [size_for_string_property (ua_reason p),
     UserProperty_property_size (ua_user_properties p)]"

definition UnsubAck_property_fields :: "UnsubAck \<Rightarrow> bytes codec_result list" where
  "UnsubAck_property_fields p =
    [encode_for_string (Some P_ReasonString) (ua_reason p),
     UserProperty_encode (ua_user_properties p)]"

definition UnsubAck_arms :: "UnsubAck arms" where
  "UnsubAck_arms property_type self src =
    (case property_type of
       P_ReasonString \<Rightarrow>
         decode_for_type String_decode (\<lambda>v. self\<lparr>ua_reason := v\<rparr>) src
     | P_UserProperty \<Rightarrow>
         decode_for_type (UserProperty_decode (ua_user_properties self)) (\<lambda>v. self\<lparr>ua_user_properties := v\<rparr>) src
     | _ \<Rightarrow> unsupported_property property_type)"

definition UnsubAck_codec_size :: "UnsubAck \<Rightarrow> u32" where
  "UnsubAck_codec_size p =
    derive_codec_size [prim_size (Prim_u16 (ua_packet_id p)), size_for_vec Reason_codec_size (ua_reason_code p)] False []
      (UnsubAck_property_size p)"

definition UnsubAck_encode :: "UnsubAck \<Rightarrow> bytes codec_result" where
  "UnsubAck_encode p =
    encode_internal (Some (ua_fixed_header p, UnsubAck_codec_size p))
      [encode_for_primitive None (Prim_u16 (ua_packet_id p))] False []
      [property_encode_internal (UnsubAck_property_size p) (UnsubAck_property_fields p)]
      [encode_for_vec Reason_encode (ua_reason_code p)]"

definition UnsubAck_decode :: "UnsubAck \<Rightarrow> bytes \<Rightarrow> (UnsubAck \<times> nat \<times> bytes) codec_result" where
  "UnsubAck_decode self src =
    bind (get_u16 src) (\<lambda>(v, src).
    bind (decode_properties UnsubAck_arms (self\<lparr>ua_packet_id := v\<rparr>) src) (\<lambda>(self, n, src).
    bind (decode_reasons src) (\<lambda>(value, m, src).
      Ok (self\<lparr>ua_reason_code := value\<rparr>, 2 + n + m, src))))"

text \<open>Properties the generated decoder reads back: no user property.\<close>

definition UnsubAck_wf :: "UnsubAck \<Rightarrow> bool" where
  "UnsubAck_wf p \<longleftrightarrow> wf_string (ua_reason p) \<and>
    ua_user_properties p = []"

definition UnsubAck_entries :: "UnsubAck \<Rightarrow> UnsubAck prop_entry list" where
  "UnsubAck_entries p =
    entry_string P_ReasonString (ua_reason p) (\<lambda>v r. r\<lparr>ua_reason := v\<rparr>)"

text \<open>The struct when its properties begin, with the items it will get last.\<close>

definition UnsubAck_blank :: "UnsubAck \<Rightarrow> UnsubAck" where
  "UnsubAck_blank p = UnsubAck_default\<lparr>ua_fixed_header := ua_fixed_header p, ua_packet_id := ua_packet_id p,
    ua_reason_code := ua_reason_code p\<rparr>"

lemma UnsubAck_fields_sized:
  "sized (seq_enc (UnsubAck_property_fields p)) (UnsubAck_property_size p)"
  unfolding UnsubAck_property_fields_def UnsubAck_property_size_def by (rule sized_seq) simp

lemma UnsubAck_fields_entries:
  "UnsubAck_wf p \<Longrightarrow> seq_enc (UnsubAck_property_fields p) = Ok (entries_bytes (UnsubAck_entries p))"
  by (simp add: UnsubAck_wf_def UnsubAck_property_fields_def UnsubAck_entries_def entry_simps)

interpretation unsuback: property_arms UnsubAck_arms UnsubAck_property_size UnsubAck_property_fields
  UnsubAck_entries UnsubAck_blank UnsubAck_wf
proof
  fix p assume wf: "UnsubAck_wf p"
  from wf show enc: "seq_enc (UnsubAck_property_fields p) = Ok (entries_bytes (UnsubAck_entries p))"
    by (rule UnsubAck_fields_entries)
  show "UnsubAck_property_size p = of_nat (length (entries_bytes (UnsubAck_entries p)))"
    by (rule sizedD [OF UnsubAck_fields_sized enc])
  show "\<forall>e \<in> set (UnsubAck_entries p). honest UnsubAck_arms e"
    using wf unfolding UnsubAck_entries_def UnsubAck_wf_def
    by (intro honest_rules) (simp_all add: UnsubAck_arms_def)
  show "apply_entries (UnsubAck_entries p) (UnsubAck_blank p) = p"
    using wf by (cases p) (simp add: UnsubAck_entries_def UnsubAck_blank_def UnsubAck_default_def UnsubAck_wf_def)
qed

definition UnsubAck_body :: "UnsubAck \<Rightarrow> bytes" where
  "UnsubAck_body p = put_u16 (ua_packet_id p) @ vbi_bytes (UnsubAck_property_size p) @
    entries_bytes (UnsubAck_entries p) @ concat (map (\<lambda>r. put_u8 (Reason_as_u8 r)) (ua_reason_code p))"

definition UnsubAck_sendable :: "UnsubAck \<Rightarrow> bool" where
  "UnsubAck_sendable p \<longleftrightarrow> UnsubAck_wf p \<and> ua_fixed_header p = FixedHeader_new PT_UnsubAck \<and>
    (\<forall>x \<in> set (ua_reason_code p). (\<lambda>_. True) x) \<and> length (UnsubAck_body p) < 2097152"

lemma UnsubAck_clear [simp]:
  "UnsubAck_wf (p\<lparr>ua_reason_code := []\<rparr>) = UnsubAck_wf p" "UnsubAck_entries (p\<lparr>ua_reason_code := []\<rparr>) = UnsubAck_entries p"
  "UnsubAck_property_size (p\<lparr>ua_reason_code := []\<rparr>) = UnsubAck_property_size p"
  by (simp_all add: UnsubAck_wf_def UnsubAck_entries_def UnsubAck_property_size_def)

interpretation unsuback: listing_packet UnsubAck_arms UnsubAck_property_size UnsubAck_property_fields UnsubAck_entries UnsubAck_blank UnsubAck_wf
  "\<lambda>r. put_u8 (Reason_as_u8 r)" "\<lambda>_. True" Reason_decode decode_reasons ua_fixed_header ua_packet_id ua_reason_code
  "\<lambda>p. p\<lparr>ua_reason_code := []\<rparr>" "\<lambda>xs p. p\<lparr>ua_reason_code := xs\<rparr>"
  "\<lambda>v. UnsubAck_default\<lparr>ua_packet_id := v\<rparr>" Reason_encode "size_for_vec Reason_codec_size"
  UnsubAck_codec_size UnsubAck_encode "UnsubAck_decode UnsubAck_default" "\<lambda>_. True" UnsubAck_body UnsubAck_sendable
proof
  show "sized (encode_for_vec Reason_encode xs) (size_for_vec Reason_codec_size xs)" for xs
    by (rule sized_vec) simp
  show "UnsubAck_sendable p \<Longrightarrow> UnsubAck_blank (p\<lparr>ua_reason_code := []\<rparr>) = UnsubAck_default\<lparr>ua_packet_id := ua_packet_id p\<rparr>" for p
    by (simp add: UnsubAck_sendable_def UnsubAck_blank_def UnsubAck_default_def)
  show "UnsubAck_wf p \<Longrightarrow> (\<lambda>_. True) p" for p
    by (simp add: UnsubAck_wf_def vbi_decodable_in_range)
qed (simp_all add: UnsubAck_codec_size_def UnsubAck_encode_def UnsubAck_decode_def UnsubAck_sendable_def UnsubAck_body_def
    UnsubAck_fields_sized Reason_encode_def)

section \<open>UNSUBSCRIBE\<close>

record Unsubscribe =
  us_fixed_header :: FixedHeader
  us_packet_id :: u16
  us_props :: UserProperty
  us_topics :: "string list"

definition Unsubscribe_default :: Unsubscribe where
  "Unsubscribe_default =
    \<lparr>us_fixed_header = FixedHeader_new PT_Unsubscribe, us_packet_id = 0, us_props = [], us_topics = []\<rparr>"

definition Unsubscribe_new_with_fixed_header :: "FixedHeader \<Rightarrow> Unsubscribe codec_result" where
  "Unsubscribe_new_with_fixed_header h =
    (if fh_packet_type h \<noteq> PT_Unsubscribe then Err MqttCodecError_new
     else Ok (Unsubscribe_default\<lparr>us_fixed_header := h\<rparr>))"

definition Unsubscribe_new :: "u16 \<Rightarrow> string list \<Rightarrow> Unsubscribe" where
  "Unsubscribe_new pid topics = Unsubscribe_default\<lparr>us_packet_id := pid, us_topics := topics\<rparr>"

definition Unsubscribe_add_topic :: "Unsubscribe \<Rightarrow> string \<Rightarrow> Unsubscribe" where
  "Unsubscribe_add_topic p topic = p\<lparr>us_topics := us_topics p @ [topic]\<rparr>"

definition Unsubscribe_property_size :: "Unsubscribe \<Rightarrow> u32" where
  "Unsubscribe_property_size p = sum_list
    [UserProperty_property_size (us_props p)]"

definition Unsubscribe_property_fields :: "Unsubscribe \<Rightarrow> bytes codec_result list" where
  "Unsubscribe_property_fields p =
    [UserProperty_encode (us_props p)]"

definition Unsubscribe_arms :: "Unsubscribe arms" where
  "Unsubscribe_arms property_type self src =
    (case property_type of
       P_UserProperty \<Rightarrow>
         decode_for_type (UserProperty_decode (us_props self)) (\<lambda>v. self\<lparr>us_props := v\<rparr>) src
     | _ \<Rightarrow> unsupported_property property_type)"

definition Unsubscribe_codec_size :: "Unsubscribe \<Rightarrow> u32" where
  "Unsubscribe_codec_size p =
    derive_codec_size [prim_size (Prim_u16 (us_packet_id p)), size_for_vec String_codec_size (us_topics p)] False []
      (Unsubscribe_property_size p)"

definition Unsubscribe_encode :: "Unsubscribe \<Rightarrow> bytes codec_result" where
  "Unsubscribe_encode p =
    encode_internal (Some (us_fixed_header p, Unsubscribe_codec_size p))
      [encode_for_primitive None (Prim_u16 (us_packet_id p))] False []
      [property_encode_internal (Unsubscribe_property_size p) (Unsubscribe_property_fields p)]
      [encode_for_vec encode_string (us_topics p)]"

definition Unsubscribe_decode :: "Unsubscribe \<Rightarrow> bytes \<Rightarrow> (Unsubscribe \<times> nat \<times> bytes) codec_result" where
  "Unsubscribe_decode self src =
    bind (get_u16 src) (\<lambda>(v, src).
    bind (decode_properties Unsubscribe_arms (self\<lparr>us_packet_id := v\<rparr>) src) (\<lambda>(self, n, src).
    bind (decode_strings src) (\<lambda>(value, m, src).
      Ok (self\<lparr>us_topics := value\<rparr>, 2 + n + m, src))))"

text \<open>Properties the generated decoder reads back: no user property.\<close>

definition Unsubscribe_wf :: "Unsubscribe \<Rightarrow> bool" where
  "Unsubscribe_wf p \<longleftrightarrow> us_props p = []"

definition Unsubscribe_entries :: "Unsubscribe \<Rightarrow> Unsubscribe prop_entry list" where
  "Unsubscribe_entries p =
    []"

text \<open>The struct when its properties begin, with the items it will get last.\<close>

definition Unsubscribe_blank :: "Unsubscribe \<Rightarrow> Unsubscribe" where
  "Unsubscribe_blank p = Unsubscribe_default\<lparr>us_fixed_header := us_fixed_header p, us_packet_id := us_packet_id p,
    us_topics := us_topics p\<rparr>"

lemma Unsubscribe_fields_sized:
  "sized (seq_enc (Unsubscribe_property_fields p)) (Unsubscribe_property_size p)"
  unfolding Unsubscribe_property_fields_def Unsubscribe_property_size_def by (rule sized_seq) simp

lemma Unsubscribe_fields_entries:
  "Unsubscribe_wf p \<Longrightarrow> seq_enc (Unsubscribe_property_fields p) = Ok (entries_bytes (Unsubscribe_entries p))"
  by (simp add: Unsubscribe_wf_def Unsubscribe_property_fields_def Unsubscribe_entries_def entry_simps)

interpretation unsubscribe: property_arms Unsubscribe_arms Unsubscribe_property_size Unsubscribe_property_fields
  Unsubscribe_entries Unsubscribe_blank Unsubscribe_wf
proof
  fix p assume wf: "Unsubscribe_wf p"
  from wf show enc: "seq_enc (Unsubscribe_property_fields p) = Ok (entries_bytes (Unsubscribe_entries p))"
    by (rule Unsubscribe_fields_entries)
  show "Unsubscribe_property_size p = of_nat (length (entries_bytes (Unsubscribe_entries p)))"
    by (rule sizedD [OF Unsubscribe_fields_sized enc])
  show "\<forall>e \<in> set (Unsubscribe_entries p). honest Unsubscribe_arms e"
    by (simp add: Unsubscribe_entries_def)
  show "apply_entries (Unsubscribe_entries p) (Unsubscribe_blank p) = p"
    using wf by (cases p) (simp add: Unsubscribe_entries_def Unsubscribe_blank_def Unsubscribe_default_def Unsubscribe_wf_def)
qed

lemma sized_encode_string: "sized (encode_string s) (String_codec_size s)"
  by (auto simp: sized_def String_codec_size_def dest!: encode_string_OkD)

definition Unsubscribe_body :: "Unsubscribe \<Rightarrow> bytes" where
  "Unsubscribe_body p = put_u16 (us_packet_id p) @ vbi_bytes (Unsubscribe_property_size p) @
    entries_bytes (Unsubscribe_entries p) @ concat (map (string_bytes) (us_topics p))"

definition Unsubscribe_sendable :: "Unsubscribe \<Rightarrow> bool" where
  "Unsubscribe_sendable p \<longleftrightarrow> Unsubscribe_wf p \<and> us_fixed_header p = FixedHeader_new PT_Unsubscribe \<and>
    (\<forall>x \<in> set (us_topics p). (wf_string) x) \<and> length (Unsubscribe_body p) < 2097152"

lemma Unsubscribe_clear [simp]:
  "Unsubscribe_wf (p\<lparr>us_topics := []\<rparr>) = Unsubscribe_wf p" "Unsubscribe_entries (p\<lparr>us_topics := []\<rparr>) = Unsubscribe_entries p"
  "Unsubscribe_property_size (p\<lparr>us_topics := []\<rparr>) = Unsubscribe_property_size p"
  by (simp_all add: Unsubscribe_wf_def Unsubscribe_entries_def Unsubscribe_property_size_def)

interpretation unsubscribe: listing_packet Unsubscribe_arms Unsubscribe_property_size Unsubscribe_property_fields Unsubscribe_entries Unsubscribe_blank Unsubscribe_wf
  "string_bytes" "wf_string" String_decode decode_strings us_fixed_header us_packet_id us_topics
  "\<lambda>p. p\<lparr>us_topics := []\<rparr>" "\<lambda>xs p. p\<lparr>us_topics := xs\<rparr>"
  "\<lambda>v. Unsubscribe_default\<lparr>us_packet_id := v\<rparr>" encode_string "size_for_vec String_codec_size"
  Unsubscribe_codec_size Unsubscribe_encode "Unsubscribe_decode Unsubscribe_default" "\<lambda>_. True" Unsubscribe_body Unsubscribe_sendable
proof
  show "sized (encode_for_vec encode_string xs) (size_for_vec String_codec_size xs)" for xs
    by (rule sized_vec) (rule sized_encode_string)
  show "Unsubscribe_sendable p \<Longrightarrow> Unsubscribe_blank (p\<lparr>us_topics := []\<rparr>) = Unsubscribe_default\<lparr>us_packet_id := us_packet_id p\<rparr>" for p
    by (simp add: Unsubscribe_sendable_def Unsubscribe_blank_def Unsubscribe_default_def)
  show "Unsubscribe_wf p \<Longrightarrow> (\<lambda>_. True) p" for p
    by (simp add: Unsubscribe_wf_def vbi_decodable_in_range)
qed (simp_all add: Unsubscribe_codec_size_def Unsubscribe_encode_def Unsubscribe_decode_def Unsubscribe_sendable_def Unsubscribe_body_def
    Unsubscribe_fields_sized wf_string_def)

end
