(* ===== verification/Packet_Connect.thy ===== *)
theory Packet_Connect
  imports Codec_Macro
begin

text \<open>
  The will message (\<open>vaux-mqtt/src/will.rs\<close>) and the CONNECT packet (\<open>vaux-mqtt/src/connect.rs\<close>): the
  connect flags, the will, user name and password operations, the generated encoder and the
  hand-written decoder. The random client identifier of \<open>Connect::new\<close> is a parameter.
\<close>

section \<open>The will header\<close>

record WillHeader =
  wh_will_delay :: "u32 option"
  wh_payload_format :: "PayloadFormat option"
  wh_message_expiry :: "u32 option"
  wh_content_type :: "string option"
  wh_response_topic :: "string option"
  wh_correlation_data :: bytes
  wh_user_properties :: UserProperty

definition WillHeader_default :: WillHeader where
  "WillHeader_default =
    \<lparr>wh_will_delay = None, wh_payload_format = None, wh_message_expiry = None, wh_content_type = None,
     wh_response_topic = None, wh_correlation_data = [], wh_user_properties = []\<rparr>"

definition WillHeader_property_size :: "WillHeader \<Rightarrow> u32" where
  "WillHeader_property_size p = sum_list
    [size_for_primitive_property_opt (map_option Prim_u32 (wh_will_delay p)),
     size_for_codec_size_opt PayloadFormat_property_size (wh_payload_format p),
     size_for_primitive_property_opt (map_option Prim_u32 (wh_message_expiry p)),
     size_for_string_property_opt (wh_content_type p),
     size_for_string_property_opt (wh_response_topic p),
     skip_if_size (wh_correlation_data p = []) (size_for_vec_u8 True (wh_correlation_data p)),
     UserProperty_property_size (wh_user_properties p)]"

definition WillHeader_property_fields :: "WillHeader \<Rightarrow> bytes codec_result list" where
  "WillHeader_property_fields p =
    [encode_for_primitive_opt (Some P_WillDelay) (map_option Prim_u32 (wh_will_delay p)),
     encode_for_option (Some P_PayloadFormat) PayloadFormat_encode (wh_payload_format p),
     encode_for_primitive_opt (Some P_MessageExpiry) (map_option Prim_u32 (wh_message_expiry p)),
     encode_for_string_opt (Some P_ContentType) (wh_content_type p),
     encode_for_string_opt (Some P_ResponseTopic) (wh_response_topic p),
     skip_if (wh_correlation_data p = []) (encode_for_vec_u8 (Some P_CorrelationData) (wh_correlation_data p)),
     UserProperty_encode (wh_user_properties p)]"

definition WillHeader_arms :: "WillHeader arms" where
  "WillHeader_arms property_type self src =
    (case property_type of
       P_WillDelay \<Rightarrow>
         decode_for_type u32_decode (\<lambda>v. self\<lparr>wh_will_delay := Some v\<rparr>) src
     | P_PayloadFormat \<Rightarrow>
         decode_for_type PayloadFormat_decode (\<lambda>v. self\<lparr>wh_payload_format := Some v\<rparr>) src
     | P_MessageExpiry \<Rightarrow>
         decode_for_type u32_decode (\<lambda>v. self\<lparr>wh_message_expiry := Some v\<rparr>) src
     | P_ContentType \<Rightarrow>
         decode_for_type String_decode (\<lambda>v. self\<lparr>wh_content_type := Some v\<rparr>) src
     | P_ResponseTopic \<Rightarrow>
         decode_for_type String_decode (\<lambda>v. self\<lparr>wh_response_topic := Some v\<rparr>) src
     | P_CorrelationData \<Rightarrow>
         decode_for_vec_u8 (\<lambda>v. self\<lparr>wh_correlation_data := v\<rparr>) src
     | P_UserProperty \<Rightarrow>
         decode_for_type (UserProperty_decode (wh_user_properties self)) (\<lambda>v. self\<lparr>wh_user_properties := v\<rparr>) src
     | _ \<Rightarrow> unsupported_property property_type)"

definition WillHeader_codec_size :: "WillHeader \<Rightarrow> u32" where
  "WillHeader_codec_size p = derive_codec_size [] False [] (WillHeader_property_size p)"

definition WillHeader_encode :: "WillHeader \<Rightarrow> bytes codec_result" where
  "WillHeader_encode p =
    encode_internal None [] False []
      [property_encode_internal (WillHeader_property_size p) (WillHeader_property_fields p)] []"

definition WillHeader_decode :: "WillHeader \<Rightarrow> bytes \<Rightarrow> (WillHeader \<times> nat \<times> bytes) codec_result" where
  "WillHeader_decode self src = decode_properties WillHeader_arms self src"

text \<open>Properties the generated decoder reads back: no user property, no correlation data.\<close>

definition WillHeader_wf :: "WillHeader \<Rightarrow> bool" where
  "WillHeader_wf p \<longleftrightarrow> wf_string_opt (wh_content_type p) \<and>
    wf_string_opt (wh_response_topic p) \<and>
    wh_correlation_data p = [] \<and>
    wh_user_properties p = []"

definition WillHeader_entries :: "WillHeader \<Rightarrow> WillHeader prop_entry list" where
  "WillHeader_entries p =
    entry_opt P_WillDelay put_u32 (wh_will_delay p) (\<lambda>v r. r\<lparr>wh_will_delay := v\<rparr>) @
    entry_opt P_PayloadFormat (\<lambda>f. put_u8 (PayloadFormat_as_u8 f)) (wh_payload_format p) (\<lambda>v r. r\<lparr>wh_payload_format := v\<rparr>) @
    entry_opt P_MessageExpiry put_u32 (wh_message_expiry p) (\<lambda>v r. r\<lparr>wh_message_expiry := v\<rparr>) @
    entry_opt P_ContentType string_bytes (wh_content_type p) (\<lambda>v r. r\<lparr>wh_content_type := v\<rparr>) @
    entry_opt P_ResponseTopic string_bytes (wh_response_topic p) (\<lambda>v r. r\<lparr>wh_response_topic := v\<rparr>)"

definition WillHeader_blank :: "WillHeader \<Rightarrow> WillHeader" where
  "WillHeader_blank p = WillHeader_default"

lemma WillHeader_fields_sized:
  "sized (seq_enc (WillHeader_property_fields p)) (WillHeader_property_size p)"
  unfolding WillHeader_property_fields_def WillHeader_property_size_def by (rule sized_seq) simp

lemma WillHeader_fields_entries:
  "WillHeader_wf p \<Longrightarrow> seq_enc (WillHeader_property_fields p) = Ok (entries_bytes (WillHeader_entries p))"
  by (simp add: WillHeader_wf_def WillHeader_property_fields_def WillHeader_entries_def entry_simps)

interpretation will_header: property_arms WillHeader_arms WillHeader_property_size WillHeader_property_fields
  WillHeader_entries WillHeader_blank WillHeader_wf
proof
  fix p assume wf: "WillHeader_wf p"
  from wf show enc: "seq_enc (WillHeader_property_fields p) = Ok (entries_bytes (WillHeader_entries p))"
    by (rule WillHeader_fields_entries)
  show "WillHeader_property_size p = of_nat (length (entries_bytes (WillHeader_entries p)))"
    by (rule sizedD [OF WillHeader_fields_sized enc])
  show "\<forall>e \<in> set (WillHeader_entries p). honest WillHeader_arms e"
    using wf unfolding WillHeader_entries_def set_append ball_Un WillHeader_wf_def
    by (intro conjI honest_rules) (simp_all add: WillHeader_arms_def)
  show "apply_entries (WillHeader_entries p) (WillHeader_blank p) = p"
    using wf by (cases p) (simp add: WillHeader_entries_def WillHeader_blank_def WillHeader_default_def WillHeader_wf_def)
qed

definition will_header_bytes :: "WillHeader \<Rightarrow> bytes" where
  "will_header_bytes p = vbi_bytes (WillHeader_property_size p) @ entries_bytes (WillHeader_entries p)"

lemma WillHeader_encode_ok: "WillHeader_wf p \<Longrightarrow> WillHeader_encode p = Ok (will_header_bytes p)"
  by (simp add: WillHeader_encode_def encode_internal_def will_header.property_encode_ok will_header_bytes_def)

lemma WillHeader_decode_enc:
  "WillHeader_wf p \<Longrightarrow> length (will_header_bytes p) < 2097152 \<Longrightarrow>
    WillHeader_decode WillHeader_default (will_header_bytes p @ rest) = Ok (p, length (will_header_bytes p), rest)"
  using will_header.decode_properties_enc [of p rest]
  by (simp add: WillHeader_decode_def will_header_bytes_def WillHeader_blank_def)

lemma WillHeader_sized:
  assumes "unat (WillHeader_property_size p) < 268435456"
  shows "sized (WillHeader_encode p) (WillHeader_codec_size p)"
proof (rule sizedI)
  fix bs assume "WillHeader_encode p = Ok bs"
  then obtain c where c: "seq_enc (WillHeader_property_fields p) = Ok c"
    and bs: "bs = vbi_bytes (WillHeader_property_size p) @ c"
    by (auto simp: WillHeader_encode_def encode_internal_def property_encode_internal_def encode_variable_byte_int_def)
  have "variable_byte_int_size (WillHeader_property_size p) = of_nat (length (vbi_bytes (WillHeader_property_size p)))"
    using length_vbi_bytes [OF assms] by simp
  with sizedD [OF WillHeader_fields_sized c] bs show "WillHeader_codec_size p = of_nat (length bs)"
    by (simp add: WillHeader_codec_size_def derive_codec_size_def)
qed

section \<open>The will message\<close>

record WillMessage =
  wm_header :: WillHeader
  wm_topic :: string
  wm_payload :: bytes
  wm_qos :: QoSLevel
  wm_retain :: bool

definition WillMessage_new :: "string \<Rightarrow> bytes \<Rightarrow> QoSLevel \<Rightarrow> bool \<Rightarrow> WillMessage" where
  "WillMessage_new topic payload qos retain =
    \<lparr>wm_header = WillHeader_default, wm_topic = topic, wm_payload = payload, wm_qos = qos, wm_retain = retain\<rparr>"

definition WillMessage_with_delay :: "WillMessage \<Rightarrow> u32 \<Rightarrow> WillMessage" where
  "WillMessage_with_delay w delay = w\<lparr>wm_header := (wm_header w)\<lparr>wh_will_delay := Some delay\<rparr>\<rparr>"

definition WillMessage_with_payload_format :: "WillMessage \<Rightarrow> PayloadFormat \<Rightarrow> WillMessage" where
  "WillMessage_with_payload_format w format = w\<lparr>wm_header := (wm_header w)\<lparr>wh_payload_format := Some format\<rparr>\<rparr>"

definition WillMessage_with_message_expiry :: "WillMessage \<Rightarrow> u32 \<Rightarrow> WillMessage" where
  "WillMessage_with_message_expiry w expiry = w\<lparr>wm_header := (wm_header w)\<lparr>wh_message_expiry := Some expiry\<rparr>\<rparr>"

definition WillMessage_with_content_type :: "WillMessage \<Rightarrow> string \<Rightarrow> WillMessage" where
  "WillMessage_with_content_type w ct = w\<lparr>wm_header := (wm_header w)\<lparr>wh_content_type := Some ct\<rparr>\<rparr>"

definition WillMessage_with_response_topic :: "WillMessage \<Rightarrow> string \<Rightarrow> WillMessage" where
  "WillMessage_with_response_topic w topic = w\<lparr>wm_header := (wm_header w)\<lparr>wh_response_topic := Some topic\<rparr>\<rparr>"

definition WillMessage_with_correlation_data :: "WillMessage \<Rightarrow> bytes \<Rightarrow> WillMessage" where
  "WillMessage_with_correlation_data w d = w\<lparr>wm_header := (wm_header w)\<lparr>wh_correlation_data := d\<rparr>\<rparr>"

definition WillMessage_with_user_properties :: "WillMessage \<Rightarrow> UserProperty \<Rightarrow> WillMessage" where
  "WillMessage_with_user_properties w m = w\<lparr>wm_header := (wm_header w)\<lparr>wh_user_properties := m\<rparr>\<rparr>"

section \<open>CONNECT\<close>

definition CONNECT_FLAG_USERNAME :: u8 where "CONNECT_FLAG_USERNAME = 0b10000000"
definition CONNECT_FLAG_PASSWORD :: u8 where "CONNECT_FLAG_PASSWORD = 0b01000000"
definition CONNECT_FLAG_WILL_RETAIN :: u8 where "CONNECT_FLAG_WILL_RETAIN = 0b00100000"
definition CONNECT_FLAG_WILL_QOS :: u8 where "CONNECT_FLAG_WILL_QOS = 0b00011000"
definition CONNECT_FLAG_WILL :: u8 where "CONNECT_FLAG_WILL = 0b00000100"
definition CONNECT_FLAG_CLEAN_START :: u8 where "CONNECT_FLAG_CLEAN_START = 0b00000010"

lemmas connect_masks = CONNECT_FLAG_USERNAME_def CONNECT_FLAG_PASSWORD_def CONNECT_FLAG_WILL_RETAIN_def
  CONNECT_FLAG_WILL_QOS_def CONNECT_FLAG_WILL_def CONNECT_FLAG_CLEAN_START_def

definition MQTT_PROTOCOL_NAME :: string where "MQTT_PROTOCOL_NAME = ''MQTT''"
definition MQTT_PROTOCOL_VERSION :: u8 where "MQTT_PROTOCOL_VERSION = 0x05"

record Connect =
  co_fixed_header :: FixedHeader
  co_protocol_name :: string
  co_protocol_version :: u8
  co_connect_flags :: u8
  co_keep_alive :: u16
  co_session_expiry_interval :: "u32 option"
  co_receive_maximum :: "u16 option"
  co_max_packet_size :: "u32 option"
  co_topic_alias_maximum :: "u16 option"
  co_request_response_info :: "bool option"
  co_request_problem_info :: "bool option"
  co_auth_method :: "string option"
  co_auth_data :: bytes
  co_user_properties :: UserProperty
  co_client_id :: string
  co_will_properties :: "WillHeader option"
  co_will_payload :: bytes
  co_will_topic :: "string option"
  co_username :: string
  co_password :: bytes

definition Connect_new :: "string \<Rightarrow> Connect" where
  "Connect_new uuid =
    \<lparr>co_fixed_header = FixedHeader_new PT_Connect, co_protocol_name = MQTT_PROTOCOL_NAME,
     co_protocol_version = MQTT_PROTOCOL_VERSION, co_connect_flags = 0, co_keep_alive = 60,
     co_session_expiry_interval = None, co_receive_maximum = None, co_max_packet_size = None,
     co_topic_alias_maximum = None, co_request_response_info = None, co_request_problem_info = None,
     co_auth_method = None, co_auth_data = [], co_user_properties = [], co_client_id = uuid,
     co_will_properties = None, co_will_payload = [], co_will_topic = None, co_username = [],
     co_password = []\<rparr>"

definition Connect_new_with_fixed_header :: "string \<Rightarrow> FixedHeader \<Rightarrow> Connect codec_result" where
  "Connect_new_with_fixed_header uuid h =
    (if fh_packet_type h \<noteq> PT_Connect then Err MqttCodecError_new
     else Ok ((Connect_new uuid)\<lparr>co_fixed_header := h\<rparr>))"

definition Connect_clean_start :: "Connect \<Rightarrow> bool" where
  "Connect_clean_start p \<longleftrightarrow> co_connect_flags p AND CONNECT_FLAG_CLEAN_START \<noteq> 0"

definition Connect_set_clean_start :: "Connect \<Rightarrow> bool \<Rightarrow> Connect" where
  "Connect_set_clean_start p clean_start =
    p\<lparr>co_connect_flags := (co_connect_flags p AND NOT CONNECT_FLAG_CLEAN_START) OR push_bit 1 (of_bool clean_start)\<rparr>"

definition Connect_will_retain :: "Connect \<Rightarrow> bool" where
  "Connect_will_retain p \<longleftrightarrow> co_connect_flags p AND CONNECT_FLAG_WILL_RETAIN \<noteq> 0"

definition Connect_set_will_retain :: "Connect \<Rightarrow> bool \<Rightarrow> Connect" where
  "Connect_set_will_retain p will_retain =
    p\<lparr>co_connect_flags := (co_connect_flags p AND NOT CONNECT_FLAG_WILL_RETAIN) OR push_bit 5 (of_bool will_retain)\<rparr>"

definition Connect_will_qos :: "Connect \<Rightarrow> QoSLevel codec_result" where
  "Connect_will_qos p = QoSLevel_try_from (drop_bit 3 (co_connect_flags p AND CONNECT_FLAG_WILL_QOS))"

definition Connect_set_will_qos :: "Connect \<Rightarrow> QoSLevel \<Rightarrow> Connect" where
  "Connect_set_will_qos p qos =
    p\<lparr>co_connect_flags := (co_connect_flags p AND NOT CONNECT_FLAG_WILL_QOS) OR push_bit 3 (QoSLevel_as_u8 qos)\<rparr>"

definition Connect_will :: "Connect \<Rightarrow> bool" where
  "Connect_will p \<longleftrightarrow> co_connect_flags p AND CONNECT_FLAG_WILL \<noteq> 0"

definition Connect_set_will :: "Connect \<Rightarrow> bool \<Rightarrow> Connect" where
  "Connect_set_will p will =
    p\<lparr>co_connect_flags := (co_connect_flags p AND NOT CONNECT_FLAG_WILL) OR push_bit 2 (of_bool will)\<rparr>"

definition Connect_username :: "Connect \<Rightarrow> bool" where
  "Connect_username p \<longleftrightarrow> co_connect_flags p AND CONNECT_FLAG_USERNAME \<noteq> 0"

definition Connect_set_username :: "Connect \<Rightarrow> string option \<Rightarrow> Connect" where
  "Connect_set_username p username =
    p\<lparr>co_connect_flags :=
        (if username = None then co_connect_flags p AND NOT CONNECT_FLAG_USERNAME
         else (co_connect_flags p AND NOT CONNECT_FLAG_USERNAME) OR push_bit 7 1),
      co_username := (case username of Some u \<Rightarrow> u | None \<Rightarrow> [])\<rparr>"

definition Connect_password :: "Connect \<Rightarrow> bool" where
  "Connect_password p \<longleftrightarrow> co_connect_flags p AND CONNECT_FLAG_PASSWORD \<noteq> 0"

definition Connect_set_password :: "Connect \<Rightarrow> bytes option \<Rightarrow> Connect" where
  "Connect_set_password p password =
    p\<lparr>co_connect_flags :=
        (if password = None then co_connect_flags p AND NOT CONNECT_FLAG_PASSWORD
         else (co_connect_flags p AND NOT CONNECT_FLAG_PASSWORD) OR push_bit 6 1),
      co_password := (case password of Some u \<Rightarrow> u | None \<Rightarrow> [])\<rparr>"

definition Connect_set_session_expiry_interval :: "Connect \<Rightarrow> u32 \<Rightarrow> Connect" where
  "Connect_set_session_expiry_interval p interval =
    (if interval = 0 then p\<lparr>co_session_expiry_interval := None\<rparr>
     else p\<lparr>co_session_expiry_interval := Some interval\<rparr>)"

definition Connect_will_message :: "Connect \<Rightarrow> WillMessage option" where
  "Connect_will_message p =
    (if Connect_will p then
       Some \<lparr>wm_header = (case co_will_properties p of Some h \<Rightarrow> h | None \<Rightarrow> WillHeader_default),
         wm_topic = (case co_will_topic p of Some t \<Rightarrow> t | None \<Rightarrow> []),
         wm_payload = co_will_payload p,
         wm_qos = unwrap_or (Connect_will_qos p) AtMostOnce,
         wm_retain = Connect_will_retain p\<rparr>
     else None)"

definition Connect_set_will_message :: "Connect \<Rightarrow> WillMessage \<Rightarrow> Connect" where
  "Connect_set_will_message p will =
    (let p = p\<lparr>co_will_topic := Some (wm_topic will), co_will_payload := wm_payload will,
               co_will_properties := Some (wm_header will)\<rparr>;
         p = Connect_set_will p True;
         p = Connect_set_will_qos p (wm_qos will)
     in Connect_set_will_retain p (wm_retain will))"

text \<open>\<open>From<WillMessage> for Connect\<close>\<close>

definition Connect_from_will :: "string \<Rightarrow> WillMessage \<Rightarrow> Connect" where
  "Connect_from_will uuid will = Connect_set_will_message (Connect_new uuid) will"

definition Connect_property_size :: "Connect \<Rightarrow> u32" where
  "Connect_property_size p = sum_list
    [size_for_primitive_property_opt (map_option Prim_u32 (co_session_expiry_interval p)),
     size_for_primitive_property_opt (map_option Prim_u16 (co_receive_maximum p)),
     size_for_primitive_property_opt (map_option Prim_u32 (co_max_packet_size p)),
     size_for_primitive_property_opt (map_option Prim_u16 (co_topic_alias_maximum p)),
     size_for_primitive_property_opt (map_option Prim_bool (co_request_response_info p)),
     size_for_primitive_property_opt (map_option Prim_bool (co_request_problem_info p)),
     size_for_string_property_opt (co_auth_method p),
     skip_if_size (co_auth_data p = []) (size_for_vec_u8 True (co_auth_data p)),
     UserProperty_property_size (co_user_properties p)]"

definition Connect_property_fields :: "Connect \<Rightarrow> bytes codec_result list" where
  "Connect_property_fields p =
    [encode_for_primitive_opt (Some P_SessionExpiryInterval) (map_option Prim_u32 (co_session_expiry_interval p)),
     encode_for_primitive_opt (Some P_RecvMax) (map_option Prim_u16 (co_receive_maximum p)),
     encode_for_primitive_opt (Some P_MaxPacketSize) (map_option Prim_u32 (co_max_packet_size p)),
     encode_for_primitive_opt (Some P_TopicAliasMax) (map_option Prim_u16 (co_topic_alias_maximum p)),
     encode_for_primitive_opt (Some P_ReqRespInfo) (map_option Prim_bool (co_request_response_info p)),
     encode_for_primitive_opt (Some P_ReqProblemInfo) (map_option Prim_bool (co_request_problem_info p)),
     encode_for_string_opt (Some P_AuthMethod) (co_auth_method p),
     skip_if (co_auth_data p = []) (encode_for_vec_u8 (Some P_AuthData) (co_auth_data p)),
     UserProperty_encode (co_user_properties p)]"

definition Connect_arms :: "Connect arms" where
  "Connect_arms property_type self src =
    (case property_type of
       P_SessionExpiryInterval \<Rightarrow>
         decode_for_type u32_decode (\<lambda>v. self\<lparr>co_session_expiry_interval := Some v\<rparr>) src
     | P_RecvMax \<Rightarrow>
         decode_for_primitive get_u16 2 (\<lambda>v. self\<lparr>co_receive_maximum := Some v\<rparr>) src
     | P_MaxPacketSize \<Rightarrow>
         decode_for_type u32_decode (\<lambda>v. self\<lparr>co_max_packet_size := Some v\<rparr>) src
     | P_TopicAliasMax \<Rightarrow>
         decode_for_primitive get_u16 2 (\<lambda>v. self\<lparr>co_topic_alias_maximum := Some v\<rparr>) src
     | P_ReqRespInfo \<Rightarrow>
         decode_for_primitive get_bool 1 (\<lambda>v. self\<lparr>co_request_response_info := Some v\<rparr>) src
     | P_ReqProblemInfo \<Rightarrow>
         decode_for_primitive get_bool 1 (\<lambda>v. self\<lparr>co_request_problem_info := Some v\<rparr>) src
     | P_AuthMethod \<Rightarrow>
         decode_for_type String_decode (\<lambda>v. self\<lparr>co_auth_method := Some v\<rparr>) src
     | P_AuthData \<Rightarrow>
         decode_for_type Vec_u8_decode (\<lambda>v. self\<lparr>co_auth_data := v\<rparr>) src
     | P_UserProperty \<Rightarrow>
         decode_for_type (UserProperty_decode (co_user_properties self)) (\<lambda>v. self\<lparr>co_user_properties := v\<rparr>) src
     | _ \<Rightarrow> unsupported_property property_type)"

text \<open>The fields before the properties, and the payload fields after them, in declaration order.\<close>

definition Connect_header_fields :: "Connect \<Rightarrow> bytes codec_result list" where
  "Connect_header_fields p =
    [encode_for_string None (co_protocol_name p), encode_for_primitive None (Prim_u8 (co_protocol_version p)),
     encode_for_primitive None (Prim_u8 (co_connect_flags p)), encode_for_primitive None (Prim_u16 (co_keep_alive p))]"

definition Connect_payload_fields :: "Connect \<Rightarrow> bytes codec_result list" where
  "Connect_payload_fields p =
    [encode_for_string None (co_client_id p),
     encode_for_option None WillHeader_encode (co_will_properties p),
     skip_if (co_will_payload p = []) (encode_for_vec_u8 None (co_will_payload p)),
     encode_for_string_opt None (co_will_topic p),
     skip_if (co_username p = []) (encode_for_string None (co_username p)),
     skip_if (co_password p = []) (encode_for_vec_u8 None (co_password p))]"

definition Connect_field_sizes :: "Connect \<Rightarrow> u32 list" where
  "Connect_field_sizes p =
    [size_for_string (co_protocol_name p), prim_size (Prim_u8 (co_protocol_version p)),
     prim_size (Prim_u8 (co_connect_flags p)), prim_size (Prim_u16 (co_keep_alive p)),
     size_for_string (co_client_id p),
     size_for_codec_size_opt WillHeader_codec_size (co_will_properties p),
     skip_if_size (co_will_payload p = []) (size_for_vec_u8 False (co_will_payload p)),
     size_for_option_string (co_will_topic p),
     skip_if_size (co_username p = []) (size_for_string (co_username p)),
     skip_if_size (co_password p = []) (size_for_vec_u8 False (co_password p))]"

definition Connect_codec_size :: "Connect \<Rightarrow> u32" where
  "Connect_codec_size p = derive_codec_size (Connect_field_sizes p) False [] (Connect_property_size p)"

definition Connect_encode :: "Connect \<Rightarrow> bytes codec_result" where
  "Connect_encode p =
    encode_internal (Some (co_fixed_header p, Connect_codec_size p)) (Connect_header_fields p) False []
      [property_encode_internal (Connect_property_size p) (Connect_property_fields p)]
      (Connect_payload_fields p)"

text \<open>The hand-written decoder; the will, user name and password blocks one definition each.\<close>

definition Connect_decode_will :: "Connect \<Rightarrow> bytes \<Rightarrow> (Connect \<times> nat \<times> bytes) codec_result" where
  "Connect_decode_will self src =
    (if Connect_will self then
       bind (WillHeader_decode WillHeader_default src) (\<lambda>(will_header, a, src).
       bind (Vec_u8_decode src) (\<lambda>(payload, b, src).
       bind (String_decode src) (\<lambda>(topic, c, src).
         Ok (self\<lparr>co_will_properties := Some will_header, co_will_payload := payload,
                 co_will_topic := Some topic\<rparr>, a + b + c, src))))
     else Ok (self, 0, src))"

definition Connect_decode_username :: "Connect \<Rightarrow> bytes \<Rightarrow> (Connect \<times> nat \<times> bytes) codec_result" where
  "Connect_decode_username self src =
    (if Connect_username self then
       bind (String_decode src) (\<lambda>(v, n, src). Ok (self\<lparr>co_username := v\<rparr>, n, src))
     else Ok (self, 0, src))"

definition Connect_decode_password :: "Connect \<Rightarrow> bytes \<Rightarrow> (Connect \<times> nat \<times> bytes) codec_result" where
  "Connect_decode_password self src =
    (if Connect_password self then
       bind (Vec_u8_decode src) (\<lambda>(v, n, src). Ok (self\<lparr>co_password := v\<rparr>, n, src))
     else Ok (self, 0, src))"

definition Connect_decode :: "Connect \<Rightarrow> bytes \<Rightarrow> (Connect \<times> nat \<times> bytes) codec_result" where
  "Connect_decode self src =
    bind (String_decode src) (\<lambda>(protocol_name, n1, src).
    bind (get_u8 src) (\<lambda>(version, src).
    bind (get_u8 src) (\<lambda>(flags, src).
    bind (get_u16 src) (\<lambda>(keep_alive, src).
    bind (decode_properties Connect_arms
        (self\<lparr>co_protocol_name := protocol_name, co_protocol_version := version,
              co_connect_flags := flags, co_keep_alive := keep_alive\<rparr>) src) (\<lambda>(self, n2, src).
    bind (String_decode src) (\<lambda>(client_id, n3, src).
    bind (Connect_decode_will (self\<lparr>co_client_id := client_id\<rparr>) src) (\<lambda>(self, n4, src).
    bind (Connect_decode_username self src) (\<lambda>(self, n5, src).
    bind (Connect_decode_password self src) (\<lambda>(self, n6, src).
      Ok (self, n1 + 1 + 1 + 2 + n2 + n3 + n4 + n5 + n6, src))))))))))"

section \<open>The connect flags\<close>

lemma connect_bool_field:
  "push_bit 1 (of_bool b :: u8) AND NOT CONNECT_FLAG_CLEAN_START = 0" "(push_bit 1 (of_bool b :: u8) = 0) = (\<not> b)"
  "push_bit 2 (of_bool b :: u8) AND NOT CONNECT_FLAG_WILL = 0" "(push_bit 2 (of_bool b :: u8) = 0) = (\<not> b)"
  "push_bit 5 (of_bool b :: u8) AND NOT CONNECT_FLAG_WILL_RETAIN = 0" "(push_bit 5 (of_bool b :: u8) = 0) = (\<not> b)"
  by (cases b; simp add: connect_masks)+

lemma connect_field_other:
  "push_bit 2 (of_bool b :: u8) AND CONNECT_FLAG_WILL_QOS = 0" "push_bit 2 (of_bool b :: u8) AND CONNECT_FLAG_WILL_RETAIN = 0"
  "push_bit 5 (of_bool b :: u8) AND CONNECT_FLAG_WILL_QOS = 0" "push_bit 5 (of_bool b :: u8) AND CONNECT_FLAG_WILL = 0"
  "push_bit 2 (of_bool b :: u8) AND CONNECT_FLAG_CLEAN_START = 0" "push_bit 5 (of_bool b :: u8) AND CONNECT_FLAG_CLEAN_START = 0"
  by (cases b; simp add: connect_masks)+

lemma connect_qos_field:
  "push_bit 3 (QoSLevel_as_u8 q) AND NOT CONNECT_FLAG_WILL_QOS = 0"
  "drop_bit 3 (push_bit 3 (QoSLevel_as_u8 q)) = QoSLevel_as_u8 q"
  "push_bit 3 (QoSLevel_as_u8 q) AND CONNECT_FLAG_WILL = 0" "push_bit 3 (QoSLevel_as_u8 q) AND CONNECT_FLAG_WILL_RETAIN = 0"
  "push_bit 3 (QoSLevel_as_u8 q) AND CONNECT_FLAG_CLEAN_START = 0"
  by (cases q; simp add: connect_masks)+

lemma connect_masks_disjoint:
  "CONNECT_FLAG_WILL AND CONNECT_FLAG_WILL_QOS = 0" "CONNECT_FLAG_WILL AND CONNECT_FLAG_WILL_RETAIN = 0"
  "CONNECT_FLAG_WILL_QOS AND CONNECT_FLAG_WILL = 0" "CONNECT_FLAG_WILL_QOS AND CONNECT_FLAG_WILL_RETAIN = 0"
  "CONNECT_FLAG_WILL_RETAIN AND CONNECT_FLAG_WILL = 0" "CONNECT_FLAG_WILL_RETAIN AND CONNECT_FLAG_WILL_QOS = 0"
  "CONNECT_FLAG_WILL AND CONNECT_FLAG_CLEAN_START = 0" "CONNECT_FLAG_WILL_QOS AND CONNECT_FLAG_CLEAN_START = 0"
  "CONNECT_FLAG_WILL_RETAIN AND CONNECT_FLAG_CLEAN_START = 0"
  by (simp_all add: connect_masks)

lemma co_flags_upd:
  "co_connect_flags (p\<lparr>co_connect_flags := x\<rparr>) = x"
  "co_connect_flags (p\<lparr>co_will_properties := h\<rparr>) = co_connect_flags p"
  "co_will_topic (p\<lparr>co_connect_flags := x\<rparr>) = co_will_topic p"
  "co_will_payload (p\<lparr>co_connect_flags := x\<rparr>) = co_will_payload p"
  "co_will_properties (p\<lparr>co_connect_flags := x\<rparr>) = co_will_properties p"
  by simp_all

lemmas connect_fields = connect_bool_field connect_field_other connect_qos_field connect_masks_disjoint
  mask_write_same mask_write_other co_flags_upd

lemmas connect_getters = Connect_will_def Connect_will_qos_def Connect_will_retain_def Connect_clean_start_def

lemma Connect_set_clean_start_get [simp]: "Connect_clean_start (Connect_set_clean_start p b) = b"
  by (simp only: connect_getters Connect_set_clean_start_def connect_fields not_not)

lemma Connect_set_will_laws [simp]:
  "Connect_will (Connect_set_will p b) = b"
  "Connect_will_qos (Connect_set_will p b) = Connect_will_qos p"
  "Connect_will_retain (Connect_set_will p b) = Connect_will_retain p"
  "Connect_clean_start (Connect_set_will p b) = Connect_clean_start p"
  by (simp_all only: connect_getters Connect_set_will_def connect_fields not_not)

lemma Connect_set_will_qos_laws [simp]:
  "Connect_will_qos (Connect_set_will_qos p q) = Ok q"
  "Connect_will (Connect_set_will_qos p q) = Connect_will p"
  "Connect_will_retain (Connect_set_will_qos p q) = Connect_will_retain p"
  "Connect_clean_start (Connect_set_will_qos p q) = Connect_clean_start p"
  by (simp_all only: connect_getters Connect_set_will_qos_def connect_fields QoSLevel_try_from_as_u8)

lemma Connect_set_will_retain_laws [simp]:
  "Connect_will_retain (Connect_set_will_retain p b) = b"
  "Connect_will (Connect_set_will_retain p b) = Connect_will p"
  "Connect_will_qos (Connect_set_will_retain p b) = Connect_will_qos p"
  "Connect_clean_start (Connect_set_will_retain p b) = Connect_clean_start p"
  by (simp_all only: connect_getters Connect_set_will_retain_def connect_fields not_not)

lemma Connect_set_flags_frame [simp]:
  "co_will_topic (Connect_set_will p b) = co_will_topic p" "co_will_payload (Connect_set_will p b) = co_will_payload p"
  "co_will_properties (Connect_set_will p b) = co_will_properties p"
  "co_will_topic (Connect_set_will_qos p q) = co_will_topic p" "co_will_payload (Connect_set_will_qos p q) = co_will_payload p"
  "co_will_properties (Connect_set_will_qos p q) = co_will_properties p"
  "co_will_topic (Connect_set_will_retain p b) = co_will_topic p" "co_will_payload (Connect_set_will_retain p b) = co_will_payload p"
  "co_will_properties (Connect_set_will_retain p b) = co_will_properties p"
  by (simp_all only: Connect_set_will_def Connect_set_will_qos_def Connect_set_will_retain_def co_flags_upd)

lemma Connect_will_message_set [simp]: "Connect_will_message (Connect_set_will_message p w) = Some w"
  by (simp add: Connect_will_message_def Connect_set_will_message_def Let_def)

section \<open>Size and round trip of CONNECT\<close>

text \<open>Properties the decoder reads back: no user property.\<close>

definition Connect_wf :: "Connect \<Rightarrow> bool" where
  "Connect_wf p \<longleftrightarrow> wf_string_opt (co_auth_method p) \<and>
    length (co_auth_data p) \<le> 65535 \<and>
    co_user_properties p = []"

definition Connect_entries :: "Connect \<Rightarrow> Connect prop_entry list" where
  "Connect_entries p =
    entry_opt P_SessionExpiryInterval put_u32 (co_session_expiry_interval p) (\<lambda>v r. r\<lparr>co_session_expiry_interval := v\<rparr>) @
    entry_opt P_RecvMax put_u16 (co_receive_maximum p) (\<lambda>v r. r\<lparr>co_receive_maximum := v\<rparr>) @
    entry_opt P_MaxPacketSize put_u32 (co_max_packet_size p) (\<lambda>v r. r\<lparr>co_max_packet_size := v\<rparr>) @
    entry_opt P_TopicAliasMax put_u16 (co_topic_alias_maximum p) (\<lambda>v r. r\<lparr>co_topic_alias_maximum := v\<rparr>) @
    entry_opt P_ReqRespInfo put_bool (co_request_response_info p) (\<lambda>v r. r\<lparr>co_request_response_info := v\<rparr>) @
    entry_opt P_ReqProblemInfo put_bool (co_request_problem_info p) (\<lambda>v r. r\<lparr>co_request_problem_info := v\<rparr>) @
    entry_opt P_AuthMethod string_bytes (co_auth_method p) (\<lambda>v r. r\<lparr>co_auth_method := v\<rparr>) @
    entry_vec P_AuthData (co_auth_data p) (\<lambda>v r. r\<lparr>co_auth_data := v\<rparr>)"

text \<open>The struct before its properties are read.\<close>

definition Connect_blank :: "Connect \<Rightarrow> Connect" where
  "Connect_blank p = p\<lparr>co_session_expiry_interval := None, co_receive_maximum := None, co_max_packet_size := None,
    co_topic_alias_maximum := None, co_request_response_info := None, co_request_problem_info := None,
    co_auth_method := None, co_auth_data := [], co_user_properties := []\<rparr>"

lemma Connect_fields_sized:
  "sized (seq_enc (Connect_property_fields p)) (Connect_property_size p)"
  unfolding Connect_property_fields_def Connect_property_size_def by (rule sized_seq) simp

lemma Connect_fields_entries:
  "Connect_wf p \<Longrightarrow> seq_enc (Connect_property_fields p) = Ok (entries_bytes (Connect_entries p))"
  by (simp add: Connect_wf_def Connect_property_fields_def Connect_entries_def entry_simps)

interpretation connect: property_arms Connect_arms Connect_property_size Connect_property_fields
  Connect_entries Connect_blank Connect_wf
proof
  fix p assume wf: "Connect_wf p"
  from wf show enc: "seq_enc (Connect_property_fields p) = Ok (entries_bytes (Connect_entries p))"
    by (rule Connect_fields_entries)
  show "Connect_property_size p = of_nat (length (entries_bytes (Connect_entries p)))"
    by (rule sizedD [OF Connect_fields_sized enc])
  show "\<forall>e \<in> set (Connect_entries p). honest Connect_arms e"
    using wf unfolding Connect_entries_def set_append ball_Un Connect_wf_def
    by (intro conjI honest_rules) (simp_all add: Connect_arms_def)
  show "apply_entries (Connect_entries p) (Connect_blank p) = p"
    using wf by (cases p) (simp add: Connect_entries_def Connect_blank_def Connect_wf_def)
qed
text \<open>The size of the will header needs its property length to be in range.\<close>

definition will_in_range :: "Connect \<Rightarrow> bool" where
  "will_in_range p \<longleftrightarrow> pred_option (\<lambda>h. unat (WillHeader_property_size h) < 268435456) (co_will_properties p)"

lemma sized_will_header:
  "will_in_range p \<Longrightarrow> sized (encode_for_option None WillHeader_encode (co_will_properties p))
    (size_for_codec_size_opt WillHeader_codec_size (co_will_properties p))"
  using WillHeader_sized
  by (auto simp: will_in_range_def sized_def encode_for_option_def size_for_codec_size_opt_def prop_ident_encode_def
      split: option.splits)

lemma sized_username: "sized (skip_if (u = []) (encode_for_string None u)) (skip_if_size (u = []) (size_for_string u))"
  by (simp add: skip_if_def skip_if_size_def)

lemma Connect_header_sized:
  "will_in_range p \<Longrightarrow> sized (seq_enc (Connect_header_fields p @ (if False then [] else Connect_payload_fields p)))
    (sum_list (Connect_field_sizes p))"
  unfolding Connect_header_fields_def Connect_payload_fields_def Connect_field_sizes_def
  by (rule sized_seq) (simp add: sized_will_header sized_username del: prim_size.simps)

lemma Connect_encode_framed:
  assumes "Connect_encode p = Ok bs" and "will_in_range p" and "unat (Connect_property_size p) < 268435456"
  shows "\<exists>body. bs = header_byte (co_fixed_header p) # vbi_bytes (Connect_codec_size p) @ body \<and>
    Connect_codec_size p = of_nat (length body)"
  by (rule packet_sized [OF assms(1) [unfolded Connect_encode_def] Connect_codec_size_def])
    (use assms(2,3) Connect_header_sized [of p] in \<open>simp_all add: Connect_fields_sized\<close>)

text \<open>
  The encoder decides by content whether a payload field is written, the decoder by the flags; the
  two agree when flag and content do. An empty user name, password or will payload is written as
  nothing at all even if its flag is set.
\<close>

definition Connect_flags_agree :: "Connect \<Rightarrow> bool" where
  "Connect_flags_agree p \<longleftrightarrow>
    (if Connect_will p then co_will_properties p \<noteq> None \<and> co_will_payload p \<noteq> [] \<and> co_will_topic p \<noteq> None
     else co_will_properties p = None \<and> co_will_payload p = [] \<and> co_will_topic p = None) \<and>
    (Connect_username p \<longleftrightarrow> co_username p \<noteq> []) \<and> (Connect_password p \<longleftrightarrow> co_password p \<noteq> [])"

definition Connect_payload_wf :: "Connect \<Rightarrow> bool" where
  "Connect_payload_wf p \<longleftrightarrow> wf_string (co_protocol_name p) \<and> wf_string (co_client_id p) \<and>
    pred_option WillHeader_wf (co_will_properties p) \<and> length (co_will_payload p) \<le> 65535 \<and>
    wf_string_opt (co_will_topic p) \<and> wf_string (co_username p) \<and> length (co_password p) \<le> 65535"

definition will_bytes :: "Connect \<Rightarrow> bytes" where
  "will_bytes p = (case co_will_properties p of Some h \<Rightarrow> will_header_bytes h | None \<Rightarrow> []) @
    (if co_will_payload p = [] then [] else array_bytes (co_will_payload p)) @
    (case co_will_topic p of Some t \<Rightarrow> string_bytes t | None \<Rightarrow> [])"

definition username_bytes :: "Connect \<Rightarrow> bytes" where
  "username_bytes p = (if co_username p = [] then [] else string_bytes (co_username p))"

definition password_bytes :: "Connect \<Rightarrow> bytes" where
  "password_bytes p = (if co_password p = [] then [] else array_bytes (co_password p))"

definition Connect_body :: "Connect \<Rightarrow> bytes" where
  "Connect_body p = (string_bytes (co_protocol_name p) @ put_u8 (co_protocol_version p) @
      put_u8 (co_connect_flags p) @ put_u16 (co_keep_alive p)) @
    (vbi_bytes (Connect_property_size p) @ entries_bytes (Connect_entries p)) @
    string_bytes (co_client_id p) @ will_bytes p @ username_bytes p @ password_bytes p"

definition Connect_sendable :: "Connect \<Rightarrow> bool" where
  "Connect_sendable p \<longleftrightarrow> Connect_wf p \<and> Connect_payload_wf p \<and> Connect_flags_agree p \<and>
    co_fixed_header p = FixedHeader_new PT_Connect \<and> length (Connect_body p) < 2097152"

lemma Connect_payload_ok:
  assumes "Connect_payload_wf p"
  shows "seq_enc (Connect_payload_fields p) = Ok (string_bytes (co_client_id p) @ will_bytes p @ username_bytes p @ password_bytes p)"
proof -
  have will: "encode_for_option None WillHeader_encode (co_will_properties p) =
      Ok (case co_will_properties p of Some h \<Rightarrow> will_header_bytes h | None \<Rightarrow> [])"
    using assms by (auto simp: Connect_payload_wf_def encode_for_option_def prop_ident_encode_def
        WillHeader_encode_ok split: option.splits)
  have topic: "encode_for_string_opt None (co_will_topic p) =
      Ok (case co_will_topic p of Some t \<Rightarrow> string_bytes t | None \<Rightarrow> [])"
    using assms by (auto simp: Connect_payload_wf_def encode_for_string_opt_def prop_ident_encode_def
        wf_string_opt_def wf_string_def split: option.splits)
  show ?thesis
    using assms by (auto simp: Connect_payload_fields_def will topic will_bytes_def username_bytes_def password_bytes_def
        Connect_payload_wf_def skip_if_def encode_for_string_def encode_for_vec_u8_def prop_ident_encode_def wf_string_def)
qed

lemma Connect_flag_upd [simp]:
  "Connect_will (p\<lparr>co_will_properties := h, co_will_payload := d, co_will_topic := t\<rparr>) = Connect_will p"
  "Connect_username (p\<lparr>co_will_properties := h, co_will_payload := d, co_will_topic := t\<rparr>) = Connect_username p"
  "Connect_password (p\<lparr>co_will_properties := h, co_will_payload := d, co_will_topic := t\<rparr>) = Connect_password p"
  "Connect_username (p\<lparr>co_client_id := c\<rparr>) = Connect_username p"
  "Connect_password (p\<lparr>co_client_id := c\<rparr>) = Connect_password p" "Connect_will (p\<lparr>co_client_id := c\<rparr>) = Connect_will p"
  "Connect_password (p\<lparr>co_username := u\<rparr>) = Connect_password p"
  by (simp_all add: Connect_will_def Connect_username_def Connect_password_def)

text \<open>Each payload block read back, on a struct \<open>q\<close> with the flags of \<open>p\<close> and no payload yet.\<close>

lemma Connect_decode_will_enc:
  assumes "Connect_payload_wf p" and "Connect_flags_agree p" and "length (will_bytes p) < 2097152"
    and "Connect_will q = Connect_will p"
    and "\<not> Connect_will p \<Longrightarrow> co_will_properties q = None \<and> co_will_payload q = [] \<and> co_will_topic q = None"
  shows "Connect_decode_will q (will_bytes p @ rest) =
    Ok (q\<lparr>co_will_properties := co_will_properties p, co_will_payload := co_will_payload p,
          co_will_topic := co_will_topic p\<rparr>, length (will_bytes p), rest)"
proof (cases "Connect_will p")
  case True
  with assms obtain h t where h: "co_will_properties p = Some h" and t: "co_will_topic p = Some t"
    and d: "co_will_payload p \<noteq> []"
    by (auto simp: Connect_flags_agree_def)
  have wf: "WillHeader_wf h" "length (co_will_payload p) \<le> 65535" "wf_string t"
    using assms(1) by (auto simp: Connect_payload_wf_def h t wf_string_opt_def)
  have small: "length (will_header_bytes h) < 2097152" using assms(3) by (simp add: will_bytes_def h)
  show ?thesis
    using True assms(4) d
    by (simp add: Connect_decode_will_def will_bytes_def h t WillHeader_decode_enc [OF wf(1) small]
        Vec_u8_decode_enc [OF wf(2)] String_decode_enc [OF wf(3)])
next
  case False
  with assms show ?thesis
    by (cases q) (simp add: Connect_decode_will_def will_bytes_def Connect_flags_agree_def)
qed

lemma Connect_decode_username_enc:
  assumes "Connect_payload_wf p" and "Connect_flags_agree p" and "Connect_username q = Connect_username p"
    and "co_username q = []"
  shows "Connect_decode_username q (username_bytes p @ rest) =
    Ok (q\<lparr>co_username := co_username p\<rparr>, length (username_bytes p), rest)"
  using assms by (cases q) (auto simp: Connect_decode_username_def Connect_flags_agree_def Connect_payload_wf_def
      String_decode_enc username_bytes_def)

lemma Connect_decode_password_enc:
  assumes "Connect_payload_wf p" and "Connect_flags_agree p" and "Connect_password q = Connect_password p"
    and "co_password q = []"
  shows "Connect_decode_password q (password_bytes p) =
    Ok (q\<lparr>co_password := co_password p\<rparr>, length (password_bytes p), [])"
  using assms Vec_u8_decode_enc [of "co_password p" "[]"]
  by (cases q) (auto simp: Connect_decode_password_def Connect_flags_agree_def Connect_payload_wf_def password_bytes_def)

text \<open>What is left of a CONNECT once its payload is dropped: where the decoder stands after the properties.\<close>

definition Connect_clear :: "string \<Rightarrow> Connect \<Rightarrow> Connect" where
  "Connect_clear uuid p = p\<lparr>co_client_id := uuid, co_will_properties := None, co_will_payload := [],
    co_will_topic := None, co_username := [], co_password := []\<rparr>"

lemma Connect_clear_simps [simp]:
  "Connect_wf (Connect_clear u p) = Connect_wf p" "Connect_entries (Connect_clear u p) = Connect_entries p"
  "Connect_property_size (Connect_clear u p) = Connect_property_size p"
  by (simp_all add: Connect_wf_def Connect_entries_def Connect_property_size_def Connect_clear_def)

lemma Connect_start:
  "co_fixed_header p = FixedHeader_new PT_Connect \<Longrightarrow>
    (Connect_new u)\<lparr>co_protocol_name := co_protocol_name p, co_protocol_version := co_protocol_version p,
      co_connect_flags := co_connect_flags p, co_keep_alive := co_keep_alive p\<rparr> = Connect_blank (Connect_clear u p)"
  by (simp add: Connect_new_def Connect_blank_def Connect_clear_def)

lemma Connect_decode_body:
  assumes s: "Connect_sendable p"
  shows "Connect_decode (Connect_new u) (Connect_body p) = Ok (p, length (Connect_body p), [])"
proof -
  from s have wf: "Connect_wf p" and pwf: "Connect_payload_wf p" and agree: "Connect_flags_agree p"
    and h: "co_fixed_header p = FixedHeader_new PT_Connect" and small: "length (Connect_body p) < 2097152"
    by (auto simp: Connect_sendable_def)
  have e: "length (entries_bytes (Connect_entries p)) < 2097152" "length (will_bytes p) < 2097152"
    using small by (auto simp: Connect_body_def)
  have str: "wf_string (co_protocol_name p)" "wf_string (co_client_id p)"
    using pwf by (auto simp: Connect_payload_wf_def)
  let ?tail = "string_bytes (co_client_id p) @ will_bytes p @ username_bytes p @ password_bytes p"
  have props: "decode_properties Connect_arms (Connect_blank (Connect_clear u p))
      (vbi_bytes (Connect_property_size p) @ entries_bytes (Connect_entries p) @ ?tail) =
      Ok (Connect_clear u p, length (vbi_bytes (Connect_property_size p)) + length (entries_bytes (Connect_entries p)), ?tail)"
    using connect.decode_properties_enc [of "Connect_clear u p" ?tail] wf e by simp
  let ?q = "(Connect_clear u p)\<lparr>co_client_id := co_client_id p\<rparr>"
  let ?w = "?q\<lparr>co_will_properties := co_will_properties p, co_will_payload := co_will_payload p, co_will_topic := co_will_topic p\<rparr>"
  let ?n = "?w\<lparr>co_username := co_username p\<rparr>"
  have flags: "Connect_will ?q = Connect_will p" "Connect_username ?w = Connect_username p" "Connect_password ?n = Connect_password p"
    by (simp_all add: Connect_clear_def Connect_will_def Connect_username_def Connect_password_def)
  have will: "Connect_decode_will ?q (will_bytes p @ username_bytes p @ password_bytes p) =
      Ok (?w, length (will_bytes p), username_bytes p @ password_bytes p)"
    using flags(1) by (intro Connect_decode_will_enc [OF pwf agree e(2)]) (simp_all add: Connect_clear_def)
  have user: "Connect_decode_username ?w (username_bytes p @ password_bytes p) = Ok (?n, length (username_bytes p), password_bytes p)"
    using flags(2) by (intro Connect_decode_username_enc [OF pwf agree]) (simp_all add: Connect_clear_def)
  have pass: "Connect_decode_password ?n (password_bytes p) = Ok (?n\<lparr>co_password := co_password p\<rparr>, length (password_bytes p), [])"
    using flags(3) by (intro Connect_decode_password_enc [OF pwf agree]) (simp_all add: Connect_clear_def)
  have p: "?n\<lparr>co_password := co_password p\<rparr> = p" by (simp add: Connect_clear_def)
  show ?thesis
    unfolding Connect_body_def
    by (simp add: Connect_decode_def String_decode_enc [OF str(1)] get_put_u8 get_put_u16 Connect_start [OF h]
        props String_decode_enc [OF str(2)] will user pass [unfolded p])
qed

interpretation connect: packet_codec co_fixed_header Connect_encode "\<lambda>h. Connect_decode (Connect_new u)"
  Connect_body "\<lambda>p. p" Connect_sendable for u
proof
  fix p assume s: "Connect_sendable p"
  then have wf: "Connect_wf p" and pwf: "Connect_payload_wf p" and small: "length (Connect_body p) < 2097152"
    by (auto simp: Connect_sendable_def)
  have ps: "unat (Connect_property_size p) < 268435456"
    using connect.size_entries [OF wf] small by (simp add: Connect_body_def byte_simps)
  have range: "will_in_range p"
    unfolding will_in_range_def option.pred_set
  proof
    fix h assume "h \<in> set_option (co_will_properties p)"
    then have h: "co_will_properties p = Some h" by simp
    then have "length (entries_bytes (WillHeader_entries h)) < 2097152" "WillHeader_wf h"
      using small pwf by (auto simp: Connect_body_def will_bytes_def will_header_bytes_def Connect_payload_wf_def)
    then show "unat (WillHeader_property_size h) < 268435456"
      using will_header.size_entries [of h] by (simp add: byte_simps)
  qed
  have header: "seq_enc (Connect_header_fields p) = Ok (string_bytes (co_protocol_name p) @
      put_u8 (co_protocol_version p) @ put_u8 (co_connect_flags p) @ put_u16 (co_keep_alive p))"
    using pwf by (simp add: Connect_header_fields_def encode_for_primitive_def encode_for_string_def
        prop_ident_encode_def Connect_payload_wf_def wf_string_def)
  show "Connect_encode p =
      Ok (header_byte (co_fixed_header p) # vbi_bytes (of_nat (length (Connect_body p))) @ Connect_body p)"
    unfolding Connect_encode_def
    by (rule encode_internal_ok [OF Connect_codec_size_def Connect_header_sized [OF range]])
      (use ps in \<open>simp_all add: Connect_fields_sized Connect_body_def seq_enc_append header
        connect.property_encode_ok [OF wf] Connect_payload_ok [OF pwf]\<close>)
qed (auto simp: Connect_sendable_def Connect_decode_body)

end
