(* ===== verification/Packet_Publish.thy ===== *)
theory Packet_Publish
  imports Codec_Macro
begin

text \<open>
  The PUBLISH packet (\<open>vaux-mqtt/src/publish.rs\<close>): constructors and setters with their errors, the
  generated encoder and the hand-written decoder. Whether a packet identifier is on the wire is
  decided by the field in the encoder and by the QoS bits of the header in the decoder.
\<close>

record Publish =
  pu_fixed_header :: FixedHeader
  pu_topic_name :: string
  pu_packet_id :: "u16 option"
  pu_message_expiry :: "u32 option"
  pu_payload_format :: "PayloadFormat option"
  pu_topic_alias :: "u16 option"
  pu_response_topic :: "string option"
  pu_correlation_data :: bytes
  pu_subscription_identifiers :: "u32 option"
  pu_content_type :: "string option"
  pu_user_properties :: UserProperty
  pu_payload :: "bytes option"

definition Publish_default :: Publish where
  "Publish_default =
    \<lparr>pu_fixed_header = FixedHeader_new PT_Publish, pu_topic_name = [], pu_packet_id = None,
     pu_message_expiry = None, pu_payload_format = None, pu_topic_alias = None, pu_response_topic = None,
     pu_correlation_data = [], pu_subscription_identifiers = None, pu_content_type = None,
     pu_user_properties = [], pu_payload = None\<rparr>"

definition Publish_new_with_fixed_header :: "FixedHeader \<Rightarrow> Publish codec_result" where
  "Publish_new_with_fixed_header h =
    (if fh_packet_type h \<noteq> PT_Publish then Err MqttCodecError_new
     else Ok (Publish_default\<lparr>pu_fixed_header := h\<rparr>))"

definition Publish_new_from_header :: "FixedHeader \<Rightarrow> Publish codec_result" where
  "Publish_new_from_header h =
    (if fh_packet_type h = PT_Publish then Ok (Publish_default\<lparr>pu_fixed_header := h\<rparr>)
     else Err EK_MalformedPacket)"

definition Publish_qos :: "Publish \<Rightarrow> ('e, QoSLevel) res" where
  "Publish_qos p = FixedHeader_qos (pu_fixed_header p)"

definition Publish_set_qos :: "Publish \<Rightarrow> QoSLevel \<Rightarrow> Publish" where
  "Publish_set_qos p qos = p\<lparr>pu_fixed_header := FixedHeader_set_qos (pu_fixed_header p) qos\<rparr>"

definition Publish_with_qos :: "Publish \<Rightarrow> QoSLevel \<Rightarrow> Publish" where
  "Publish_with_qos p qos = Publish_set_qos p qos"

definition Publish_dup :: "Publish \<Rightarrow> bool" where
  "Publish_dup p = FixedHeader_dup (pu_fixed_header p)"

definition Publish_set_dup :: "Publish \<Rightarrow> bool \<Rightarrow> Publish codec_result" where
  "Publish_set_dup p dup =
    bind (FixedHeader_qos (pu_fixed_header p)) (\<lambda>qos.
      if qos = AtMostOnce \<and> dup then Err MqttCodecError_new
      else Ok (p\<lparr>pu_fixed_header := FixedHeader_set_dup (pu_fixed_header p) dup\<rparr>))"

definition Publish_with_dup :: "Publish \<Rightarrow> bool \<Rightarrow> Publish codec_result" where
  "Publish_with_dup p dup = Publish_set_dup p dup"

definition Publish_retain :: "Publish \<Rightarrow> bool" where
  "Publish_retain p = FixedHeader_retain (pu_fixed_header p)"

definition Publish_set_retain :: "Publish \<Rightarrow> bool \<Rightarrow> Publish" where
  "Publish_set_retain p retain = p\<lparr>pu_fixed_header := FixedHeader_set_retain (pu_fixed_header p) retain\<rparr>"

definition Publish_with_retain :: "Publish \<Rightarrow> bool \<Rightarrow> Publish" where
  "Publish_with_retain p retain = p\<lparr>pu_fixed_header := FixedHeader_set_retain (pu_fixed_header p) retain\<rparr>"

definition Publish_set_packet_id :: "Publish \<Rightarrow> u16 option \<Rightarrow> Publish codec_result" where
  "Publish_set_packet_id p pid =
    bind (FixedHeader_qos (pu_fixed_header p)) (\<lambda>qos.
      if qos = AtMostOnce then Err MqttCodecError_new else Ok (p\<lparr>pu_packet_id := pid\<rparr>))"

definition Publish_with_packet_id :: "Publish \<Rightarrow> u16 option \<Rightarrow> Publish codec_result" where
  "Publish_with_packet_id p pid = Publish_set_packet_id p pid"

definition Publish_with_topic_alias :: "Publish \<Rightarrow> u16 \<Rightarrow> Publish" where
  "Publish_with_topic_alias p alias = p\<lparr>pu_topic_alias := Some alias\<rparr>"

definition Publish_set_payload_format :: "Publish \<Rightarrow> PayloadFormat \<Rightarrow> Publish" where
  "Publish_set_payload_format p format =
    (if format = PF_Bin then p\<lparr>pu_payload_format := None\<rparr> else p\<lparr>pu_payload_format := Some format\<rparr>)"

definition Publish_with_payload_format :: "Publish \<Rightarrow> PayloadFormat \<Rightarrow> Publish" where
  "Publish_with_payload_format p format = Publish_set_payload_format p format"

definition Publish_new_with_payload :: "u16 option \<Rightarrow> string \<Rightarrow> QoSLevel \<Rightarrow> bytes \<Rightarrow> Publish codec_result" where
  "Publish_new_with_payload packet_id topic qos_level payload =
    (if packet_id = None \<and> qos_level \<noteq> AtMostOnce then Err MqttCodecError_new
     else if packet_id \<noteq> None \<and> qos_level = AtMostOnce then Err MqttCodecError_new
     else
       (let p = Publish_default\<lparr>pu_fixed_header := FixedHeader_new PT_Publish, pu_topic_name := topic,
                  pu_packet_id := packet_id, pu_payload := Some payload\<rparr>;
            p = Publish_with_qos p qos_level;
            p = Publish_with_payload_format p PF_Bin
        in Publish_with_dup p False))"

definition Publish_new_with_message :: "u16 option \<Rightarrow> string \<Rightarrow> QoSLevel \<Rightarrow> string \<Rightarrow> Publish codec_result" where
  "Publish_new_with_message packet_id topic qos_level message =
    map_ok (\<lambda>p. Publish_with_payload_format p PF_Utf8)
      (Publish_new_with_payload packet_id topic qos_level (as_bytes message))"

definition Publish_property_size :: "Publish \<Rightarrow> u32" where
  "Publish_property_size p = sum_list
    [size_for_primitive_property_opt (map_option Prim_u32 (pu_message_expiry p)),
     size_for_codec_size_opt PayloadFormat_property_size (pu_payload_format p),
     size_for_primitive_property_opt (map_option Prim_u16 (pu_topic_alias p)),
     size_for_string_property_opt (pu_response_topic p),
     skip_if_size (pu_correlation_data p = []) (size_for_vec_u8 True (pu_correlation_data p)),
     size_with_path_opt_property codec_size_opt_variable_byte_int (pu_subscription_identifiers p),
     size_for_string_property_opt (pu_content_type p),
     UserProperty_property_size (pu_user_properties p)]"

definition Publish_property_fields :: "Publish \<Rightarrow> bytes codec_result list" where
  "Publish_property_fields p =
    [encode_for_primitive_opt (Some P_MessageExpiry) (map_option Prim_u32 (pu_message_expiry p)),
     encode_for_option (Some P_PayloadFormat) PayloadFormat_encode (pu_payload_format p),
     encode_for_primitive_opt (Some P_TopicAlias) (map_option Prim_u16 (pu_topic_alias p)),
     encode_for_string_opt (Some P_ResponseTopic) (pu_response_topic p),
     skip_if (pu_correlation_data p = []) (encode_for_vec_u8 (Some P_CorrelationData) (pu_correlation_data p)),
     encode_for_encode_with_opt (Some P_SubscriptionIdentifier) encode_opt_variable_byte_int (pu_subscription_identifiers p),
     encode_for_string_opt (Some P_ContentType) (pu_content_type p),
     UserProperty_encode (pu_user_properties p)]"

definition Publish_arms :: "Publish arms" where
  "Publish_arms property_type self src =
    (case property_type of
       P_MessageExpiry \<Rightarrow>
         decode_for_type u32_decode (\<lambda>v. self\<lparr>pu_message_expiry := Some v\<rparr>) src
     | P_PayloadFormat \<Rightarrow>
         decode_for_type PayloadFormat_decode (\<lambda>v. self\<lparr>pu_payload_format := Some v\<rparr>) src
     | P_TopicAlias \<Rightarrow>
         decode_for_primitive get_u16 2 (\<lambda>v. self\<lparr>pu_topic_alias := Some v\<rparr>) src
     | P_ResponseTopic \<Rightarrow>
         decode_for_type String_decode (\<lambda>v. self\<lparr>pu_response_topic := Some v\<rparr>) src
     | P_CorrelationData \<Rightarrow>
         decode_for_type Vec_u8_decode (\<lambda>v. self\<lparr>pu_correlation_data := v\<rparr>) src
     | P_SubscriptionIdentifier \<Rightarrow>
         decode_for_type decode_opt_variable_byte_int (\<lambda>v. self\<lparr>pu_subscription_identifiers := v\<rparr>) src
     | P_ContentType \<Rightarrow>
         decode_for_type String_decode (\<lambda>v. self\<lparr>pu_content_type := Some v\<rparr>) src
     | P_UserProperty \<Rightarrow>
         decode_for_type (UserProperty_decode (pu_user_properties self)) (\<lambda>v. self\<lparr>pu_user_properties := v\<rparr>) src
     | _ \<Rightarrow> unsupported_property property_type)"

text \<open>\<open>packet_id\<close> is an \<open>Option<u16>\<close> field before the properties, the payload an \<open>encode_with\<close> field after them.\<close>

definition Publish_header_fields :: "Publish \<Rightarrow> bytes codec_result list" where
  "Publish_header_fields p =
    [encode_for_string None (pu_topic_name p), encode_for_primitive_opt None (map_option Prim_u16 (pu_packet_id p))]"

definition Publish_payload_fields :: "Publish \<Rightarrow> bytes codec_result list" where
  "Publish_payload_fields p = [encode_for_encode_with_opt None encode_opt_vec_u8_raw_ref (pu_payload p)]"

definition Publish_field_sizes :: "Publish \<Rightarrow> u32 list" where
  "Publish_field_sizes p =
    [size_for_string (pu_topic_name p), size_for_primitive_optional (map_option Prim_u16 (pu_packet_id p)),
     size_with_path_opt codec_size_opt_vec_u8_raw (pu_payload p)]"

definition Publish_codec_size :: "Publish \<Rightarrow> u32" where
  "Publish_codec_size p = derive_codec_size (Publish_field_sizes p) False [] (Publish_property_size p)"

definition Publish_encode :: "Publish \<Rightarrow> bytes codec_result" where
  "Publish_encode p =
    encode_internal (Some (pu_fixed_header p, Publish_codec_size p)) (Publish_header_fields p) False []
      [property_encode_internal (Publish_property_size p) (Publish_property_fields p)]
      (Publish_payload_fields p)"

text \<open>The packet identifier block of the decoder: present unless the header says QoS 0.\<close>

definition Publish_decode_packet_id :: "Publish \<Rightarrow> bytes \<Rightarrow> (Publish \<times> nat \<times> bytes) codec_result" where
  "Publish_decode_packet_id self src =
    bind (FixedHeader_qos (pu_fixed_header self)) (\<lambda>qos.
      if qos \<noteq> AtMostOnce then
        bind (get_u16 src) (\<lambda>(v, src). Ok (self\<lparr>pu_packet_id := Some v\<rparr>, 2, src))
      else Ok (self, 0, src))"

definition Publish_decode :: "Publish \<Rightarrow> bytes \<Rightarrow> (Publish \<times> nat \<times> bytes) codec_result" where
  "Publish_decode self src =
    bind (String_decode src) (\<lambda>(topic, n1, src).
    bind (Publish_decode_packet_id (self\<lparr>pu_topic_name := topic\<rparr>) src) (\<lambda>(self, n2, src).
    bind (decode_properties Publish_arms self src) (\<lambda>(self, n3, src).
    bind (decode_opt_vec_u8_raw src) (\<lambda>(value, n4, src).
      Ok (self\<lparr>pu_payload := value\<rparr>, n1 + n2 + n3 + n4, src)))))"

section \<open>Constructors and setters\<close>

lemma FixedHeader_new_Publish_qos [simp]: "FixedHeader_qos (FixedHeader_new PT_Publish) = Ok AtMostOnce"
  by (simp add: FixedHeader_qos_def FixedHeader_new_def header_masks QoSLevel_try_from_def)

lemma Publish_new_with_payload_ok:
  assumes "packet_id = None \<longleftrightarrow> qos = AtMostOnce"
  shows "\<exists>p. Publish_new_with_payload packet_id topic qos payload = Ok p \<and>
    Publish_qos p = (Ok qos :: QoSLevel codec_result) \<and> \<not> Publish_dup p \<and> \<not> Publish_retain p \<and> pu_topic_name p = topic \<and> pu_packet_id p = packet_id \<and>
    pu_payload p = Some payload \<and> pu_payload_format p = None"
proof -
  have r: "\<not> FixedHeader_retain (FixedHeader_new PT_Publish)"
    by (simp add: FixedHeader_retain_def FixedHeader_new_def header_masks)
  show ?thesis
    using assms r by (auto simp: Publish_new_with_payload_def Let_def Publish_with_qos_def Publish_set_qos_def
        Publish_with_payload_format_def Publish_set_payload_format_def Publish_with_dup_def Publish_set_dup_def
        Publish_qos_def Publish_dup_def Publish_retain_def Publish_default_def)
qed

lemma Publish_new_with_payload_err:
  "(packet_id = None) \<noteq> (qos = AtMostOnce) \<Longrightarrow>
    Publish_new_with_payload packet_id topic qos payload = Err EK_MalformedPacket"
  by (auto simp: Publish_new_with_payload_def MqttCodecError_new_def)

section \<open>Size and round trip\<close>

text \<open>Properties the decoder reads back: no user property, a short subscription identifier.\<close>

definition Publish_wf :: "Publish \<Rightarrow> bool" where
  "Publish_wf p \<longleftrightarrow> wf_string_opt (pu_response_topic p) \<and>
    length (pu_correlation_data p) \<le> 65535 \<and>
    vbi_decodable (pu_subscription_identifiers p) \<and>
    wf_string_opt (pu_content_type p) \<and>
    pu_user_properties p = []"

definition Publish_entries :: "Publish \<Rightarrow> Publish prop_entry list" where
  "Publish_entries p =
    entry_opt P_MessageExpiry put_u32 (pu_message_expiry p) (\<lambda>v r. r\<lparr>pu_message_expiry := v\<rparr>) @
    entry_opt P_PayloadFormat (\<lambda>f. put_u8 (PayloadFormat_as_u8 f)) (pu_payload_format p) (\<lambda>v r. r\<lparr>pu_payload_format := v\<rparr>) @
    entry_opt P_TopicAlias put_u16 (pu_topic_alias p) (\<lambda>v r. r\<lparr>pu_topic_alias := v\<rparr>) @
    entry_opt P_ResponseTopic string_bytes (pu_response_topic p) (\<lambda>v r. r\<lparr>pu_response_topic := v\<rparr>) @
    entry_vec P_CorrelationData (pu_correlation_data p) (\<lambda>v r. r\<lparr>pu_correlation_data := v\<rparr>) @
    entry_opt P_SubscriptionIdentifier vbi_bytes (pu_subscription_identifiers p) (\<lambda>v r. r\<lparr>pu_subscription_identifiers := v\<rparr>) @
    entry_opt P_ContentType string_bytes (pu_content_type p) (\<lambda>v r. r\<lparr>pu_content_type := v\<rparr>)"

text \<open>The struct before its properties are read.\<close>

definition Publish_blank :: "Publish \<Rightarrow> Publish" where
  "Publish_blank p = p\<lparr>pu_message_expiry := None, pu_payload_format := None, pu_topic_alias := None,
    pu_response_topic := None, pu_correlation_data := [], pu_subscription_identifiers := None,
    pu_content_type := None, pu_user_properties := []\<rparr>"

lemma Publish_fields_sized:
  "vbi_in_range (pu_subscription_identifiers p) \<Longrightarrow> sized (seq_enc (Publish_property_fields p)) (Publish_property_size p)"
  unfolding Publish_property_fields_def Publish_property_size_def by (rule sized_seq) simp

lemma Publish_fields_entries:
  "Publish_wf p \<Longrightarrow> seq_enc (Publish_property_fields p) = Ok (entries_bytes (Publish_entries p))"
  by (simp add: Publish_wf_def Publish_property_fields_def Publish_entries_def entry_simps)

interpretation publish: property_arms Publish_arms Publish_property_size Publish_property_fields
  Publish_entries Publish_blank Publish_wf
proof
  fix p assume wf: "Publish_wf p"
  have vbi: "vbi_in_range (pu_subscription_identifiers p)"
    using wf by (simp add: Publish_wf_def vbi_decodable_in_range)
  from wf show enc: "seq_enc (Publish_property_fields p) = Ok (entries_bytes (Publish_entries p))"
    by (rule Publish_fields_entries)
  show "Publish_property_size p = of_nat (length (entries_bytes (Publish_entries p)))"
    by (rule sizedD [OF Publish_fields_sized [OF vbi] enc])
  show "\<forall>e \<in> set (Publish_entries p). honest Publish_arms e"
    using wf unfolding Publish_entries_def set_append ball_Un Publish_wf_def
    by (intro conjI honest_rules) (simp_all add: Publish_arms_def)
  show "apply_entries (Publish_entries p) (Publish_blank p) = p"
    using wf by (cases p) (simp add: Publish_entries_def Publish_blank_def Publish_default_def Publish_wf_def)
qed
lemma sized_payload:
  "sized (encode_for_encode_with_opt None encode_opt_vec_u8_raw_ref d) (size_with_path_opt codec_size_opt_vec_u8_raw d)"
  by (auto simp: sized_def encode_for_encode_with_opt_def size_with_path_opt_def encode_opt_vec_u8_raw_ref_def
      codec_size_opt_vec_u8_raw_def prop_ident_encode_def split: option.splits)

lemma Publish_header_sized:
  "sized (seq_enc (Publish_header_fields p @ (if False then [] else Publish_payload_fields p)))
    (sum_list (Publish_field_sizes p))"
  unfolding Publish_header_fields_def Publish_payload_fields_def Publish_field_sizes_def
  by (rule sized_seq) (simp add: sized_payload)

lemma Publish_encode_framed:
  assumes "Publish_encode p = Ok bs" and "vbi_in_range (pu_subscription_identifiers p)"
    and "unat (Publish_property_size p) < 268435456"
  shows "\<exists>body. bs = header_byte (pu_fixed_header p) # vbi_bytes (Publish_codec_size p) @ body \<and>
    Publish_codec_size p = of_nat (length body)"
  by (rule packet_sized [OF assms(1) [unfolded Publish_encode_def] Publish_codec_size_def])
    (use assms(2,3) Publish_header_sized [of p] in \<open>simp_all add: Publish_fields_sized\<close>)

definition packet_id_bytes :: "u16 option \<Rightarrow> bytes" where
  "packet_id_bytes pid = (case pid of Some v \<Rightarrow> put_u16 v | None \<Rightarrow> [])"

definition payload_bytes :: "bytes option \<Rightarrow> bytes" where
  "payload_bytes d = (case d of Some bs \<Rightarrow> bs | None \<Rightarrow> [])"

definition Publish_body :: "Publish \<Rightarrow> bytes" where
  "Publish_body p = (string_bytes (pu_topic_name p) @ packet_id_bytes (pu_packet_id p)) @
    (vbi_bytes (Publish_property_size p) @ entries_bytes (Publish_entries p)) @ payload_bytes (pu_payload p)"

text \<open>Reading a PUBLISH back makes an absent payload an empty one.\<close>

definition Publish_decoded :: "Publish \<Rightarrow> Publish" where
  "Publish_decoded p = p\<lparr>pu_payload := Some (payload_bytes (pu_payload p))\<rparr>"

text \<open>The packet identifier is present exactly when the QoS level asks for one.\<close>

definition Publish_id_agrees :: "Publish \<Rightarrow> bool" where
  "Publish_id_agrees p \<longleftrightarrow>
    (case (FixedHeader_qos (pu_fixed_header p) :: QoSLevel codec_result) of
       Ok q \<Rightarrow> (pu_packet_id p = None \<longleftrightarrow> q = AtMostOnce)
     | _ \<Rightarrow> False)"

definition Publish_sendable :: "Publish \<Rightarrow> bool" where
  "Publish_sendable p \<longleftrightarrow> Publish_wf p \<and> wf_string (pu_topic_name p) \<and> Publish_id_agrees p \<and>
    fh_packet_type (pu_fixed_header p) = PT_Publish \<and> wf_header (pu_fixed_header p) \<and>
    length (Publish_body p) < 2097152"

lemma Publish_decode_packet_id_enc:
  assumes "Publish_id_agrees p" and "pu_fixed_header q = pu_fixed_header p" and "pu_packet_id q = None"
  shows "Publish_decode_packet_id q (packet_id_bytes (pu_packet_id p) @ rest) =
    Ok (q\<lparr>pu_packet_id := pu_packet_id p\<rparr>, length (packet_id_bytes (pu_packet_id p)), rest)"
proof -
  from assms(1) obtain k where k: "FixedHeader_qos (pu_fixed_header p) = (Ok k :: QoSLevel codec_result)"
    and iff: "pu_packet_id p = None \<longleftrightarrow> k = AtMostOnce"
    by (auto simp: Publish_id_agrees_def split: res.splits)
  show ?thesis
  proof (cases "pu_packet_id p")
    case None
    with iff have "k = AtMostOnce" by simp
    with None assms(3) show ?thesis
      by (simp add: Publish_decode_packet_id_def assms(2) k packet_id_bytes_def)
  next
    case (Some v)
    with iff have "k \<noteq> AtMostOnce" by simp
    with Some show ?thesis
      by (simp add: Publish_decode_packet_id_def assms(2) k packet_id_bytes_def get_put_u16)
  qed
qed

lemma Publish_payload_upd [simp]:
  "Publish_wf (p\<lparr>pu_payload := d\<rparr>) = Publish_wf p" "Publish_entries (p\<lparr>pu_payload := d\<rparr>) = Publish_entries p"
  "Publish_property_size (p\<lparr>pu_payload := d\<rparr>) = Publish_property_size p"
  by (simp_all add: Publish_wf_def Publish_entries_def Publish_property_size_def)

lemma Publish_decode_body:
  assumes s: "Publish_sendable p"
  shows "Publish_decode (Publish_default\<lparr>pu_fixed_header := pu_fixed_header p\<rparr>) (Publish_body p) =
    Ok (Publish_decoded p, length (Publish_body p), [])"
proof -
  from s have wf: "Publish_wf p" and topic: "wf_string (pu_topic_name p)" and ids: "Publish_id_agrees p"
    and e: "length (entries_bytes (Publish_entries p)) < 2097152"
    by (auto simp: Publish_sendable_def Publish_body_def)
  let ?q = "Publish_default\<lparr>pu_fixed_header := pu_fixed_header p, pu_topic_name := pu_topic_name p\<rparr>"
  let ?tail = "(vbi_bytes (Publish_property_size p) @ entries_bytes (Publish_entries p)) @ payload_bytes (pu_payload p)"
  have pid: "Publish_decode_packet_id ?q (packet_id_bytes (pu_packet_id p) @ ?tail) =
      Ok (?q\<lparr>pu_packet_id := pu_packet_id p\<rparr>, length (packet_id_bytes (pu_packet_id p)), ?tail)"
    by (rule Publish_decode_packet_id_enc [OF ids]) (simp_all add: Publish_default_def)
  have blank: "?q\<lparr>pu_packet_id := pu_packet_id p\<rparr> = Publish_blank (p\<lparr>pu_payload := None\<rparr>)"
    by (simp add: Publish_default_def Publish_blank_def)
  have props: "decode_properties Publish_arms (Publish_blank (p\<lparr>pu_payload := None\<rparr>)) ?tail =
      Ok (p\<lparr>pu_payload := None\<rparr>, length (vbi_bytes (Publish_property_size p)) + length (entries_bytes (Publish_entries p)),
        payload_bytes (pu_payload p))"
    using publish.decode_properties_enc [of "p\<lparr>pu_payload := None\<rparr>" "payload_bytes (pu_payload p)"] wf e by simp
  from pid props show ?thesis
    unfolding Publish_body_def Publish_decoded_def
    by (simp add: Publish_decode_def String_decode_enc [OF topic] blank decode_opt_vec_u8_raw_def Let_def)
qed

interpretation publish: packet_codec pu_fixed_header Publish_encode
  "\<lambda>h. Publish_decode (Publish_default\<lparr>pu_fixed_header := h\<rparr>)" Publish_body Publish_decoded Publish_sendable
proof
  fix p assume s: "Publish_sendable p"
  then have wf: "Publish_wf p" and topic: "wf_string (pu_topic_name p)" and small: "length (Publish_body p) < 2097152"
    by (auto simp: Publish_sendable_def)
  have ps: "unat (Publish_property_size p) < 268435456"
    using publish.size_entries [OF wf] small by (simp add: Publish_body_def byte_simps)
  have header: "seq_enc (Publish_header_fields p) = Ok (string_bytes (pu_topic_name p) @ packet_id_bytes (pu_packet_id p))"
    using topic by (auto simp: Publish_header_fields_def encode_for_string_def encode_for_primitive_opt_def
        prop_ident_encode_def wf_string_def packet_id_bytes_def split: option.splits)
  have payload: "seq_enc (Publish_payload_fields p) = Ok (payload_bytes (pu_payload p))"
    by (auto simp: Publish_payload_fields_def encode_for_encode_with_opt_def encode_opt_vec_u8_raw_ref_def
        prop_ident_encode_def payload_bytes_def split: option.splits)
  have range: "vbi_in_range (pu_subscription_identifiers p)"
    using wf by (simp add: Publish_wf_def vbi_decodable_in_range)
  show "Publish_encode p =
      Ok (header_byte (pu_fixed_header p) # vbi_bytes (of_nat (length (Publish_body p))) @ Publish_body p)"
    unfolding Publish_encode_def
    by (rule encode_internal_ok [OF Publish_codec_size_def Publish_header_sized])
      (use ps in \<open>simp_all add: Publish_fields_sized [OF range] Publish_body_def seq_enc_append header
        publish.property_encode_ok [OF wf] payload\<close>)
qed (auto simp: Publish_sendable_def Publish_decode_body)

text \<open>A decoded message has an identifier exactly when its QoS level asks for one.\<close>

lemma Publish_arms_keeps:
  assumes "Publish_arms p self src = Ok (self', dp, db, src')"
  shows "pu_fixed_header self' = pu_fixed_header self \<and> pu_packet_id self' = pu_packet_id self"
  using assms
  by (cases p) (auto simp: Publish_arms_def decode_for_type_def decode_for_primitive_def unsupported_property_def
      split: prod.splits)

lemma Publish_decode_id_agrees:
  assumes "Publish_decode self src = Ok (p, n, rest)" and "pu_packet_id self = None"
  shows "Publish_id_agrees p"
proof -
  from assms(1) obtain topic src1 p1 n2 src2 p2 n3 src3 v where
    i: "Publish_decode_packet_id (self\<lparr>pu_topic_name := topic\<rparr>) src1 = Ok (p1, n2, src2)"
    and d: "decode_properties Publish_arms p1 src2 = Ok (p2, n3, src3)" and p: "p = p2\<lparr>pu_payload := v\<rparr>"
    by (auto simp: Publish_decode_def split: prod.splits)
  have "pu_fixed_header p2 = pu_fixed_header p1 \<and> pu_packet_id p2 = pu_packet_id p1"
    by (rule decode_properties_keeps [OF _ d]) (auto dest: Publish_arms_keeps)
  moreover have "Publish_id_agrees p1"
    using i assms(2) by (auto simp: Publish_decode_packet_id_def Publish_id_agrees_def split: if_splits prod.splits)
  ultimately show ?thesis by (simp add: p Publish_id_agrees_def split: res.splits)
qed

section \<open>Quality of service of a message\<close>

definition has_qos :: "Publish \<Rightarrow> QoSLevel \<Rightarrow> bool" where
  "has_qos p q \<longleftrightarrow> Publish_qos p = (Ok q :: QoSLevel codec_result)"

lemma has_qos_any: "has_qos p q \<Longrightarrow> Publish_qos p = Ok q"
  by (cases "QoSLevel_try_from (drop_bit 1 (fh_flags (pu_fixed_header p) AND QOS_MASK))")
    (simp_all add: has_qos_def Publish_qos_def FixedHeader_qos_def)

lemma has_qos_set [simp]: "has_qos (Publish_set_qos p q) q' \<longleftrightarrow> q' = q"
  by (auto simp: has_qos_def Publish_set_qos_def Publish_qos_def)

lemma has_qos_upd [simp]: "has_qos (p\<lparr>pu_packet_id := i\<rparr>) q = has_qos p q"
  by (simp add: has_qos_def Publish_qos_def)

lemma has_qos_dup [simp]:
  "has_qos (p\<lparr>pu_fixed_header := FixedHeader_set_dup (pu_fixed_header p) d\<rparr>) q = has_qos p q"
  by (simp add: has_qos_def Publish_qos_def)

lemma has_qos_unique: "has_qos p q \<Longrightarrow> has_qos p q' \<Longrightarrow> q = q'"
  by (simp add: has_qos_def)

lemma granted_min: "unwrap_or (QoSLevel_try_from (min (QoSLevel_as_u8 a) (QoSLevel_as_u8 b))) AtMostOnce = min a b"
  by (cases a; cases b) (simp_all add: QoSLevel_try_from_def min_def less_eq_QoSLevel_def)

lemma set_packet_id_qos:
  "has_qos p q \<Longrightarrow> q \<noteq> AtMostOnce \<Longrightarrow> Publish_set_packet_id p i = Ok (p\<lparr>pu_packet_id := i\<rparr>)"
  by (simp add: has_qos_def Publish_set_packet_id_def Publish_qos_def)

lemma set_dup_qos:
  "has_qos p q \<Longrightarrow> q \<noteq> AtMostOnce \<Longrightarrow>
    Publish_set_dup p d = Ok (p\<lparr>pu_fixed_header := FixedHeader_set_dup (pu_fixed_header p) d\<rparr>)"
  by (simp add: has_qos_def Publish_set_dup_def Publish_qos_def)

lemma id_agrees_qos: "Publish_id_agrees p \<Longrightarrow> \<exists>q. has_qos p q \<and> (pu_packet_id p = None \<longleftrightarrow> q = AtMostOnce)"
  by (auto simp: Publish_id_agrees_def has_qos_def Publish_qos_def split: res.splits)

end
