(* ===== verification/Packet_Codec.thy ===== *)
theory Packet_Codec
  imports Packet_ConnAck Packet_Resp Packet_Subscribe Packet_Unsubscribe Packet_Connect Packet_Publish
begin

text \<open>
  The packet enum, its encoder and the top-level \<open>decode\<close> (\<open>vaux-mqtt/src/codec/mod.rs\<close>), with
  PINGREQ and PINGRESP (\<open>vaux-mqtt/src/lib.rs\<close>). \<open>decode\<close> reads the fixed header, checks that the
  remaining length is complete, cuts the buffer to one packet and dispatches on the packet type.
\<close>

section \<open>PINGREQ and PINGRESP\<close>

record PingReq =
  pq_fixed_header :: FixedHeader

record PingResp =
  ps_fixed_header :: FixedHeader

definition PingReq_default :: PingReq where
  "PingReq_default = \<lparr>pq_fixed_header = FixedHeader_new PT_PingReq\<rparr>"

definition PingResp_default :: PingResp where
  "PingResp_default = \<lparr>ps_fixed_header = FixedHeader_new PT_PingResp\<rparr>"

text \<open>A struct without fields: \<open>codec_size\<close> is 0 and only the header is written.\<close>

definition PingReq_encode :: "PingReq \<Rightarrow> bytes codec_result" where
  "PingReq_encode p = encode_internal (Some (pq_fixed_header p, 0)) [] False [] [] []"

definition PingResp_encode :: "PingResp \<Rightarrow> bytes codec_result" where
  "PingResp_encode p = encode_internal (Some (ps_fixed_header p, 0)) [] False [] [] []"

section \<open>Packets\<close>

datatype Packet =
    Pkt_PingRequest PingReq
  | Pkt_PingResponse PingResp
  | Pkt_Connect Connect
  | Pkt_ConnAck ConnAck
  | Pkt_Publish Publish
  | Pkt_PubAck PubResp
  | Pkt_PubComp PubResp
  | Pkt_PubRec PubResp
  | Pkt_PubRel PubResp
  | Pkt_Disconnect Disconnect
  | Pkt_Subscribe Subscribe
  | Pkt_SubAck SubAck
  | Pkt_Unsubscribe Unsubscribe
  | Pkt_UnsubAck UnsubAck

primrec Packet_encode :: "Packet \<Rightarrow> bytes codec_result" where
  "Packet_encode (Pkt_PingRequest p) = PingReq_encode p"
| "Packet_encode (Pkt_PingResponse p) = PingResp_encode p"
| "Packet_encode (Pkt_Connect p) = Connect_encode p"
| "Packet_encode (Pkt_ConnAck p) = ConnAck_encode p"
| "Packet_encode (Pkt_Publish p) = Publish_encode p"
| "Packet_encode (Pkt_PubAck p) = PubResp_encode p"
| "Packet_encode (Pkt_PubComp p) = PubResp_encode p"
| "Packet_encode (Pkt_PubRec p) = PubResp_encode p"
| "Packet_encode (Pkt_PubRel p) = PubResp_encode p"
| "Packet_encode (Pkt_Disconnect p) = Disconnect_encode p"
| "Packet_encode (Pkt_Subscribe p) = Subscribe_encode p"
| "Packet_encode (Pkt_SubAck p) = SubAck_encode p"
| "Packet_encode (Pkt_Unsubscribe p) = Unsubscribe_encode p"
| "Packet_encode (Pkt_UnsubAck p) = UnsubAck_encode p"

primrec PacketType_from_packet :: "Packet \<Rightarrow> PacketType" where
  "PacketType_from_packet (Pkt_PingRequest _) = PT_PingReq"
| "PacketType_from_packet (Pkt_PingResponse _) = PT_PingResp"
| "PacketType_from_packet (Pkt_Connect _) = PT_Connect"
| "PacketType_from_packet (Pkt_ConnAck _) = PT_ConnAck"
| "PacketType_from_packet (Pkt_Publish _) = PT_Publish"
| "PacketType_from_packet (Pkt_PubAck _) = PT_PubAck"
| "PacketType_from_packet (Pkt_PubComp _) = PT_PubComp"
| "PacketType_from_packet (Pkt_PubRec _) = PT_PubRec"
| "PacketType_from_packet (Pkt_PubRel _) = PT_PubRel"
| "PacketType_from_packet (Pkt_Disconnect _) = PT_Disconnect"
| "PacketType_from_packet (Pkt_Subscribe _) = PT_Subscribe"
| "PacketType_from_packet (Pkt_SubAck _) = PT_SubAck"
| "PacketType_from_packet (Pkt_Unsubscribe _) = PT_Unsubscribe"
| "PacketType_from_packet (Pkt_UnsubAck _) = PT_UnsubAck"

section \<open>Decoding\<close>

text \<open>The \<open>for idx in 0..=3\<close> loop: the length bytes must have arrived up to the last one.\<close>

function length_check :: "nat \<Rightarrow> bytes \<Rightarrow> unit codec_result" where
  "length_check idx src =
    (if 3 < idx then Ok ()
     else if length src \<le> idx then Err (EK_InsufficientData (idx + 1) (length src))
     else if src ! idx AND 0x80 = 0 then Ok ()
     else length_check (idx + 1) src)"
  by pat_completeness auto
termination
  by (relation "measure (\<lambda>(idx, src). 4 - idx)") auto

declare length_check.simps [simp del]

definition wrap :: "('p \<Rightarrow> Packet) \<Rightarrow> ('p \<times> nat \<times> bytes) codec_result \<Rightarrow> (Packet \<times> nat \<times> bytes) codec_result" where
  "wrap con m = bind m (\<lambda>(p, n, src). Ok (con p, n, src))"

text \<open>
  The \<open>match fixed_header.packet_type\<close>; \<open>uuid\<close> is the identifier that \<open>Connect::new\<close> draws. The number
  is what the branch adds to \<open>decode_len\<close>.
\<close>

definition decode_packet :: "string \<Rightarrow> FixedHeader \<Rightarrow> bytes \<Rightarrow> (Packet \<times> nat \<times> bytes) codec_result" where
  "decode_packet uuid fixed_header src =
    (case fh_packet_type fixed_header of
       PT_PingReq \<Rightarrow> Ok (Pkt_PingRequest PingReq_default, 0, src)
     | PT_PingResp \<Rightarrow> Ok (Pkt_PingResponse PingResp_default, 0, src)
     | PT_Connect \<Rightarrow> wrap Pkt_Connect (Connect_decode (Connect_new uuid) src)
     | PT_Publish \<Rightarrow>
         bind (Publish_new_from_header fixed_header) (\<lambda>publish. wrap Pkt_Publish (Publish_decode publish src))
     | PT_PubAck \<Rightarrow> wrap Pkt_PubAck (PubResp_decode PubResp_default src)
     | PT_PubComp \<Rightarrow> wrap Pkt_PubComp (PubResp_decode PubResp_default src)
     | PT_PubRec \<Rightarrow> wrap Pkt_PubRec (PubResp_decode PubResp_default src)
     | PT_PubRel \<Rightarrow> wrap Pkt_PubRel (PubResp_decode PubResp_default src)
     | PT_Disconnect \<Rightarrow> wrap Pkt_Disconnect (Disconnect_decode Disconnect_default src)
     | PT_ConnAck \<Rightarrow> wrap Pkt_ConnAck (ConnAck_decode ConnAck_default src)
     | PT_Subscribe \<Rightarrow> wrap Pkt_Subscribe (Subscribe_decode Subscribe_default src)
     | PT_SubAck \<Rightarrow> wrap Pkt_SubAck (SubAck_decode SubAck_default src)
     | PT_Unsubscribe \<Rightarrow> wrap Pkt_Unsubscribe (Unsubscribe_decode Unsubscribe_default src)
     | PT_UnsubAck \<Rightarrow> wrap Pkt_UnsubAck (UnsubAck_decode UnsubAck_default src)
     | PT_Auth \<Rightarrow> Err MqttCodecError_new)"

text \<open>
  \<open>decode\<close> returns the packet with \<open>decode_len\<close>, and leaves in \<open>src\<close> what the packet's decoder did not
  read; the bytes after the packet are cut off by \<open>split_off\<close>. The second length comparison of the
  source repeats the first, so its error branch is never taken.
\<close>

definition decode :: "string \<Rightarrow> bytes \<Rightarrow> ((Packet \<times> nat) option \<times> bytes) codec_result" where
  "decode uuid src =
    bind (FixedHeader_decode src) (\<lambda>(fixed_header, decode_len, src).
    bind (length_check 0 src) (\<lambda>_.
    bind (decode_variable_byte_int src) (\<lambda>(packet_remaining, bytes_read, src).
      let n = unat packet_remaining in
      if length src < n then Err (EK_InsufficientData n (length src))
      else
        (let decode_len = decode_len + bytes_read;
             src = (if n < length src then take n src else src) in
         bind (decode_packet uuid fixed_header src) (\<lambda>(p, m, src). Ok (Some (p, decode_len + m), src))))))"

section \<open>Complete frames\<close>

lemma vbi_last: "last (vbi_bytes v) AND 0x80 = 0"
proof (induction v rule: vbi_bytes.induct)
  case (1 v)
  show ?case
  proof (cases "unat v < 128")
    case True
    then show ?thesis by (simp add: vbi_bytes_last and_bit7_eq_0_iff unat_low7_cast)
  next
    case False
    then have "last (vbi_bytes v) = last (vbi_bytes (drop_bit 7 v))" by (simp add: vbi_bytes_more)
    with "1.IH" [OF refl refl] False show ?thesis by (simp add: drop_bit7_pos_iff)
  qed
qed

lemma vbi_continuation: "i + 1 < length (vbi_bytes v) \<Longrightarrow> vbi_bytes v ! i AND 0x80 \<noteq> 0"
proof (induction v arbitrary: i rule: vbi_bytes.induct)
  case (1 v)
  show ?case
  proof (cases "unat v < 128")
    case True
    with 1 show ?thesis by (simp add: vbi_bytes_last)
  next
    case False
    then have v: "vbi_bytes v = (ucast (v mod 0x80) OR 0x80) # vbi_bytes (drop_bit 7 v)"
      by (simp add: vbi_bytes_more)
    have ih: "j + 1 < length (vbi_bytes (drop_bit 7 v)) \<Longrightarrow> vbi_bytes (drop_bit 7 v) ! j AND 0x80 \<noteq> 0" for j
      using "1.IH" [OF refl refl, of j] False by (simp add: drop_bit7_pos_iff)
    show ?thesis
    proof (cases i)
      case 0
      then show ?thesis using unat_more_byte [of v] by (simp only: v nth_Cons_0 and_bit7_eq_0_iff not_less)
    next
      case (Suc j)
      with ih [of j] "1.prems" show ?thesis by (simp add: v)
    qed
  qed
qed

lemma length_check_skip:
  "n \<le> 4 \<Longrightarrow> n \<le> length src \<Longrightarrow> idx \<le> n \<Longrightarrow> \<forall>i. idx \<le> i \<and> i < n \<longrightarrow> src ! i AND 0x80 \<noteq> 0 \<Longrightarrow>
    length_check idx src = length_check n src"
proof (induction "n - idx" arbitrary: idx)
  case 0
  then show ?case by simp
next
  case (Suc k)
  then have "idx < n" by simp
  with Suc.prems have c: "\<not> 3 < idx" "\<not> length src \<le> idx" "\<not> src ! idx AND 0x80 = 0" by simp_all
  have "length_check idx src = length_check (idx + 1) src"
    by (subst length_check.simps) (simp only: c if_False)
  also have "\<dots> = length_check n src"
    by (rule Suc.hyps(1)) (use Suc.hyps(2) Suc.prems \<open>idx < n\<close> in simp_all)
  finally show ?case .
qed

lemma length_check_vbi:
  assumes "unat v < 268435456"
  shows "length_check 0 (vbi_bytes v @ rest) = Ok ()"
proof -
  let ?n = "length (vbi_bytes v) - 1"
  have len: "length (vbi_bytes v) = unat (variable_byte_int_size v)" by (rule length_vbi_bytes [OF assms])
  have n: "length (vbi_bytes v) = Suc ?n" by (simp add: Suc_diff_Suc)
  have le: "?n \<le> 3" using len by (simp add: variable_byte_int_size_nat)
  have skip: "length_check 0 (vbi_bytes v @ rest) = length_check ?n (vbi_bytes v @ rest)"
    by (rule length_check_skip) (use le vbi_continuation [of _ v] in \<open>auto simp: nth_append\<close>)
  have "(vbi_bytes v @ rest) ! ?n = last (vbi_bytes v)"
    using n by (simp add: nth_append last_conv_nth)
  then have "(vbi_bytes v @ rest) ! ?n AND 0x80 = 0" by (simp only: vbi_last)
  moreover have "?n < length (vbi_bytes v @ rest)" by (simp add: n [symmetric] trans_less_add1)
  ultimately have "length_check ?n (vbi_bytes v @ rest) = Ok ()"
    using le by (subst length_check.simps) auto
  with skip show ?thesis by simp
qed

lemma length_check_prefix:
  assumes "unat v < 268435456" and "k < length (vbi_bytes v)"
  shows "length_check 0 (take k (vbi_bytes v)) = Err (EK_InsufficientData (k + 1) k)"
proof -
  have "k \<le> 3" using assms by (simp add: length_vbi_bytes variable_byte_int_size_nat split: if_splits)
  have "length_check 0 (take k (vbi_bytes v)) = length_check k (take k (vbi_bytes v))"
    by (rule length_check_skip) (use \<open>k \<le> 3\<close> assms vbi_continuation [of _ v] in auto)
  also have "\<dots> = Err (EK_InsufficientData (k + 1) k)"
    using \<open>k \<le> 3\<close> assms(2) by (subst length_check.simps) simp
  finally show ?thesis .
qed

text \<open>A frame: header byte, remaining length, body.\<close>

definition frame :: "FixedHeader \<Rightarrow> bytes \<Rightarrow> bytes" where
  "frame h body = header_byte h # vbi_bytes (of_nat (length body)) @ body"

lemma decode_frame:
  assumes "wf_header h" and "length body < 2097152"
  shows "decode uuid (frame h body @ rest) =
    bind (decode_packet uuid h body) (\<lambda>(p, m, src).
      Ok (Some (p, 1 + length (vbi_bytes (of_nat (length body))) + m), src))"
proof -
  have u: "unat (of_nat (length body) :: u32) = length body" using assms(2) by (simp add: byte_simps)
  show ?thesis
    using assms(2)
    by (simp add: decode_def frame_def FixedHeader_decode_enc [OF assms(1)] length_check_vbi u
        decode_variable_byte_int_ok Let_def)
qed

lemma decode_frame_prefix:
  assumes "wf_header h" and "length body < 2097152" and "k < length (frame h body)"
  shows "\<exists>a b. decode uuid (take k (frame h body)) = Err (EK_InsufficientData a b)"
proof -
  let ?v = "of_nat (length body) :: u32"
  have u: "unat ?v = length body" using assms(2) by (simp add: byte_simps)
  consider "k < 2" | j where "k = Suc j" "0 < j" by (cases k) (auto simp: not_less)
  then show ?thesis
  proof cases
    case 1
    then show ?thesis using assms(3) by (simp add: decode_def FixedHeader_decode_def)
  next
    case 2
    have h: "FixedHeader_decode (take k (frame h body)) = Ok (h, 1, take j (vbi_bytes ?v @ body))"
      using 2 by (simp add: frame_def FixedHeader_decode_enc [OF assms(1)] del: take_append)
    show ?thesis
    proof (cases "j < length (vbi_bytes ?v)")
      case True
      then show ?thesis using length_check_prefix [of ?v j] u assms(2) by (simp add: decode_def h)
    next
      case False
      with 2 assms(3) have "length (take (j - length (vbi_bytes ?v)) body) < length body"
        by (auto simp: frame_def)
      moreover have "take j (vbi_bytes ?v @ body) = vbi_bytes ?v @ take (j - length (vbi_bytes ?v)) body"
        using False by simp
      ultimately show ?thesis
        using u assms(2) by (simp add: decode_def h length_check_vbi decode_variable_byte_int_ok Let_def del: length_take)
    qed
  qed
qed

section \<open>Round trips\<close>

text \<open>
  A packet struct, the constructor that puts it into \<open>Packet\<close>, and the branch of \<open>decode\<close> that reads
  it: what the framing needs to bring every sendable packet through.
\<close>

locale packet_variant =
  packet_codec header encode decode_struct body decoded sendable
  for header :: "'p \<Rightarrow> FixedHeader" and encode decode_struct body decoded sendable +
  fixes con :: "'p \<Rightarrow> Packet"
    and uuid :: string
  assumes dispatch: "sendable p \<Longrightarrow> decode_packet uuid (header p) src = wrap con (decode_struct (header p) src)"
    and con_encode: "Packet_encode (con p) = encode p"
begin

lemma wire_frame: "wire p = frame (header p) (body p)"
  by (simp add: wire_def frame_def)

lemma roundtrip:
  assumes "sendable p"
  shows "Packet_encode (con p) = Ok (frame (header p) (body p))"
    and "decode uuid (frame (header p) (body p) @ rest) =
      Ok (Some (con (decoded p), length (frame (header p) (body p))), [])"
  using encode_wire [OF assms] decode_frame [OF header_wf [OF assms] body_small [OF assms]]
  by (simp_all add: con_encode wire_frame dispatch [OF assms] decode_body [OF assms] wrap_def frame_def)

lemma prefix_insufficient:
  assumes "sendable p" and "k < length (frame (header p) (body p))"
  shows "\<exists>a b. decode uuid (take k (frame (header p) (body p))) = Err (EK_InsufficientData a b)"
  by (rule decode_frame_prefix [OF header_wf [OF assms(1)] body_small [OF assms(1)] assms(2)])

end

definition PingReq_sendable :: "PingReq \<Rightarrow> bool" where
  "PingReq_sendable p \<longleftrightarrow> p = PingReq_default"

definition PingResp_sendable :: "PingResp \<Rightarrow> bool" where
  "PingResp_sendable p \<longleftrightarrow> p = PingResp_default"

lemma encode_ping: "encode_internal (Some (h, 0)) [] False [] [] [] = Ok (header_byte h # vbi_bytes 0)"
  by (simp add: encode_internal_def FixedHeader_encode_eq encode_variable_byte_int_def)

interpretation pingreq: packet_variant pq_fixed_header PingReq_encode "\<lambda>h src. Ok (PingReq_default, 0, src)"
  "\<lambda>_. []" "\<lambda>p. p" PingReq_sendable Pkt_PingRequest uuid for uuid
  by unfold_locales (auto simp: PingReq_sendable_def PingReq_encode_def encode_ping PingReq_default_def decode_packet_def wrap_def)

interpretation pingresp: packet_variant ps_fixed_header PingResp_encode "\<lambda>h src. Ok (PingResp_default, 0, src)"
  "\<lambda>_. []" "\<lambda>p. p" PingResp_sendable Pkt_PingResponse uuid for uuid
  by unfold_locales (auto simp: PingResp_sendable_def PingResp_encode_def encode_ping PingResp_default_def decode_packet_def wrap_def)

interpretation connect: packet_variant co_fixed_header Connect_encode "\<lambda>h. Connect_decode (Connect_new uuid)"
  Connect_body "\<lambda>p. p" Connect_sendable Pkt_Connect uuid for uuid
  by unfold_locales (simp_all add: Connect_sendable_def decode_packet_def)

interpretation connack: packet_variant ca_fixed_header ConnAck_encode "\<lambda>h. ConnAck_decode ConnAck_default"
  ConnAck_body "\<lambda>p. p" ConnAck_sendable Pkt_ConnAck uuid for uuid
  by unfold_locales (simp_all add: ConnAck_sendable_def decode_packet_def)

interpretation publish: packet_variant pu_fixed_header Publish_encode
  "\<lambda>h. Publish_decode (Publish_default\<lparr>pu_fixed_header := h\<rparr>)" Publish_body Publish_decoded Publish_sendable
  Pkt_Publish uuid for uuid
  by unfold_locales (simp_all add: Publish_sendable_def decode_packet_def Publish_new_from_header_def)

interpretation disconnect: packet_variant dc_fixed_header Disconnect_encode "\<lambda>h. Disconnect_decode Disconnect_default"
  Disconnect_body "\<lambda>p. p" Disconnect_sendable Pkt_Disconnect uuid for uuid
  by unfold_locales (simp_all add: Disconnect_sendable_def decode_packet_def)

interpretation subscribe: packet_variant su_fixed_header Subscribe_encode "\<lambda>h. Subscribe_decode Subscribe_default"
  Subscribe_body "\<lambda>p. p" Subscribe_sendable Pkt_Subscribe uuid for uuid
  by unfold_locales (simp_all add: Subscribe_sendable_def decode_packet_def)

interpretation suback: packet_variant sa_fixed_header SubAck_encode "\<lambda>h. SubAck_decode SubAck_default"
  SubAck_body "\<lambda>p. p" SubAck_sendable Pkt_SubAck uuid for uuid
  by unfold_locales (simp_all add: SubAck_sendable_def decode_packet_def)

interpretation unsubscribe: packet_variant us_fixed_header Unsubscribe_encode "\<lambda>h. Unsubscribe_decode Unsubscribe_default"
  Unsubscribe_body "\<lambda>p. p" Unsubscribe_sendable Pkt_Unsubscribe uuid for uuid
  by unfold_locales (simp_all add: Unsubscribe_sendable_def decode_packet_def)

interpretation unsuback: packet_variant ua_fixed_header UnsubAck_encode "\<lambda>h. UnsubAck_decode UnsubAck_default"
  UnsubAck_body "\<lambda>p. p" UnsubAck_sendable Pkt_UnsubAck uuid for uuid
  by unfold_locales (simp_all add: UnsubAck_sendable_def decode_packet_def)

text \<open>The four acknowledgements share \<open>PubResp\<close>; the packet type of the header tells them apart.\<close>

definition PubResp_sendable_as :: "PacketType \<Rightarrow> PubResp \<Rightarrow> bool" where
  "PubResp_sendable_as t p \<longleftrightarrow> PubResp_sendable p \<and> fh_packet_type (pr_fixed_header p) = t"

interpretation pubresp_as: packet_codec pr_fixed_header PubResp_encode "\<lambda>h. PubResp_decode PubResp_default"
  PubResp_body PubResp_decoded "PubResp_sendable_as t" for t
  using pubresp.encode_ok pubresp.decode_body pubresp.body_small pubresp.header_wf
  by unfold_locales (simp_all add: PubResp_sendable_as_def)

interpretation puback: packet_variant pr_fixed_header PubResp_encode "\<lambda>h. PubResp_decode PubResp_default"
  PubResp_body PubResp_decoded "PubResp_sendable_as PT_PubAck" Pkt_PubAck uuid for uuid
  by unfold_locales (simp_all add: PubResp_sendable_as_def decode_packet_def)

interpretation pubrec: packet_variant pr_fixed_header PubResp_encode "\<lambda>h. PubResp_decode PubResp_default"
  PubResp_body PubResp_decoded "PubResp_sendable_as PT_PubRec" Pkt_PubRec uuid for uuid
  by unfold_locales (simp_all add: PubResp_sendable_as_def decode_packet_def)

interpretation pubrel: packet_variant pr_fixed_header PubResp_encode "\<lambda>h. PubResp_decode PubResp_default"
  PubResp_body PubResp_decoded "PubResp_sendable_as PT_PubRel" Pkt_PubRel uuid for uuid
  by unfold_locales (simp_all add: PubResp_sendable_as_def decode_packet_def)

interpretation pubcomp: packet_variant pr_fixed_header PubResp_encode "\<lambda>h. PubResp_decode PubResp_default"
  PubResp_body PubResp_decoded "PubResp_sendable_as PT_PubComp" Pkt_PubComp uuid for uuid
  by unfold_locales (simp_all add: PubResp_sendable_as_def decode_packet_def)

section \<open>Every packet\<close>

text \<open>
  Packets that survive the wire, and what arrives: \<open>Packet_decoded\<close> differs from the packet only in the
  acknowledgements (default header, no reason in the abbreviated form) and in an absent payload.
\<close>

primrec Packet_sendable :: "Packet \<Rightarrow> bool" where
  "Packet_sendable (Pkt_PingRequest p) = PingReq_sendable p"
| "Packet_sendable (Pkt_PingResponse p) = PingResp_sendable p"
| "Packet_sendable (Pkt_Connect p) = Connect_sendable p"
| "Packet_sendable (Pkt_ConnAck p) = ConnAck_sendable p"
| "Packet_sendable (Pkt_Publish p) = Publish_sendable p"
| "Packet_sendable (Pkt_PubAck p) = PubResp_sendable_as PT_PubAck p"
| "Packet_sendable (Pkt_PubComp p) = PubResp_sendable_as PT_PubComp p"
| "Packet_sendable (Pkt_PubRec p) = PubResp_sendable_as PT_PubRec p"
| "Packet_sendable (Pkt_PubRel p) = PubResp_sendable_as PT_PubRel p"
| "Packet_sendable (Pkt_Disconnect p) = Disconnect_sendable p"
| "Packet_sendable (Pkt_Subscribe p) = Subscribe_sendable p"
| "Packet_sendable (Pkt_SubAck p) = SubAck_sendable p"
| "Packet_sendable (Pkt_Unsubscribe p) = Unsubscribe_sendable p"
| "Packet_sendable (Pkt_UnsubAck p) = UnsubAck_sendable p"

primrec Packet_decoded :: "Packet \<Rightarrow> Packet" where
  "Packet_decoded (Pkt_PingRequest p) = Pkt_PingRequest p"
| "Packet_decoded (Pkt_PingResponse p) = Pkt_PingResponse p"
| "Packet_decoded (Pkt_Connect p) = Pkt_Connect p"
| "Packet_decoded (Pkt_ConnAck p) = Pkt_ConnAck p"
| "Packet_decoded (Pkt_Publish p) = Pkt_Publish (Publish_decoded p)"
| "Packet_decoded (Pkt_PubAck p) = Pkt_PubAck (PubResp_decoded p)"
| "Packet_decoded (Pkt_PubComp p) = Pkt_PubComp (PubResp_decoded p)"
| "Packet_decoded (Pkt_PubRec p) = Pkt_PubRec (PubResp_decoded p)"
| "Packet_decoded (Pkt_PubRel p) = Pkt_PubRel (PubResp_decoded p)"
| "Packet_decoded (Pkt_Disconnect p) = Pkt_Disconnect p"
| "Packet_decoded (Pkt_Subscribe p) = Pkt_Subscribe p"
| "Packet_decoded (Pkt_SubAck p) = Pkt_SubAck p"
| "Packet_decoded (Pkt_Unsubscribe p) = Pkt_Unsubscribe p"
| "Packet_decoded (Pkt_UnsubAck p) = Pkt_UnsubAck p"

lemma Packet_decoded_eq:
  assumes "Packet_sendable p"
  shows "Packet_decoded p =
    (let ack = (\<lambda>a. a\<lparr>pr_fixed_header := FixedHeader_default,
       pr_reason := (if pr_reason a = Some R_Success \<and> pr_reason_desc a = None then None else pr_reason a)\<rparr>) in
     case p of
       Pkt_Publish q \<Rightarrow> Pkt_Publish (q\<lparr>pu_payload := Some (case pu_payload q of Some d \<Rightarrow> d | None \<Rightarrow> [])\<rparr>)
     | Pkt_PubAck a \<Rightarrow> Pkt_PubAck (ack a) | Pkt_PubRec a \<Rightarrow> Pkt_PubRec (ack a)
     | Pkt_PubRel a \<Rightarrow> Pkt_PubRel (ack a) | Pkt_PubComp a \<Rightarrow> Pkt_PubComp (ack a)
     | _ \<Rightarrow> p)"
  using assms
  by (cases p) (simp_all add: PubResp_decoded_eq PubResp_sendable_as_def Publish_decoded_def payload_bytes_def Let_def)

text \<open>A decoded acknowledgement that is encoded again gets the header byte of a CONNECT.\<close>

lemma decoded_ack_header:
  assumes "PubResp_encode (PubResp_decoded p) = Ok bs"
  shows "hd bs = 0x10"
proof -
  have "pr_fixed_header (PubResp_decoded p) = FixedHeader_default"
    by (simp add: PubResp_decoded_def PubResp_default_def)
  with assms show ?thesis
    by (auto simp: PubResp_encode_def encode_internal_def FixedHeader_encode_eq FixedHeader_default_def header_byte_def encode_variable_byte_int_def)
qed

lemmas variant_roundtrips = pingreq.roundtrip pingresp.roundtrip connect.roundtrip connack.roundtrip
  publish.roundtrip puback.roundtrip pubcomp.roundtrip pubrec.roundtrip pubrel.roundtrip
  disconnect.roundtrip subscribe.roundtrip suback.roundtrip unsubscribe.roundtrip unsuback.roundtrip

lemmas variant_prefixes = pingreq.prefix_insufficient pingresp.prefix_insufficient connect.prefix_insufficient
  connack.prefix_insufficient publish.prefix_insufficient puback.prefix_insufficient pubcomp.prefix_insufficient
  pubrec.prefix_insufficient pubrel.prefix_insufficient disconnect.prefix_insufficient subscribe.prefix_insufficient
  suback.prefix_insufficient unsubscribe.prefix_insufficient unsuback.prefix_insufficient

text \<open>The bytes of a sendable packet, and the three facts every packet inherits from its variant.\<close>

primrec Packet_wire :: "Packet \<Rightarrow> bytes" where
  "Packet_wire (Pkt_PingRequest p) = frame (pq_fixed_header p) []"
| "Packet_wire (Pkt_PingResponse p) = frame (ps_fixed_header p) []"
| "Packet_wire (Pkt_Connect p) = frame (co_fixed_header p) (Connect_body p)"
| "Packet_wire (Pkt_ConnAck p) = frame (ca_fixed_header p) (ConnAck_body p)"
| "Packet_wire (Pkt_Publish p) = frame (pu_fixed_header p) (Publish_body p)"
| "Packet_wire (Pkt_PubAck p) = frame (pr_fixed_header p) (PubResp_body p)"
| "Packet_wire (Pkt_PubComp p) = frame (pr_fixed_header p) (PubResp_body p)"
| "Packet_wire (Pkt_PubRec p) = frame (pr_fixed_header p) (PubResp_body p)"
| "Packet_wire (Pkt_PubRel p) = frame (pr_fixed_header p) (PubResp_body p)"
| "Packet_wire (Pkt_Disconnect p) = frame (dc_fixed_header p) (Disconnect_body p)"
| "Packet_wire (Pkt_Subscribe p) = frame (su_fixed_header p) (Subscribe_body p)"
| "Packet_wire (Pkt_SubAck p) = frame (sa_fixed_header p) (SubAck_body p)"
| "Packet_wire (Pkt_Unsubscribe p) = frame (us_fixed_header p) (Unsubscribe_body p)"
| "Packet_wire (Pkt_UnsubAck p) = frame (ua_fixed_header p) (UnsubAck_body p)"

lemma Packet_encode_wire: "Packet_sendable p \<Longrightarrow> Packet_encode p = Ok (Packet_wire p)"
  by (cases p) (simp_all only: Packet_sendable.simps Packet_wire.simps variant_roundtrips)

lemma decode_wire:
  "Packet_sendable p \<Longrightarrow> decode uuid (Packet_wire p @ rest) = Ok (Some (Packet_decoded p, length (Packet_wire p)), [])"
  by (cases p) (simp_all only: Packet_sendable.simps Packet_wire.simps Packet_decoded.simps variant_roundtrips)

lemma decode_wire_prefix:
  "Packet_sendable p \<Longrightarrow> k < length (Packet_wire p) \<Longrightarrow>
    \<exists>a b. decode uuid (take k (Packet_wire p)) = Err (EK_InsufficientData a b)"
  by (cases p) (simp_all only: Packet_sendable.simps Packet_wire.simps variant_prefixes)

lemma Packet_wire_nonempty: "2 \<le> length (Packet_wire p)"
proof -
  have "2 \<le> length (frame h body)" for h body
    by (cases "vbi_bytes (of_nat (length body) :: u32)") (simp_all add: frame_def)
  then show ?thesis by (cases p) simp_all
qed

lemma Packet_wire_not_Nil [simp]: "Packet_wire p \<noteq> []"
  using Packet_wire_nonempty [of p] by auto

section \<open>The reserved QoS pattern\<close>

text \<open>
  \<open>FixedHeader::decode\<close> lets a PUBLISH with both QoS bits through, and the packet decoder unwraps the
  QoS level: such a packet with a readable topic makes \<open>decode\<close> panic.
\<close>

lemma decode_reserved_qos_panics:
  assumes "fh_packet_type h = PT_Publish" and "wf_header h" and "fh_flags h AND QOS_MASK = QOS_MASK"
    and "wf_string topic" and "length (string_bytes topic @ props) < 2097152"
  shows "decode uuid (frame h (string_bytes topic @ props) @ rest) = Panic"
proof -
  have "FixedHeader_qos h = (Panic :: QoSLevel codec_result)"
    using assms(3) by (simp add: FixedHeader_qos_panic_iff)
  then show ?thesis
    using assms
    by (subst decode_frame) (simp_all add: decode_packet_def Publish_new_from_header_def Publish_decode_def
        String_decode_enc Publish_decode_packet_id_def wrap_def)
qed

lemma decode_packet_publish:
  assumes "decode_packet uuid h src = Ok (Pkt_Publish p, m, rest)"
  shows "Publish_id_agrees p"
proof -
  from assms obtain self where "Publish_new_from_header h = Ok self" "Publish_decode self src = Ok (p, m, rest)"
    by (auto simp: decode_packet_def wrap_def split: PacketType.splits prod.splits)
  then show ?thesis
    by (intro Publish_decode_id_agrees) (auto simp: Publish_new_from_header_def Publish_default_def split: if_splits)
qed

lemma decode_publish_id_agrees:
  assumes "decode uuid src = Ok (Some (Pkt_Publish p, n), rest)"
  shows "Publish_id_agrees p"
  using assms decode_packet_publish by (auto simp: decode_def Let_def split: prod.splits if_splits)

end
