(* ===== verification/Packet_Stream.thy ===== *)
theory Packet_Stream
  imports Packet_Codec
begin

text \<open>
  The packet stream (\<open>vaux-async/src/stream/packet.rs\<close>): a read buffer that collects bytes until
  \<open>decode\<close> accepts a packet. The socket is a parameter: \<open>rd s n\<close> is the outcome of reading at most \<open>n\<close>
  bytes in socket state \<open>s\<close>, \<open>wr s bs\<close> that of \<open>write_all\<close>. A read loop that goes on forever has the
  value \<open>None\<close>.
\<close>

definition READ_BUFFER_SIZE :: nat where "READ_BUFFER_SIZE = 4096"
definition MAX_BUFFER_SIZE :: nat where "MAX_BUFFER_SIZE = 4096 * 1024"

datatype StreamError = SE_Io | SE_ReadTimeout | SE_ReadBuffer | SE_Codec ErrorKind

text \<open>Outcomes of a socket read: bytes (none at the end of the stream), would block or timed out, another error.\<close>

datatype sock_read = Rd_Ok bytes | Rd_WouldBlock | Rd_Fail

type_synonym 's reader = "'s \<Rightarrow> nat \<Rightarrow> sock_read \<times> 's"
type_synonym read_outcome = "(StreamError, (Packet \<times> bytes option) option) res"

record PacketStream =
  st_read_buffer :: bytes
  st_read_offset :: nat
  st_initial_buffer_size :: nat
  st_max_buffer_size :: nat

definition PacketStream_new :: "nat option \<Rightarrow> nat option \<Rightarrow> PacketStream" where
  "PacketStream_new initial_buffer_size max_buffer_size =
    (let initial = (case initial_buffer_size of Some n \<Rightarrow> n | None \<Rightarrow> READ_BUFFER_SIZE) in
     \<lparr>st_read_buffer = replicate initial 0, st_read_offset = 0, st_initial_buffer_size = initial,
      st_max_buffer_size = (case max_buffer_size of Some n \<Rightarrow> n | None \<Rightarrow> MAX_BUFFER_SIZE)\<rparr>)"

definition PacketStream_buffer_size :: "PacketStream \<Rightarrow> nat" where
  "PacketStream_buffer_size st = length (st_read_buffer st)"

text \<open>\<open>Vec::resize(n, 0)\<close>, \<open>copy_within(from..until, 0)\<close>, and a read into \<open>buf[off..]\<close>.\<close>

definition resize :: "nat \<Rightarrow> bytes \<Rightarrow> bytes" where
  "resize n buf = take n buf @ replicate (n - length buf) 0"

definition copy_to_front :: "nat \<Rightarrow> nat \<Rightarrow> bytes \<Rightarrow> bytes" where
  "copy_to_front from until buf = take (until - from) (drop from buf) @ drop (until - from) buf"

definition fill :: "nat \<Rightarrow> bytes \<Rightarrow> bytes \<Rightarrow> bytes" where
  "fill off chunk buf = take off buf @ chunk @ drop (off + length chunk) buf"

text \<open>
  The first half of a turn of \<open>read_internal\<close>: \<open>Some\<close> is a \<open>return\<close>, \<open>None\<close> falls through to the socket
  read. \<open>split_to\<close> panics when the buffer that \<open>decode\<close> left is shorter than \<open>decode_len\<close>.
\<close>

definition try_decode :: "string \<Rightarrow> bool \<Rightarrow> nat \<Rightarrow> PacketStream \<Rightarrow> (read_outcome \<times> PacketStream) option" where
  "try_decode uuid with_bytes bytes_read st =
    (if 0 < bytes_read then
       if length (st_read_buffer st) < bytes_read then Some (Panic, st)
       else
         (case decode uuid (take bytes_read (st_read_buffer st)) of
            Ok (Some (packet, decode_len), bytes_mut) \<Rightarrow>
              if with_bytes then
                if length bytes_mut < decode_len then Some (Panic, st)
                else
                  (let packet_bytes = take decode_len bytes_mut in
                   Some (Ok (Some (packet, Some packet_bytes)),
                     if length (st_read_buffer st) < st_initial_buffer_size st
                     then st\<lparr>st_read_buffer := resize (st_initial_buffer_size st) (st_read_buffer st)\<rparr> else st))
              else
                Some (Ok (Some (packet, None)),
                  if decode_len < bytes_read
                  then st\<lparr>st_read_buffer := copy_to_front decode_len bytes_read (st_read_buffer st),
                          st_read_offset := bytes_read - decode_len\<rparr>
                  else st\<lparr>st_read_offset := 0\<rparr>)
          | Ok (None, bytes_mut) \<Rightarrow> Some (Ok None, st)
          | Err (EK_InsufficientData _ _) \<Rightarrow>
              if st_max_buffer_size st \<le> st_read_offset st then Some (Err SE_ReadBuffer, st) else None
          | Err e \<Rightarrow> Some (Err (SE_Codec e), st)
          | Panic \<Rightarrow> Some (Panic, st))
     else None)"

text \<open>What a successful socket read does to the stream: store the bytes, grow a full buffer.\<close>

definition after_read :: "bytes \<Rightarrow> nat \<Rightarrow> PacketStream \<Rightarrow> PacketStream" where
  "after_read chunk bytes_read st =
    (let st = st\<lparr>st_read_buffer := fill (st_read_offset st) chunk (st_read_buffer st), st_read_offset := bytes_read\<rparr> in
     if length (st_read_buffer st) \<le> st_read_offset st
     then st\<lparr>st_read_buffer :=
            resize (min (length (st_read_buffer st) * 2) (st_max_buffer_size st)) (st_read_buffer st)\<rparr>
     else st)"

partial_function (option) read_loop ::
    "'s reader \<Rightarrow> string \<Rightarrow> bool \<Rightarrow> nat \<Rightarrow> PacketStream \<Rightarrow> 's \<Rightarrow> (read_outcome \<times> PacketStream \<times> 's) option" where
  "read_loop rd uuid with_bytes bytes_read st s =
    (case try_decode uuid with_bytes bytes_read st of
       Some (r, st) \<Rightarrow> Some (r, st, s)
     | None \<Rightarrow>
         if length (st_read_buffer st) < st_read_offset st then Some (Panic, st, s)
         else
           (case rd s (length (st_read_buffer st) - st_read_offset st) of
              (Rd_Ok chunk, s) \<Rightarrow>
                if chunk = [] \<and> bytes_read = 0 then Some (Ok None, st, s)
                else read_loop rd uuid with_bytes (bytes_read + length chunk)
                  (after_read chunk (bytes_read + length chunk) st) s
            | (Rd_WouldBlock, s) \<Rightarrow> Some (Err SE_ReadTimeout, st, s)
            | (Rd_Fail, s) \<Rightarrow> Some (Err SE_Io, st, s)))"

definition read_internal ::
    "'s reader \<Rightarrow> string \<Rightarrow> bool \<Rightarrow> PacketStream \<Rightarrow> 's \<Rightarrow> (read_outcome \<times> PacketStream \<times> 's) option" where
  "read_internal rd uuid with_bytes st s = read_loop rd uuid with_bytes (st_read_offset st) st s"

definition PacketStream_read :: "'s reader \<Rightarrow> string \<Rightarrow> PacketStream \<Rightarrow> 's \<Rightarrow> ((StreamError, Packet option) res \<times> PacketStream \<times> 's) option" where
  "PacketStream_read rd uuid st s =
    map_option (\<lambda>(r, st, s). (bind r (\<lambda>x. case x of Some (packet, _) \<Rightarrow> Ok (Some packet) | None \<Rightarrow> Ok None), st, s))
      (read_internal rd uuid False st s)"

definition PacketStream_read_raw ::
    "'s reader \<Rightarrow> string \<Rightarrow> PacketStream \<Rightarrow> 's \<Rightarrow> ((StreamError, (Packet \<times> bytes) option) res \<times> PacketStream \<times> 's) option" where
  "PacketStream_read_raw rd uuid st s =
    map_option (\<lambda>(r, st, s). (bind r (\<lambda>x. case x of
        Some (packet, Some bs) \<Rightarrow> Ok (Some (packet, bs))
      | Some (_, None) \<Rightarrow> Err SE_ReadBuffer
      | None \<Rightarrow> Ok None), st, s))
      (read_internal rd uuid True st s)"

text \<open>\<open>write\<close>: \<open>wr s bs\<close> tells whether \<open>write_all\<close> succeeded.\<close>

definition PacketStream_write :: "('s \<Rightarrow> bytes \<Rightarrow> bool \<times> 's) \<Rightarrow> Packet \<Rightarrow> 's \<Rightarrow> (StreamError, unit) res \<times> 's" where
  "PacketStream_write wr packet s =
    (case Packet_encode packet of
       Err e \<Rightarrow> (Err (SE_Codec e), s)
     | Panic \<Rightarrow> (Panic, s)
     | Ok dest \<Rightarrow> (case wr s dest of (ok, s) \<Rightarrow> (if ok then Ok () else Err SE_Io, s)))"

section \<open>The buffer\<close>

text \<open>The bytes received and not yet decoded.\<close>

definition buffered :: "PacketStream \<Rightarrow> bytes" where
  "buffered st = take (st_read_offset st) (st_read_buffer st)"

text \<open>The buffer invariant: it has room unless it has reached its maximum.\<close>

definition stream_inv :: "PacketStream \<Rightarrow> bool" where
  "stream_inv st \<longleftrightarrow> 0 < length (st_read_buffer st) \<and> length (st_read_buffer st) \<le> st_max_buffer_size st \<and>
    st_read_offset st \<le> length (st_read_buffer st) \<and>
    (st_read_offset st = length (st_read_buffer st) \<longrightarrow> length (st_read_buffer st) = st_max_buffer_size st)"

lemma stream_inv_new:
  "stream_inv (PacketStream_new initial mx) \<longleftrightarrow>
    0 < (case initial of Some n \<Rightarrow> n | None \<Rightarrow> READ_BUFFER_SIZE) \<and>
    (case initial of Some n \<Rightarrow> n | None \<Rightarrow> READ_BUFFER_SIZE) \<le> (case mx of Some n \<Rightarrow> n | None \<Rightarrow> MAX_BUFFER_SIZE)"
  by (auto simp: stream_inv_def PacketStream_new_def Let_def)

lemma buffered_new [simp]: "buffered (PacketStream_new initial mx) = []"
  by (simp add: buffered_def PacketStream_new_def Let_def)

lemma stream_inv_upd:
  "stream_inv (st\<lparr>st_read_buffer := b, st_read_offset := n\<rparr>) \<longleftrightarrow> 0 < length b \<and> length b \<le> st_max_buffer_size st \<and>
    n \<le> length b \<and> (n = length b \<longrightarrow> length b = st_max_buffer_size st)"
  by (simp add: stream_inv_def)

lemma length_buffered: "stream_inv st \<Longrightarrow> length (buffered st) = st_read_offset st"
  by (simp add: stream_inv_def buffered_def)

lemma length_resize [simp]: "length (resize n buf) = n"
  by (simp add: resize_def)

lemma take_resize: "k \<le> n \<Longrightarrow> k \<le> length buf \<Longrightarrow> take k (resize n buf) = take k buf"
  by (simp add: resize_def min_def)

lemma length_fill [simp]: "off + length chunk \<le> length buf \<Longrightarrow> length (fill off chunk buf) = length buf"
  by (simp add: fill_def)

lemma take_fill: "off + length chunk \<le> length buf \<Longrightarrow> take (off + length chunk) (fill off chunk buf) = take off buf @ chunk"
  by (simp add: fill_def)

lemma after_read_inv:
  assumes inv: "stream_inv st" and len: "st_read_offset st + length chunk \<le> length (st_read_buffer st)"
  shows "stream_inv (after_read chunk (st_read_offset st + length chunk) st)"
    and "buffered (after_read chunk (st_read_offset st + length chunk) st) = buffered st @ chunk"
    and "st_read_offset (after_read chunk (st_read_offset st + length chunk) st) = st_read_offset st + length chunk"
    and "st_max_buffer_size (after_read chunk (st_read_offset st + length chunk) st) = st_max_buffer_size st"
proof -
  let ?n = "st_read_offset st + length chunk" and ?buf = "fill (st_read_offset st) chunk (st_read_buffer st)"
  let ?grown = "resize (min (length ?buf * 2) (st_max_buffer_size st)) ?buf"
  have l: "length ?buf = length (st_read_buffer st)" using len by (rule length_fill)
  have t: "take ?n ?buf = buffered st @ chunk" using len by (simp only: take_fill buffered_def)
  have g: "take ?n ?grown = take ?n ?buf"
    using inv len by (intro take_resize) (simp_all add: l stream_inv_def)
  have gl: "length ?grown = min (length (st_read_buffer st) * 2) (st_max_buffer_size st)"
    by (simp only: length_resize l)
  have e: "after_read chunk ?n st =
      st\<lparr>st_read_buffer := (if length (st_read_buffer st) \<le> ?n then ?grown else ?buf), st_read_offset := ?n\<rparr>"
    by (simp add: after_read_def Let_def l)
  show "st_read_offset (after_read chunk ?n st) = ?n" "st_max_buffer_size (after_read chunk ?n st) = st_max_buffer_size st"
    by (simp_all add: e)
  show "buffered (after_read chunk ?n st) = buffered st @ chunk"
  proof (cases "length (st_read_buffer st) \<le> ?n")
    case True
    then have "buffered (after_read chunk ?n st) = take ?n ?grown" by (simp add: e buffered_def)
    with g t show ?thesis by simp
  next
    case False
    then have "buffered (after_read chunk ?n st) = take ?n ?buf" by (simp add: e buffered_def)
    with t show ?thesis by simp
  qed
  show "stream_inv (after_read chunk ?n st)"
  proof (cases "length (st_read_buffer st) \<le> ?n")
    case True
    then have "stream_inv (after_read chunk ?n st) \<longleftrightarrow> 0 < length ?grown \<and> length ?grown \<le> st_max_buffer_size st \<and>
        ?n \<le> length ?grown \<and> (?n = length ?grown \<longrightarrow> length ?grown = st_max_buffer_size st)"
      by (simp only: e if_True stream_inv_upd)
    with inv len show ?thesis
      unfolding gl stream_inv_def by linarith
  next
    case False
    with inv len show ?thesis by (simp add: e stream_inv_def l)
  qed
qed

lemma copy_to_front_take:
  "from \<le> until \<Longrightarrow> until \<le> length buf \<Longrightarrow> take (until - from) (copy_to_front from until buf) = drop from (take until buf)"
  by (simp add: copy_to_front_def drop_take)

lemma length_copy_to_front [simp]: "from \<le> until \<Longrightarrow> until \<le> length buf \<Longrightarrow> length (copy_to_front from until buf) = length buf"
  by (simp add: copy_to_front_def)

section \<open>Reassembly\<close>

text \<open>
  A socket that delivers: as long as bytes are pending, a read with room returns some of them in
  order. This is what \<open>AsyncRead\<close> promises of a connected TCP or TLS stream with data to read.
\<close>

definition reliable :: "'s reader \<Rightarrow> ('s \<Rightarrow> bytes) \<Rightarrow> bool" where
  "reliable rd pending \<longleftrightarrow> (\<forall>s n. pending s \<noteq> [] \<longrightarrow> 0 < n \<longrightarrow>
    (\<exists>chunk s'. rd s n = (Rd_Ok chunk, s') \<and> chunk \<noteq> [] \<and> length chunk \<le> n \<and> pending s = chunk @ pending s'))"

lemma reliableD:
  assumes "reliable rd pending" and "pending s \<noteq> []" and "0 < n"
  obtains chunk s' where "rd s n = (Rd_Ok chunk, s')" and "chunk \<noteq> []" and "length chunk \<le> n"
    and "pending s = chunk @ pending s'"
  using assms unfolding reliable_def by blast

lemma try_decode_prefix:
  assumes "Packet_sendable p" and "buffered st = take (st_read_offset st) (Packet_wire p)"
    and "st_read_offset st < length (Packet_wire p)" and "length (Packet_wire p) \<le> st_max_buffer_size st"
    and "stream_inv st"
  shows "try_decode uuid with_bytes (st_read_offset st) st = None"
proof (cases "st_read_offset st = 0")
  case False
  from decode_wire_prefix [OF assms(1,3)]
  obtain a b where "decode uuid (buffered st) = Err (EK_InsufficientData a b)"
    using assms(2) by fastforce
  then show ?thesis using assms(3-5) by (simp add: try_decode_def buffered_def stream_inv_def)
qed (simp add: try_decode_def)

lemma try_decode_complete:
  assumes "Packet_sendable p" and "buffered st = Packet_wire p @ extra" and "stream_inv st"
  shows "\<exists>st'. try_decode uuid False (st_read_offset st) st = Some (Ok (Some (Packet_decoded p, None)), st') \<and>
    stream_inv st' \<and> buffered st' = extra \<and> st_max_buffer_size st' = st_max_buffer_size st"
proof -
  let ?n = "st_read_offset st" and ?k = "length (Packet_wire p)"
  have pos: "0 < ?k" by simp
  have n: "?n = ?k + length extra" and le: "?n \<le> length (st_read_buffer st)"
    using assms(2) length_buffered [OF assms(3)] assms(3) by (simp_all add: stream_inv_def)
  have dec: "decode uuid (take ?n (st_read_buffer st)) = Ok (Some (Packet_decoded p, ?k), [])"
    using decode_wire [OF assms(1)] assms(2) by (simp add: buffered_def)
  show ?thesis
  proof (cases "extra = []")
    case True
    with dec n le pos have "try_decode uuid False ?n st =
        Some (Ok (Some (Packet_decoded p, None)), st\<lparr>st_read_offset := 0\<rparr>)"
      by (simp add: try_decode_def)
    then show ?thesis using True assms(3) by (auto simp: stream_inv_def buffered_def)
  next
    case False
    let ?buf = "copy_to_front ?k ?n (st_read_buffer st)"
    from False dec n le pos have t: "try_decode uuid False ?n st =
        Some (Ok (Some (Packet_decoded p, None)), st\<lparr>st_read_buffer := ?buf, st_read_offset := ?n - ?k\<rparr>)"
      by (simp add: try_decode_def)
    have l: "length ?buf = length (st_read_buffer st)" using n le by (intro length_copy_to_front) simp_all
    have "take (?n - ?k) ?buf = drop ?k (buffered st)"
      unfolding buffered_def using n le by (intro copy_to_front_take) simp_all
    then have b: "buffered (st\<lparr>st_read_buffer := ?buf, st_read_offset := ?n - ?k\<rparr>) = extra"
      using assms(2) by (simp add: buffered_def)
    have "stream_inv (st\<lparr>st_read_buffer := ?buf, st_read_offset := ?n - ?k\<rparr>)"
      unfolding stream_inv_upd l using assms(3) [unfolded stream_inv_def] n le pos by linarith
    with t b show ?thesis by auto
  qed
qed

lemma read_loop_delivers:
  assumes rel: "reliable rd pending" and p: "Packet_sendable p"
    and fits: "length (Packet_wire p) \<le> st_max_buffer_size st"
    and "stream_inv st" and "buffered st @ pending s = Packet_wire p @ rest"
  shows "\<exists>st' s'. read_loop rd uuid False (st_read_offset st) st s =
      Some (Ok (Some (Packet_decoded p, None)), st', s') \<and> stream_inv st' \<and>
      buffered st' @ pending s' = rest \<and> st_max_buffer_size st' = st_max_buffer_size st"
  using assms(3-)
proof (induction "length (Packet_wire p) - st_read_offset st" arbitrary: st s rule: less_induct)
  case less
  note fits = less.prems(1) and inv = less.prems(2) and split = less.prems(3)
  show ?case
  proof (cases "length (Packet_wire p) \<le> st_read_offset st")
    case True
    define extra where "extra = drop (length (Packet_wire p)) (buffered st)"
    have "take (length (Packet_wire p)) (buffered st) = Packet_wire p"
      using arg_cong [OF split, of "take (length (Packet_wire p))"] True length_buffered [OF inv] by simp
    then have e: "buffered st = Packet_wire p @ extra"
      unfolding extra_def by (metis append_take_drop_id)
    with split have r: "rest = extra @ pending s" by simp
    from try_decode_complete [OF p e inv, of uuid] obtain st' where
      "try_decode uuid False (st_read_offset st) st = Some (Ok (Some (Packet_decoded p, None)), st')"
      "stream_inv st'" "buffered st' = extra" "st_max_buffer_size st' = st_max_buffer_size st" by blast
    then show ?thesis using r by (subst read_loop.simps) simp
  next
    case False
    then have lt: "st_read_offset st < length (Packet_wire p)" by simp
    have pre: "buffered st = take (st_read_offset st) (Packet_wire p)"
      using split lt length_buffered [OF inv] by (metis append_eq_append_conv_if append_eq_conv_conj less_imp_le)
    have none: "try_decode uuid False (st_read_offset st) st = None"
      by (rule try_decode_prefix [OF p pre lt fits inv])
    have "pending s \<noteq> []"
      using split lt length_buffered [OF inv] by (metis append_Nil2 length_append less_le_not_le le_add1)
    moreover have room: "0 < length (st_read_buffer st) - st_read_offset st"
      using inv lt fits by (auto simp: stream_inv_def)
    ultimately obtain chunk s' where rd: "rd s (length (st_read_buffer st) - st_read_offset st) = (Rd_Ok chunk, s')"
      and c: "chunk \<noteq> []" "length chunk \<le> length (st_read_buffer st) - st_read_offset st" "pending s = chunk @ pending s'"
      by (rule reliableD [OF rel])
    let ?n = "st_read_offset st + length chunk"
    have room': "?n \<le> length (st_read_buffer st)" using c(2) room by simp
    note after = after_read_inv [OF inv room']
    have step: "read_loop rd uuid False (st_read_offset st) st s =
        read_loop rd uuid False ?n (after_read chunk ?n st) s'"
      using none room rd c(1) by (subst read_loop.simps) simp
    have "length (Packet_wire p) - ?n < length (Packet_wire p) - st_read_offset st"
      using c(1) lt by (simp add: diff_less_mono2)
    then have "\<exists>st' s''. read_loop rd uuid False (st_read_offset (after_read chunk ?n st)) (after_read chunk ?n st) s' =
        Some (Ok (Some (Packet_decoded p, None)), st', s'') \<and> stream_inv st' \<and> buffered st' @ pending s'' = rest \<and>
        st_max_buffer_size st' = st_max_buffer_size (after_read chunk ?n st)"
      by (intro less.hyps) (use fits after split c(3) in \<open>simp_all add: after(1)\<close>)
    then show ?thesis unfolding step using after(3,4) by simp
  qed
qed

lemma read_delivers:
  assumes "reliable rd pending" and "Packet_sendable p" and "length (Packet_wire p) \<le> st_max_buffer_size st"
    and "stream_inv st" and "buffered st @ pending s = Packet_wire p @ rest"
  shows "\<exists>st' s'. PacketStream_read rd uuid st s = Some (Ok (Some (Packet_decoded p)), st', s') \<and> stream_inv st' \<and>
    buffered st' @ pending s' = rest \<and> st_max_buffer_size st' = st_max_buffer_size st"
  using read_loop_delivers [OF assms, of uuid] by (auto simp: PacketStream_read_def read_internal_def)

text \<open>Reading a sequence of packets, one \<open>read\<close> after the other.\<close>

fun read_many :: "'s reader \<Rightarrow> string \<Rightarrow> nat \<Rightarrow> PacketStream \<Rightarrow> 's \<Rightarrow> (Packet list \<times> PacketStream \<times> 's) option" where
  "read_many rd uuid 0 st s = Some ([], st, s)"
| "read_many rd uuid (Suc n) st s =
    (case PacketStream_read rd uuid st s of
       Some (Ok (Some p), st, s) \<Rightarrow> map_option (\<lambda>(ps, st, s). (p # ps, st, s)) (read_many rd uuid n st s)
     | _ \<Rightarrow> None)"

lemma read_many_delivers:
  assumes "reliable rd pending" and "\<forall>p \<in> set ps. Packet_sendable p \<and> length (Packet_wire p) \<le> st_max_buffer_size st"
    and "stream_inv st" and "buffered st @ pending s = concat (map Packet_wire ps) @ rest"
  shows "\<exists>st' s'. read_many rd uuid (length ps) st s = Some (map Packet_decoded ps, st', s') \<and> stream_inv st' \<and>
    buffered st' @ pending s' = rest"
  using assms(2-)
proof (induction ps arbitrary: st s)
  case (Cons p ps)
  then obtain st' s' where r: "PacketStream_read rd uuid st s = Some (Ok (Some (Packet_decoded p)), st', s')"
    "stream_inv st'" "buffered st' @ pending s' = concat (map Packet_wire ps) @ rest"
    "st_max_buffer_size st' = st_max_buffer_size st"
    using read_delivers [OF assms(1), of p st s "concat (map Packet_wire ps) @ rest" uuid] by auto
  from Cons.IH [of st' s'] Cons.prems(1) r show ?case by auto
qed simp

section \<open>A closed connection\<close>

text \<open>
  At the end of the stream a read returns no bytes. With nothing buffered \<open>read\<close> reports the end; with
  part of a packet buffered the loop reads again, and again, and never returns.
\<close>

lemma read_end_of_stream:
  assumes "stream_inv st" and "st_read_offset st = 0" and "rd s (length (st_read_buffer st)) = (Rd_Ok [], s')"
  shows "PacketStream_read rd uuid st s = Some (Ok None, st, s')"
  using assms by (simp add: PacketStream_read_def read_internal_def try_decode_def read_loop.simps [of rd uuid False 0 st s])

lemma fill_nothing: "off \<le> length buf \<Longrightarrow> fill off [] buf = buf"
  by (simp add: fill_def)

lemma after_read_nothing: "stream_inv st \<Longrightarrow> st_read_offset st < length (st_read_buffer st) \<Longrightarrow>
    after_read [] (st_read_offset st) st = st"
  by (simp add: after_read_def Let_def fill_nothing stream_inv_def)

text \<open>A loop that is stuck: an incomplete packet, room in the buffer, and a socket at its end.\<close>

definition stuck :: "'s reader \<Rightarrow> string \<Rightarrow> bool \<Rightarrow> nat \<Rightarrow> PacketStream \<Rightarrow> 's \<Rightarrow> bool" where
  "stuck rd uuid with_bytes n st s \<longleftrightarrow> n = st_read_offset st \<and> 0 < n \<and> stream_inv st \<and>
    n < length (st_read_buffer st) \<and> try_decode uuid with_bytes n st = None \<and> (\<forall>k. rd s k = (Rd_Ok [], s))"

lemma read_loop_stuck: "stuck rd uuid wb n st s \<Longrightarrow> read_loop rd uuid wb n st s = None"
proof (rule ccontr)
  assume "stuck rd uuid wb n st s" and "read_loop rd uuid wb n st s \<noteq> None"
  moreover from this obtain y where "read_loop rd uuid wb n st s = Some y" by blast
  then have "\<not> stuck rd uuid wb n st s"
  proof (rule read_loop.raw_induct [where P = "\<lambda>rd uuid wb n st s y. \<not> stuck rd uuid wb n st s", rotated])
    fix loop rd uuid wb n st s y
    assume ih: "\<And>rd uuid wb n st s y. loop rd uuid wb n st s = Some y \<Longrightarrow> \<not> stuck rd uuid wb n st s"
      and body: "(case try_decode uuid wb n st of
        None \<Rightarrow> if length (st_read_buffer st) < st_read_offset st then Some (Panic, st, s)
          else (case rd s (length (st_read_buffer st) - st_read_offset st) of
            (Rd_Ok chunk, s) \<Rightarrow> if chunk = [] \<and> n = 0 then Some (Ok None, st, s)
              else loop rd uuid wb (n + length chunk) (after_read chunk (n + length chunk) st) s
          | (Rd_WouldBlock, s) \<Rightarrow> Some (Err SE_ReadTimeout, st, s) | (Rd_Fail, s) \<Rightarrow> Some (Err SE_Io, st, s))
        | Some (r, st) \<Rightarrow> Some (r, st, s)) = Some y"
    show "\<not> stuck rd uuid wb n st s"
    proof
      assume st: "stuck rd uuid wb n st s"
      then have n: "n = st_read_offset st" and pos: "0 < st_read_offset st" and inv: "stream_inv st"
        and room: "st_read_offset st < length (st_read_buffer st)"
        and none: "try_decode uuid wb (st_read_offset st) st = None" and rd: "\<And>k. rd s k = (Rd_Ok [], s)"
        by (auto simp: stuck_def)
      have "loop rd uuid wb n st s = Some y"
        using body room pos unfolding n none rd by (simp add: after_read_nothing [OF inv room])
      with ih st show False by blast
    qed
  qed
  ultimately show False by blast
qed

lemma read_stuck:
  assumes "Packet_sendable p" and "stream_inv st" and "length (Packet_wire p) \<le> st_max_buffer_size st"
    and "0 < st_read_offset st" and "st_read_offset st < length (st_read_buffer st)"
    and "st_read_offset st < length (Packet_wire p)" and "buffered st = take (st_read_offset st) (Packet_wire p)"
    and "\<forall>k. rd s k = (Rd_Ok [], s)"
  shows "PacketStream_read rd uuid st s = None"
proof -
  have "stuck rd uuid False (st_read_offset st) st s"
    using assms try_decode_prefix [OF assms(1,7,6,3,2)] by (simp add: stuck_def)
  then show ?thesis by (simp add: PacketStream_read_def read_internal_def read_loop_stuck)
qed

lemma read_raw_panics:
  assumes "Packet_sendable p" and "buffered st = Packet_wire p @ extra" and "stream_inv st"
  shows "PacketStream_read_raw rd uuid st s = Some (Panic, st, s)"
proof -
  have n: "0 < st_read_offset st" "st_read_offset st \<le> length (st_read_buffer st)"
    using assms(2,3) length_buffered [OF assms(3)] Packet_wire_nonempty [of p] by (simp_all add: stream_inv_def)
  have "decode uuid (take (st_read_offset st) (st_read_buffer st)) = Ok (Some (Packet_decoded p, length (Packet_wire p)), [])"
    using decode_wire [OF assms(1)] assms(2) by (simp add: buffered_def)
  then have "try_decode uuid True (st_read_offset st) st = Some (Panic, st)"
    using n Packet_wire_nonempty [of p] by (simp add: try_decode_def)
  then show ?thesis
    by (simp add: PacketStream_read_raw_def read_internal_def read_loop.simps [of rd uuid True _ st s])
qed

end
