(* ===== verification/Broker_Session.thy ===== *)
theory Broker_Session
  imports Packet_Codec "HOL-Library.Multiset"
begin

text \<open>
  Broker configuration, sessions and the session pool (\<open>vaux-broker/src/config.rs\<close>,
  \<open>vaux-broker/src/session.rs\<close>). A session is shared between the pool and the connection that serves
  it (\<open>Arc<RwLock<Session>>\<close>), so sessions live in a store, a list, and are referred to by index. The
  channel of a session and the token of its delayed will are references too; \<open>Duration\<close> is a number of
  seconds, \<open>Instant\<close> a number. A hash map that is drained
  is an association list, and the order in which it is drained a parameter.
\<close>

section \<open>Configuration\<close>

definition DEFAULT_KEEP_ALIVE_SECS :: u16 where "DEFAULT_KEEP_ALIVE_SECS = 30"
definition MAX_KEEP_ALIVE_AS_SECS :: u16 where "MAX_KEEP_ALIVE_AS_SECS = 120"

text \<open>\<open>(secs as f32 * 1.5) as u64\<close>: exact in \<open>f32\<close> for every \<open>u16\<close>, truncated.\<close>

definition keep_alive_factor :: "u16 \<Rightarrow> nat" where
  "keep_alive_factor secs = (unat secs * 3) div 2"

definition DEFAULT_KEEP_ALIVE :: nat where "DEFAULT_KEEP_ALIVE = keep_alive_factor DEFAULT_KEEP_ALIVE_SECS"
definition MAX_KEEP_ALIVE :: nat where "MAX_KEEP_ALIVE = keep_alive_factor MAX_KEEP_ALIVE_AS_SECS"
definition DEFAULT_SESSION_EXPIRY :: nat where "DEFAULT_SESSION_EXPIRY = 60 * 10"
definition DEFAULT_SESSION_CHANNEL_SIZE :: nat where "DEFAULT_SESSION_CHANNEL_SIZE = 10"
definition DEFAULT_MAX_ACTIVE_SESSIONS :: "u32 option" where "DEFAULT_MAX_ACTIVE_SESSIONS = None"

record Config =
  cf_default_keep_alive :: nat
  cf_max_keep_alive :: nat
  cf_session_expiry :: nat
  cf_max_topic_name_len :: nat
  cf_max_topic_mem :: nat
  cf_session_channel_size :: nat
  cf_max_active_sessions :: "u32 option"

definition Config_default :: Config where
  "Config_default =
    \<lparr>cf_default_keep_alive = DEFAULT_KEEP_ALIVE, cf_max_keep_alive = MAX_KEEP_ALIVE,
     cf_session_expiry = DEFAULT_SESSION_EXPIRY, cf_max_topic_name_len = 4096, cf_max_topic_mem = 1024 * 1000,
     cf_session_channel_size = DEFAULT_SESSION_CHANNEL_SIZE, cf_max_active_sessions = DEFAULT_MAX_ACTIVE_SESSIONS\<rparr>"

section \<open>Sessions\<close>

datatype SessionControl = SC_Disconnect Reason | SC_Deliver Publish

record Session =
  se_id :: string
  se_last_active :: nat
  se_connected :: bool
  se_keep_alive :: nat
  se_session_expiry :: "nat option"
  se_will_message :: "WillMessage option"
  se_pending_will :: "nat option"
  se_next_packet_id :: u16
  se_pending_ack :: "(u16 \<times> Publish) list"
  se_control :: "nat \<times> nat option"

text \<open>\<open>chan\<close> is the channel made by \<open>mpsc::channel\<close>; the sender and the receiver both refer to it.\<close>

definition Session_new :: "nat \<Rightarrow> string \<Rightarrow> WillMessage option \<Rightarrow> nat \<Rightarrow> nat \<Rightarrow> Session" where
  "Session_new now sid will_message keep_alive chan =
    \<lparr>se_id = sid, se_last_active = now, se_connected = False, se_keep_alive = keep_alive,
     se_session_expiry = None, se_will_message = will_message, se_pending_will = None,
     se_next_packet_id = 1, se_pending_ack = [], se_control = (chan, Some chan)\<rparr>"

definition Session_reset_control :: "nat \<Rightarrow> Session \<Rightarrow> Session" where
  "Session_reset_control chan s = s\<lparr>se_control := (chan, Some chan)\<rparr>"

definition Session_take_control_receiver :: "Session \<Rightarrow> nat option \<times> Session" where
  "Session_take_control_receiver s = (snd (se_control s), s\<lparr>se_control := (fst (se_control s), None)\<rparr>)"

definition Session_clear_will :: "Session \<Rightarrow> Session" where
  "Session_clear_will s = s\<lparr>se_will_message := None\<rparr>"

definition Session_set_will :: "WillMessage option \<Rightarrow> Session \<Rightarrow> Session" where
  "Session_set_will will s = s\<lparr>se_will_message := will\<rparr>"

definition Session_take_will :: "Session \<Rightarrow> WillMessage option \<times> Session" where
  "Session_take_will s = (se_will_message s, s\<lparr>se_will_message := None\<rparr>)"

text \<open>\<open>cancel_pending_will\<close> returns the token it cancels; the tokens are kept by the broker state.\<close>

definition Session_cancel_pending_will :: "Session \<Rightarrow> nat option \<times> Session" where
  "Session_cancel_pending_will s = (se_pending_will s, s\<lparr>se_pending_will := None\<rparr>)"

definition Session_set_pending_will :: "nat \<Rightarrow> Session \<Rightarrow> nat option \<times> Session" where
  "Session_set_pending_will token s =
    (case Session_cancel_pending_will s of (cancelled, s) \<Rightarrow> (cancelled, s\<lparr>se_pending_will := Some token\<rparr>))"

definition Session_next_packet_id :: "Session \<Rightarrow> u16 \<times> Session" where
  "Session_next_packet_id s =
    (let pid = se_next_packet_id s; next_id = se_next_packet_id s + 1 in
     (pid, s\<lparr>se_next_packet_id := (if next_id = 0 then 1 else next_id)\<rparr>))"

definition Session_track_qos_publish :: "u16 \<Rightarrow> Publish \<Rightarrow> Session \<Rightarrow> Session" where
  "Session_track_qos_publish pid publish s = s\<lparr>se_pending_ack := AList.update pid publish (se_pending_ack s)\<rparr>"

definition Session_acknowledge :: "u16 \<Rightarrow> Session \<Rightarrow> bool \<times> Session" where
  "Session_acknowledge pid s =
    (map_of (se_pending_ack s) pid \<noteq> None, s\<lparr>se_pending_ack := AList.delete pid (se_pending_ack s)\<rparr>)"

definition Session_pending_ack_count :: "Session \<Rightarrow> nat" where
  "Session_pending_ack_count s = length (se_pending_ack s)"

text \<open>A \<open>HashMap\<close> yields its entries in an order of its own, given here by a rank of its keys.\<close>

definition iteration :: "('k \<Rightarrow> nat) \<Rightarrow> ('k \<times> 'v) list \<Rightarrow> ('k \<times> 'v) list" where
  "iteration rank l = sort_key (\<lambda>e. rank (fst e)) l"

definition Session_drain_pending :: "(u16 \<Rightarrow> nat) \<Rightarrow> Session \<Rightarrow> (u16 \<times> Publish) list \<times> Session" where
  "Session_drain_pending rank s = (iteration rank (se_pending_ack s), s\<lparr>se_pending_ack := []\<rparr>)"

lemma set_iteration [simp]: "set (iteration rank l) = set l" "length (iteration rank l) = length l" "mset (iteration rank l) = mset l"
  by (simp_all add: iteration_def)

lemma distinct_iteration [simp]: "distinct (map fst (iteration rank l)) \<longleftrightarrow> distinct (map fst l)"
  by (simp add: iteration_def distinct_map)

lemma map_of_iteration: "distinct (map fst l) \<Longrightarrow> map_of (iteration rank l) = map_of l"
  by (simp add: map_of_inject_set)

definition Session_set_connected :: "bool \<Rightarrow> Session \<Rightarrow> Session" where
  "Session_set_connected c s = s\<lparr>se_connected := c\<rparr>"

definition Session_set_last_active :: "nat \<Rightarrow> Session \<Rightarrow> Session" where
  "Session_set_last_active now s = s\<lparr>se_last_active := now\<rparr>"

definition Session_set_keep_alive :: "nat \<Rightarrow> Session \<Rightarrow> Session" where
  "Session_set_keep_alive k s = s\<lparr>se_keep_alive := k\<rparr>"

definition Session_set_session_expiry :: "nat \<Rightarrow> Session \<Rightarrow> Session" where
  "Session_set_session_expiry e s = s\<lparr>se_session_expiry := Some e\<rparr>"

text \<open>\<open>last_active.elapsed()\<close> at the instant \<open>now\<close>.\<close>

definition Session_expired :: "nat \<Rightarrow> Session \<Rightarrow> bool" where
  "Session_expired now s =
    (case se_session_expiry s of Some e \<Rightarrow> e < now - se_last_active s | None \<Rightarrow> True)"

section \<open>The session pool\<close>

record SessionPool =
  sp_session_expiry :: nat
  sp_default_keep_alive :: nat
  sp_max_keep_alive :: nat
  sp_active :: "string \<rightharpoonup> nat"
  sp_inactive :: "string \<rightharpoonup> nat"
  sp_active_sessions :: u32
  sp_inactive_sessions :: u32

definition SessionPool_new_with_expiry :: "nat \<Rightarrow> SessionPool" where
  "SessionPool_new_with_expiry expiry =
    \<lparr>sp_session_expiry = expiry, sp_default_keep_alive = 0, sp_max_keep_alive = 0, sp_active = Map.empty,
     sp_inactive = Map.empty, sp_active_sessions = 0, sp_inactive_sessions = 0\<rparr>"

definition SessionPool_new_with_config :: "Config \<Rightarrow> SessionPool" where
  "SessionPool_new_with_config config =
    (SessionPool_new_with_expiry (cf_session_expiry config))
      \<lparr>sp_default_keep_alive := cf_default_keep_alive config, sp_max_keep_alive := cf_max_keep_alive config\<rparr>"

text \<open>\<open>as_secs() as u16\<close> truncates.\<close>

definition SessionPool_default_keep_alive_secs :: "SessionPool \<Rightarrow> u16" where
  "SessionPool_default_keep_alive_secs p = of_nat (sp_default_keep_alive p)"

definition SessionPool_max_keep_alive_secs :: "SessionPool \<Rightarrow> u16" where
  "SessionPool_max_keep_alive_secs p = of_nat (sp_max_keep_alive p)"

definition SessionPool_set_session_expiry :: "nat \<Rightarrow> SessionPool \<Rightarrow> SessionPool" where
  "SessionPool_set_session_expiry expiry p = p\<lparr>sp_session_expiry := expiry\<rparr>"

definition SessionPool_at_capacity :: "SessionPool \<Rightarrow> u32 option \<Rightarrow> bool" where
  "SessionPool_at_capacity p mx = (case mx of Some limit \<Rightarrow> limit \<le> sp_active_sessions p | None \<Rightarrow> False)"

definition SessionPool_add :: "Session list \<Rightarrow> nat \<Rightarrow> SessionPool \<Rightarrow> SessionPool" where
  "SessionPool_add store r p =
    (let sid = se_id (store ! r) in
     if se_connected (store ! r)
     then p\<lparr>sp_active_sessions := sp_active_sessions p + 1, sp_active := (sp_active p)(sid \<mapsto> r)\<rparr>
     else p\<lparr>sp_inactive_sessions := sp_inactive_sessions p + 1, sp_inactive := (sp_inactive p)(sid \<mapsto> r)\<rparr>)"

definition SessionPool_remove :: "string \<Rightarrow> SessionPool \<Rightarrow> nat option \<times> SessionPool" where
  "SessionPool_remove sid p =
    (case sp_active p sid of
       Some r \<Rightarrow> (Some r, p\<lparr>sp_active := (sp_active p)(sid := None), sp_active_sessions := sp_active_sessions p - 1\<rparr>)
     | None \<Rightarrow>
         (case sp_inactive p sid of
            Some r \<Rightarrow> (Some r, p\<lparr>sp_inactive := (sp_inactive p)(sid := None),
                                sp_inactive_sessions := sp_inactive_sessions p - 1\<rparr>)
          | None \<Rightarrow> (None, p)))"

definition SessionPool_get_active :: "string \<Rightarrow> SessionPool \<Rightarrow> nat option" where
  "SessionPool_get_active sid p = sp_active p sid"

definition SessionPool_remove_active :: "string \<Rightarrow> SessionPool \<Rightarrow> nat option \<times> SessionPool" where
  "SessionPool_remove_active sid p =
    (case sp_active p sid of
       Some r \<Rightarrow> (Some r, p\<lparr>sp_active := (sp_active p)(sid := None), sp_active_sessions := sp_active_sessions p - 1\<rparr>)
     | None \<Rightarrow> (None, p))"

definition SessionPool_activate ::
    "nat \<Rightarrow> string \<Rightarrow> Session list \<Rightarrow> SessionPool \<Rightarrow> nat option \<times> Session list \<times> SessionPool" where
  "SessionPool_activate now sid store p =
    (case sp_inactive p sid of
       Some r \<Rightarrow>
         (let s = Session_set_last_active now (Session_set_connected True (store ! r)) in
          (Some r, store[r := s],
           p\<lparr>sp_inactive := (sp_inactive p)(sid := None), sp_active_sessions := sp_active_sessions p + 1,
             sp_active := (sp_active p)(se_id s \<mapsto> r), sp_inactive_sessions := sp_inactive_sessions p - 1\<rparr>))
     | None \<Rightarrow> (None, store, p))"

definition SessionPool_deactivate ::
    "string \<Rightarrow> Session list \<Rightarrow> SessionPool \<Rightarrow> nat option \<times> Session list \<times> SessionPool" where
  "SessionPool_deactivate sid store p =
    (case sp_active p sid of
       Some r \<Rightarrow>
         (let s = Session_set_connected False (store ! r) in
          (Some r, store[r := s],
           p\<lparr>sp_active := (sp_active p)(sid := None), sp_inactive_sessions := sp_inactive_sessions p + 1,
             sp_inactive := (sp_inactive p)(se_id s \<mapsto> r), sp_active_sessions := sp_active_sessions p - 1\<rparr>))
     | None \<Rightarrow> (None, store, p))"

section \<open>Packet identifiers and acknowledgements\<close>

text \<open>Identifiers are never 0: after 65535 comes 1.\<close>

lemma Session_next_packet_id_nonzero:
  "Session_next_packet_id s = (pid, s') \<Longrightarrow> se_next_packet_id s \<noteq> 0 \<Longrightarrow> pid \<noteq> 0 \<and> se_next_packet_id s' \<noteq> 0"
  by (auto simp: Session_next_packet_id_def Let_def split: if_splits)

lemma u16_succ: "unat (p + 1 :: u16) = (if unat p = 65535 then 0 else unat p + 1)"
  using unat_u16_less [of p] by (auto simp: unat_word_ariths)

text \<open>The identifiers run through 1, ..., 65535 in a circle.\<close>

lemma Session_next_packet_id_cycle:
  assumes "se_next_packet_id s \<noteq> 0"
  shows "unat (se_next_packet_id (snd (Session_next_packet_id s))) = unat (se_next_packet_id s) mod 65535 + 1"
proof -
  have b: "0 < unat (se_next_packet_id s)" "unat (se_next_packet_id s) < 65536"
    using assms unat_u16_less by (auto simp: unat_gt_0)
  show ?thesis
  proof (cases "unat (se_next_packet_id s) = 65535")
    case True
    then have "se_next_packet_id s + 1 = 0" by (metis u16_succ unat_eq_zero)
    with True show ?thesis by (simp add: Session_next_packet_id_def Let_def)
  next
    case False
    then have "unat (se_next_packet_id s + 1) = unat (se_next_packet_id s) + 1" by (simp add: u16_succ)
    moreover from this have "se_next_packet_id s + 1 \<noteq> 0" by (metis add_is_0 one_neq_zero unat_0)
    ultimately show ?thesis using False b by (simp add: Session_next_packet_id_def Let_def)
  qed
qed

lemma Session_track_then_acknowledge:
  "Session_acknowledge pid (Session_track_qos_publish pid publish s) =
    (True, s\<lparr>se_pending_ack := AList.delete pid (se_pending_ack s)\<rparr>)"
  by (simp add: Session_acknowledge_def Session_track_qos_publish_def AList.update_conv' delete_update_same)

section \<open>Pool invariant\<close>

text \<open>
  The counters count, no session is both active and inactive, and every entry refers to a session of
  that name in the store whose \<open>connected\<close> flag says in which map it is.
\<close>

definition pool_inv :: "Session list \<Rightarrow> SessionPool \<Rightarrow> bool" where
  "pool_inv store p \<longleftrightarrow> finite (dom (sp_active p)) \<and> finite (dom (sp_inactive p)) \<and>
    sp_active_sessions p = of_nat (card (dom (sp_active p))) \<and>
    sp_inactive_sessions p = of_nat (card (dom (sp_inactive p))) \<and>
    dom (sp_active p) \<inter> dom (sp_inactive p) = {} \<and>
    (\<forall>sid r. sp_active p sid = Some r \<longrightarrow> r < length store \<and> se_id (store ! r) = sid \<and> se_connected (store ! r)) \<and>
    (\<forall>sid r. sp_inactive p sid = Some r \<longrightarrow> r < length store \<and> se_id (store ! r) = sid \<and> \<not> se_connected (store ! r))"

lemma pool_invI:
  assumes "finite (dom (sp_active p))" "finite (dom (sp_inactive p))"
    "sp_active_sessions p = of_nat (card (dom (sp_active p)))"
    "sp_inactive_sessions p = of_nat (card (dom (sp_inactive p)))"
    "dom (sp_active p) \<inter> dom (sp_inactive p) = {}"
    "\<And>sid r. sp_active p sid = Some r \<Longrightarrow> r < length store \<and> se_id (store ! r) = sid \<and> se_connected (store ! r)"
    "\<And>sid r. sp_inactive p sid = Some r \<Longrightarrow> r < length store \<and> se_id (store ! r) = sid \<and> \<not> se_connected (store ! r)"
  shows "pool_inv store p"
  using assms unfolding pool_inv_def by blast

lemma pool_invD:
  assumes "pool_inv store p"
  shows "finite (dom (sp_active p))" "finite (dom (sp_inactive p))"
    "sp_active_sessions p = of_nat (card (dom (sp_active p)))"
    "sp_inactive_sessions p = of_nat (card (dom (sp_inactive p)))"
    "dom (sp_active p) \<inter> dom (sp_inactive p) = {}"
    "sp_active p sid = Some r \<Longrightarrow> r < length store \<and> se_id (store ! r) = sid \<and> se_connected (store ! r)"
    "sp_inactive p sid = Some r \<Longrightarrow> r < length store \<and> se_id (store ! r) = sid \<and> \<not> se_connected (store ! r)"
  using assms unfolding pool_inv_def by blast+

lemma card_dom_upd: "finite (dom m) \<Longrightarrow> m k = None \<Longrightarrow> card (insert k (dom m)) = Suc (card (dom m))"
  by (simp add: domIff)

lemma card_dom_del: "finite (dom m) \<Longrightarrow> m k = Some v \<Longrightarrow> Suc (card (dom m - {k})) = card (dom m)"
  by (metis card_Suc_Diff1 domI)

lemma count_dom_del:
  "finite (dom m) \<Longrightarrow> m k = Some v \<Longrightarrow> of_nat (card (dom m)) - 1 = (of_nat (card (dom m - {k})) :: u32)"
  by (simp add: card_dom_del [symmetric])

text \<open>
  A store that keeps the names and the \<open>connected\<close> flags of the sessions it had: what the operations on
  single sessions do, except those of the pool itself.
\<close>

definition store_keeps :: "Session list \<Rightarrow> Session list \<Rightarrow> bool" where
  "store_keeps store store' \<longleftrightarrow> length store \<le> length store' \<and> (\<forall>r < length store.
    se_id (store' ! r) = se_id (store ! r) \<and> se_connected (store' ! r) = se_connected (store ! r))"

lemma store_keeps_refl [simp]: "store_keeps store store"
  by (simp add: store_keeps_def)

lemma store_keeps_trans: "store_keeps a b \<Longrightarrow> store_keeps b c \<Longrightarrow> store_keeps a c"
  by (auto simp: store_keeps_def)

lemma store_keeps_append: "store_keeps store (store @ [s])"
  by (simp add: store_keeps_def nth_append)

lemma store_keeps_upd:
  "se_id s = se_id (store ! r) \<Longrightarrow> se_connected s = se_connected (store ! r) \<Longrightarrow> store_keeps store (store[r := s])"
  by (cases "r < length store") (auto simp: store_keeps_def nth_list_update)

lemma pool_inv_store:
  assumes "pool_inv store p" and "store_keeps store store'"
  shows "pool_inv store' p"
proof -
  note d = pool_invD [OF assms(1)]
  have old: "r < length store \<Longrightarrow> r < length store' \<and> se_id (store' ! r) = se_id (store ! r) \<and>
      se_connected (store' ! r) = se_connected (store ! r)" for r
    using assms(2) by (simp add: store_keeps_def)
  show ?thesis
  proof (rule pool_invI)
    show "r < length store' \<and> se_id (store' ! r) = sid \<and> se_connected (store' ! r)" if "sp_active p sid = Some r" for sid r
      using d(6) [OF that] old [of r] by simp
    show "r < length store' \<and> se_id (store' ! r) = sid \<and> \<not> se_connected (store' ! r)" if "sp_inactive p sid = Some r" for sid r
      using d(7) [OF that] old [of r] by simp
  qed (rule d)+
qed

lemma pool_inv_new: "pool_inv store (SessionPool_new_with_config config)"
  by (simp add: pool_inv_def SessionPool_new_with_config_def SessionPool_new_with_expiry_def)

lemma pool_inv_add:
  assumes inv: "pool_inv store p" and r: "r < length store" and id: "se_id (store ! r) = sid"
    and fresh: "sp_active p sid = None" "sp_inactive p sid = None"
  shows "pool_inv store (SessionPool_add store r p)"
proof -
  note d = pool_invD [OF inv]
  show ?thesis
    by (rule pool_invI)
      (use d r id fresh in \<open>auto simp: SessionPool_add_def Let_def card_dom_upd split: if_splits\<close>)
qed

lemma pool_inv_remove:
  assumes inv: "pool_inv store p"
  shows "pool_inv store (snd (SessionPool_remove sid p))"
    and "sp_active (snd (SessionPool_remove sid p)) sid = None" "sp_inactive (snd (SessionPool_remove sid p)) sid = None"
proof -
  note d = pool_invD [OF inv]
  show "pool_inv store (snd (SessionPool_remove sid p))"
    by (rule pool_invI)
      (use d in \<open>auto simp: SessionPool_remove_def count_dom_del split: option.splits if_splits\<close>)
  show "sp_active (snd (SessionPool_remove sid p)) sid = None"
    by (simp add: SessionPool_remove_def split: option.splits)
  show "sp_inactive (snd (SessionPool_remove sid p)) sid = None"
    using d(5) by (auto simp: SessionPool_remove_def split: option.splits)
qed

lemma pool_inv_remove_active: "pool_inv store p \<Longrightarrow> pool_inv store (snd (SessionPool_remove_active sid p))"
  using pool_inv_remove(1) [of store p sid]
  by (cases "sp_active p sid") (simp_all add: SessionPool_remove_active_def SessionPool_remove_def)

lemma pool_inv_activate:
  assumes inv: "pool_inv store p" and act: "SessionPool_activate now sid store p = (r, store', p')"
  shows "pool_inv store' p'"
proof (cases "sp_inactive p sid")
  case None
  with act inv show ?thesis by (simp add: SessionPool_activate_def)
next
  case (Some k)
  note d = pool_invD [OF inv] and k = pool_invD(7) [OF inv Some]
  have na: "sp_active p sid = None" using d(5) Some by (auto simp: dom_def)
  let ?s = "Session_set_last_active now (Session_set_connected True (store ! k))"
  have e: "se_id ?s = sid" "se_connected ?s" using k by (simp_all add: Session_set_last_active_def Session_set_connected_def)
  have s': "store' = store[k := ?s]" and p': "p' = p\<lparr>sp_inactive := (sp_inactive p)(sid := None),
      sp_active_sessions := sp_active_sessions p + 1, sp_active := (sp_active p)(sid \<mapsto> k),
      sp_inactive_sessions := sp_inactive_sessions p - 1\<rparr>"
    using act Some e by (auto simp add: SessionPool_activate_def Let_def)
  show ?thesis
  proof (rule pool_invI)
    show "i < length store' \<and> se_id (store' ! i) = u \<and> se_connected (store' ! i)" if "sp_active p' u = Some i" for u i
      using that d(6) [of u i] k e by (auto simp: s' p' nth_list_update split: if_splits)
    show "i < length store' \<and> se_id (store' ! i) = u \<and> \<not> se_connected (store' ! i)" if "sp_inactive p' u = Some i" for u i
      using that d(7) [of u i] k e by (auto simp: s' p' nth_list_update split: if_splits)
    show "sp_inactive_sessions p' = of_nat (card (dom (sp_inactive p')))"
      using d(4) count_dom_del [OF d(2) Some] by (simp add: p')
  qed (use d na in \<open>auto simp: p' card_dom_upd\<close>)
qed

lemma pool_inv_deactivate:
  assumes inv: "pool_inv store p" and act: "SessionPool_deactivate sid store p = (r, store', p')"
  shows "pool_inv store' p'"
proof (cases "sp_active p sid")
  case None
  with act inv show ?thesis by (simp add: SessionPool_deactivate_def)
next
  case (Some k)
  note d = pool_invD [OF inv] and k = pool_invD(6) [OF inv Some]
  have na: "sp_inactive p sid = None" using d(5) Some by (auto simp: dom_def)
  let ?s = "Session_set_connected False (store ! k)"
  have e: "se_id ?s = sid" "\<not> se_connected ?s" using k by (simp_all add: Session_set_connected_def)
  have s': "store' = store[k := ?s]" and p': "p' = p\<lparr>sp_active := (sp_active p)(sid := None),
      sp_inactive_sessions := sp_inactive_sessions p + 1, sp_inactive := (sp_inactive p)(sid \<mapsto> k),
      sp_active_sessions := sp_active_sessions p - 1\<rparr>"
    using act Some e by (auto simp add: SessionPool_deactivate_def Let_def)
  show ?thesis
  proof (rule pool_invI)
    show "i < length store' \<and> se_id (store' ! i) = u \<and> se_connected (store' ! i)" if "sp_active p' u = Some i" for u i
      using that d(6) [of u i] k e by (auto simp: s' p' nth_list_update split: if_splits)
    show "i < length store' \<and> se_id (store' ! i) = u \<and> \<not> se_connected (store' ! i)" if "sp_inactive p' u = Some i" for u i
      using that d(7) [of u i] k e by (auto simp: s' p' nth_list_update split: if_splits)
    show "sp_active_sessions p' = of_nat (card (dom (sp_active p')))"
      using d(3) count_dom_del [OF d(1) Some] by (simp add: p')
  qed (use d na in \<open>auto simp: p' card_dom_upd\<close>)
qed

section \<open>The number of active sessions\<close>

definition active_count :: "SessionPool \<Rightarrow> nat" where
  "active_count p = card (dom (sp_active p))"

lemma active_count_add:
  "pool_inv store p \<Longrightarrow> active_count (SessionPool_add store r p) \<le> Suc (active_count p)"
  using card_insert_le_m1 by (auto simp: active_count_def SessionPool_add_def Let_def pool_invD(1) card_insert_if)

lemma active_count_remove:
  assumes "pool_inv store p"
  shows "active_count (snd (SessionPool_remove sid p)) = (if sp_active p sid = None then active_count p else active_count p - 1)"
proof (cases "sp_active p sid")
  case None
  then show ?thesis by (simp add: active_count_def SessionPool_remove_def split: option.splits)
next
  case (Some k)
  with card_dom_del [OF pool_invD(1) [OF assms] Some] show ?thesis
    by (simp add: active_count_def SessionPool_remove_def)
qed

lemma active_count_activate:
  assumes "pool_inv store p" and "SessionPool_activate now sid store p = (r, store', p')"
  shows "active_count p' = (if r = None then active_count p else Suc (active_count p))"
proof (cases "sp_inactive p sid")
  case (Some k)
  have "sp_active p sid = None" using pool_invD(5) [OF assms(1)] Some by (auto simp: dom_def)
  with assms Some pool_invD(1) [OF assms(1)] pool_invD(7) [OF assms(1) Some] show ?thesis
    by (auto simp: SessionPool_activate_def Let_def active_count_def Session_set_last_active_def Session_set_connected_def
        card_insert_if domIff)
qed (use assms in \<open>simp add: SessionPool_activate_def\<close>)

lemma active_count_deactivate:
  assumes "pool_inv store p" and "SessionPool_deactivate sid store p = (r, store', p')"
  shows "active_count p' \<le> active_count p"
  using assms pool_invD(1) [OF assms(1)]
  by (auto simp: SessionPool_deactivate_def Let_def active_count_def intro: card_Diff1_le split: option.splits)

lemma at_capacity_count:
  assumes "pool_inv store p" and "active_count p < 2 ^ 32"
  shows "SessionPool_at_capacity p (Some limit) \<longleftrightarrow> unat limit \<le> active_count p"
  using assms pool_invD(3) [OF assms(1)]
  by (simp add: SessionPool_at_capacity_def word_le_nat_alt unat_of_nat active_count_def)

end
