(* ===== verification/Topic_Tree.thy ===== *)
theory Topic_Tree
  imports Codec_Basics
begin

text \<open>
  The subscription tree of the broker (\<open>vaux-broker/src/topic.rs\<close>): topic filters are paths in a vector
  of nodes linked by index. The hash map of children is a map from segments to node indices. An index
  out of range panics, and the invariant excludes it. Indices are naturals: the \<open>u32\<close> of the source
  wraps only beyond \<open>2^32\<close> nodes.
\<close>

record Subscriber =
  sb_session_id :: string
  sb_qos :: QoSLevel
  sb_no_local :: bool

record TopicNode =
  tn_parent :: nat
  tn_segment :: string
  tn_children :: "string \<rightharpoonup> nat"
  tn_subscribers :: "Subscriber list"
  tn_wildcard_subscribers :: "Subscriber list"

type_synonym TopicTree = "TopicNode list"

definition ROOT_NODE :: nat where
  "ROOT_NODE = 0"

definition TopicNode_new :: "nat \<Rightarrow> string \<Rightarrow> TopicNode" where
  "TopicNode_new parent segment =
    \<lparr>tn_parent = parent, tn_segment = segment, tn_children = Map.empty, tn_subscribers = [],
     tn_wildcard_subscribers = []\<rparr>"

definition TopicTree_new :: TopicTree where
  "TopicTree_new = [TopicNode_new 0 []]"

text \<open>\<open>str::split('/')\<close>: at least one segment, possibly empty.\<close>

fun split_topic :: "string \<Rightarrow> string list" where
  "split_topic [] = [[]]"
| "split_topic (c # cs) =
    (if c = CHR ''/'' then [] # split_topic cs
     else (case split_topic cs of s # ss \<Rightarrow> (c # s) # ss | [] \<Rightarrow> [[c]]))"

abbreviation HASH :: string where "HASH \<equiv> ''#''"
abbreviation PLUS :: string where "PLUS \<equiv> ''+''"

section \<open>Operations\<close>

text \<open>The loop of \<open>ensure_path\<close> from node \<open>current\<close>.\<close>

fun ensure_path :: "TopicTree \<Rightarrow> nat \<Rightarrow> string list \<Rightarrow> ('e, TopicTree \<times> nat) res" where
  "ensure_path nodes current [] = Ok (nodes, current)"
| "ensure_path nodes current (segment # segments) =
    (if length nodes \<le> current then Panic
     else
       (case tn_children (nodes ! current) segment of
          Some child_idx \<Rightarrow> ensure_path nodes child_idx segments
        | None \<Rightarrow>
            (let new_idx = length nodes;
                 nodes = nodes @ [TopicNode_new current segment];
                 parent = nodes ! current;
                 nodes = nodes[current := parent\<lparr>tn_children := (tn_children parent)(segment \<mapsto> new_idx)\<rparr>]
             in ensure_path nodes new_idx segments)))"

fun find_path :: "TopicTree \<Rightarrow> nat \<Rightarrow> string list \<Rightarrow> ('e, nat option) res" where
  "find_path nodes current [] = Ok (Some current)"
| "find_path nodes current (segment # segments) =
    (if length nodes \<le> current then Panic
     else
       (case tn_children (nodes ! current) segment of
          Some child_idx \<Rightarrow> find_path nodes child_idx segments
        | None \<Rightarrow> Ok None))"

text \<open>\<open>iter_mut().find(..)\<close> and the update of the entry found, or \<open>push\<close>.\<close>

fun upsert :: "Subscriber list \<Rightarrow> Subscriber \<Rightarrow> Subscriber list" where
  "upsert [] subscriber = [subscriber]"
| "upsert (s # list) subscriber =
    (if sb_session_id s = sb_session_id subscriber
     then s\<lparr>sb_qos := sb_qos subscriber, sb_no_local := sb_no_local subscriber\<rparr> # list
     else s # upsert list subscriber)"

text \<open>The list of a node that a filter with this last segment uses, updated by \<open>f\<close>.\<close>

definition update_list :: "(Subscriber list \<Rightarrow> Subscriber list) \<Rightarrow> string \<Rightarrow> TopicNode \<Rightarrow> TopicNode" where
  "update_list f last_segment node =
    (if last_segment = HASH then node\<lparr>tn_wildcard_subscribers := f (tn_wildcard_subscribers node)\<rparr>
     else node\<lparr>tn_subscribers := f (tn_subscribers node)\<rparr>)"

definition node_list :: "string \<Rightarrow> TopicNode \<Rightarrow> Subscriber list" where
  "node_list last_segment node =
    (if last_segment = HASH then tn_wildcard_subscribers node else tn_subscribers node)"

definition subscribe :: "TopicTree \<Rightarrow> string \<Rightarrow> string \<Rightarrow> QoSLevel \<Rightarrow> bool \<Rightarrow> ('e, TopicTree) res" where
  "subscribe nodes filt session_id qos no_local =
    (let segments = split_topic filt in
     bind (ensure_path nodes ROOT_NODE segments) (\<lambda>(nodes, node_idx).
       let subscriber = \<lparr>sb_session_id = session_id, sb_qos = qos, sb_no_local = no_local\<rparr> in
       if length nodes \<le> node_idx then Panic
       else Ok (nodes[node_idx := update_list (\<lambda>list. upsert list subscriber) (last segments) (nodes ! node_idx)])))"

definition unsubscribe :: "TopicTree \<Rightarrow> string \<Rightarrow> string \<Rightarrow> ('e, TopicTree \<times> bool) res" where
  "unsubscribe nodes filt session_id =
    (let segments = split_topic filt in
     bind (find_path nodes ROOT_NODE segments) (\<lambda>found.
       case found of
         None \<Rightarrow> Ok (nodes, False)
       | Some node_idx \<Rightarrow>
           if length nodes \<le> node_idx then Panic
           else
             (let list = node_list (last segments) (nodes ! node_idx);
                  retained = filter (\<lambda>s. sb_session_id s \<noteq> session_id) list
              in Ok (nodes[node_idx := update_list (\<lambda>_. retained) (last segments) (nodes ! node_idx)],
                     length retained < length list))))"

definition unsubscribe_all :: "TopicTree \<Rightarrow> string \<Rightarrow> TopicTree" where
  "unsubscribe_all nodes session_id =
    map (\<lambda>node. node\<lparr>tn_subscribers := filter (\<lambda>s. sb_session_id s \<noteq> session_id) (tn_subscribers node),
                    tn_wildcard_subscribers := filter (\<lambda>s. sb_session_id s \<noteq> session_id) (tn_wildcard_subscribers node)\<rparr>) nodes"

text \<open>The wildcard subscribers of the \<open>#\<close> child, if there is one.\<close>

definition hash_child :: "TopicTree \<Rightarrow> TopicNode \<Rightarrow> Subscriber list \<Rightarrow> ('e, Subscriber list) res" where
  "hash_child nodes node results =
    (case tn_children node HASH of
       Some hash_idx \<Rightarrow>
         if length nodes \<le> hash_idx then Panic
         else Ok (results @ tn_wildcard_subscribers (nodes ! hash_idx))
     | None \<Rightarrow> Ok results)"

function collect_matches ::
    "TopicTree \<Rightarrow> nat \<Rightarrow> string list \<Rightarrow> nat \<Rightarrow> Subscriber list \<Rightarrow> ('e, Subscriber list) res" where
  "collect_matches nodes node_idx segments depth results =
    (if length nodes \<le> node_idx then Panic
     else
       (let node = nodes ! node_idx; results = results @ tn_wildcard_subscribers node in
        if length segments \<le> depth then hash_child nodes node (results @ tn_subscribers node)
        else
          bind (case tn_children node (segments ! depth) of
                  Some child_idx \<Rightarrow> collect_matches nodes child_idx segments (depth + 1) results
                | None \<Rightarrow> Ok results) (\<lambda>results.
          bind (case tn_children node PLUS of
                  Some plus_idx \<Rightarrow> collect_matches nodes plus_idx segments (depth + 1) results
                | None \<Rightarrow> Ok results) (\<lambda>results.
            hash_child nodes node results))))"
  by pat_completeness auto
termination
  by (relation "measure (\<lambda>(nodes, node_idx, segments, depth, results). length segments - depth)") auto

declare collect_matches.simps [simp del]

definition matching_subscribers :: "TopicTree \<Rightarrow> string \<Rightarrow> ('e, Subscriber list) res" where
  "matching_subscribers nodes topic = collect_matches nodes ROOT_NODE (split_topic topic) 0 []"

definition node_count :: "TopicTree \<Rightarrow> nat" where
  "node_count nodes = length nodes"

section \<open>Specification\<close>

text \<open>
  What the tree stands for: the subscribers registered under each filter path. \<open>walk\<close> follows a path
  from a node; \<open>matches\<close> is the relation between filters and topics that the code implements. It has no rule
  for topics that begin with \<open>$\<close>, as \<open>collect_matches\<close> has none: MQTT 5 (4.7.2) wants filters that begin
  with a wildcard not to match them.
\<close>

fun walk :: "TopicTree \<Rightarrow> nat \<Rightarrow> string list \<Rightarrow> nat option" where
  "walk nodes i [] = Some i"
| "walk nodes i (s # ss) = (case tn_children (nodes ! i) s of Some c \<Rightarrow> walk nodes c ss | None \<Rightarrow> None)"

fun matches :: "string list \<Rightarrow> string list \<Rightarrow> bool" where
  "matches [] [] = True"
| "matches [] (t # ts) = False"
| "matches (f # fs) [] = (f = HASH \<and> fs = [])"
| "matches (f # fs) (t # ts) = (f = HASH \<and> fs = [] \<or> (f = t \<or> f = PLUS) \<and> matches fs ts)"

lemma hash_matches: "matches [HASH] ts"
  by (cases ts) simp_all

definition node_subs :: "TopicNode \<Rightarrow> Subscriber list" where
  "node_subs node = node_list (tn_segment node) node"

definition subs_at :: "TopicTree \<Rightarrow> string list \<Rightarrow> Subscriber list" where
  "subs_at nodes f = (case walk nodes ROOT_NODE f of Some i \<Rightarrow> node_subs (nodes ! i) | None \<Rightarrow> [])"

text \<open>Only \<open>#\<close> nodes have wildcard subscribers, only the others have plain ones; ids are distinct.\<close>

definition wf_node :: "TopicNode \<Rightarrow> bool" where
  "wf_node node \<longleftrightarrow> (if tn_segment node = HASH then tn_subscribers node = [] else tn_wildcard_subscribers node = []) \<and>
    distinct (map sb_session_id (node_subs node))"

definition wf_links :: "TopicTree \<Rightarrow> bool" where
  "wf_links nodes \<longleftrightarrow> (\<forall>j < length nodes. \<forall>s i. tn_children (nodes ! j) s = Some i \<longrightarrow>
    j < i \<and> i < length nodes \<and> tn_parent (nodes ! i) = j \<and> tn_segment (nodes ! i) = s)"

definition tree_inv :: "TopicTree \<Rightarrow> bool" where
  "tree_inv nodes \<longleftrightarrow> nodes \<noteq> [] \<and> tn_segment (nodes ! 0) = [] \<and> node_subs (nodes ! 0) = [] \<and> wf_links nodes \<and>
    (\<forall>node \<in> set nodes. wf_node node)"

section \<open>Paths\<close>

lemma split_topic_not_Nil [simp]: "split_topic t \<noteq> []"
  by (cases t) (auto split: list.splits)

lemma wf_linksD:
  assumes "wf_links nodes" and "j < length nodes" and "tn_children (nodes ! j) s = Some i"
  shows "j < i" "i < length nodes" "tn_parent (nodes ! i) = j" "tn_segment (nodes ! i) = s"
  using assms unfolding wf_links_def by blast+

lemma walk_bound:
  assumes "wf_links nodes" and "i < length nodes" and "walk nodes i f = Some k"
  shows "k < length nodes \<and> i + length f \<le> k \<and> (f \<noteq> [] \<longrightarrow> tn_segment (nodes ! k) = last f)"
  using assms(2,3)
proof (induction f arbitrary: i)
  case (Cons s f)
  then obtain c where c: "tn_children (nodes ! i) s = Some c" and w: "walk nodes c f = Some k"
    by (auto split: option.splits)
  note l = wf_linksD [OF assms(1) Cons.prems(1) c]
  from Cons.IH [OF l(2) w] l w show ?case by auto
qed simp

lemma walk_append:
  "walk nodes i (f @ g) = (case walk nodes i f of Some j \<Rightarrow> walk nodes j g | None \<Rightarrow> None)"
  by (induction f arbitrary: i) (auto split: option.splits)

lemma walk_snoc:
  assumes "wf_links nodes" and "i < length nodes" and "walk nodes i (f @ [s]) = Some k"
  shows "walk nodes i f = Some (tn_parent (nodes ! k)) \<and> tn_segment (nodes ! k) = s \<and> i < k"
proof -
  from assms(3) obtain j where j: "walk nodes i f = Some j" and c: "tn_children (nodes ! j) s = Some k"
    by (auto simp: walk_append split: option.splits)
  have b: "j < length nodes \<and> i + length f \<le> j" using walk_bound [OF assms(1,2) j] by simp
  with wf_linksD [OF assms(1) _ c] j show ?thesis by auto
qed

text \<open>A node is reached by one path only.\<close>

lemma walk_inj:
  assumes "wf_links nodes" and "i < length nodes"
  shows "walk nodes i f = Some k \<Longrightarrow> walk nodes i g = Some k \<Longrightarrow> f = g"
proof (induction f arbitrary: g k rule: rev_induct)
  case Nil
  then show ?case
    using walk_snoc [OF assms, of "butlast g" "last g" k] by (cases "g = []") (auto simp: append_butlast_last_id)
next
  case (snoc s f)
  note f = walk_snoc [OF assms snoc.prems(1)]
  then have "g \<noteq> []" using snoc.prems(2) by auto
  then have g: "walk nodes i (butlast g @ [last g]) = Some k" using snoc.prems(2) by simp
  from snoc.IH [of _ "butlast g"] f walk_snoc [OF assms g] \<open>g \<noteq> []\<close> show ?case
    by (metis append_butlast_last_id)
qed

lemma find_path_walk:
  "wf_links nodes \<Longrightarrow> i < length nodes \<Longrightarrow> find_path nodes i f = Ok (walk nodes i f)"
  by (induction nodes i f rule: find_path.induct) (auto split: option.splits dest: wf_linksD)

section \<open>Growing the tree\<close>

text \<open>
  \<open>extends nodes nodes'\<close>: the old nodes keep their data and their children, a new child of an old node is a
  new node, and new nodes have no subscribers.
\<close>

definition extends :: "TopicTree \<Rightarrow> TopicTree \<Rightarrow> bool" where
  "extends nodes nodes' \<longleftrightarrow> length nodes \<le> length nodes' \<and>
    (\<forall>j < length nodes. tn_parent (nodes' ! j) = tn_parent (nodes ! j) \<and> tn_segment (nodes' ! j) = tn_segment (nodes ! j) \<and>
      tn_subscribers (nodes' ! j) = tn_subscribers (nodes ! j) \<and>
      tn_wildcard_subscribers (nodes' ! j) = tn_wildcard_subscribers (nodes ! j) \<and>
      (\<forall>s c. tn_children (nodes ! j) s = Some c \<longrightarrow> tn_children (nodes' ! j) s = Some c) \<and>
      (\<forall>s c. tn_children (nodes ! j) s = None \<longrightarrow> tn_children (nodes' ! j) s = Some c \<longrightarrow> length nodes \<le> c)) \<and>
    (\<forall>j. length nodes \<le> j \<and> j < length nodes' \<longrightarrow>
      tn_subscribers (nodes' ! j) = [] \<and> tn_wildcard_subscribers (nodes' ! j) = [])"

lemma extends_length: "extends nodes nodes' \<Longrightarrow> length nodes \<le> length nodes'"
  by (simp add: extends_def)

lemma extends_old:
  assumes "extends nodes nodes'" and "j < length nodes"
  shows "tn_parent (nodes' ! j) = tn_parent (nodes ! j)" "tn_segment (nodes' ! j) = tn_segment (nodes ! j)"
    "tn_subscribers (nodes' ! j) = tn_subscribers (nodes ! j)"
    "tn_wildcard_subscribers (nodes' ! j) = tn_wildcard_subscribers (nodes ! j)"
    "tn_children (nodes ! j) s = Some c \<Longrightarrow> tn_children (nodes' ! j) s = Some c"
    "tn_children (nodes ! j) s = None \<Longrightarrow> tn_children (nodes' ! j) s = Some d \<Longrightarrow> length nodes \<le> d"
  using assms unfolding extends_def by blast+

lemma extends_new:
  "extends nodes nodes' \<Longrightarrow> length nodes \<le> j \<Longrightarrow> j < length nodes' \<Longrightarrow>
    tn_subscribers (nodes' ! j) = [] \<and> tn_wildcard_subscribers (nodes' ! j) = []"
  by (simp add: extends_def)

lemma extends_refl: "extends nodes nodes"
  by (auto simp: extends_def split: option.splits)

lemma extends_trans:
  assumes "extends a b" and "extends b c"
  shows "extends a c"
  unfolding extends_def
proof (intro conjI allI impI)
  show "length a \<le> length c" using assms by (meson extends_length le_trans)
next
  fix j assume j: "j < length a"
  then have j': "j < length b" using extends_length [OF assms(1)] by simp
  show "tn_parent (c ! j) = tn_parent (a ! j)" "tn_segment (c ! j) = tn_segment (a ! j)"
    "tn_subscribers (c ! j) = tn_subscribers (a ! j)" "tn_wildcard_subscribers (c ! j) = tn_wildcard_subscribers (a ! j)"
    using extends_old [OF assms(1) j] extends_old [OF assms(2) j'] by simp_all
  fix s d
  show "tn_children (c ! j) s = Some d" if "tn_children (a ! j) s = Some d"
    using that extends_old(5) [OF assms(1) j] extends_old(5) [OF assms(2) j'] by blast
  show "length a \<le> d" if none: "tn_children (a ! j) s = None" and d: "tn_children (c ! j) s = Some d"
  proof (cases "tn_children (b ! j) s")
    case None
    then show ?thesis using extends_old(6) [OF assms(2) j' None d] extends_length [OF assms(1)] by simp
  next
    case (Some e)
    then show ?thesis
      using extends_old(5) [OF assms(2) j' Some] extends_old(6) [OF assms(1) j none Some] d by simp
  qed
next
  fix j assume j: "length a \<le> j \<and> j < length c"
  show "tn_subscribers (c ! j) = []" "tn_wildcard_subscribers (c ! j) = []"
    using j extends_new [OF assms(1), of j] extends_new [OF assms(2), of j] extends_old(3,4) [OF assms(2), of j]
    by (cases "j < length b"; simp)+
qed

text \<open>One turn of \<open>ensure_path\<close> that adds a node.\<close>

definition push_child :: "TopicTree \<Rightarrow> nat \<Rightarrow> string \<Rightarrow> TopicTree" where
  "push_child nodes i s =
    (nodes @ [TopicNode_new i s])[i := (nodes ! i)\<lparr>tn_children := (tn_children (nodes ! i))(s \<mapsto> length nodes)\<rparr>]"

lemma push_child_nth:
  "i < length nodes \<Longrightarrow> push_child nodes i s ! i = (nodes ! i)\<lparr>tn_children := (tn_children (nodes ! i))(s \<mapsto> length nodes)\<rparr>"
  "j < length nodes \<Longrightarrow> j \<noteq> i \<Longrightarrow> push_child nodes i s ! j = nodes ! j"
  "i < length nodes \<Longrightarrow> push_child nodes i s ! length nodes = TopicNode_new i s"
  "length (push_child nodes i s) = Suc (length nodes)"
  by (simp_all add: push_child_def nth_append)

lemma push_child_links:
  assumes wf: "wf_links nodes" and i: "i < length nodes"
  shows "wf_links (push_child nodes i s)"
  unfolding wf_links_def
proof (intro allI impI)
  fix j u c
  assume "j < length (push_child nodes i s)" and c: "tn_children (push_child nodes i s ! j) u = Some c"
  then consider "j = length nodes" | "j = i" | "j < length nodes" "j \<noteq> i"
    by (auto simp: push_child_nth less_Suc_eq)
  then show "j < c \<and> c < length (push_child nodes i s) \<and> tn_parent (push_child nodes i s ! c) = j \<and>
      tn_segment (push_child nodes i s ! c) = u"
  proof cases
    case 1
    with c i show ?thesis by (simp add: push_child_nth TopicNode_new_def)
  next
    case 2
    show ?thesis
    proof (cases "u = s")
      case True
      with c 2 i have "c = length nodes" by (simp add: push_child_nth)
      with True 2 i show ?thesis by (simp add: push_child_nth(3,4) TopicNode_new_def)
    next
      case False
      with c 2 i have "tn_children (nodes ! i) u = Some c" by (simp add: push_child_nth)
      note l = wf_linksD [OF wf i this]
      with 2 i show ?thesis by (simp add: push_child_nth)
    qed
  next
    case 3
    with c have "tn_children (nodes ! j) u = Some c" by (simp add: push_child_nth)
    note l = wf_linksD [OF wf 3(1) this]
    with i show ?thesis by (cases "c = i") (simp_all add: push_child_nth)
  qed
qed

lemma push_child_extends:
  assumes i: "i < length nodes" and none: "tn_children (nodes ! i) s = None"
  shows "extends nodes (push_child nodes i s)"
  unfolding extends_def
proof (intro conjI allI impI)
  fix j assume j: "j < length nodes"
  let ?n = "push_child nodes i s"
  show "tn_parent (?n ! j) = tn_parent (nodes ! j)" "tn_segment (?n ! j) = tn_segment (nodes ! j)"
    "tn_subscribers (?n ! j) = tn_subscribers (nodes ! j)"
    "tn_wildcard_subscribers (?n ! j) = tn_wildcard_subscribers (nodes ! j)"
    using i j by (cases "j = i"; simp add: push_child_nth)+
  fix u c
  show "tn_children (?n ! j) u = Some c" if "tn_children (nodes ! j) u = Some c"
    using i j none that by (cases "j = i") (auto simp: push_child_nth)
  show "length nodes \<le> c" if "tn_children (nodes ! j) u = None" and "tn_children (?n ! j) u = Some c"
    using i j that by (cases "j = i") (auto simp: push_child_nth split: if_splits)
qed (use i in \<open>auto simp: push_child_nth less_Suc_eq TopicNode_new_def\<close>)

lemma ensure_path_push:
  "i < length nodes \<Longrightarrow> tn_children (nodes ! i) s = None \<Longrightarrow>
    ensure_path nodes i (s # f) = ensure_path (push_child nodes i s) (length nodes) f"
  by (simp add: push_child_def Let_def nth_append)

lemma extends_walk_Some:
  assumes "extends nodes nodes'" and "wf_links nodes" and "i < length nodes" and "walk nodes i f = Some k"
  shows "walk nodes' i f = Some k"
  using assms(3,4)
proof (induction f arbitrary: i)
  case (Cons s f)
  then obtain c where c: "tn_children (nodes ! i) s = Some c" and w: "walk nodes c f = Some k"
    by (auto split: option.splits)
  from Cons.IH [OF wf_linksD(2) [OF assms(2) Cons.prems(1) c] w] extends_old(5) [OF assms(1) Cons.prems(1) c]
  show ?case by simp
qed simp

lemma extends_walk_None:
  assumes "extends nodes nodes'" and "wf_links nodes" and "wf_links nodes'" and "i < length nodes"
    and "walk nodes i f = None" and "walk nodes' i f = Some k"
  shows "length nodes \<le> k \<and> k < length nodes'"
  using assms(4-)
proof (induction f arbitrary: i)
  case (Cons s f)
  have i': "i < length nodes'" using Cons.prems(1) extends_length [OF assms(1)] by simp
  from Cons.prems(3) obtain d where d: "tn_children (nodes' ! i) s = Some d" and w: "walk nodes' d f = Some k"
    by (auto split: option.splits)
  show ?case
  proof (cases "tn_children (nodes ! i) s")
    case None
    have "length nodes \<le> d" by (rule extends_old(6) [OF assms(1) Cons.prems(1) None d])
    with walk_bound [OF assms(3) wf_linksD(2) [OF assms(3) i' d] w] show ?thesis by simp
  next
    case (Some c)
    with extends_old(5) [OF assms(1) Cons.prems(1) Some] d have "c = d" by simp
    with Cons.IH [OF wf_linksD(2) [OF assms(2) Cons.prems(1) Some]] Cons.prems(2) w Some show ?thesis by simp
  qed
qed simp

lemma ensure_path_ok:
  assumes "wf_links nodes" and "i < length nodes"
  shows "\<exists>nodes' k. ensure_path nodes i f = (Ok (nodes', k) :: ('e, TopicTree \<times> nat) res) \<and> wf_links nodes' \<and> extends nodes nodes' \<and>
    walk nodes' i f = Some k"
  using assms
proof (induction f arbitrary: nodes i)
  case Nil
  then show ?case by (simp add: extends_refl)
next
  case (Cons s f)
  show ?case
  proof (cases "tn_children (nodes ! i) s")
    case (Some c)
    from Cons.IH [OF Cons.prems(1) wf_linksD(2) [OF Cons.prems Some]] obtain nodes' k where
      r: "ensure_path nodes c f = (Ok (nodes', k) :: ('e, TopicTree \<times> nat) res)" "wf_links nodes'" "extends nodes nodes'" "walk nodes' c f = Some k"
      by blast
    then show ?thesis using Cons.prems(2) Some extends_old(5) [OF r(3) Cons.prems(2) Some] by simp
  next
    case None
    let ?p = "push_child nodes i s"
    have "wf_links ?p" by (rule push_child_links [OF Cons.prems])
    moreover have "length nodes < length ?p" by (simp add: push_child_nth)
    ultimately obtain nodes' k where
      r: "ensure_path ?p (length nodes) f = (Ok (nodes', k) :: ('e, TopicTree \<times> nat) res)" "wf_links nodes'" "extends ?p nodes'" "walk nodes' (length nodes) f = Some k"
      using Cons.IH by blast
    have e: "extends nodes nodes'" by (rule extends_trans [OF push_child_extends [OF Cons.prems(2) None] r(3)])
    have "tn_children (nodes' ! i) s = Some (length nodes)"
      by (rule extends_old(5) [OF r(3)]) (use Cons.prems(2) in \<open>simp_all add: push_child_nth\<close>)
    with r e show ?thesis by (simp only: ensure_path_push [OF Cons.prems(2) None]) simp
  qed
qed

lemma extends_subs_at:
  assumes e: "extends nodes nodes'" and wf: "wf_links nodes" "wf_links nodes'" and ne: "nodes \<noteq> []"
  shows "subs_at nodes' f = subs_at nodes f"
proof (cases "walk nodes ROOT_NODE f")
  case (Some k)
  have r: "ROOT_NODE < length nodes" using ne by (simp add: ROOT_NODE_def)
  have "k < length nodes" using walk_bound [OF wf(1) r Some] by simp
  then have "node_subs (nodes' ! k) = node_subs (nodes ! k)"
    using extends_old [OF e] by (simp add: node_subs_def node_list_def)
  with Some extends_walk_Some [OF e wf(1) r Some] show ?thesis by (simp add: subs_at_def)
next
  case None
  have r: "ROOT_NODE < length nodes" using ne by (simp add: ROOT_NODE_def)
  show ?thesis
  proof (cases "walk nodes' ROOT_NODE f")
    case (Some k)
    from extends_walk_None [OF e wf r None Some] extends_new [OF e, of k]
    have "node_subs (nodes' ! k) = []" by (simp add: node_subs_def node_list_def)
    with None Some show ?thesis by (simp add: subs_at_def)
  qed (simp add: None subs_at_def)
qed

lemma extends_inv:
  assumes e: "extends nodes nodes'" and wf: "wf_links nodes'" and inv: "tree_inv nodes"
  shows "tree_inv nodes'"
proof -
  have ne: "nodes' \<noteq> []" and z: "0 < length nodes" using inv extends_length [OF e] by (auto simp: tree_inv_def)
  have "wf_node (nodes' ! j)" if "j < length nodes'" for j
  proof (cases "j < length nodes")
    case True
    then have "wf_node (nodes ! j)" using inv by (simp add: tree_inv_def)
    then show ?thesis using extends_old(2-4) [OF e True] by (auto simp: wf_node_def node_subs_def node_list_def)
  next
    case False
    with that extends_new [OF e, of j] show ?thesis by (simp add: wf_node_def node_subs_def node_list_def)
  qed
  then show ?thesis
    using ne wf inv extends_old [OF e z] by (auto simp: tree_inv_def in_set_conv_nth node_subs_def node_list_def)
qed

section \<open>Changing the subscribers of one path\<close>

lemma walk_same_children:
  assumes "\<And>j. tn_children (nodes' ! j) = tn_children (nodes ! j)"
  shows "walk nodes' i f = walk nodes i f"
  by (induction f arbitrary: i) (auto simp: assms split: option.splits)

lemma update_list_simps [simp]:
  "tn_children (update_list g s node) = tn_children node" "tn_segment (update_list g s node) = tn_segment node"
  "tn_parent (update_list g s node) = tn_parent node"
  by (simp_all add: update_list_def)

lemma node_subs_update: "node_subs (update_list g (tn_segment node) node) = g (node_subs node)"
  by (simp add: node_subs_def node_list_def update_list_def)

lemma wf_node_update:
  "wf_node node \<Longrightarrow> distinct (map sb_session_id (g (node_subs node))) \<Longrightarrow> wf_node (update_list g (tn_segment node) node)"
  by (auto simp: wf_node_def node_subs_def node_list_def update_list_def)

text \<open>Updating the list of the node at path \<open>f\<close> changes the subscribers of \<open>f\<close> and of no other path.\<close>

lemma update_at_path:
  assumes inv: "tree_inv nodes" and w: "walk nodes ROOT_NODE f = Some k" and f: "f \<noteq> []"
    and d: "distinct (map sb_session_id (g (node_subs (nodes ! k))))"
  defines "nodes' \<equiv> nodes[k := update_list g (last f) (nodes ! k)]"
  shows "tree_inv nodes'" and "subs_at nodes' h = (if h = f then g (subs_at nodes f) else subs_at nodes h)"
proof -
  have wf: "wf_links nodes" and r: "ROOT_NODE < length nodes" using inv by (auto simp: tree_inv_def ROOT_NODE_def)
  have k: "k < length nodes" "0 < k" and seg: "tn_segment (nodes ! k) = last f"
    using walk_bound [OF wf r w] f by (auto simp: ROOT_NODE_def intro: order.strict_trans2 [of 0 "length f"])
  have nth: "nodes' ! j = (if j = k then update_list g (tn_segment (nodes ! k)) (nodes ! k) else nodes ! j)" for j
    using k by (cases "j = k") (simp_all add: nodes'_def seg)
  have len: "length nodes' = length nodes" by (simp add: nodes'_def)
  have ch: "tn_children (nodes' ! j) = tn_children (nodes ! j)" "tn_parent (nodes' ! j) = tn_parent (nodes ! j)"
    "tn_segment (nodes' ! j) = tn_segment (nodes ! j)" for j
    by (simp_all add: nth)
  have wk: "walk nodes' i h = walk nodes i h" for i h by (rule walk_same_children) (rule ch)
  have links: "wf_links nodes'" using wf unfolding wf_links_def len ch .
  have "wf_node (nodes' ! j)" if "j < length nodes" for j
    using that inv d by (auto simp: nth tree_inv_def intro!: wf_node_update)
  then show "tree_inv nodes'"
    using inv links k(2) len by (auto simp: tree_inv_def in_set_conv_nth ch nth)
  show "subs_at nodes' h = (if h = f then g (subs_at nodes f) else subs_at nodes h)"
  proof (cases "walk nodes ROOT_NODE h")
    case (Some j)
    have "j = k \<longleftrightarrow> h = f" using walk_inj [OF wf r Some, of f] w Some by auto
    with Some w show ?thesis by (auto simp: subs_at_def wk nth node_subs_update)
  qed (use w in \<open>auto simp: subs_at_def wk\<close>)
qed

section \<open>The operations against the specification\<close>

lemma upsert_ids: "set (map sb_session_id (upsert l x)) = insert (sb_session_id x) (set (map sb_session_id l))"
  by (induction l x rule: upsert.induct) auto

lemma upsert_mem: "x \<in> set (upsert l x)"
  by (induction l x rule: upsert.induct) auto

lemma upsert_others: "sb_session_id y \<noteq> sb_session_id x \<Longrightarrow> y \<in> set (upsert l x) \<longleftrightarrow> y \<in> set l"
  by (induction l x rule: upsert.induct) auto

lemma distinct_upsert: "distinct (map sb_session_id l) \<Longrightarrow> distinct (map sb_session_id (upsert l x))"
proof (induction l x rule: upsert.induct)
  case (2 s l x)
  then show ?case using upsert_ids [of l x] by auto
qed simp

lemma distinct_filter_ids: "distinct (map sb_session_id l) \<Longrightarrow> distinct (map sb_session_id (filter P l))"
  by (rule distinct_map_filter)

lemma tree_inv_links: "tree_inv nodes \<Longrightarrow> wf_links nodes \<and> ROOT_NODE < length nodes"
  by (simp add: tree_inv_def ROOT_NODE_def)

lemma subs_at_distinct:
  assumes "tree_inv nodes"
  shows "distinct (map sb_session_id (subs_at nodes f))"
proof (cases "walk nodes ROOT_NODE f")
  case (Some k)
  have "k < length nodes" using walk_bound [OF _ _ Some] tree_inv_links [OF assms] by simp
  then have "wf_node (nodes ! k)" using assms by (simp add: tree_inv_def)
  with Some show ?thesis by (simp add: subs_at_def wf_node_def)
qed (simp add: subs_at_def)

lemma tree_inv_new: "tree_inv TopicTree_new"
  by (auto simp: tree_inv_def TopicTree_new_def TopicNode_new_def wf_links_def wf_node_def node_subs_def node_list_def)

lemma subs_at_new: "subs_at TopicTree_new f = []"
  by (cases f) (auto simp: subs_at_def TopicTree_new_def TopicNode_new_def ROOT_NODE_def node_subs_def node_list_def)

lemma subscribe_spec:
  fixes session_id :: string and qos :: QoSLevel and no_local :: bool
  defines "x \<equiv> \<lparr>sb_session_id = session_id, sb_qos = qos, sb_no_local = no_local\<rparr>"
  assumes inv: "tree_inv nodes"
  shows "\<exists>nodes'. subscribe nodes filt session_id qos no_local = (Ok nodes' :: ('e, TopicTree) res) \<and> tree_inv nodes' \<and>
    (\<forall>f. subs_at nodes' f = (if f = split_topic filt then upsert (subs_at nodes f) x else subs_at nodes f))"
proof -
  let ?f = "split_topic filt"
  from ensure_path_ok [of nodes ROOT_NODE ?f] tree_inv_links [OF inv] obtain n k where
    p: "ensure_path nodes ROOT_NODE ?f = (Ok (n, k) :: ('e, TopicTree \<times> nat) res)"
    and wf: "wf_links n" and e: "extends nodes n" and w: "walk n ROOT_NODE ?f = Some k" by blast
  have inv': "tree_inv n" by (rule extends_inv [OF e wf inv])
  have k: "k < length n" using walk_bound [OF wf _ w] tree_inv_links [OF inv'] by simp
  have subs: "subs_at n f = subs_at nodes f" for f
    using extends_subs_at [OF e _ wf] inv tree_inv_links [OF inv] by (simp add: tree_inv_def)
  have "node_subs (n ! k) = subs_at n ?f" using w by (simp add: subs_at_def)
  then have d: "distinct (map sb_session_id (upsert (node_subs (n ! k)) x))"
    using subs_at_distinct [OF inv'] by (simp add: distinct_upsert)
  note u = update_at_path [OF inv' w split_topic_not_Nil, where g = "\<lambda>l. upsert l x", OF d]
  have "subscribe nodes filt session_id qos no_local =
      (Ok (n[k := update_list (\<lambda>l. upsert l x) (last ?f) (n ! k)]) :: ('e, TopicTree) res)"
    using p k by (simp add: subscribe_def Let_def x_def)
  then show ?thesis using u subs by auto
qed

lemma unsubscribe_spec:
  assumes inv: "tree_inv nodes"
  shows "\<exists>nodes' removed. unsubscribe nodes filt session_id = (Ok (nodes', removed) :: ('e, TopicTree \<times> bool) res) \<and>
    tree_inv nodes' \<and>
    (removed \<longleftrightarrow> session_id \<in> sb_session_id ` set (subs_at nodes (split_topic filt))) \<and>
    (\<forall>f. subs_at nodes' f =
      (if f = split_topic filt then filter (\<lambda>s. sb_session_id s \<noteq> session_id) (subs_at nodes f) else subs_at nodes f))"
proof -
  let ?f = "split_topic filt" and ?keep = "\<lambda>l. filter (\<lambda>s. sb_session_id s \<noteq> session_id) l"
  have l: "wf_links nodes" "ROOT_NODE < length nodes" using tree_inv_links [OF inv] by simp_all
  note fp = find_path_walk [OF l, of ?f]
  show ?thesis
  proof (cases "walk nodes ROOT_NODE ?f")
    case None
    then have "subs_at nodes ?f = []" by (simp add: subs_at_def)
    with None inv show ?thesis by (auto simp: unsubscribe_def Let_def fp)
  next
    case (Some k)
    have b: "k < length nodes" "tn_segment (nodes ! k) = last ?f" using walk_bound [OF l Some] by simp_all
    have ns: "node_subs (nodes ! k) = subs_at nodes ?f" using Some by (simp add: subs_at_def)
    then have nl: "node_list (last ?f) (nodes ! k) = subs_at nodes ?f" using b by (simp add: node_subs_def)
    have d: "distinct (map sb_session_id (?keep (node_subs (nodes ! k))))"
      using subs_at_distinct [OF inv] by (simp add: ns distinct_filter_ids)
    note u = update_at_path [OF inv Some split_topic_not_Nil, where g = "\<lambda>_. ?keep (subs_at nodes ?f)"]
    have "unsubscribe nodes filt session_id =
        (Ok (nodes[k := update_list (\<lambda>_. ?keep (subs_at nodes ?f)) (last ?f) (nodes ! k)],
          length (?keep (subs_at nodes ?f)) < length (subs_at nodes ?f)) :: ('e, TopicTree \<times> bool) res)"
      using Some b by (simp add: unsubscribe_def Let_def nl fp)
    moreover have "length (?keep (subs_at nodes ?f)) < length (subs_at nodes ?f) \<longleftrightarrow>
        session_id \<in> sb_session_id ` set (subs_at nodes ?f)"
      using length_filter_less [of _ "subs_at nodes ?f" "\<lambda>s. sb_session_id s \<noteq> session_id"]
      by (auto simp: image_iff) (metis (mono_tags, lifting) filter_True less_irrefl)
    ultimately show ?thesis using u d ns by auto
  qed
qed

lemma unsubscribe_all_spec:
  assumes inv: "tree_inv nodes"
  shows "tree_inv (unsubscribe_all nodes session_id)"
    and "subs_at (unsubscribe_all nodes session_id) f = filter (\<lambda>s. sb_session_id s \<noteq> session_id) (subs_at nodes f)"
proof -
  let ?u = "\<lambda>node. node\<lparr>tn_subscribers := filter (\<lambda>s. sb_session_id s \<noteq> session_id) (tn_subscribers node),
    tn_wildcard_subscribers := filter (\<lambda>s. sb_session_id s \<noteq> session_id) (tn_wildcard_subscribers node)\<rparr>"
  have subs: "node_subs (?u n) = filter (\<lambda>s. sb_session_id s \<noteq> session_id) (node_subs n)" for n
    by (simp add: node_subs_def node_list_def)
  have wfn: "wf_node n \<Longrightarrow> wf_node (?u n)" for n
    unfolding wf_node_def subs by (auto simp: distinct_filter_ids)
  have len: "length (unsubscribe_all nodes session_id) = length nodes" by (simp add: unsubscribe_all_def)
  have nth: "j < length nodes \<Longrightarrow> unsubscribe_all nodes session_id ! j = ?u (nodes ! j)" for j
    by (simp add: unsubscribe_all_def)
  have links: "wf_links (unsubscribe_all nodes session_id)"
    unfolding wf_links_def len
  proof (intro allI impI)
    fix j s i
    assume j: "j < length nodes" and c: "tn_children (unsubscribe_all nodes session_id ! j) s = Some i"
    then have "tn_children (nodes ! j) s = Some i" by (simp add: nth)
    note l = wf_linksD [OF conjunct1 [OF tree_inv_links [OF inv]] j this]
    then show "j < i \<and> i < length nodes \<and> tn_parent (unsubscribe_all nodes session_id ! i) = j \<and>
        tn_segment (unsubscribe_all nodes session_id ! i) = s"
      by (simp add: nth)
  qed
  have wk: "i < length nodes \<Longrightarrow> walk (unsubscribe_all nodes session_id) i h = walk nodes i h" for i h
    using tree_inv_links [OF inv]
    by (induction h arbitrary: i) (auto simp: nth split: option.splits dest: wf_linksD(2))
  show "tree_inv (unsubscribe_all nodes session_id)"
    using inv links wfn subs by (auto simp: tree_inv_def unsubscribe_all_def)
  show "subs_at (unsubscribe_all nodes session_id) f = filter (\<lambda>s. sb_session_id s \<noteq> session_id) (subs_at nodes f)"
    using tree_inv_links [OF inv] walk_bound [of nodes ROOT_NODE f]
    by (auto simp: subs_at_def wk nth subs split: option.splits)
qed

section \<open>Matching\<close>

text \<open>Topic names that may be published have no wildcard segment.\<close>

definition plain_topic :: "string list \<Rightarrow> bool" where
  "plain_topic ts \<longleftrightarrow> HASH \<notin> set ts \<and> PLUS \<notin> set ts"

text \<open>What a visit of node \<open>i\<close> with the segments \<open>ts\<close> still to match should add.\<close>

definition found :: "TopicTree \<Rightarrow> nat \<Rightarrow> string list \<Rightarrow> Subscriber set" where
  "found nodes i ts = {x. \<exists>f k. walk nodes i f = Some k \<and> matches f ts \<and> x \<in> set (node_subs (nodes ! k))}"

definition below :: "TopicTree \<Rightarrow> nat \<Rightarrow> string \<Rightarrow> string list \<Rightarrow> Subscriber set" where
  "below nodes i s ts = (case tn_children (nodes ! i) s of Some c \<Rightarrow> found nodes c ts | None \<Rightarrow> {})"

lemma found_Nil:
  "found nodes i [] = set (node_subs (nodes ! i)) \<union>
    (case tn_children (nodes ! i) HASH of Some c \<Rightarrow> set (node_subs (nodes ! c)) | None \<Rightarrow> {})"
proof -
  have m: "matches f [] \<longleftrightarrow> f = [] \<or> f = [HASH]" for f by (cases f) auto
  have h: "(case tn_children (nodes ! i) HASH of Some c \<Rightarrow> set (node_subs (nodes ! c)) | None \<Rightarrow> {}) =
      {x. \<exists>k. walk nodes i [HASH] = Some k \<and> x \<in> set (node_subs (nodes ! k))}"
    by (auto split: option.splits)
  have n: "set (node_subs (nodes ! i)) = {x. \<exists>k. walk nodes i [] = Some k \<and> x \<in> set (node_subs (nodes ! k))}" by simp
  show ?thesis unfolding found_def m h by (subst n) blast
qed

lemma found_Cons:
  "found nodes i (t # ts) = below nodes i t ts \<union> below nodes i PLUS ts \<union>
    (case tn_children (nodes ! i) HASH of Some c \<Rightarrow> set (node_subs (nodes ! c)) | None \<Rightarrow> {})"
proof -
  have m: "matches f (t # ts) \<longleftrightarrow> f = [HASH] \<or> (\<exists>g. matches g ts \<and> (f = t # g \<or> f = PLUS # g))" for f
    by (cases f) auto
  have b: "below nodes i s ts = {x. \<exists>g k. walk nodes i (s # g) = Some k \<and> matches g ts \<and> x \<in> set (node_subs (nodes ! k))}" for s
    by (auto simp: below_def found_def split: option.splits)
  have h: "(case tn_children (nodes ! i) HASH of Some c \<Rightarrow> set (node_subs (nodes ! c)) | None \<Rightarrow> {}) =
      {x. \<exists>k. walk nodes i [HASH] = Some k \<and> x \<in> set (node_subs (nodes ! k))}"
    by (auto split: option.splits)
  show ?thesis unfolding found_def m b h by blast
qed

lemma hash_child_ok:
  assumes "tree_inv nodes" and "i < length nodes"
  shows "hash_child nodes (nodes ! i) results =
    Ok (results @ (case tn_children (nodes ! i) HASH of Some c \<Rightarrow> node_subs (nodes ! c) | None \<Rightarrow> []))"
proof (cases "tn_children (nodes ! i) HASH")
  case (Some c)
  from wf_linksD [OF conjunct1 [OF tree_inv_links [OF assms(1)]] assms(2) Some] Some show ?thesis
    by (simp add: hash_child_def node_subs_def node_list_def)
qed (simp add: hash_child_def)

lemma collect_matches_ok:
  assumes inv: "tree_inv nodes" and "i < length nodes" and "tn_segment (nodes ! i) \<noteq> HASH"
    and "plain_topic (drop depth ts)"
  shows "\<exists>more. collect_matches nodes i ts depth results = (Ok (results @ more) :: ('e, Subscriber list) res) \<and>
    set more = found nodes i (drop depth ts)"
  using assms(2-)
proof (induction "length ts - depth" arbitrary: i depth results)
  case 0
  have "wf_node (nodes ! i)" using inv 0 by (simp add: tree_inv_def)
  then have "tn_wildcard_subscribers (nodes ! i) = []" "node_subs (nodes ! i) = tn_subscribers (nodes ! i)"
    using 0 by (simp_all add: wf_node_def node_subs_def node_list_def)
  with 0 show ?case
    by (subst collect_matches.simps) (auto simp: hash_child_ok [OF inv] found_Nil Let_def split: option.splits)
next
  case (Suc n)
  let ?rest = "drop (Suc depth) ts"
  have lt: "depth < length ts" using Suc.hyps(2) by simp
  have d: "drop depth ts = ts ! depth # ?rest" by (rule Cons_nth_drop_Suc [OF lt, symmetric])
  have plain: "plain_topic ?rest" "ts ! depth \<noteq> HASH" using Suc.prems(3) by (auto simp: d plain_topic_def)
  have "wf_node (nodes ! i)" using inv Suc.prems by (simp add: tree_inv_def)
  then have w: "tn_wildcard_subscribers (nodes ! i) = []" using Suc.prems by (simp add: wf_node_def)
  have visit: "\<exists>more. (case tn_children (nodes ! i) s of
        Some c \<Rightarrow> collect_matches nodes c ts (depth + 1) results
      | None \<Rightarrow> Ok results) = (Ok (results @ more) :: ('e, Subscriber list) res) \<and> set more = below nodes i s ?rest"
    if "s \<noteq> HASH" for s results
  proof (cases "tn_children (nodes ! i) s")
    case (Some c)
    note l = wf_linksD [OF conjunct1 [OF tree_inv_links [OF inv]] Suc.prems(1) Some]
    have "\<exists>more. collect_matches nodes c ts (depth + 1) results = (Ok (results @ more) :: ('e, Subscriber list) res) \<and>
        set more = found nodes c (drop (depth + 1) ts)"
      by (rule Suc.hyps(1)) (use Suc.hyps(2) l plain that in simp_all)
    with Some show ?thesis by (simp add: below_def)
  qed (simp add: below_def)
  from visit [OF plain(2), of results] obtain m1 where
    m1: "(case tn_children (nodes ! i) (ts ! depth) of
        Some c \<Rightarrow> collect_matches nodes c ts (depth + 1) results
      | None \<Rightarrow> Ok results) = (Ok (results @ m1) :: ('e, Subscriber list) res)" "set m1 = below nodes i (ts ! depth) ?rest" by blast
  from visit [of PLUS "results @ m1"] obtain m2 where
    m2: "(case tn_children (nodes ! i) PLUS of
        Some c \<Rightarrow> collect_matches nodes c ts (depth + 1) (results @ m1)
      | None \<Rightarrow> Ok (results @ m1)) = (Ok ((results @ m1) @ m2) :: ('e, Subscriber list) res)" "set m2 = below nodes i PLUS ?rest" by auto
  have "collect_matches nodes i ts depth results = (hash_child nodes (nodes ! i) ((results @ m1) @ m2) :: ('e, Subscriber list) res)"
    using Suc.prems(1) lt by (subst collect_matches.simps) (simp only: not_le [symmetric] Let_def w append_Nil2 m1(1) m2(1) bind.simps if_False)
  then show ?case
    using m1(2) m2(2) by (auto simp: hash_child_ok [OF inv Suc.prems(1)] d found_Cons split: option.splits)
qed

lemma matching_subscribers_spec:
  assumes inv: "tree_inv nodes" and "plain_topic (split_topic topic)"
  shows "\<exists>subs. matching_subscribers nodes topic = (Ok subs :: ('e, Subscriber list) res) \<and>
    set subs = {x. \<exists>f. matches f (split_topic topic) \<and> x \<in> set (subs_at nodes f)}"
proof -
  have r: "ROOT_NODE < length nodes" "tn_segment (nodes ! ROOT_NODE) \<noteq> HASH"
    using inv by (auto simp: tree_inv_def ROOT_NODE_def)
  from collect_matches_ok [OF inv r, of 0 "split_topic topic" "[]"] assms(2) obtain subs where
    "matching_subscribers nodes topic = (Ok subs :: ('e, Subscriber list) res)" "set subs = found nodes ROOT_NODE (split_topic topic)"
    by (auto simp: matching_subscribers_def)
  moreover have "found nodes ROOT_NODE ts = {x. \<exists>f. matches f ts \<and> x \<in> set (subs_at nodes f)}" for ts
    unfolding found_def subs_at_def by (rule Collect_cong) (force split: option.splits)
  ultimately show ?thesis by blast
qed

text \<open>Any topic is looked up without a panic, one with wildcard segments too.\<close>

lemma hash_child_total:
  assumes "wf_links nodes" and "i < length nodes"
  shows "\<exists>subs. hash_child nodes (nodes ! i) results = (Ok subs :: ('e, Subscriber list) res)"
  using wf_linksD(2) [OF assms, of HASH]
  by (cases "tn_children (nodes ! i) HASH") (simp_all add: hash_child_def linorder_not_le)

lemma collect_matches_total:
  assumes "wf_links nodes" and "i < length nodes"
  shows "\<exists>subs. collect_matches nodes i ts depth results = (Ok subs :: ('e, Subscriber list) res)"
  using assms(2)
proof (induction "length ts - depth" arbitrary: i depth results)
  case 0
  then have "length ts \<le> depth" by simp
  then have "collect_matches nodes i ts depth results =
      (hash_child nodes (nodes ! i) (results @ tn_wildcard_subscribers (nodes ! i) @ tn_subscribers (nodes ! i)) :: ('e, Subscriber list) res)"
    using "0.prems" by (subst collect_matches.simps) (simp add: Let_def)
  then show ?case using hash_child_total [OF assms(1) "0.prems"] by simp
next
  case (Suc n)
  have visit: "\<exists>subs. (case tn_children (nodes ! i) s of
      Some c \<Rightarrow> collect_matches nodes c ts (depth + 1) r | None \<Rightarrow> Ok r) = (Ok subs :: ('e, Subscriber list) res)" for s r
  proof (cases "tn_children (nodes ! i) s")
    case (Some c)
    with Suc.hyps wf_linksD(2) [OF assms(1) Suc.prems Some] show ?thesis by simp
  qed simp
  have lt: "depth < length ts" using Suc.hyps(2) by simp
  let ?start = "results @ tn_wildcard_subscribers (nodes ! i)"
  from visit obtain r1 where r1: "(case tn_children (nodes ! i) (ts ! depth) of
      Some c \<Rightarrow> collect_matches nodes c ts (depth + 1) ?start | None \<Rightarrow> Ok ?start) = (Ok r1 :: ('e, Subscriber list) res)" by blast
  from visit obtain r2 where r2: "(case tn_children (nodes ! i) PLUS of
      Some c \<Rightarrow> collect_matches nodes c ts (depth + 1) r1 | None \<Rightarrow> Ok r1) = (Ok r2 :: ('e, Subscriber list) res)" by blast
  have "collect_matches nodes i ts depth results = (hash_child nodes (nodes ! i) r2 :: ('e, Subscriber list) res)"
    using Suc.prems lt r1 r2
    by (subst collect_matches.simps) (simp only: not_le [symmetric] Let_def bind.simps if_False if_True)
  then show ?case using hash_child_total [OF assms(1) Suc.prems] by simp
qed

lemma matching_subscribers_total:
  assumes "tree_inv nodes"
  shows "\<exists>subs. matching_subscribers nodes topic = (Ok subs :: ('e, Subscriber list) res)"
  unfolding matching_subscribers_def using collect_matches_total tree_inv_links [OF assms] by blast

section \<open>The contract of a subscription store\<close>

text \<open>
  What the broker relies on: \<open>registered t f\<close> lists the subscribers of the filter \<open>f\<close>, the operations
  change it as stated and never fail, and a lookup returns the subscribers of the matching filters.
\<close>

locale subscription_store =
  fixes ok :: "'t \<Rightarrow> bool"
    and registered :: "'t \<Rightarrow> string list \<Rightarrow> Subscriber list"
    and sub :: "'t \<Rightarrow> string \<Rightarrow> string \<Rightarrow> QoSLevel \<Rightarrow> bool \<Rightarrow> ('e, 't) res"
    and unsub :: "'t \<Rightarrow> string \<Rightarrow> string \<Rightarrow> ('e, 't \<times> bool) res"
    and unsub_all :: "'t \<Rightarrow> string \<Rightarrow> 't"
    and lookup :: "'t \<Rightarrow> string \<Rightarrow> ('e, Subscriber list) res"
  assumes sub_law: "ok t \<Longrightarrow> \<exists>t'. sub t filt sid q nl = Ok t' \<and> ok t' \<and>
      (\<forall>f. registered t' f = (if f = split_topic filt
        then upsert (registered t f) \<lparr>sb_session_id = sid, sb_qos = q, sb_no_local = nl\<rparr> else registered t f))"
    and unsub_law: "ok t \<Longrightarrow> \<exists>t' removed. unsub t filt sid = Ok (t', removed) \<and> ok t' \<and>
      (removed \<longleftrightarrow> sid \<in> sb_session_id ` set (registered t (split_topic filt))) \<and>
      (\<forall>f. registered t' f = (if f = split_topic filt
        then filter (\<lambda>s. sb_session_id s \<noteq> sid) (registered t f) else registered t f))"
    and unsub_all_law: "ok t \<Longrightarrow> ok (unsub_all t sid)"
      "ok t \<Longrightarrow> registered (unsub_all t sid) f = filter (\<lambda>s. sb_session_id s \<noteq> sid) (registered t f)"
    and lookup_law: "ok t \<Longrightarrow> plain_topic (split_topic topic) \<Longrightarrow> \<exists>subs. lookup t topic = Ok subs \<and>
      set subs = {x. \<exists>f. matches f (split_topic topic) \<and> x \<in> set (registered t f)}"
begin

lemma sub_then_lookup:
  assumes "ok t" and "plain_topic (split_topic topic)" and "matches (split_topic filt) (split_topic topic)"
  shows "\<exists>t' subs. sub t filt sid q nl = Ok t' \<and> lookup t' topic = Ok subs \<and>
    \<lparr>sb_session_id = sid, sb_qos = q, sb_no_local = nl\<rparr> \<in> set subs"
proof -
  from sub_law [OF assms(1)] obtain t' where t': "sub t filt sid q nl = Ok t'" "ok t'"
    "\<forall>f. registered t' f = (if f = split_topic filt
      then upsert (registered t f) \<lparr>sb_session_id = sid, sb_qos = q, sb_no_local = nl\<rparr> else registered t f)" by blast
  from lookup_law [OF t'(2) assms(2)] obtain subs where "lookup t' topic = Ok subs"
    "set subs = {x. \<exists>f. matches f (split_topic topic) \<and> x \<in> set (registered t' f)}" by blast
  moreover have "\<lparr>sb_session_id = sid, sb_qos = q, sb_no_local = nl\<rparr> \<in> set (registered t' (split_topic filt))"
    by (simp add: t'(3) upsert_mem)
  ultimately show ?thesis using t'(1) assms(3) by blast
qed

lemma sub_other_sessions:
  assumes "ok t" and "sub t filt sid q nl = Ok t'" and "sb_session_id x \<noteq> sid"
  shows "x \<in> set (registered t' f) \<longleftrightarrow> x \<in> set (registered t f)"
  using sub_law [OF assms(1), of filt sid q nl] assms(2,3) by (auto simp: upsert_others)

lemma unsub_then_lookup:
  assumes "ok t" and "plain_topic (split_topic topic)" and "unsub t filt sid = Ok (t', removed)"
    and "\<And>f. f \<noteq> split_topic filt \<Longrightarrow> matches f (split_topic topic) \<Longrightarrow> sid \<notin> sb_session_id ` set (registered t f)"
  shows "\<exists>subs. lookup t' topic = Ok subs \<and> sid \<notin> sb_session_id ` set subs"
proof -
  from unsub_law [OF assms(1), of filt sid] assms(3) have t': "ok t'"
    "\<forall>f. registered t' f = (if f = split_topic filt
      then filter (\<lambda>s. sb_session_id s \<noteq> sid) (registered t f) else registered t f)" by auto
  from lookup_law [OF t'(1) assms(2)] obtain subs where "lookup t' topic = Ok subs"
    and s: "set subs = {x. \<exists>f. matches f (split_topic topic) \<and> x \<in> set (registered t' f)}" by blast
  moreover have "sid \<notin> sb_session_id ` set subs"
    unfolding s using assms(4) t'(2) by (fastforce split: if_splits)
  ultimately show ?thesis by blast
qed

lemma unsub_all_lookup:
  assumes "ok t" and "plain_topic (split_topic topic)"
  shows "\<exists>subs. lookup (unsub_all t sid) topic = Ok subs \<and> sid \<notin> sb_session_id ` set subs"
  using lookup_law [OF unsub_all_law(1) [OF assms(1)] assms(2), of sid] unsub_all_law(2) [OF assms(1)] by force

end

interpretation topics: subscription_store tree_inv subs_at subscribe unsubscribe unsubscribe_all matching_subscribers
  by unfold_locales
    (rule subscribe_spec unsubscribe_spec unsubscribe_all_spec matching_subscribers_spec; assumption)+

end
