(* ===== verification/Broker.thy ===== *)
theory Broker
  imports Broker_Session Topic_Tree
begin

text \<open>
  The broker (\<open>vaux-broker/src/lib.rs\<close>): shared state, the handlers of \<open>Broker\<close> and the branches of the
  connection loop. The tokio channel of a session is a parameter: \<open>ops\<close> gives the operations of
  \<open>mpsc\<close> on a channel state, and channels are referred to by index. \<open>io\<close> tells which writes to the
  client's stream succeed; the packets written are returned. Each handler runs as one step: the
  broker's locks are held across the accesses that belong together.
\<close>

section \<open>State\<close>

datatype BrokerError = BE_Codec ErrorKind | BE_Io | BE_Stream

datatype BrokerCommand = Stop | PauseAccept | ResumeAccept | SetSessionExpiry nat

record 'c channel_ops =
  ch_new :: "nat \<Rightarrow> 'c"
  ch_send :: "'c \<Rightarrow> SessionControl \<Rightarrow> 'c"
  ch_try_send :: "'c \<Rightarrow> SessionControl \<Rightarrow> 'c option"
  ch_recv :: "'c \<Rightarrow> (SessionControl \<times> 'c) option"

record conn_io =
  io_write :: "Packet \<Rightarrow> bool"
  io_shutdown :: bool
  io_rank :: "u16 \<Rightarrow> nat"

text \<open>
  \<open>bk_sessions\<close> and \<open>bk_channels\<close> are the stores behind \<open>Arc<RwLock<Session>>\<close> and the channel handles;
  \<open>bk_wills\<close> are the tasks that \<open>initiate_will\<close> spawns: the message, the delay, and whether its token was
  cancelled or it has run.
\<close>

record 'c BrokerState =
  bk_config :: Config
  bk_pool :: SessionPool
  bk_sessions :: "Session list"
  bk_tree :: TopicTree
  bk_accept :: bool
  bk_channels :: "'c list"
  bk_wills :: "(WillMessage \<times> nat \<times> bool) list"

type_synonym ('c, 'a) handled = "(BrokerError, 'a) res \<times> 'c BrokerState \<times> Packet list"

definition BrokerState_new :: "Config \<Rightarrow> 'c BrokerState" where
  "BrokerState_new config =
    \<lparr>bk_config = config, bk_pool = SessionPool_new_with_config config, bk_sessions = [],
     bk_tree = TopicTree_new, bk_accept = True, bk_channels = [], bk_wills = []\<rparr>"

text \<open>Updating one session, one channel, one will task.\<close>

definition upd_session :: "nat \<Rightarrow> (Session \<Rightarrow> Session) \<Rightarrow> 'c BrokerState \<Rightarrow> 'c BrokerState" where
  "upd_session r f st = st\<lparr>bk_sessions := (bk_sessions st)[r := f (bk_sessions st ! r)]\<rparr>"

definition new_channel :: "'c channel_ops \<Rightarrow> nat \<Rightarrow> 'c BrokerState \<Rightarrow> nat \<times> 'c BrokerState" where
  "new_channel ops channel_size st =
    (length (bk_channels st), st\<lparr>bk_channels := bk_channels st @ [ch_new ops channel_size]\<rparr>)"

definition send_control :: "'c channel_ops \<Rightarrow> nat \<Rightarrow> SessionControl \<Rightarrow> 'c BrokerState \<Rightarrow> 'c BrokerState" where
  "send_control ops r msg st =
    (let ch = fst (se_control (bk_sessions st ! r)) in
     st\<lparr>bk_channels := (bk_channels st)[ch := ch_send ops (bk_channels st ! ch) msg]\<rparr>)"

definition try_send_control :: "'c channel_ops \<Rightarrow> nat \<Rightarrow> SessionControl \<Rightarrow> 'c BrokerState \<Rightarrow> bool \<times> 'c BrokerState" where
  "try_send_control ops r msg st =
    (let ch = fst (se_control (bk_sessions st ! r)) in
     case ch_try_send ops (bk_channels st ! ch) msg of
       Some c \<Rightarrow> (True, st\<lparr>bk_channels := (bk_channels st)[ch := c]\<rparr>)
     | None \<Rightarrow> (False, st))"

definition cancel_will :: "nat option \<Rightarrow> 'c BrokerState \<Rightarrow> 'c BrokerState" where
  "cancel_will token st =
    (case token of
       Some i \<Rightarrow> st\<lparr>bk_wills := (bk_wills st)[i := (case bk_wills st ! i of (w, d, _) \<Rightarrow> (w, d, True))]\<rparr>
     | None \<Rightarrow> st)"

definition cancel_pending_will :: "nat \<Rightarrow> 'c BrokerState \<Rightarrow> 'c BrokerState" where
  "cancel_pending_will r st =
    cancel_will (fst (Session_cancel_pending_will (bk_sessions st ! r)))
      (upd_session r (\<lambda>s. snd (Session_cancel_pending_will s)) st)"

text \<open>\<open>let _ = ..\<close> and \<open>.ok()\<close>: an error leaves the value as it was.\<close>

definition ignore_err :: "('e, 'a) res \<Rightarrow> 'a \<Rightarrow> ('f, 'a) res" where
  "ignore_err m d = (case m of Ok x \<Rightarrow> Ok x | Err _ \<Rightarrow> Ok d | Panic \<Rightarrow> Panic)"

text \<open>\<open>stream.write(..).await?\<close> followed by the rest of the handler.\<close>

definition write_packet :: "conn_io \<Rightarrow> Packet \<Rightarrow> 'c BrokerState \<Rightarrow> ('c BrokerState \<Rightarrow> ('c, 'a) handled) \<Rightarrow> ('c, 'a) handled" where
  "write_packet io p st k =
    (if io_write io p then (case k st of (r, st, out) \<Rightarrow> (r, st, p # out)) else (Err BE_Stream, st, []))"

section \<open>Publishing\<close>

definition deliver :: "'c channel_ops \<Rightarrow> nat \<Rightarrow> Publish \<Rightarrow> 'c BrokerState \<Rightarrow> 'c BrokerState" where
  "deliver ops r out st =
    (case try_send_control ops r (SC_Deliver out) st of
       (True, st) \<Rightarrow> st
     | (False, st) \<Rightarrow> snd (try_send_control ops r (SC_Disconnect R_QuotaExceeded) st))"

text \<open>One turn of the loop of \<open>route_publish\<close>.\<close>

definition route_to ::
    "'c channel_ops \<Rightarrow> Publish \<Rightarrow> string \<Rightarrow> Subscriber \<Rightarrow> 'c BrokerState \<Rightarrow> (BrokerError, 'c BrokerState) res" where
  "route_to ops publish sender sub st =
    (if sb_no_local sub \<and> sb_session_id sub = sender then Ok st
     else
       bind (Publish_qos publish) (\<lambda>publish_qos.
         let granted_qos = min (QoSLevel_as_u8 publish_qos) (QoSLevel_as_u8 (sb_qos sub));
             qos = unwrap_or (QoSLevel_try_from granted_qos) AtMostOnce
         in case SessionPool_get_active (sb_session_id sub) (bk_pool st) of
              None \<Rightarrow> Ok st
            | Some r \<Rightarrow>
                (let out = Publish_set_qos publish qos in
                 if qos \<noteq> AtMostOnce then
                   (let packet_id = fst (Session_next_packet_id (bk_sessions st ! r));
                        st = upd_session r (\<lambda>s. snd (Session_next_packet_id s)) st
                    in bind (ignore_err (Publish_set_packet_id out (Some packet_id)) out) (\<lambda>out.
                         Ok (deliver ops r out (upd_session r (Session_track_qos_publish packet_id out) st))))
                 else Ok (deliver ops r out st))))"

fun route_all ::
    "'c channel_ops \<Rightarrow> Publish \<Rightarrow> string \<Rightarrow> Subscriber list \<Rightarrow> 'c BrokerState \<Rightarrow> (BrokerError, 'c BrokerState) res" where
  "route_all ops publish sender [] st = Ok st"
| "route_all ops publish sender (sub # subs) st =
    bind (route_to ops publish sender sub st) (route_all ops publish sender subs)"

definition route_publish ::
    "'c channel_ops \<Rightarrow> Publish \<Rightarrow> string \<Rightarrow> 'c BrokerState \<Rightarrow> (BrokerError, 'c BrokerState) res" where
  "route_publish ops publish sender st =
    bind (matching_subscribers (bk_tree st) (pu_topic_name publish)) (\<lambda>subscribers.
      route_all ops publish sender subscribers st)"

definition will_publish :: "WillMessage \<Rightarrow> Publish" where
  "will_publish will =
    (let p = Publish_default\<lparr>pu_fixed_header := FixedHeader_new PT_Publish, pu_topic_name := wm_topic will\<rparr>;
         p = Publish_set_qos p (wm_qos will);
         p = Publish_set_retain p (wm_retain will);
         p = p\<lparr>pu_payload := Some (wm_payload will), pu_message_expiry := wh_message_expiry (wm_header will),
               pu_content_type := wh_content_type (wm_header will),
               pu_response_topic := wh_response_topic (wm_header will),
               pu_correlation_data := wh_correlation_data (wm_header will)\<rparr>
     in case wh_payload_format (wm_header will) of
          Some format \<Rightarrow> Publish_set_payload_format p format
        | None \<Rightarrow> p)"

definition publish_will :: "'c channel_ops \<Rightarrow> WillMessage \<Rightarrow> 'c BrokerState \<Rightarrow> (BrokerError, 'c BrokerState) res" where
  "publish_will ops will st = route_publish ops (will_publish will) [] st"

definition initiate_will :: "'c channel_ops \<Rightarrow> nat \<Rightarrow> 'c BrokerState \<Rightarrow> (BrokerError, 'c BrokerState) res" where
  "initiate_will ops r st =
    (let will = fst (Session_take_will (bk_sessions st ! r));
         st = upd_session r (\<lambda>s. snd (Session_take_will s)) st
     in case will of
          None \<Rightarrow> Ok st
        | Some will \<Rightarrow>
            (let delay_secs = (case wh_will_delay (wm_header will) of Some d \<Rightarrow> d | None \<Rightarrow> 0) in
             if delay_secs = 0 then publish_will ops will st
             else
               (let token = length (bk_wills st);
                    st = st\<lparr>bk_wills := bk_wills st @ [(will, unat delay_secs, False)]\<rparr>;
                    st = cancel_will (fst (Session_set_pending_will token (bk_sessions st ! r))) st
                in Ok (upd_session r (\<lambda>s. snd (Session_set_pending_will token s)) st))))"

section \<open>Subscriptions\<close>

primrec granted_reason :: "QoSLevel \<Rightarrow> Reason" where
  "granted_reason AtMostOnce = R_Success"
| "granted_reason AtLeastOnce = R_GrantedQoS1"
| "granted_reason ExactlyOnce = R_GrantedQoS2"

fun subscribe_all :: "SubscriptionFilter list \<Rightarrow> string \<Rightarrow> TopicTree \<Rightarrow> (BrokerError, TopicTree \<times> Reason list) res" where
  "subscribe_all [] session_id tree = Ok (tree, [])"
| "subscribe_all (f # fs) session_id tree =
    (let granted_qos = SubscriptionFilter_qos f in
     bind (subscribe tree (sf_filter f) session_id granted_qos (SubscriptionFilter_no_local f)) (\<lambda>tree.
     bind (subscribe_all fs session_id tree) (\<lambda>(tree, reasons).
       Ok (tree, granted_reason granted_qos # reasons))))"

definition handle_subscribe :: "Subscribe \<Rightarrow> string \<Rightarrow> 'c BrokerState \<Rightarrow> (BrokerError, SubAck \<times> 'c BrokerState) res" where
  "handle_subscribe p session_id st =
    (let suback = unwrap_or (SubAck_new_with_packet_id (su_packet_id p)) SubAck_default in
     bind (subscribe_all (su_filter p) session_id (bk_tree st)) (\<lambda>(tree, reasons).
       Ok (suback\<lparr>sa_reason_codes := sa_reason_codes suback @ reasons\<rparr>, st\<lparr>bk_tree := tree\<rparr>)))"

fun unsubscribe_topics :: "string list \<Rightarrow> string \<Rightarrow> TopicTree \<Rightarrow> (BrokerError, TopicTree \<times> Reason list) res" where
  "unsubscribe_topics [] session_id tree = Ok (tree, [])"
| "unsubscribe_topics (t # ts) session_id tree =
    bind (unsubscribe tree t session_id) (\<lambda>(tree, removed).
    bind (unsubscribe_topics ts session_id tree) (\<lambda>(tree, reasons).
      Ok (tree, (if removed then R_Success else R_NoSubscribers) # reasons)))"

definition handle_unsubscribe :: "Unsubscribe \<Rightarrow> string \<Rightarrow> 'c BrokerState \<Rightarrow> (BrokerError, UnsubAck \<times> 'c BrokerState) res" where
  "handle_unsubscribe p session_id st =
    bind (unsubscribe_topics (us_topics p) session_id (bk_tree st)) (\<lambda>(tree, reasons).
      Ok (UnsubAck_default\<lparr>ua_packet_id := us_packet_id p, ua_reason_code := reasons\<rparr>, st\<lparr>bk_tree := tree\<rparr>))"

section \<open>Connecting\<close>

text \<open>A handler's pure part: an error or a panic ends the handler in the state it was in.\<close>

definition run :: "(BrokerError, 'a) res \<Rightarrow> 'c BrokerState \<Rightarrow> ('a \<Rightarrow> ('c, 'b) handled) \<Rightarrow> ('c, 'b) handled" where
  "run m st k = (case m of Ok x \<Rightarrow> k x | Err e \<Rightarrow> (Err e, st, []) | Panic \<Rightarrow> (Panic, st, []))"

definition finish :: "'a \<Rightarrow> 'c BrokerState \<Rightarrow> ('c, 'a) handled" where
  "finish x st = (Ok x, st, [])"

text \<open>The send waits for room; \<open>ch_send\<close> is the channel after it.\<close>

definition Session_disconnect :: "'c channel_ops \<Rightarrow> nat \<Rightarrow> Reason \<Rightarrow> 'c BrokerState \<Rightarrow> 'c BrokerState" where
  "Session_disconnect ops r reason st = send_control ops r (SC_Disconnect reason) st"

definition handle_takeover :: "'c channel_ops \<Rightarrow> nat \<Rightarrow> 'c BrokerState \<Rightarrow> 'c BrokerState" where
  "handle_takeover ops r st = Session_disconnect ops r R_SessionTakeOver st"

definition connect_keep_alive :: "Connect \<Rightarrow> SessionPool \<Rightarrow> ConnAck \<Rightarrow> ConnAck \<times> nat" where
  "connect_keep_alive connect pool ack =
    (let default_keep_alive_secs = SessionPool_default_keep_alive_secs pool;
         max_keep_alive_secs = SessionPool_max_keep_alive_secs pool
     in if co_keep_alive connect < default_keep_alive_secs
        then (ConnAck_set_server_keep_alive ack default_keep_alive_secs, keep_alive_factor default_keep_alive_secs)
        else if max_keep_alive_secs < co_keep_alive connect
        then (ConnAck_set_server_keep_alive ack max_keep_alive_secs, keep_alive_factor max_keep_alive_secs)
        else (ack, keep_alive_factor (co_keep_alive connect)))"

text \<open>\<open>as_secs() as u32\<close> truncates.\<close>

definition connect_expiry :: "Connect \<Rightarrow> SessionPool \<Rightarrow> ConnAck \<Rightarrow> ConnAck \<times> nat option" where
  "connect_expiry connect pool ack =
    (case co_session_expiry_interval connect of
       None \<Rightarrow> (ack, None)
     | Some requested_expiry \<Rightarrow>
         if 0 < requested_expiry then
           (let max_expiry = of_nat (sp_session_expiry pool) in
            if max_expiry < requested_expiry
            then (ConnAck_set_session_expiry ack max_expiry, Some (unat max_expiry))
            else (ack, Some (unat requested_expiry)))
         else (ack, None))"

definition connect_id :: "string \<Rightarrow> Connect \<Rightarrow> ConnAck \<Rightarrow> ConnAck \<times> string" where
  "connect_id uuid connect ack =
    (if co_client_id connect = [] then (ack\<lparr>ca_assigned_client_id := Some uuid\<rparr>, uuid)
     else (ack, co_client_id connect))"

text \<open>A new session, connected and added to the pool.\<close>

definition new_session ::
    "'c channel_ops \<Rightarrow> nat \<Rightarrow> string \<Rightarrow> WillMessage option \<Rightarrow> nat \<Rightarrow> nat \<Rightarrow> 'c BrokerState \<Rightarrow> nat \<times> 'c BrokerState" where
  "new_session ops now session_id will keep_alive channel_size st =
    (case new_channel ops channel_size st of (chan, st) \<Rightarrow>
       let s = Session_set_connected True (Session_new now session_id will keep_alive chan);
           r = length (bk_sessions st);
           st = st\<lparr>bk_sessions := bk_sessions st @ [s]\<rparr>
       in (r, st\<lparr>bk_pool := SessionPool_add (bk_sessions st) r (bk_pool st)\<rparr>))"

text \<open>The statements shared by the two branches that resume a session.\<close>

definition resume_session :: "'c channel_ops \<Rightarrow> nat \<Rightarrow> WillMessage option \<Rightarrow> nat \<Rightarrow> 'c BrokerState \<Rightarrow> 'c BrokerState" where
  "resume_session ops r will channel_size st =
    (let st = upd_session r (Session_set_will will) (cancel_pending_will r st) in
     case new_channel ops channel_size st of (chan, st) \<Rightarrow> upd_session r (Session_reset_control chan) st)"

definition connect_session ::
    "'c channel_ops \<Rightarrow> nat \<Rightarrow> Connect \<Rightarrow> string \<Rightarrow> nat \<Rightarrow> ConnAck \<Rightarrow> 'c BrokerState \<Rightarrow> ConnAck \<times> nat \<times> 'c BrokerState" where
  "connect_session ops now connect session_id keep_alive ack st =
    (let channel_size = cf_session_channel_size (bk_config st); will = Connect_will_message connect in
     if Connect_clean_start connect then
       (let st =
              (case SessionPool_remove session_id (bk_pool st) of
                 (Some r, pool) \<Rightarrow>
                   (let st = st\<lparr>bk_pool := pool\<rparr> in
                    if se_connected (bk_sessions st ! r) then handle_takeover ops r st else st)
               | (None, pool) \<Rightarrow> st\<lparr>bk_pool := pool\<rparr>)
        in (ack, new_session ops now session_id will keep_alive channel_size st))
     else
       (case SessionPool_activate now session_id (bk_sessions st) (bk_pool st) of
          (Some r, sessions, pool) \<Rightarrow>
            (ConnAck_set_session_present ack True, r,
             resume_session ops r will channel_size (st\<lparr>bk_sessions := sessions, bk_pool := pool\<rparr>))
        | (None, sessions, pool) \<Rightarrow>
            (let st = st\<lparr>bk_sessions := sessions, bk_pool := pool\<rparr> in
             case SessionPool_get_active session_id (bk_pool st) of
               Some r \<Rightarrow>
                 (ConnAck_set_session_present ack True, r,
                  upd_session r (Session_set_last_active now)
                    (resume_session ops r will channel_size (handle_takeover ops r st)))
             | None \<Rightarrow> (ack, new_session ops now session_id will keep_alive channel_size st))))"

definition handle_connect ::
    "'c channel_ops \<Rightarrow> conn_io \<Rightarrow> nat \<Rightarrow> string \<Rightarrow> Connect \<Rightarrow> 'c BrokerState \<Rightarrow> ('c, nat option) handled" where
  "handle_connect ops io now uuid connect st =
    (let (ack, keep_alive) = connect_keep_alive connect (bk_pool st) ConnAck_default;
         (ack, session_expiry) = connect_expiry connect (bk_pool st) ack;
         (ack, session_id) = connect_id uuid connect ack
     in if SessionPool_get_active session_id (bk_pool st) = None \<and>
           SessionPool_at_capacity (bk_pool st) (cf_max_active_sessions (bk_config st))
        then
          write_packet io (Pkt_ConnAck (ack\<lparr>ca_reason := R_QuotaExceeded\<rparr>)) st (\<lambda>st.
            if io_shutdown io then finish None st else (Err BE_Io, st, []))
        else
          (case connect_session ops now connect session_id keep_alive ack st of (ack, r, st) \<Rightarrow>
             let st = (case session_expiry of
                         Some expiry \<Rightarrow> upd_session r (Session_set_session_expiry expiry) st
                       | None \<Rightarrow> st)
             in write_packet io (Pkt_ConnAck ack) st (finish (Some r))))"

definition handle_pre_connect ::
    "'c channel_ops \<Rightarrow> conn_io \<Rightarrow> nat \<Rightarrow> string \<Rightarrow> Packet \<Rightarrow> 'c BrokerState \<Rightarrow> ('c, nat option) handled" where
  "handle_pre_connect ops io now uuid packet st =
    (case packet of
       Pkt_Connect connect \<Rightarrow>
         if \<not> bk_accept st then
           write_packet io (Pkt_ConnAck (ConnAck_default\<lparr>ca_reason := R_ServerBusy\<rparr>)) st (\<lambda>st.
             if io_shutdown io then finish None st else (Err BE_Io, st, []))
         else handle_connect ops io now uuid connect st
     | Pkt_PingRequest _ \<Rightarrow> write_packet io (Pkt_PingResponse PingResp_default) st (finish None)
     | _ \<Rightarrow> write_packet io (Pkt_Disconnect (Disconnect_new R_ProtocolErr)) st (finish None))"

section \<open>Packets of a connected client\<close>

definition deactivate_session :: "string \<Rightarrow> 'c BrokerState \<Rightarrow> 'c BrokerState" where
  "deactivate_session session_id st =
    (case SessionPool_deactivate session_id (bk_sessions st) (bk_pool st) of
       (_, sessions, pool) \<Rightarrow> st\<lparr>bk_sessions := sessions, bk_pool := pool\<rparr>)"

definition handle_packet ::
    "'c channel_ops \<Rightarrow> conn_io \<Rightarrow> Packet \<Rightarrow> nat \<Rightarrow> 'c BrokerState \<Rightarrow> ('c, unit) handled" where
  "handle_packet ops io packet r st =
    (let session_id = se_id (bk_sessions st ! r) in
     case packet of
       Pkt_PingRequest _ \<Rightarrow> write_packet io (Pkt_PingResponse PingResp_default) st (finish ())
     | Pkt_Subscribe p \<Rightarrow>
         run (handle_subscribe p session_id st) st (\<lambda>(suback, st). write_packet io (Pkt_SubAck suback) st (finish ()))
     | Pkt_Unsubscribe p \<Rightarrow>
         run (handle_unsubscribe p session_id st) st (\<lambda>(unsuback, st).
           write_packet io (Pkt_UnsubAck unsuback) st (finish ()))
     | Pkt_Publish publish \<Rightarrow>
         run (Publish_qos publish) st (\<lambda>qos.
           if qos = AtLeastOnce then
             (case pu_packet_id publish of
                Some packet_id \<Rightarrow>
                  write_packet io (Pkt_PubAck (PubResp_new_puback_with_packet_id packet_id)) st (\<lambda>st.
                    run (route_publish ops publish session_id st) st (finish ()))
              | None \<Rightarrow>
                  write_packet io (Pkt_Disconnect (Disconnect_new R_MalformedPacket)) st (\<lambda>st.
                    (Err (BE_Codec MqttCodecError_new), st, [])))
           else run (route_publish ops publish session_id st) st (finish ()))
     | Pkt_PubAck puback \<Rightarrow> finish () (upd_session r (\<lambda>s. snd (Session_acknowledge (pr_packet_id puback) s)) st)
     | Pkt_Disconnect p \<Rightarrow>
         run (if dc_reason p = R_Success then Ok (upd_session r Session_clear_will st) else initiate_will ops r st) st
           (\<lambda>st. finish () (deactivate_session (se_id (bk_sessions st ! r)) st))
     | _ \<Rightarrow> finish () st)"

section \<open>The connection loop\<close>

text \<open>
  The variables of \<open>handle_client\<close>. Each branch of its \<open>select!\<close> is a function from them to their new
  value, \<open>None\<close> when the loop returns.
\<close>

record Conn =
  cn_connected :: bool
  cn_session :: "nat option"
  cn_control :: "nat option"
  cn_keep_alive :: nat

definition Conn_init :: Conn where
  "Conn_init = \<lparr>cn_connected = False, cn_session = None, cn_control = None, cn_keep_alive = DEFAULT_KEEP_ALIVE\<rparr>"

definition on_control :: "conn_io \<Rightarrow> SessionControl \<Rightarrow> Conn \<Rightarrow> 'c BrokerState \<Rightarrow> ('c, Conn option) handled" where
  "on_control io control cn st =
    (case control of
       SC_Disconnect reason \<Rightarrow>
         (case cn_session cn of
            Some r \<Rightarrow>
              (let st = (if reason = R_SessionTakeOver then st
                         else deactivate_session (se_id (bk_sessions st ! r)) st)
               in write_packet io (Pkt_Disconnect (Disconnect_new reason)) st (finish (Some cn)))
          | None \<Rightarrow> if io_shutdown io then finish None st else (Err BE_Io, st, []))
     | SC_Deliver publish \<Rightarrow> write_packet io (Pkt_Publish publish) st (finish (Some cn)))"

text \<open>What the branches for an expired keep-alive, a closed connection and a read error share.\<close>

definition abandon :: "'c channel_ops \<Rightarrow> nat \<Rightarrow> 'c BrokerState \<Rightarrow> (BrokerError, 'c BrokerState) res" where
  "abandon ops r st =
    (let session_id = se_id (bk_sessions st ! r) in
     bind (initiate_will ops r st) (\<lambda>st. Ok (deactivate_session session_id st)))"

definition on_keep_alive :: "'c channel_ops \<Rightarrow> conn_io \<Rightarrow> Conn \<Rightarrow> 'c BrokerState \<Rightarrow> ('c, Conn option) handled" where
  "on_keep_alive ops io cn st =
    (case cn_session cn of
       Some r \<Rightarrow> run (abandon ops r st) st (finish (Some cn))
     | None \<Rightarrow> if io_shutdown io then finish None st else (Err BE_Io, st, []))"

fun redeliver :: "conn_io \<Rightarrow> nat \<Rightarrow> (u16 \<times> Publish) list \<Rightarrow> 'c BrokerState \<Rightarrow> ('c, unit) handled" where
  "redeliver io r [] st = finish () st"
| "redeliver io r ((packet_id, publish) # pending) st =
    run (ignore_err (Publish_set_dup publish True) publish) st (\<lambda>publish.
    run (ignore_err (Publish_set_packet_id publish (Some packet_id)) publish) st (\<lambda>publish.
      write_packet io (Pkt_Publish publish) (upd_session r (Session_track_qos_publish packet_id publish) st)
        (redeliver io r pending)))"

text \<open>A handler followed by the rest of the branch.\<close>

definition and_then :: "('c, 'a) handled \<Rightarrow> ('a \<Rightarrow> 'c BrokerState \<Rightarrow> ('c, 'b) handled) \<Rightarrow> ('c, 'b) handled" where
  "and_then h k =
    (case h of
       (Ok x, st, out) \<Rightarrow> (case k x st of (r, st, out') \<Rightarrow> (r, st, out @ out'))
     | (Err e, st, out) \<Rightarrow> (Err e, st, out)
     | (Panic, st, out) \<Rightarrow> (Panic, st, out))"

text \<open>The client is served by session \<open>r\<close> from here on.\<close>

definition serve :: "conn_io \<Rightarrow> nat \<Rightarrow> Conn \<Rightarrow> 'c BrokerState \<Rightarrow> ('c, Conn option) handled" where
  "serve io r cn st =
    (let s = bk_sessions st ! r;
         (control, s) = Session_take_control_receiver s;
         (pending, s) = Session_drain_pending (io_rank io) s;
         st = upd_session r (\<lambda>_. s) st
     in and_then (redeliver io r pending st) (\<lambda>_.
          finish (Some (cn\<lparr>cn_connected := True, cn_session := Some r, cn_control := control,
                          cn_keep_alive := se_keep_alive s\<rparr>))))"

definition on_packet ::
    "'c channel_ops \<Rightarrow> conn_io \<Rightarrow> nat \<Rightarrow> string \<Rightarrow> Packet \<Rightarrow> Conn \<Rightarrow> 'c BrokerState \<Rightarrow> ('c, Conn option) handled" where
  "on_packet ops io now uuid packet cn st =
    (if \<not> cn_connected cn then
       and_then (handle_pre_connect ops io now uuid packet st) (\<lambda>session.
         case session of Some r \<Rightarrow> serve io r cn | None \<Rightarrow> finish (Some cn))
     else
       (case cn_session cn of
          Some r \<Rightarrow> and_then (handle_packet ops io packet r st) (\<lambda>_. finish (Some cn))
        | None \<Rightarrow> finish (Some cn) st))"

definition on_eof :: "'c channel_ops \<Rightarrow> Conn \<Rightarrow> 'c BrokerState \<Rightarrow> ('c, Conn option) handled" where
  "on_eof ops cn st =
    (case cn_session cn of
       Some r \<Rightarrow> run (abandon ops r st) st (finish None)
     | None \<Rightarrow> finish None st)"

definition on_error :: "'c channel_ops \<Rightarrow> Conn \<Rightarrow> 'c BrokerState \<Rightarrow> ('c, Conn option) handled" where
  "on_error ops cn st =
    (case cn_session cn of
       Some r \<Rightarrow> run (abandon ops r st) st (\<lambda>st. (Err BE_Stream, st, []))
     | None \<Rightarrow> (Err BE_Stream, st, []))"

text \<open>The commands of the accept loop; \<open>None\<close> when it returns.\<close>

definition apply_command :: "BrokerCommand \<Rightarrow> 'c BrokerState \<Rightarrow> 'c BrokerState option" where
  "apply_command cmd st =
    (case cmd of
       Stop \<Rightarrow> None
     | PauseAccept \<Rightarrow> Some (st\<lparr>bk_accept := False\<rparr>)
     | ResumeAccept \<Rightarrow> Some (st\<lparr>bk_accept := True\<rparr>)
     | SetSessionExpiry expiration \<Rightarrow> Some (st\<lparr>bk_pool := SessionPool_set_session_expiry expiration (bk_pool st)\<rparr>))"

text \<open>The task of \<open>initiate_will\<close> when its delay has passed and it was not cancelled.\<close>

definition will_task :: "'c channel_ops \<Rightarrow> nat \<Rightarrow> 'c BrokerState \<Rightarrow> (BrokerError, 'c BrokerState) res" where
  "will_task ops i st =
    (case bk_wills st ! i of (will, delay, over) \<Rightarrow>
       if over then Ok st
       else publish_will ops will (st\<lparr>bk_wills := (bk_wills st)[i := (will, delay, True)]\<rparr>))"

end
