(* ===== verification/Broker_Routing.thy ===== *)
theory Broker_Routing
  imports Broker
begin

text \<open>
  What routing a message does to the broker: the frame of the handlers that touch neither the pool nor
  the subscriptions, the content of what is handed to a session, and the promise that a message of
  QoS 1 or 2 is recorded for every active matching subscriber until it is acknowledged.
\<close>

section \<open>Frame\<close>

text \<open>An entry of \<open>pending_ack\<close>: a QoS 1 or 2 message that carries the identifier it is filed under.\<close>

fun tracked_ok :: "u16 \<times> Publish \<Rightarrow> bool" where
  "tracked_ok (pid, p) \<longleftrightarrow> pid \<noteq> 0 \<and> pu_packet_id p = Some pid \<and> (has_qos p AtLeastOnce \<or> has_qos p ExactlyOnce)"

definition session_ok :: "Session \<Rightarrow> bool" where
  "session_ok s \<longleftrightarrow> se_next_packet_id s \<noteq> 0 \<and> distinct (map fst (se_pending_ack s)) \<and>
    (\<forall>e \<in> set (se_pending_ack s). tracked_ok e)"

definition sessions_ok :: "'c BrokerState \<Rightarrow> bool" where
  "sessions_ok st \<longleftrightarrow> (\<forall>s \<in> set (bk_sessions st). session_ok s)"

text \<open>What a handler that neither connects, disconnects nor (un)subscribes leaves alone.\<close>

definition evolves :: "'c BrokerState \<Rightarrow> 'c BrokerState \<Rightarrow> bool" where
  "evolves st st' \<longleftrightarrow> bk_config st' = bk_config st \<and> bk_pool st' = bk_pool st \<and> bk_tree st' = bk_tree st \<and>
    bk_accept st' = bk_accept st \<and> store_keeps (bk_sessions st) (bk_sessions st') \<and>
    (sessions_ok st \<longrightarrow> sessions_ok st')"

lemma evolves_refl [simp]: "evolves st st"
  by (simp add: evolves_def)

lemma evolves_trans [trans]: "evolves a b \<Longrightarrow> evolves b c \<Longrightarrow> evolves a c"
  by (auto simp: evolves_def intro: store_keeps_trans)

lemma evolves_channels [simp]: "evolves st (st\<lparr>bk_channels := c\<rparr>)"
  by (simp add: evolves_def sessions_ok_def)

lemma evolves_wills [simp]: "evolves st (st\<lparr>bk_wills := w\<rparr>)"
  by (simp add: evolves_def sessions_ok_def)

lemma bk_sessions_upd [simp]:
  "bk_sessions (upd_session r f st) = (bk_sessions st)[r := f (bk_sessions st ! r)]"
  "bk_pool (upd_session r f st) = bk_pool st" "bk_tree (upd_session r f st) = bk_tree st"
  "bk_config (upd_session r f st) = bk_config st" "bk_accept (upd_session r f st) = bk_accept st"
  "bk_channels (upd_session r f st) = bk_channels st" "bk_wills (upd_session r f st) = bk_wills st"
  by (simp_all add: upd_session_def)

lemma evolves_upd_session:
  assumes "\<And>s. s = bk_sessions st ! r \<Longrightarrow> se_id (f s) = se_id s \<and> se_connected (f s) = se_connected s"
    and "r < length (bk_sessions st) \<Longrightarrow> session_ok (bk_sessions st ! r) \<Longrightarrow> session_ok (f (bk_sessions st ! r))"
  shows "evolves st (upd_session r f st)"
proof (cases "r < length (bk_sessions st)")
  case True
  have "store_keeps (bk_sessions st) ((bk_sessions st)[r := f (bk_sessions st ! r)])"
    using assms(1) by (intro store_keeps_upd) simp_all
  moreover have "sessions_ok st \<longrightarrow> sessions_ok (upd_session r f st)"
    using assms(2) True set_update_subset_insert [of "bk_sessions st" r "f (bk_sessions st ! r)"]
    by (auto simp: sessions_ok_def)
  ultimately show ?thesis by (simp add: evolves_def)
next
  case False
  then have "upd_session r f st = st" by (simp add: upd_session_def list_update_beyond)
  then show ?thesis by simp
qed

text \<open>The updates of single sessions that keep \<open>session_ok\<close>, the identifier and the \<open>connected\<close> flag.\<close>

lemma session_ok_next: "session_ok s \<Longrightarrow> session_ok (snd (Session_next_packet_id s))"
  by (simp add: session_ok_def Session_next_packet_id_def Let_def)

lemma session_ok_acknowledge: "session_ok s \<Longrightarrow> session_ok (snd (Session_acknowledge pid s))"
  using set_delete_subset [of pid "se_pending_ack s"]
  by (auto simp: session_ok_def Session_acknowledge_def distinct_delete simp del: tracked_ok.simps)

lemma session_ok_track:
  assumes "session_ok s" and "tracked_ok (pid, p)"
  shows "session_ok (Session_track_qos_publish pid p s)"
  using assms set_update_subset [of pid p "se_pending_ack s"]
  by (auto simp: session_ok_def Session_track_qos_publish_def distinct_update simp del: tracked_ok.simps)

lemma session_ok_fields:
  "session_ok (s\<lparr>se_will_message := w\<rparr>) = session_ok s" "session_ok (s\<lparr>se_pending_will := t\<rparr>) = session_ok s"
  "session_ok (s\<lparr>se_control := c\<rparr>) = session_ok s" "session_ok (s\<lparr>se_last_active := n\<rparr>) = session_ok s"
  "session_ok (s\<lparr>se_session_expiry := e\<rparr>) = session_ok s" "session_ok (s\<lparr>se_connected := b\<rparr>) = session_ok s"
  "session_ok (s\<lparr>se_keep_alive := k\<rparr>) = session_ok s"
  by (simp_all add: session_ok_def)

lemma evolves_send_control [simp]: "evolves st (send_control ops r msg st)"
  by (simp add: send_control_def Let_def)

lemma evolves_try_send_control: "try_send_control ops r msg st = (b, st') \<Longrightarrow> evolves st st'"
  by (auto simp: try_send_control_def Let_def split: option.splits)

lemma deliver_cases: "deliver ops r out st = st \<or> (\<exists>c. deliver ops r out st = st\<lparr>bk_channels := c\<rparr>)"
  by (auto simp: deliver_def try_send_control_def Let_def split: option.splits)

lemma deliver_frame [simp]:
  "bk_sessions (deliver ops r out st) = bk_sessions st" "bk_pool (deliver ops r out st) = bk_pool st"
  "bk_tree (deliver ops r out st) = bk_tree st" "bk_config (deliver ops r out st) = bk_config st"
  using deliver_cases [of ops r out st] by auto

lemma evolves_deliver [simp]: "evolves st (deliver ops r out st)"
  using deliver_cases [of ops r out st] by auto

lemma evolves_cancel_will [simp]: "evolves st (cancel_will token st)"
  by (simp add: cancel_will_def split: option.splits)

lemma cancel_will_frame [simp]:
  "bk_sessions (cancel_will token st) = bk_sessions st" "bk_pool (cancel_will token st) = bk_pool st"
  "bk_tree (cancel_will token st) = bk_tree st" "bk_channels (cancel_will token st) = bk_channels st"
  by (simp_all add: cancel_will_def split: option.splits)

lemma evolves_cancel_pending_will [simp]: "evolves st (cancel_pending_will r st)"
  unfolding cancel_pending_will_def
  by (rule evolves_trans [OF evolves_upd_session evolves_cancel_will])
    (simp_all add: Session_cancel_pending_will_def session_ok_fields)

section \<open>One subscriber\<close>

text \<open>
  What one subscriber of an active session \<open>r\<close> gets at the granted level \<open>q\<close>: at level 0 the message as
  it is, otherwise the message under the next identifier of the session, which is recorded as pending.
\<close>

definition route_one :: "'c channel_ops \<Rightarrow> Publish \<Rightarrow> QoSLevel \<Rightarrow> nat \<Rightarrow> 'c BrokerState \<Rightarrow> 'c BrokerState" where
  "route_one ops publish q r st =
    (if q = AtMostOnce then deliver ops r (Publish_set_qos publish q) st
     else
       (let pid = se_next_packet_id (bk_sessions st ! r);
            out = (Publish_set_qos publish q)\<lparr>pu_packet_id := Some pid\<rparr>
        in deliver ops r out
             (upd_session r (\<lambda>s. Session_track_qos_publish pid out (snd (Session_next_packet_id s))) st)))"

lemma upd_session_twice: "upd_session r g (upd_session r f st) = upd_session r (\<lambda>s. g (f s)) st"
proof (cases "r < length (bk_sessions st)")
  case False
  then show ?thesis by (simp add: upd_session_def list_update_beyond)
qed (simp add: upd_session_def)

lemma route_to_eq:
  assumes "has_qos publish q"
  shows "route_to ops publish sender sub st = Ok
    (if sb_no_local sub \<and> sb_session_id sub = sender then st
     else case SessionPool_get_active (sb_session_id sub) (bk_pool st) of
       None \<Rightarrow> st | Some r \<Rightarrow> route_one ops publish (min q (sb_qos sub)) r st)"
proof -
  have out: "Publish_set_packet_id (Publish_set_qos publish g) (Some pid) =
      Ok ((Publish_set_qos publish g)\<lparr>pu_packet_id := Some pid\<rparr>)" if "g \<noteq> AtMostOnce" for g pid
    by (rule set_packet_id_qos [of _ g]) (use that in simp_all)
  have pid: "fst (Session_next_packet_id s) = se_next_packet_id s" for s
    by (simp add: Session_next_packet_id_def Let_def)
  show ?thesis
    unfolding route_to_def has_qos_any [OF assms] bind.simps
    by (simp add: granted_min Let_def route_one_def out ignore_err_def upd_session_twice pid split: option.splits)
qed

lemma session_ok_route:
  assumes "session_ok s" and "q \<noteq> AtMostOnce"
  defines "pid \<equiv> se_next_packet_id s"
  shows "session_ok (Session_track_qos_publish pid ((Publish_set_qos p q)\<lparr>pu_packet_id := Some pid\<rparr>)
    (snd (Session_next_packet_id s)))"
proof (rule session_ok_track [OF session_ok_next [OF assms(1)]])
  have "pid \<noteq> 0" using assms(1) by (simp add: session_ok_def pid_def)
  then show "tracked_ok (pid, (Publish_set_qos p q)\<lparr>pu_packet_id := Some pid\<rparr>)"
    using assms(2) by (cases q) simp_all
qed

lemma evolves_route_one: "evolves st (route_one ops publish q r st)"
proof (cases "q = AtMostOnce")
  case False
  let ?pid = "se_next_packet_id (bk_sessions st ! r)"
  let ?out = "(Publish_set_qos publish q)\<lparr>pu_packet_id := Some ?pid\<rparr>"
  have "evolves st (upd_session r (\<lambda>s. Session_track_qos_publish ?pid ?out (snd (Session_next_packet_id s))) st)"
    by (rule evolves_upd_session)
      (simp_all add: session_ok_route False, simp_all add: Session_track_qos_publish_def Session_next_packet_id_def Let_def)
  from evolves_trans [OF this evolves_deliver] False show ?thesis by (simp add: route_one_def Let_def)
qed (simp add: route_one_def)

section \<open>All subscribers\<close>

text \<open>The sequence of routings, without results.\<close>

fun route_list :: "'c channel_ops \<Rightarrow> Publish \<Rightarrow> QoSLevel \<Rightarrow> string \<Rightarrow> Subscriber list \<Rightarrow> 'c BrokerState \<Rightarrow> 'c BrokerState" where
  "route_list ops publish q sender [] st = st"
| "route_list ops publish q sender (sub # subs) st =
    route_list ops publish q sender subs
      (if sb_no_local sub \<and> sb_session_id sub = sender then st
       else case SessionPool_get_active (sb_session_id sub) (bk_pool st) of
         None \<Rightarrow> st | Some r \<Rightarrow> route_one ops publish (min q (sb_qos sub)) r st)"

lemma route_all_eq: "has_qos publish q \<Longrightarrow> route_all ops publish sender subs st = Ok (route_list ops publish q sender subs st)"
  by (induction subs arbitrary: st) (simp_all add: route_to_eq)

lemma evolves_route_list: "evolves st (route_list ops publish q sender subs st)"
proof (induction subs arbitrary: st)
  case (Cons sub subs)
  show ?case
    by (simp add: Cons.IH split: option.split) (blast intro: evolves_trans [OF evolves_route_one Cons.IH])
qed simp

lemma route_publish_ok:
  assumes "has_qos publish q" and "tree_inv (bk_tree st)"
  obtains subs where "matching_subscribers (bk_tree st) (pu_topic_name publish) = (Ok subs :: (BrokerError, Subscriber list) res)"
    and "route_publish ops publish sender st = Ok (route_list ops publish q sender subs st)"
proof -
  from matching_subscribers_total [OF assms(2)] obtain subs where
    "matching_subscribers (bk_tree st) (pu_topic_name publish) = (Ok subs :: (BrokerError, Subscriber list) res)" by blast
  with that show ?thesis by (simp add: route_publish_def route_all_eq [OF assms(1)])
qed

lemma qos_cases: "(\<exists>q. has_qos p q) \<or> Publish_qos p = Panic"
  by (cases "QoSLevel_try_from (drop_bit 1 (fh_flags (pu_fixed_header p) AND QOS_MASK))")
    (simp_all add: has_qos_def Publish_qos_def FixedHeader_qos_def)

text \<open>Routing is a sequence of deliveries to single subscribers, so it keeps what each of them keeps.\<close>

lemma route_publish_relation:
  assumes "route_publish ops publish sender st = Ok st'" and R: "\<And>s. R s s" "\<And>a b c. R a b \<Longrightarrow> R b c \<Longrightarrow> R a c"
    and one: "\<And>s q r. R s (route_one ops publish q r s)"
  shows "R st st'"
proof -
  have to: "R s s'" if "route_to ops publish sender sub s = Ok s'" for sub s s'
  proof (cases "\<exists>q. has_qos publish q")
    case True
    then obtain q where q: "has_qos publish q" by blast
    with that show ?thesis using R(1) one by (auto simp: route_to_eq [OF q] split: if_splits option.splits)
  next
    case False
    then have "Publish_qos publish = (Panic :: (BrokerError, QoSLevel) res)" using qos_cases by blast
    with that show ?thesis using R(1) by (simp add: route_to_def split: if_splits)
  qed
  have "R s s'" if "route_all ops publish sender subs s = Ok s'" for subs s s'
    using that by (induction subs arbitrary: s) (auto simp: R(1) dest!: to intro: R(2))
  then show ?thesis using assms(1) by (auto simp: route_publish_def)
qed

lemma evolves_route_publish: "route_publish ops publish sender st = Ok st' \<Longrightarrow> evolves st st'"
  by (erule route_publish_relation) (auto intro: evolves_route_one evolves_trans)

text \<open>The parts of a session that routing does not touch.\<close>

lemma route_publish_fields:
  assumes "route_publish ops publish sender st = Ok st'"
    and f: "\<And>pid p s. f (Session_track_qos_publish pid p s) = f s" "\<And>s. f (snd (Session_next_packet_id s)) = f s"
  shows "map f (bk_sessions st') = map f (bk_sessions st)"
  using assms(1)
proof (rule route_publish_relation [where R = "\<lambda>s s'. map f (bk_sessions s') = map f (bk_sessions s)"])
  fix s :: "'a BrokerState" and q r
  let ?g = "\<lambda>pid out s. Session_track_qos_publish pid out (snd (Session_next_packet_id s))"
  have "map f (l[r := ?g pid out (l ! r)]) = map f l" for l pid out
    by (cases "r < length l") (simp_all add: map_update f list_update_beyond list_update_same_conv)
  then show "map f (bk_sessions (route_one ops publish q r s)) = map f (bk_sessions s)"
    by (simp add: route_one_def Let_def)
qed simp_all

lemma route_publish_frame:
  assumes "route_publish ops publish sender st = Ok st'"
  shows "length (bk_sessions st') = length (bk_sessions st)" "bk_wills st' = bk_wills st"
proof -
  show "length (bk_sessions st') = length (bk_sessions st)"
    using route_publish_fields [OF assms, of "\<lambda>_. ()"] by (metis length_map)
  have "bk_wills (deliver ops r out s) = bk_wills s" for r out and s :: "'a BrokerState"
    using deliver_cases [of ops r out s] by auto
  then show "bk_wills st' = bk_wills st"
    by (intro route_publish_relation [OF assms, where R = "\<lambda>s s'. bk_wills s' = bk_wills s"]) (simp_all add: route_one_def Let_def)
qed

section \<open>Wills\<close>

lemma will_publish_qos [simp]: "has_qos (will_publish will) (wm_qos will)"
  by (auto simp: will_publish_def Let_def has_qos_def Publish_qos_def Publish_set_qos_def Publish_set_retain_def
      Publish_set_payload_format_def split: option.splits)

lemma evolves_initiate_will: "initiate_will ops r st = Ok st' \<Longrightarrow> evolves st st'"
proof -
  assume i: "initiate_will ops r st = Ok st'"
  have s: "evolves st (upd_session r (\<lambda>s. snd (Session_take_will s)) st)" (is "evolves st ?st")
    by (rule evolves_upd_session) (simp_all add: Session_take_will_def session_ok_fields)
  have p: "evolves st0 (upd_session r (\<lambda>s. snd (Session_set_pending_will token s)) st0)" for st0 :: "'a BrokerState" and token
    by (rule evolves_upd_session)
      (simp_all add: Session_set_pending_will_def Session_cancel_pending_will_def session_ok_fields)
  show ?thesis
  proof (cases "fst (Session_take_will (bk_sessions st ! r))")
    case None
    with i s show ?thesis by (simp add: initiate_will_def)
  next
    case (Some will)
    let ?d = "case wh_will_delay (wm_header will) of Some d \<Rightarrow> d | None \<Rightarrow> 0"
    show ?thesis
    proof (cases "?d = 0")
      case True
      with i Some have "publish_will ops will ?st = Ok st'" by (simp add: initiate_will_def Let_def)
      then show ?thesis using evolves_trans [OF s evolves_route_publish] by (simp add: publish_will_def)
    next
      case False
      let ?st2 = "?st\<lparr>bk_wills := bk_wills ?st @ [(will, unat ?d, False)]\<rparr>"
      let ?st3 = "cancel_will (fst (Session_set_pending_will (length (bk_wills ?st)) (bk_sessions ?st2 ! r))) ?st2"
      have "st' = upd_session r (\<lambda>s. snd (Session_set_pending_will (length (bk_wills ?st)) s)) ?st3"
        using i Some False by (simp add: initiate_will_def Let_def)
      then show ?thesis
        using evolves_trans [OF s evolves_trans [OF evolves_wills evolves_trans [OF evolves_cancel_will p]]] by simp
    qed
  qed
qed

lemma initiate_will_total:
  assumes "tree_inv (bk_tree st)"
  shows "\<exists>st'. initiate_will ops r st = Ok st'"
proof (cases "fst (Session_take_will (bk_sessions st ! r))")
  case (Some will)
  let ?st = "upd_session r (\<lambda>s. snd (Session_take_will s)) st"
  have "\<exists>st'. publish_will ops will ?st = Ok st'"
    using route_publish_ok [OF will_publish_qos, of ?st will ops "[]"] assms by (auto simp: publish_will_def)
  with Some show ?thesis by (simp add: initiate_will_def Let_def)
qed (simp add: initiate_will_def)

section \<open>Nothing owed to a subscriber is forgotten\<close>

text \<open>How many identifiers a session hands out before \<open>a\<close>, when \<open>b\<close> is the next one.\<close>

definition id_dist :: "nat \<Rightarrow> nat \<Rightarrow> nat" where
  "id_dist a b = (if b \<le> a then a - b else a + 65535 - b)"

lemma next_packet_id_facts:
  assumes "session_ok s"
  shows "1 \<le> unat (se_next_packet_id s)" "unat (se_next_packet_id s) \<le> 65535"
    "unat (se_next_packet_id (snd (Session_next_packet_id s))) = unat (se_next_packet_id s) mod 65535 + 1"
proof -
  have "se_next_packet_id s \<noteq> 0" using assms by (simp add: session_ok_def)
  then show "1 \<le> unat (se_next_packet_id s)"
    "unat (se_next_packet_id (snd (Session_next_packet_id s))) = unat (se_next_packet_id s) mod 65535 + 1"
    by (simp_all add: Session_next_packet_id_cycle Suc_le_eq unat_gt_0)
  show "unat (se_next_packet_id s) \<le> 65535" using unat_u16_less [of "se_next_packet_id s"] by simp
qed

lemma id_dist_step:
  assumes "1 \<le> a" "a \<le> 65535" "1 \<le> b" "b \<le> 65535" "0 < id_dist a b"
  shows "a \<noteq> b" "Suc (id_dist a (b mod 65535 + 1)) = id_dist a b"
  using assms by (cases "b = 65535"; auto simp: id_dist_def split: if_splits)+

lemma id_dist_issued: "1 \<le> a \<Longrightarrow> a \<le> 65535 \<Longrightarrow> id_dist a (a mod 65535 + 1) = 65534"
  by (cases "a = 65535") (auto simp: id_dist_def)

text \<open>A recorded message stays recorded while its identifier is not handed out again.\<close>

definition pending_in :: "'c BrokerState \<Rightarrow> nat \<Rightarrow> u16 \<Rightarrow> Publish option" where
  "pending_in st r pid = map_of (se_pending_ack (bk_sessions st ! r)) pid"

definition next_in :: "'c BrokerState \<Rightarrow> nat \<Rightarrow> nat" where
  "next_in st r = unat (se_next_packet_id (bk_sessions st ! r))"

lemma route_one_other:
  assumes "r' \<noteq> r \<or> q = AtMostOnce"
  shows "bk_sessions (route_one ops publish q r' st) ! r = bk_sessions st ! r"
  using assms by (auto simp: route_one_def Let_def)

lemma route_one_same:
  assumes "q \<noteq> AtMostOnce" and "r < length (bk_sessions st)"
  defines "pid \<equiv> se_next_packet_id (bk_sessions st ! r)"
  shows "bk_sessions (route_one ops publish q r st) ! r =
    Session_track_qos_publish pid ((Publish_set_qos publish q)\<lparr>pu_packet_id := Some pid\<rparr>)
      (snd (Session_next_packet_id (bk_sessions st ! r)))"
  using assms by (simp add: route_one_def Let_def)

lemma track_fields:
  "map_of (se_pending_ack (Session_track_qos_publish pid p (snd (Session_next_packet_id s)))) =
    (map_of (se_pending_ack s))(pid \<mapsto> p)"
  "se_next_packet_id (Session_track_qos_publish pid p s') = se_next_packet_id s'"
  by (simp_all add: Session_track_qos_publish_def Session_next_packet_id_def Let_def AList.update_conv')

lemma route_one_keeps:
  assumes ok: "session_ok (bk_sessions st ! r)" and r: "r < length (bk_sessions st)"
    and p: "pending_in st r pid = Some out" "pid \<noteq> 0" and d: "0 < id_dist (unat pid) (next_in st r)"
  shows "pending_in (route_one ops publish q r' st) r pid = Some out"
    and "id_dist (unat pid) (next_in st r) \<le> Suc (id_dist (unat pid) (next_in (route_one ops publish q r' st) r))"
proof -
  let ?s = "bk_sessions st ! r"
  note n = next_packet_id_facts [OF ok]
  have u: "1 \<le> unat pid" "unat pid \<le> 65535"
    using p(2) unat_u16_less [of pid] by (simp_all add: Suc_le_eq unat_gt_0)
  have dd: "unat pid \<noteq> unat (se_next_packet_id ?s)"
    "Suc (id_dist (unat pid) (unat (se_next_packet_id ?s) mod 65535 + 1)) = id_dist (unat pid) (unat (se_next_packet_id ?s))"
    using id_dist_step [OF u n(1,2)] d by (simp_all add: next_in_def)
  show "pending_in (route_one ops publish q r' st) r pid = Some out"
    using p dd(1) route_one_other [of r' r q ops publish st] r
    by (cases "r' \<noteq> r \<or> q = AtMostOnce") (auto simp: pending_in_def route_one_same track_fields)
  show "id_dist (unat pid) (next_in st r) \<le> Suc (id_dist (unat pid) (next_in (route_one ops publish q r' st) r))"
    using dd(2) route_one_other [of r' r q ops publish st] r n(3)
    by (cases "r' \<noteq> r \<or> q = AtMostOnce") (auto simp: next_in_def route_one_same track_fields)
qed

lemma evolvesD:
  assumes "evolves st st'"
  shows "sessions_ok st \<Longrightarrow> sessions_ok st'" "length (bk_sessions st) \<le> length (bk_sessions st')"
    "bk_pool st' = bk_pool st" "bk_tree st' = bk_tree st" "bk_config st' = bk_config st" "bk_accept st' = bk_accept st"
    "store_keeps (bk_sessions st) (bk_sessions st')"
  using assms by (auto simp: evolves_def store_keeps_def)

lemma sessions_okD: "sessions_ok st \<Longrightarrow> r < length (bk_sessions st) \<Longrightarrow> session_ok (bk_sessions st ! r)"
  by (simp add: sessions_ok_def)

lemma route_list_keeps:
  assumes "sessions_ok st" and "r < length (bk_sessions st)" and "pending_in st r pid = Some out" and "pid \<noteq> 0"
    and "length subs \<le> id_dist (unat pid) (next_in st r)"
  shows "pending_in (route_list ops publish q sender subs st) r pid = Some out"
  using assms
proof (induction subs arbitrary: st)
  case (Cons sub subs)
  let ?st = "\<lambda>r'. route_one ops publish (min q (sb_qos sub)) r' st"
  have ok: "session_ok (bk_sessions st ! r)" using Cons.prems by (simp add: sessions_okD)
  have d: "0 < id_dist (unat pid) (next_in st r)" using Cons.prems(5) by simp
  have stay: "pending_in (route_list ops publish q sender subs st) r pid = Some out"
    using Cons by simp
  have go: "pending_in (route_list ops publish q sender subs (?st r')) r pid = Some out" for r'
  proof (rule Cons.IH)
    note e = evolvesD [OF evolves_route_one [of st ops publish "min q (sb_qos sub)" r']]
    show "sessions_ok (?st r')" "r < length (bk_sessions (?st r'))" using e Cons.prems(1,2) by simp_all
    note k = route_one_keeps [OF ok Cons.prems(2-4) d, of ops publish "min q (sb_qos sub)" r']
    show "pending_in (?st r') r pid = Some out" by (rule k(1))
    show "length subs \<le> id_dist (unat pid) (next_in (?st r') r)" using k(2) Cons.prems(5) by simp
  qed (rule Cons.prems)
  show ?case using stay go by (simp split: option.split)
qed simp

lemma route_list_tracks:
  assumes "sessions_ok st" and "pool_inv (bk_sessions st) (bk_pool st)" and "sub \<in> set subs" and "length subs \<le> 65535"
    and "SessionPool_get_active (sb_session_id sub) (bk_pool st) = Some r"
    and "\<not> (sb_no_local sub \<and> sb_session_id sub = sender)" and "min q (sb_qos sub) \<noteq> AtMostOnce"
  shows "\<exists>pid. pid \<noteq> 0 \<and> pending_in (route_list ops publish q sender subs st) r pid =
    Some ((Publish_set_qos publish (min q (sb_qos sub)))\<lparr>pu_packet_id := Some pid\<rparr>)"
  using assms(1-5)
proof (induction subs arbitrary: st)
  case (Cons s subs)
  have r: "r < length (bk_sessions st)"
    using pool_invD(6) [OF Cons.prems(2)] Cons.prems(5) by (auto simp: SessionPool_get_active_def)
  show ?case
  proof (cases "s = sub")
    case True
    let ?st = "route_one ops publish (min q (sb_qos sub)) r st"
    let ?pid = "se_next_packet_id (bk_sessions st ! r)"
    note n = next_packet_id_facts [OF sessions_okD [OF Cons.prems(1) r]]
    note e = evolvesD [OF evolves_route_one [of st ops publish "min q (sb_qos sub)" r]]
    have "pending_in (route_list ops publish q sender subs ?st) r ?pid =
        Some ((Publish_set_qos publish (min q (sb_qos sub)))\<lparr>pu_packet_id := Some ?pid\<rparr>)"
    proof (rule route_list_keeps)
      show "length subs \<le> id_dist (unat ?pid) (next_in ?st r)"
        using Cons.prems(4) n id_dist_issued [OF n(1,2)]
        by (simp add: next_in_def route_one_same [OF assms(7) r] track_fields)
    qed (use e Cons.prems(1) r n(1) in \<open>auto simp: pending_in_def route_one_same [OF assms(7) r] track_fields\<close>)
    moreover have "?pid \<noteq> 0" using n(1) by auto
    ultimately show ?thesis
      using True assms(6) Cons.prems(5) by auto
  next
    case False
    have go: "\<exists>pid. pid \<noteq> 0 \<and> pending_in (route_list ops publish q sender subs st') r pid =
        Some ((Publish_set_qos publish (min q (sb_qos sub)))\<lparr>pu_packet_id := Some pid\<rparr>)" if "evolves st st'" for st'
      using Cons.IH [of st'] Cons.prems False evolvesD [OF that] pool_inv_store [OF Cons.prems(2)] by simp
    show ?thesis
      using go [OF evolves_refl] go [OF evolves_route_one] by (simp split: option.split)
  qed
qed simp

end
