(* ===== verification/Broker_Connect.thy ===== *)
theory Broker_Connect
  imports Broker_Routing
begin

text \<open>
  The invariant of the broker state and the handlers that change the session pool: connecting, resuming,
  taking over, disconnecting; and the handlers that change the subscriptions.
\<close>

section \<open>The invariant\<close>

text \<open>\<open>room st n\<close>: \<open>n\<close> more sessions may be active.\<close>

definition room :: "'c BrokerState \<Rightarrow> nat \<Rightarrow> bool" where
  "room st n \<longleftrightarrow> (case cf_max_active_sessions (bk_config st) of
    Some limit \<Rightarrow> active_count (bk_pool st) + n \<le> unat limit | None \<Rightarrow> True)"

definition broker_inv :: "'c BrokerState \<Rightarrow> bool" where
  "broker_inv st \<longleftrightarrow> pool_inv (bk_sessions st) (bk_pool st) \<and> tree_inv (bk_tree st) \<and> sessions_ok st \<and> room st 0"

lemma broker_invD:
  assumes "broker_inv st"
  shows "pool_inv (bk_sessions st) (bk_pool st)" "tree_inv (bk_tree st)" "sessions_ok st" "room st 0"
  using assms by (simp_all add: broker_inv_def)

lemma broker_inv_new: "broker_inv (BrokerState_new config)"
proof -
  have "active_count (SessionPool_new_with_config config) = 0"
    by (simp add: active_count_def SessionPool_new_with_config_def SessionPool_new_with_expiry_def)
  then show ?thesis
    by (simp add: broker_inv_def BrokerState_new_def pool_inv_new tree_inv_new sessions_ok_def room_def split: option.split)
qed

lemma broker_inv_evolves:
  assumes "broker_inv st" and "evolves st st'"
  shows "broker_inv st'"
  using broker_invD [OF assms(1)] evolvesD [OF assms(2)] pool_inv_store [OF _ evolvesD(7) [OF assms(2)]]
  by (simp add: broker_inv_def room_def split: option.splits)

lemma room_capacity:
  assumes "broker_inv st" and "\<not> SessionPool_at_capacity (bk_pool st) (cf_max_active_sessions (bk_config st))"
  shows "room st 1"
proof (cases "cf_max_active_sessions (bk_config st)")
  case (Some limit)
  have "active_count (bk_pool st) \<le> unat limit" using broker_invD(4) [OF assms(1)] Some by (simp add: room_def)
  also have "\<dots> < 2 ^ 32" using unsigned_less [of limit, where ?'a = nat] by simp
  finally have "active_count (bk_pool st) < 2 ^ 32" .
  from at_capacity_count [OF broker_invD(1) [OF assms(1)] this] assms(2) Some show ?thesis by (simp add: room_def)
qed (simp add: room_def)

section \<open>Sessions that start and end\<close>

text \<open>A store whose sessions keep what \<open>session_ok\<close> asks.\<close>

lemma sessions_ok_update:
  "sessions_ok st \<Longrightarrow> (r < length (bk_sessions st) \<Longrightarrow> session_ok s) \<Longrightarrow> sessions_ok (st\<lparr>bk_sessions := (bk_sessions st)[r := s], bk_pool := p\<rparr>)"
  using set_update_subset_insert [of "bk_sessions st" r s]
  by (cases "r < length (bk_sessions st)") (auto simp: sessions_ok_def list_update_beyond)

lemma session_ok_new: "session_ok (Session_new now sid will ka chan)"
  by (simp add: session_ok_def Session_new_def)

lemma broker_inv_deactivate:
  assumes "broker_inv st"
  shows "broker_inv (deactivate_session sid st)"
proof -
  note d = broker_invD [OF assms]
  obtain x ss p where e: "SessionPool_deactivate sid (bk_sessions st) (bk_pool st) = (x, ss, p)" by (metis prod_cases3)
  have "sessions_ok (st\<lparr>bk_sessions := ss, bk_pool := p\<rparr>)"
  proof (cases "sp_active (bk_pool st) sid")
    case None
    with e d(3) show ?thesis by (simp add: SessionPool_deactivate_def sessions_ok_def)
  next
    case (Some r)
    with e have "ss = (bk_sessions st)[r := Session_set_connected False (bk_sessions st ! r)]"
      by (simp add: SessionPool_deactivate_def Let_def)
    moreover have "sessions_ok (st\<lparr>bk_sessions := (bk_sessions st)[r := Session_set_connected False (bk_sessions st ! r)], bk_pool := p\<rparr>)"
      by (rule sessions_ok_update [OF d(3)])
        (simp add: Session_set_connected_def session_ok_fields sessions_okD [OF d(3)])
    ultimately show ?thesis by simp
  qed
  with d pool_inv_deactivate [OF d(1) e] active_count_deactivate [OF d(1) e] show ?thesis
    by (auto simp: deactivate_session_def e broker_inv_def room_def split: option.splits)
qed

lemma deactivate_session_frame [simp]:
  "length (bk_sessions (deactivate_session sid st)) = length (bk_sessions st)"
  "bk_tree (deactivate_session sid st) = bk_tree st" "bk_config (deactivate_session sid st) = bk_config st"
  by (simp_all add: deactivate_session_def SessionPool_deactivate_def Let_def split: option.split)

lemma deactivate_session_inactive:
  assumes "broker_inv st"
  shows "SessionPool_get_active sid (bk_pool (deactivate_session sid st)) = None"
  by (simp add: deactivate_session_def SessionPool_deactivate_def Let_def SessionPool_get_active_def split: option.split)

lemma new_session_spec:
  assumes inv: "pool_inv (bk_sessions st) (bk_pool st)" "tree_inv (bk_tree st)" "sessions_ok st"
    and room: "room st 1" and fresh: "sp_active (bk_pool st) sid = None" "sp_inactive (bk_pool st) sid = None"
    and n: "new_session ops now sid will ka n st = (r, st')"
  shows "broker_inv st'" "sp_active (bk_pool st') = (sp_active (bk_pool st))(sid \<mapsto> r)"
    "sp_inactive (bk_pool st') = sp_inactive (bk_pool st)"
    "r = length (bk_sessions st)"
    "bk_sessions st' ! r = Session_set_connected True (Session_new now sid will ka (length (bk_channels st)))"
    "length (bk_channels st') = Suc (length (bk_channels st))" "bk_tree st' = bk_tree st"
    "bk_sessions st' = bk_sessions st @ [bk_sessions st' ! r]" "bk_config st' = bk_config st"
proof -
  let ?s = "Session_set_connected True (Session_new now sid will ka (length (bk_channels st)))"
  let ?ss = "bk_sessions st @ [?s]" and ?r = "length (bk_sessions st)"
  have e: "r = ?r" "st' = st\<lparr>bk_channels := bk_channels st @ [ch_new ops n], bk_sessions := ?ss,
      bk_pool := SessionPool_add ?ss ?r (bk_pool st)\<rparr>"
    using n by (auto simp: new_session_def new_channel_def Let_def)
  have p: "pool_inv ?ss (bk_pool st)" by (rule pool_inv_store [OF inv(1) store_keeps_append])
  have s: "se_id ?s = sid" "se_connected ?s" by (simp_all add: Session_set_connected_def Session_new_def)
  have "pool_inv ?ss (SessionPool_add ?ss ?r (bk_pool st))"
    by (rule pool_inv_add [OF p _ _ fresh]) (simp_all add: s)
  moreover have "sessions_ok st'"
    using inv(3) session_ok_new by (auto simp: e sessions_ok_def Session_set_connected_def session_ok_fields)
  moreover have "room st' 0"
    using room active_count_add [OF p, of ?r] by (auto simp: e room_def split: option.splits)
  ultimately show "broker_inv st'" using inv(2) by (simp add: broker_inv_def e)
  show "sp_active (bk_pool st') = (sp_active (bk_pool st))(sid \<mapsto> r)" "sp_inactive (bk_pool st') = sp_inactive (bk_pool st)"
    by (simp_all add: e SessionPool_add_def s)
  show "r = length (bk_sessions st)" "bk_sessions st' ! r = ?s" "length (bk_channels st') = Suc (length (bk_channels st))"
    "bk_tree st' = bk_tree st" "bk_sessions st' = bk_sessions st @ [bk_sessions st' ! r]" "bk_config st' = bk_config st"
    by (simp_all add: e)
qed

section \<open>Connecting\<close>

definition known :: "'c BrokerState \<Rightarrow> string \<Rightarrow> nat option" where
  "known st sid = (case sp_active (bk_pool st) sid of Some r \<Rightarrow> Some r | None \<Rightarrow> sp_inactive (bk_pool st) sid)"

lemma evolves_resume_session: "evolves st (resume_session ops r will n st)"
proof -
  have a: "evolves st0 (upd_session r (Session_set_will will) st0)" for st0 :: "'a BrokerState"
    by (rule evolves_upd_session) (simp_all add: Session_set_will_def session_ok_fields)
  have b: "evolves st0 (upd_session r (Session_reset_control chan) st0)" for st0 :: "'a BrokerState" and chan
    by (rule evolves_upd_session) (simp_all add: Session_reset_control_def session_ok_fields)
  show ?thesis
    unfolding resume_session_def new_channel_def Let_def prod.case
    by (rule evolves_trans [OF evolves_cancel_pending_will evolves_trans [OF a evolves_trans [OF evolves_channels b]]])
qed

lemma resume_session_spec:
  assumes "r < length (bk_sessions st)"
  shows "bk_sessions (resume_session ops r will n st) ! r =
      (bk_sessions st ! r)\<lparr>se_pending_will := None, se_will_message := will,
        se_control := (length (bk_channels st), Some (length (bk_channels st)))\<rparr>"
    "length (bk_channels (resume_session ops r will n st)) = Suc (length (bk_channels st))"
  using assms
  by (simp_all add: resume_session_def new_channel_def Let_def cancel_pending_will_def Session_set_will_def
      Session_reset_control_def Session_cancel_pending_will_def)

lemma broker_inv_activate:
  assumes inv: "broker_inv st" and room: "room st 1"
    and a: "SessionPool_activate now sid (bk_sessions st) (bk_pool st) = (Some r, ss, p)"
  shows "broker_inv (st\<lparr>bk_sessions := ss, bk_pool := p\<rparr>)"
proof -
  note d = broker_invD [OF inv]
  from a have ss: "ss = (bk_sessions st)[r := Session_set_last_active now (Session_set_connected True (bk_sessions st ! r))]"
    by (auto simp: SessionPool_activate_def Let_def split: option.splits)
  have "sessions_ok (st\<lparr>bk_sessions := ss, bk_pool := p\<rparr>)"
    unfolding ss by (rule sessions_ok_update [OF d(3)])
      (simp add: Session_set_connected_def Session_set_last_active_def session_ok_fields sessions_okD [OF d(3)])
  with d room pool_inv_activate [OF d(1) a] active_count_activate [OF d(1) a] show ?thesis
    by (simp add: broker_inv_def room_def split: option.splits)
qed

text \<open>The session that a CONNECT resumes.\<close>

definition resumed :: "'c BrokerState \<Rightarrow> Connect \<Rightarrow> string \<Rightarrow> nat option" where
  "resumed st connect sid = (if Connect_clean_start connect then None else known st sid)"

text \<open>
  What the connecting client is promised. The keep-alive time of a resumed session stays the one of the
  CONNECT that made the session: no branch of \<open>handle_connect\<close> sets it again.
\<close>

definition connect_post ::
    "'c BrokerState \<Rightarrow> Connect \<Rightarrow> string \<Rightarrow> ConnAck \<Rightarrow> ConnAck \<Rightarrow> nat \<Rightarrow> 'c BrokerState \<Rightarrow> bool" where
  "connect_post st connect sid ack ack' r st' \<longleftrightarrow>
    broker_inv st' \<and> sp_active (bk_pool st') = (sp_active (bk_pool st))(sid \<mapsto> r) \<and>
    (\<forall>u. u \<noteq> sid \<longrightarrow> sp_inactive (bk_pool st') u = sp_inactive (bk_pool st) u) \<and>
    ack' = (if resumed st connect sid = None then ack else ConnAck_set_session_present ack True) \<and>
    (case resumed st connect sid of
       Some k \<Rightarrow> r = k \<and> se_pending_ack (bk_sessions st' ! r) = se_pending_ack (bk_sessions st ! k) \<and>
         se_keep_alive (bk_sessions st' ! r) = se_keep_alive (bk_sessions st ! k)
     | None \<Rightarrow> r = length (bk_sessions st) \<and> se_pending_ack (bk_sessions st' ! r) = []) \<and>
    se_will_message (bk_sessions st' ! r) = Connect_will_message connect \<and>
    se_pending_will (bk_sessions st' ! r) = None \<and>
    se_control (bk_sessions st' ! r) = (length (bk_channels st), Some (length (bk_channels st))) \<and>
    bk_tree st' = bk_tree st \<and> bk_config st' = bk_config st \<and> length (bk_sessions st) \<le> length (bk_sessions st')"

lemma connect_post_new:
  assumes inv: "pool_inv (bk_sessions st1) (bk_pool st1)" "tree_inv (bk_tree st1)" "sessions_ok st1"
    and room: "room st1 1" and fresh: "sp_active (bk_pool st1) sid = None" "sp_inactive (bk_pool st1) sid = None"
    and same: "\<And>u. u \<noteq> sid \<Longrightarrow> sp_active (bk_pool st1) u = sp_active (bk_pool st) u \<and> sp_inactive (bk_pool st1) u = sp_inactive (bk_pool st) u"
    and frame: "length (bk_sessions st1) = length (bk_sessions st)" "length (bk_channels st1) = length (bk_channels st)"
      "bk_tree st1 = bk_tree st" "bk_config st1 = bk_config st"
    and res: "resumed st connect sid = None"
    and n: "new_session ops now sid (Connect_will_message connect) ka n st1 = (r, st')"
  shows "connect_post st connect sid ack ack r st'"
proof -
  note s = new_session_spec [OF inv room fresh n]
  have act: "sp_active (bk_pool st') = (sp_active (bk_pool st))(sid \<mapsto> r)"
    unfolding s(2) using same by auto
  have "se_pending_ack (bk_sessions st' ! r) = [] \<and> se_will_message (bk_sessions st' ! r) = Connect_will_message connect \<and>
      se_pending_will (bk_sessions st' ! r) = None \<and>
      se_control (bk_sessions st' ! r) = (length (bk_channels st1), Some (length (bk_channels st1)))"
    unfolding s(5) by (simp add: Session_set_connected_def Session_new_def)
  then show ?thesis
    using s(1,3,4,7,9) s(8) [THEN arg_cong [where f = length]] act same frame res by (simp add: connect_post_def)
qed

lemma connect_post_resume:
  assumes inv: "broker_inv st1" and k: "k < length (bk_sessions st1)"
    and act: "sp_active (bk_pool st1) = (sp_active (bk_pool st))(sid \<mapsto> k)"
    and same: "\<And>u. u \<noteq> sid \<Longrightarrow> sp_inactive (bk_pool st1) u = sp_inactive (bk_pool st) u"
    and frame: "length (bk_channels st1) = length (bk_channels st)" "bk_tree st1 = bk_tree st"
      "length (bk_sessions st1) = length (bk_sessions st)" "bk_config st1 = bk_config st"
    and pending: "se_pending_ack (bk_sessions st1 ! k) = se_pending_ack (bk_sessions st ! k)"
      "se_keep_alive (bk_sessions st1 ! k) = se_keep_alive (bk_sessions st ! k)"
    and res: "resumed st connect sid = Some k"
    and st': "st' = resume_session ops k (Connect_will_message connect) n st1 \<or>
      st' = upd_session k (Session_set_last_active now) (resume_session ops k (Connect_will_message connect) n st1)"
  shows "connect_post st connect sid ack (ConnAck_set_session_present ack True) k st'"
proof -
  let ?st2 = "resume_session ops k (Connect_will_message connect) n st1"
  note e = evolvesD [OF evolves_resume_session [of st1 ops k "Connect_will_message connect" n]]
  have "evolves ?st2 (upd_session k (Session_set_last_active now) ?st2)"
    by (rule evolves_upd_session) (simp_all add: Session_set_last_active_def session_ok_fields)
  then have ev: "evolves st1 st'" using st' evolves_resume_session evolves_trans by blast
  note f = evolvesD [OF ev]
  have k2: "k < length (bk_sessions ?st2)" using e(2) k by simp
  have "se_pending_ack (bk_sessions st' ! k) = se_pending_ack (bk_sessions st1 ! k) \<and>
      se_keep_alive (bk_sessions st' ! k) = se_keep_alive (bk_sessions st1 ! k) \<and>
      se_will_message (bk_sessions st' ! k) = Connect_will_message connect \<and> se_pending_will (bk_sessions st' ! k) = None \<and>
      se_control (bk_sessions st' ! k) = (length (bk_channels st1), Some (length (bk_channels st1)))"
    using st' k2 resume_session_spec [OF k, of ops "Connect_will_message connect" n]
    by (auto simp: Session_set_last_active_def)
  then show ?thesis
    using broker_inv_evolves [OF inv ev] f act same frame pending res by (simp add: connect_post_def)
qed

lemma send_control_frame [simp]:
  "bk_sessions (send_control ops r msg st) = bk_sessions st" "bk_pool (send_control ops r msg st) = bk_pool st"
  "length (bk_channels (send_control ops r msg st)) = length (bk_channels st)"
  "bk_tree (send_control ops r msg st) = bk_tree st" "bk_config (send_control ops r msg st) = bk_config st"
  by (simp_all add: send_control_def Let_def)

lemma remove_facts:
  assumes "broker_inv st" and "SessionPool_remove sid (bk_pool st) = (x, p)"
    and "sp_active (bk_pool st) sid \<noteq> None \<or> room st 1"
  shows "pool_inv (bk_sessions st) p" "sp_active p sid = None" "sp_inactive p sid = None"
    "u \<noteq> sid \<Longrightarrow> sp_active p u = sp_active (bk_pool st) u \<and> sp_inactive p u = sp_inactive (bk_pool st) u"
    "room (st\<lparr>bk_pool := p\<rparr>) 1"
proof -
  note d = broker_invD [OF assms(1)]
  show "pool_inv (bk_sessions st) p" "sp_active p sid = None" "sp_inactive p sid = None"
    using pool_inv_remove [OF d(1), of sid] by (simp_all add: assms(2))
  show "sp_active p u = sp_active (bk_pool st) u \<and> sp_inactive p u = sp_inactive (bk_pool st) u" if "u \<noteq> sid"
    using assms(2) that by (auto simp: SessionPool_remove_def split: option.splits)
  have c: "active_count p = (if sp_active (bk_pool st) sid = None then active_count (bk_pool st) else active_count (bk_pool st) - 1)"
    using active_count_remove [OF d(1), of sid] by (simp add: assms(2))
  have "sp_active (bk_pool st) sid \<noteq> None \<Longrightarrow> 0 < active_count (bk_pool st)"
    using pool_invD(1) [OF d(1)] by (auto simp: active_count_def card_gt_0_iff)
  then show "room (st\<lparr>bk_pool := p\<rparr>) 1"
    using c assms(3) d(4) by (auto simp: room_def split: option.splits if_splits)
qed

lemma room_cong: "bk_config st' = bk_config st \<Longrightarrow> bk_pool st' = bk_pool st \<Longrightarrow> room st' n = room st n"
  by (simp add: room_def split: option.split)

lemma sessions_ok_cong: "bk_sessions st' = bk_sessions st \<Longrightarrow> sessions_ok st' = sessions_ok st"
  by (simp add: sessions_ok_def)

lemma connect_clean_post:
  assumes inv: "broker_inv st" and room: "sp_active (bk_pool st) sid \<noteq> None \<or> room st 1"
    and clean: "Connect_clean_start connect"
    and c: "connect_session ops now connect sid ka ack st = (ack', r, st')"
  shows "connect_post st connect sid ack ack' r st'"
proof -
  note d = broker_invD [OF inv]
  obtain x p where rem: "SessionPool_remove sid (bk_pool st) = (x, p)" by (metis prod.exhaust)
  define st0 where "st0 = st\<lparr>bk_pool := p\<rparr>"
  define st1 where "st1 = (case x of
    Some k \<Rightarrow> if se_connected (bk_sessions st0 ! k) then handle_takeover ops k st0 else st0 | None \<Rightarrow> st0)"
  have n: "ack' = ack" "new_session ops now sid (Connect_will_message connect) ka (cf_session_channel_size (bk_config st)) st1 = (r, st')"
    using c clean rem by (auto simp: connect_session_def Let_def st1_def st0_def split: option.splits)
  have f: "bk_sessions st1 = bk_sessions st" "bk_pool st1 = bk_pool st0" "bk_tree st1 = bk_tree st"
    "bk_config st1 = bk_config st0" "length (bk_channels st1) = length (bk_channels st)" "bk_pool st0 = p" "bk_config st0 = bk_config st"
    by (simp_all add: st1_def st0_def handle_takeover_def Session_disconnect_def split: option.split)
  note r = remove_facts [OF inv rem room]
  have "connect_post st connect sid ack ack r st'"
    by (rule connect_post_new [OF _ _ _ _ _ _ _ _ _ _ _ _ n(2)])
      (use r d f clean in \<open>simp_all add: room_cong [OF f(4,2)] sessions_ok_cong [OF f(1)] resumed_def flip: st0_def\<close>)
  with n(1) show ?thesis by simp
qed

lemma connect_resume_post:
  assumes inv: "broker_inv st" and room: "sp_active (bk_pool st) sid \<noteq> None \<or> room st 1"
    and keep: "\<not> Connect_clean_start connect"
    and c: "connect_session ops now connect sid ka ack st = (ack', r, st')"
  shows "connect_post st connect sid ack ack' r st'"
proof -
  note d = broker_invD [OF inv]
  note p = pool_invD [OF d(1)]
  let ?will = "Connect_will_message connect" and ?n = "cf_session_channel_size (bk_config st)"
  consider (inactive) k where "sp_active (bk_pool st) sid = None" "sp_inactive (bk_pool st) sid = Some k"
    | (active) k where "sp_active (bk_pool st) sid = Some k" "sp_inactive (bk_pool st) sid = None"
    | (unknown) "sp_active (bk_pool st) sid = None" "sp_inactive (bk_pool st) sid = None"
    using p(5) by (cases "sp_active (bk_pool st) sid"; cases "sp_inactive (bk_pool st) sid") auto
  then show ?thesis
  proof cases
    case inactive
    let ?s = "Session_set_last_active now (Session_set_connected True (bk_sessions st ! k))"
    obtain ss p' where a: "SessionPool_activate now sid (bk_sessions st) (bk_pool st) = (Some k, ss, p')"
      using inactive by (simp add: SessionPool_activate_def Let_def)
    have e: "ss = (bk_sessions st)[k := ?s]" "sp_active p' = (sp_active (bk_pool st))(sid \<mapsto> k)"
      "sp_inactive p' = (sp_inactive (bk_pool st))(sid := None)"
      using a inactive p(7) by (auto simp: SessionPool_activate_def Let_def Session_set_last_active_def Session_set_connected_def)
    have st': "ack' = ConnAck_set_session_present ack True" "r = k"
      "st' = resume_session ops k ?will ?n (st\<lparr>bk_sessions := ss, bk_pool := p'\<rparr>)"
      using c keep a by (auto simp add: connect_session_def Let_def)
    have "connect_post st connect sid ack (ConnAck_set_session_present ack True) k st'"
      by (rule connect_post_resume [where ops = ops and n = ?n and ?st1.0 = "st\<lparr>bk_sessions := ss, bk_pool := p'\<rparr>"])
        (use broker_inv_activate [OF inv _ a] room inactive p(7) keep st'(3) e in
          \<open>auto simp: resumed_def known_def Session_set_last_active_def Session_set_connected_def\<close>)
    with st' show ?thesis by simp
  next
    case active
    have st': "ack' = ConnAck_set_session_present ack True" "r = k"
      "st' = upd_session k (Session_set_last_active now) (resume_session ops k ?will ?n (handle_takeover ops k st))"
      using c keep active
      by (auto simp add: connect_session_def Let_def SessionPool_activate_def SessionPool_get_active_def)
    have "connect_post st connect sid ack (ConnAck_set_session_present ack True) k st'"
      by (rule connect_post_resume [where ops = ops and n = ?n and now = now and ?st1.0 = "handle_takeover ops k st"])
        (use broker_inv_evolves [OF inv evolves_send_control] active p(6) keep st'(3) in
          \<open>auto simp: handle_takeover_def Session_disconnect_def resumed_def known_def\<close>)
    with st' show ?thesis by simp
  next
    case unknown
    have n: "ack' = ack" "new_session ops now sid ?will ka ?n st = (r, st')"
      using c keep unknown
      by (simp_all add: connect_session_def Let_def SessionPool_activate_def SessionPool_get_active_def)
    have "connect_post st connect sid ack ack r st'"
      by (rule connect_post_new [OF _ _ _ _ _ _ _ _ _ _ _ _ n(2)])
        (use d room unknown in \<open>simp_all add: resumed_def known_def\<close>)
    with n(1) show ?thesis by simp
  qed
qed

lemma connect_session_post:
  assumes inv: "broker_inv st"
    and cap: "SessionPool_get_active sid (bk_pool st) \<noteq> None \<or>
      \<not> SessionPool_at_capacity (bk_pool st) (cf_max_active_sessions (bk_config st))"
    and c: "connect_session ops now connect sid ka ack st = (ack', r, st')"
  shows "connect_post st connect sid ack ack' r st'"
proof -
  have "sp_active (bk_pool st) sid \<noteq> None \<or> room st 1"
    using cap room_capacity [OF inv] by (auto simp: SessionPool_get_active_def)
  then show ?thesis
    using connect_clean_post [OF inv _ _ c] connect_resume_post [OF inv _ _ c] by (cases "Connect_clean_start connect") simp_all
qed

end
