(* ===== verification/Broker_World.thy ===== *)
theory Broker_World
  imports Broker_Connect
begin

text \<open>
  The broker as a whole: the outcome of every handler, the connection loops running side by side as a
  step relation, and what holds in every state they can reach.
\<close>

section \<open>Outcomes of handlers\<close>

text \<open>
  A handler run in state \<open>st\<close> is safe: it does not panic, it keeps the invariant and the configuration,
  and the sessions it found are still there.
\<close>

definition safe :: "'c BrokerState \<Rightarrow> ('c, 'a) handled \<Rightarrow> bool" where
  "safe st h \<longleftrightarrow> fst h \<noteq> Panic \<and> broker_inv (fst (snd h)) \<and> bk_config (fst (snd h)) = bk_config st \<and>
    length (bk_sessions st) \<le> length (bk_sessions (fst (snd h)))"

text \<open>A state that a handler started in \<open>st\<close> may go through.\<close>

definition during :: "'c BrokerState \<Rightarrow> 'c BrokerState \<Rightarrow> bool" where
  "during st st' \<longleftrightarrow> broker_inv st' \<and> bk_config st' = bk_config st \<and> length (bk_sessions st) \<le> length (bk_sessions st')"

lemma during_refl: "broker_inv st \<Longrightarrow> during st st"
  by (simp add: during_def)

lemma during_evolves: "during st st' \<Longrightarrow> evolves st' st'' \<Longrightarrow> during st st''"
  using broker_inv_evolves evolvesD(2,5) by (fastforce simp: during_def)

lemma during_deactivate: "during st st' \<Longrightarrow> during st (deactivate_session sid st')"
  by (simp add: during_def broker_inv_deactivate)

lemma safe_finish: "during st st' \<Longrightarrow> safe st (finish x st')"
  by (simp add: safe_def finish_def during_def)

lemma safe_fail: "during st st' \<Longrightarrow> safe st (Err e, st', out)"
  by (simp add: safe_def during_def)

lemma safe_write: "during st st' \<Longrightarrow> safe st (k st') \<Longrightarrow> safe st (write_packet io p st' k)"
  by (cases "k st'") (auto simp: write_packet_def safe_def during_def)

lemma safe_run: "m = Ok x \<Longrightarrow> safe st (k x) \<Longrightarrow> safe st (run m st' k)"
  by (simp add: run_def)

lemma safe_and_then:
  assumes "safe st h" and "\<And>x st' out. h = (Ok x, st', out) \<Longrightarrow> during st st' \<Longrightarrow> safe st (k x st')"
  shows "safe st (and_then h k)"
proof -
  obtain m st' out where h: "h = (m, st', out)" by (metis prod_cases3)
  show ?thesis
  proof (cases m)
    case (Ok x)
    then have "safe st (k x st')" using assms h by (auto simp: safe_def during_def)
    then show ?thesis using Ok by (cases "k x st'") (simp add: h and_then_def safe_def)
  qed (use assms(1) in \<open>simp_all add: h and_then_def safe_def\<close>)
qed

lemmas safe_intros = safe_finish safe_fail safe_write

section \<open>Subscribing and unsubscribing\<close>

lemma subscribe_all_ok:
  assumes "tree_inv tree"
  shows "\<exists>tree'. subscribe_all fs sid tree = Ok (tree', map (\<lambda>f. granted_reason (SubscriptionFilter_qos f)) fs) \<and> tree_inv tree' \<and>
    (\<forall>x path. sb_session_id x \<noteq> sid \<longrightarrow> (x \<in> set (subs_at tree' path) \<longleftrightarrow> x \<in> set (subs_at tree path)))"
  using assms
proof (induction fs arbitrary: tree)
  case (Cons f fs)
  obtain tree1 where t1: "subscribe tree (sf_filter f) sid (SubscriptionFilter_qos f) (SubscriptionFilter_no_local f) =
      (Ok tree1 :: (BrokerError, TopicTree) res)" "tree_inv tree1"
    using topics.sub_law [OF Cons.prems, where ?'a = BrokerError] by blast
  note o = topics.sub_other_sessions [OF Cons.prems t1(1)]
  from Cons.IH [OF t1(2)] obtain tree' where
    "subscribe_all fs sid tree1 = Ok (tree', map (\<lambda>f. granted_reason (SubscriptionFilter_qos f)) fs)" "tree_inv tree'"
    "\<forall>x path. sb_session_id x \<noteq> sid \<longrightarrow> (x \<in> set (subs_at tree' path) \<longleftrightarrow> x \<in> set (subs_at tree1 path))" by blast
  with t1 o show ?case by (simp add: Let_def)
qed simp

lemma unsubscribe_topics_ok:
  assumes "tree_inv tree"
  shows "\<exists>tree' reasons. unsubscribe_topics ts sid tree = Ok (tree', reasons) \<and> tree_inv tree' \<and> length reasons = length ts \<and>
    (\<forall>path. subs_at tree' path = (if path \<in> split_topic ` set ts
      then filter (\<lambda>s. sb_session_id s \<noteq> sid) (subs_at tree path) else subs_at tree path))"
  using assms
proof (induction ts arbitrary: tree)
  case (Cons t ts)
  obtain tree1 b where t1: "unsubscribe tree t sid = (Ok (tree1, b) :: (BrokerError, TopicTree \<times> bool) res)" "tree_inv tree1"
    "\<forall>f. subs_at tree1 f = (if f = split_topic t then filter (\<lambda>s. sb_session_id s \<noteq> sid) (subs_at tree f) else subs_at tree f)"
    using topics.unsub_law [OF Cons.prems, where ?'a = BrokerError] by blast
  from Cons.IH [OF t1(2)] obtain tree' reasons where
    "unsubscribe_topics ts sid tree1 = Ok (tree', reasons)" "tree_inv tree'" "length reasons = length ts"
    "\<forall>path. subs_at tree' path = (if path \<in> split_topic ` set ts
      then filter (\<lambda>s. sb_session_id s \<noteq> sid) (subs_at tree1 path) else subs_at tree1 path)" by blast
  with t1 show ?case by (simp add: filter_filter)
qed simp

lemma broker_inv_tree: "broker_inv st \<Longrightarrow> tree_inv tree \<Longrightarrow> broker_inv (st\<lparr>bk_tree := tree\<rparr>)"
  by (simp add: broker_inv_def sessions_ok_def room_cong [of "st\<lparr>bk_tree := tree\<rparr>" st])

lemma handle_subscribe_ok:
  assumes "broker_inv st"
  shows "\<exists>suback tree. handle_subscribe p sid st = Ok (suback, st\<lparr>bk_tree := tree\<rparr>) \<and> broker_inv (st\<lparr>bk_tree := tree\<rparr>)"
  using subscribe_all_ok [OF broker_invD(2) [OF assms], of "su_filter p" sid] assms
  by (auto simp: handle_subscribe_def Let_def intro: broker_inv_tree)

lemma handle_unsubscribe_ok:
  assumes "broker_inv st"
  shows "\<exists>unsuback tree. handle_unsubscribe p sid st = Ok (unsuback, st\<lparr>bk_tree := tree\<rparr>) \<and> broker_inv (st\<lparr>bk_tree := tree\<rparr>)"
  using unsubscribe_topics_ok [OF broker_invD(2) [OF assms], of "us_topics p" sid] assms
  by (auto simp: handle_unsubscribe_def Let_def intro: broker_inv_tree)

text \<open>What an UNSUBSCRIBE does to the subscriptions, and what a lookup returns afterwards.\<close>

lemma unsubscribe_silences:
  assumes "broker_inv st"
  shows "\<exists>unsuback st'. handle_unsubscribe p sid st = Ok (unsuback, st') \<and> broker_inv st' \<and>
    ua_packet_id unsuback = us_packet_id p \<and> length (ua_reason_code unsuback) = length (us_topics p) \<and>
    (\<forall>x f. x \<in> set (subs_at (bk_tree st') f) \<longleftrightarrow>
      x \<in> set (subs_at (bk_tree st) f) \<and> \<not> (sb_session_id x = sid \<and> f \<in> split_topic ` set (us_topics p))) \<and>
    (\<forall>topic. plain_topic (split_topic topic) \<longrightarrow>
      (\<exists>subs. matching_subscribers (bk_tree st') topic = (Ok subs :: (BrokerError, Subscriber list) res) \<and>
        set subs = {x. \<exists>f. matches f (split_topic topic) \<and> x \<in> set (subs_at (bk_tree st) f) \<and>
          \<not> (sb_session_id x = sid \<and> f \<in> split_topic ` set (us_topics p))} \<and>
        ((\<forall>f. matches f (split_topic topic) \<and> sid \<in> sb_session_id ` set (subs_at (bk_tree st) f) \<longrightarrow>
            f \<in> split_topic ` set (us_topics p)) \<longrightarrow>
          sid \<notin> sb_session_id ` set subs)))"
proof -
  let ?left = "\<lambda>x f. x \<in> set (subs_at (bk_tree st) f) \<and> \<not> (sb_session_id x = sid \<and> f \<in> split_topic ` set (us_topics p))"
  obtain unsuback st' where u: "handle_unsubscribe p sid st = Ok (unsuback, st')" "broker_inv st'"
    "ua_packet_id unsuback = us_packet_id p" "length (ua_reason_code unsuback) = length (us_topics p)"
    and s: "\<And>x f. x \<in> set (subs_at (bk_tree st') f) \<longleftrightarrow> ?left x f"
    using unsubscribe_topics_ok [OF broker_invD(2) [OF assms], of "us_topics p" sid] broker_inv_tree [OF assms]
    by (auto simp: handle_unsubscribe_def UnsubAck_default_def)
  have l: "\<exists>subs. matching_subscribers (bk_tree st') topic = (Ok subs :: (BrokerError, Subscriber list) res) \<and>
      set subs = {x. \<exists>f. matches f (split_topic topic) \<and> ?left x f}" if "plain_topic (split_topic topic)" for topic
    using matching_subscribers_spec [OF broker_invD(2) [OF u(2)] that] by (simp only: s)
  have n: "sid \<notin> sb_session_id ` set subs" if "set subs = {x. \<exists>f. matches f (split_topic topic) \<and> ?left x f}"
    and "\<forall>f. matches f (split_topic topic) \<and> sid \<in> sb_session_id ` set (subs_at (bk_tree st) f) \<longrightarrow> f \<in> split_topic ` set (us_topics p)"
    for subs topic
    using that by (force simp: image_iff)
  have "\<exists>subs. matching_subscribers (bk_tree st') topic = (Ok subs :: (BrokerError, Subscriber list) res) \<and>
      set subs = {x. \<exists>f. matches f (split_topic topic) \<and> ?left x f} \<and>
      ((\<forall>f. matches f (split_topic topic) \<and> sid \<in> sb_session_id ` set (subs_at (bk_tree st) f) \<longrightarrow>
        f \<in> split_topic ` set (us_topics p)) \<longrightarrow> sid \<notin> sb_session_id ` set subs)" if "plain_topic (split_topic topic)" for topic
    using l [OF that] n by meson
  with u s show ?thesis by (intro exI [of _ unsuback] exI [of _ st']) blast
qed

section \<open>Every handler is safe\<close>

definition packet_ok :: "Packet \<Rightarrow> bool" where
  "packet_ok p \<longleftrightarrow> (case p of Pkt_Publish publish \<Rightarrow> \<exists>q. has_qos publish q | _ \<Rightarrow> True)"

text \<open>Whatever the decoder returns is acceptable to the handlers.\<close>

lemma decode_packet_ok: "decode uuid src = Ok (Some (p, n), rest) \<Longrightarrow> packet_ok p"
  using decode_publish_id_agrees id_agrees_qos by (fastforce simp: packet_ok_def split: Packet.splits)

lemma route_publish_during:
  assumes "broker_inv st" and "has_qos publish q"
  shows "\<exists>st'. route_publish ops publish sender st = Ok st' \<and> during st st'"
  using route_publish_ok [OF assms(2) broker_invD(2) [OF assms(1)], of ops sender]
    during_evolves [OF during_refl [OF assms(1)] evolves_route_list] by metis

lemma initiate_will_during:
  assumes "broker_inv st"
  shows "\<exists>st'. initiate_will ops r st = Ok st' \<and> during st st'"
  using initiate_will_total [OF broker_invD(2) [OF assms], of ops r] evolves_initiate_will [of ops r st]
    during_evolves [OF during_refl [OF assms]] by metis

lemma abandon_during:
  assumes "broker_inv st"
  shows "\<exists>st'. abandon ops r st = Ok st' \<and> during st st'"
  using initiate_will_during [OF assms, of ops r] during_deactivate by (auto simp: abandon_def Let_def)

lemma handle_packet_safe:
  assumes inv: "broker_inv st" and ok: "packet_ok packet"
  shows "safe st (handle_packet ops io packet r st)"
proof (cases packet)
  case (Pkt_Publish publish)
  then obtain q where q: "has_qos publish q" using ok by (auto simp: packet_ok_def)
  obtain st' where "route_publish ops publish (se_id (bk_sessions st ! r)) st = Ok st'" "during st st'"
    using route_publish_during [OF inv q] by blast
  then show ?thesis
    using during_refl [OF inv]
    by (auto simp: handle_packet_def Pkt_Publish has_qos_any [OF q] run_def Let_def intro!: safe_intros split: option.splits)
next
  case (Pkt_PubAck p)
  have "evolves st (upd_session r (\<lambda>s. snd (Session_acknowledge (pr_packet_id p) s)) st)"
    by (rule evolves_upd_session) (simp_all add: session_ok_acknowledge, simp_all add: Session_acknowledge_def)
  then show ?thesis
    using during_evolves [OF during_refl [OF inv]] by (simp add: handle_packet_def Pkt_PubAck safe_finish)
next
  case (Pkt_Disconnect p)
  have "evolves st (upd_session r Session_clear_will st)"
    by (rule evolves_upd_session) (simp_all add: Session_clear_will_def session_ok_fields)
  note c = during_evolves [OF during_refl [OF inv] this]
  show ?thesis
    using initiate_will_during [OF inv, of ops r] c
    by (auto simp: handle_packet_def Pkt_Disconnect Let_def run_def intro!: safe_intros during_deactivate)
next
  case (Pkt_Subscribe p)
  then show ?thesis
    using handle_subscribe_ok [OF inv, of p "se_id (bk_sessions st ! r)"]
    by (auto simp: handle_packet_def run_def during_def intro!: safe_intros)
next
  case (Pkt_Unsubscribe p)
  then show ?thesis
    using handle_unsubscribe_ok [OF inv, of p "se_id (bk_sessions st ! r)"]
    by (auto simp: handle_packet_def run_def during_def intro!: safe_intros)
qed (use during_refl [OF inv] in \<open>auto simp: handle_packet_def intro!: safe_intros\<close>)

section \<open>Connecting\<close>

lemma connect_post_expiry:
  assumes "connect_post st connect sid ack ack' r st'"
  shows "connect_post st connect sid ack ack' r (upd_session r (Session_set_session_expiry e) st')"
proof -
  have ev: "evolves st' (upd_session r (Session_set_session_expiry e) st')"
    by (rule evolves_upd_session) (simp_all add: Session_set_session_expiry_def session_ok_fields)
  have s: "bk_sessions (upd_session r (Session_set_session_expiry e) st') ! r =
      (if r < length (bk_sessions st') then Session_set_session_expiry e (bk_sessions st' ! r) else bk_sessions st' ! r)"
    by (simp add: list_update_beyond)
  have f: "se_pending_ack (Session_set_session_expiry e s) = se_pending_ack s"
    "se_keep_alive (Session_set_session_expiry e s) = se_keep_alive s"
    "se_will_message (Session_set_session_expiry e s) = se_will_message s"
    "se_pending_will (Session_set_session_expiry e s) = se_pending_will s"
    "se_control (Session_set_session_expiry e s) = se_control s" for s
    by (simp_all add: Session_set_session_expiry_def)
  have i: "broker_inv (upd_session r (Session_set_session_expiry e) st')"
    using assms broker_inv_evolves [OF _ ev] by (simp add: connect_post_def)
  show ?thesis
    using assms i unfolding connect_post_def s by (cases "r < length (bk_sessions st')") (auto simp: f split: option.splits)
qed

text \<open>The identifier under which a client is known, and the CONNACK before the session is looked up.\<close>

definition connect_sid :: "string \<Rightarrow> Connect \<Rightarrow> string" where
  "connect_sid uuid connect = (if co_client_id connect = [] then uuid else co_client_id connect)"

definition first_ack :: "string \<Rightarrow> Connect \<Rightarrow> SessionPool \<Rightarrow> ConnAck" where
  "first_ack uuid connect pool =
    fst (connect_id uuid connect (fst (connect_expiry connect pool (fst (connect_keep_alive connect pool ConnAck_default)))))"

lemma handle_connect_unfold:
  "handle_connect ops io now uuid connect st =
    (let ack = first_ack uuid connect (bk_pool st); sid = connect_sid uuid connect;
         ka = snd (connect_keep_alive connect (bk_pool st) ConnAck_default);
         ex = snd (connect_expiry connect (bk_pool st) (fst (connect_keep_alive connect (bk_pool st) ConnAck_default)))
     in if SessionPool_get_active sid (bk_pool st) = None \<and>
           SessionPool_at_capacity (bk_pool st) (cf_max_active_sessions (bk_config st))
        then write_packet io (Pkt_ConnAck (ack\<lparr>ca_reason := R_QuotaExceeded\<rparr>)) st (\<lambda>st.
            if io_shutdown io then finish None st else (Err BE_Io, st, []))
        else (case connect_session ops now connect sid ka ack st of (ack, r, st) \<Rightarrow>
             write_packet io (Pkt_ConnAck ack)
               (case ex of Some e \<Rightarrow> upd_session r (Session_set_session_expiry e) st | None \<Rightarrow> st) (finish (Some r))))"
proof -
  have "snd (connect_id uuid connect a) = connect_sid uuid connect" for a
    by (simp add: connect_id_def connect_sid_def)
  then show ?thesis
    by (simp add: handle_connect_def first_ack_def Let_def case_prod_beta)
qed

lemma connect_post_during:
  "connect_post st connect sid ack ack' r st' \<Longrightarrow> during st st' \<and> r < length (bk_sessions st')"
  using pool_invD(6) [OF broker_invD(1), of st' sid r] by (simp add: connect_post_def during_def)

text \<open>The two outcomes: refused for lack of room, or served by a session.\<close>

lemma handle_connect_cases:
  assumes inv: "broker_inv st"
    and sid_def: "sid = connect_sid uuid connect" and ack_def: "ack = first_ack uuid connect (bk_pool st)"
  obtains (refused) "SessionPool_get_active sid (bk_pool st) = None"
      "SessionPool_at_capacity (bk_pool st) (cf_max_active_sessions (bk_config st))"
      "handle_connect ops io now uuid connect st =
        write_packet io (Pkt_ConnAck (ack\<lparr>ca_reason := R_QuotaExceeded\<rparr>)) st (\<lambda>st.
            if io_shutdown io then finish None st else (Err BE_Io, st, []))"
    | (served) ack' r st' where "connect_post st connect sid ack ack' r st'"
      "SessionPool_get_active sid (bk_pool st) \<noteq> None \<or>
        \<not> SessionPool_at_capacity (bk_pool st) (cf_max_active_sessions (bk_config st))"
      "handle_connect ops io now uuid connect st = write_packet io (Pkt_ConnAck ack') st' (finish (Some r))"
proof (cases "SessionPool_get_active sid (bk_pool st) = None \<and>
    SessionPool_at_capacity (bk_pool st) (cf_max_active_sessions (bk_config st))")
  case True
  then show ?thesis by (intro refused) (simp_all add: handle_connect_unfold sid_def ack_def)
next
  case False
  let ?ka = "snd (connect_keep_alive connect (bk_pool st) ConnAck_default)"
  let ?ex = "snd (connect_expiry connect (bk_pool st) (fst (connect_keep_alive connect (bk_pool st) ConnAck_default)))"
  obtain ack' r st1 where c: "connect_session ops now connect sid ?ka ack st = (ack', r, st1)" by (metis prod_cases3)
  let ?st' = "case ?ex of Some e \<Rightarrow> upd_session r (Session_set_session_expiry e) st1 | None \<Rightarrow> st1"
  have "connect_post st connect sid ack ack' r st1" by (rule connect_session_post [OF inv _ c]) (use False in auto)
  then have "connect_post st connect sid ack ack' r ?st'" by (simp add: connect_post_expiry split: option.split)
  then show ?thesis
    by (rule served) (use False c in \<open>auto simp add: handle_connect_unfold sid_def ack_def Let_def\<close>)
qed

lemma handle_connect_safe:
  assumes inv: "broker_inv st"
  shows "safe st (handle_connect ops io now uuid connect st)"
    and "handle_connect ops io now uuid connect st = (Ok (Some r), st', out) \<Longrightarrow> r < length (bk_sessions st')"
proof -
  note cs = handle_connect_cases [OF inv refl refl, of uuid connect ops io now]
  show "safe st (handle_connect ops io now uuid connect st)"
    by (cases rule: cs) (auto intro!: safe_intros during_refl [OF inv] dest: connect_post_during)
  show "r < length (bk_sessions st')" if h: "handle_connect ops io now uuid connect st = (Ok (Some r), st', out)"
    by (cases rule: cs)
      (use h in \<open>auto simp: write_packet_def finish_def dest: connect_post_during split: if_splits\<close>)
qed

section \<open>The connection loop is safe\<close>

lemma handle_pre_connect_safe:
  assumes inv: "broker_inv st"
  shows "safe st (handle_pre_connect ops io now uuid packet st)"
    and "handle_pre_connect ops io now uuid packet st = (Ok (Some r), st', out) \<Longrightarrow> r < length (bk_sessions st')"
  using handle_connect_safe [OF inv, of ops io now uuid] during_refl [OF inv]
  by (cases packet; auto simp: handle_pre_connect_def write_packet_def finish_def intro!: safe_intros
      dest: handle_connect_safe(2) [OF inv] split: if_splits; simp add: safe_def during_def)+

lemma redeliver_safe:
  assumes "during st st'" and "\<forall>e \<in> set pending. tracked_ok e"
  shows "safe st (redeliver io r pending st')"
  using assms
proof (induction pending arbitrary: st')
  case Nil
  then show ?case by (simp add: safe_finish)
next
  case (Cons e pending)
  obtain pid p where e: "e = (pid, p)" by (cases e)
  then obtain q where q: "has_qos p q" "q \<noteq> AtMostOnce" and pid: "pid \<noteq> 0"
    using Cons.prems(2) by auto
  let ?dup = "p\<lparr>pu_fixed_header := FixedHeader_set_dup (pu_fixed_header p) True\<rparr>"
  let ?out = "?dup\<lparr>pu_packet_id := Some pid\<rparr>"
  have q': "has_qos ?dup q" "has_qos ?out q" using q(1) by simp_all
  have "tracked_ok (pid, ?out)" using q'(2) q(2) pid by (cases q) simp_all
  then have "evolves st' (upd_session r (Session_track_qos_publish pid ?out) st')"
    by (intro evolves_upd_session) (simp_all add: session_ok_track, simp_all add: Session_track_qos_publish_def)
  note d = during_evolves [OF Cons.prems(1) this]
  have "safe st (write_packet io (Pkt_Publish ?out) (upd_session r (Session_track_qos_publish pid ?out) st') (redeliver io r pending))"
    by (rule safe_write [OF d]) (rule Cons.IH [OF d], use Cons.prems(2) in simp)
  then show ?case
    by (simp add: e run_def ignore_err_def set_dup_qos [OF q] set_packet_id_qos [OF q'(1) q(2)])
qed

lemma serve_safe:
  assumes inv: "broker_inv st" and r: "r < length (bk_sessions st)"
  shows "safe st (serve io r cn st)"
    and "serve io r cn st = (Ok (Some cn'), st', out) \<Longrightarrow> cn_session cn' = Some r"
proof -
  let ?s = "(bk_sessions st ! r)\<lparr>se_control := (fst (se_control (bk_sessions st ! r)), None), se_pending_ack := []\<rparr>"
  let ?st = "upd_session r (\<lambda>_. ?s) st"
  have ok: "session_ok (bk_sessions st ! r)" using sessions_okD [OF broker_invD(3) [OF inv] r] .
  have u: "serve io r cn st = and_then (redeliver io r (iteration (io_rank io) (se_pending_ack (bk_sessions st ! r))) ?st) (\<lambda>_.
      finish (Some (cn\<lparr>cn_connected := True, cn_session := Some r, cn_control := snd (se_control (bk_sessions st ! r)),
        cn_keep_alive := se_keep_alive (bk_sessions st ! r)\<rparr>)))"
    by (simp add: serve_def Session_take_control_receiver_def Session_drain_pending_def Let_def)
  have "evolves st ?st"
    by (rule evolves_upd_session) (use ok in \<open>simp_all add: session_ok_def\<close>)
  note d = during_evolves [OF during_refl [OF inv] this]
  show "safe st (serve io r cn st)"
    unfolding u using redeliver_safe [OF d] ok by (intro safe_and_then safe_finish) (auto simp: session_ok_def)
  show "cn_session cn' = Some r" if "serve io r cn st = (Ok (Some cn'), st', out)"
    using that unfolding u by (auto simp: and_then_def finish_def split: prod.splits res.splits)
qed

text \<open>The loop refers to a session that exists.\<close>

definition conn_ok :: "'c BrokerState \<Rightarrow> Conn \<Rightarrow> bool" where
  "conn_ok st cn \<longleftrightarrow> (\<forall>r. cn_session cn = Some r \<longrightarrow> r < length (bk_sessions st))"

definition conn_after :: "(BrokerError, Conn option) res \<Rightarrow> Conn option" where
  "conn_after m = (case m of Ok c \<Rightarrow> c | _ \<Rightarrow> None)"

text \<open>A branch of the loop is safe and leaves a loop state that refers to an existing session.\<close>

definition branch_ok :: "'c BrokerState \<Rightarrow> ('c, Conn option) handled \<Rightarrow> bool" where
  "branch_ok st h \<longleftrightarrow> safe st h \<and> (\<forall>cn. conn_after (fst h) = Some cn \<longrightarrow> conn_ok (fst (snd h)) cn)"

lemma branch_okI:
  assumes "safe st h" and "\<And>cn' st' out. h = (Ok (Some cn'), st', out) \<Longrightarrow> cn_session cn' = cn_session cn"
    and "conn_ok st cn"
  shows "branch_ok st h"
proof -
  obtain m st' out where h: "h = (m, st', out)" by (metis prod_cases3)
  show ?thesis
    using assms by (cases m) (auto simp: branch_ok_def conn_after_def h conn_ok_def safe_def split: option.splits)
qed

lemma on_control_ok:
  assumes inv: "broker_inv st" and cn: "conn_ok st cn"
  shows "branch_ok st (on_control io control cn st)"
proof (rule branch_okI [OF _ _ cn])
  show "safe st (on_control io control cn st)"
    using during_refl [OF inv]
    by (auto simp: on_control_def Let_def intro!: safe_intros during_deactivate split: SessionControl.split option.split)
qed (auto simp: on_control_def write_packet_def finish_def Let_def split: SessionControl.splits option.splits if_splits)

lemma on_keep_alive_ok:
  assumes inv: "broker_inv st" and cn: "conn_ok st cn"
  shows "branch_ok st (on_keep_alive ops io cn st)"
proof (rule branch_okI [OF _ _ cn])
  show "safe st (on_keep_alive ops io cn st)"
    using during_refl [OF inv] abandon_during [OF inv, of ops]
    by (auto simp: on_keep_alive_def intro!: safe_intros split: option.split) (metis safe_finish safe_run)
qed (auto simp: on_keep_alive_def run_def finish_def split: option.splits if_splits res.splits)

lemma on_eof_ok:
  assumes inv: "broker_inv st" and cn: "conn_ok st cn"
  shows "branch_ok st (on_eof ops cn st)"
proof (rule branch_okI [OF _ _ cn])
  show "safe st (on_eof ops cn st)"
    using during_refl [OF inv] abandon_during [OF inv, of ops]
    by (auto simp: on_eof_def intro!: safe_intros split: option.split) (metis safe_finish safe_run)
qed (auto simp: on_eof_def run_def finish_def split: option.splits if_splits res.splits)

lemma on_error_ok:
  assumes inv: "broker_inv st" and cn: "conn_ok st cn"
  shows "branch_ok st (on_error ops cn st)"
proof (rule branch_okI [OF _ _ cn])
  show "safe st (on_error ops cn st)"
    using during_refl [OF inv] abandon_during [OF inv, of ops]
    by (auto simp: on_error_def intro!: safe_intros split: option.split) (metis safe_fail safe_run)
qed (auto simp: on_error_def run_def finish_def split: option.splits if_splits res.splits)

lemma and_then_Ok: "and_then h k = (Ok y, st'', out) \<Longrightarrow> \<exists>x st' o1 o2. h = (Ok x, st', o1) \<and> k x st' = (Ok y, st'', o2)"
  by (auto simp: and_then_def split: prod.splits res.splits)

lemma safe_trans: "during st st' \<Longrightarrow> safe st' h \<Longrightarrow> safe st h"
  by (auto simp: safe_def during_def)

lemma on_packet_ok:
  assumes inv: "broker_inv st" and cn: "conn_ok st cn" and ok: "packet_ok packet"
  shows "branch_ok st (on_packet ops io now uuid packet cn st)"
proof (cases "cn_connected cn")
  case True
  show ?thesis
  proof (rule branch_okI [OF _ _ cn])
    show "safe st (on_packet ops io now uuid packet cn st)"
      using True during_refl [OF inv] handle_packet_safe [OF inv ok]
      by (auto simp: on_packet_def intro!: safe_and_then safe_finish split: option.split)
  qed (use True in \<open>auto simp: on_packet_def finish_def dest!: and_then_Ok split: option.splits\<close>)
next
  case False
  let ?k = "\<lambda>session. case session of Some r \<Rightarrow> serve io r cn | None \<Rightarrow> finish (Some cn)"
  note pre = handle_pre_connect_safe [OF inv, of ops io now uuid packet]
  have e: "on_packet ops io now uuid packet cn st = and_then (handle_pre_connect ops io now uuid packet st) ?k"
    using False by (simp add: on_packet_def)
  have k: "safe st (?k x st')" if h: "handle_pre_connect ops io now uuid packet st = (Ok x, st', out)" and d: "during st st'" for x st' out
  proof (cases x)
    case (Some r)
    then have "safe st' (serve io r cn st')" using serve_safe(1) pre(2) h d by (auto simp: during_def)
    then show ?thesis using safe_trans [OF d] Some by simp
  qed (use d in \<open>simp add: safe_finish\<close>)
  have s: "safe st (on_packet ops io now uuid packet cn st)"
    unfolding e using pre(1) k by (rule safe_and_then)
  have "conn_ok st'' cn'" if "on_packet ops io now uuid packet cn st = (Ok (Some cn'), st'', out)" for cn' st'' out
  proof -
    from that obtain x st' o1 o2 where h: "handle_pre_connect ops io now uuid packet st = (Ok x, st', o1)"
      and k2: "?k x st' = (Ok (Some cn'), st'', o2)" unfolding e by (blast dest: and_then_Ok)
    have d: "during st st'" using pre(1) by (simp add: h safe_def during_def)
    show ?thesis
    proof (cases x)
      case None
      then show ?thesis using k2 cn d by (auto simp: finish_def conn_ok_def during_def)
    next
      case (Some r)
      then have sv: "serve io r cn st' = (Ok (Some cn'), st'', o2)" and r: "r < length (bk_sessions st')"
        using k2 pre(2) h by auto
      note ss = serve_safe [OF _ r, of io cn] 
      have "cn_session cn' = Some r" "r < length (bk_sessions st'')"
        using ss sv d r by (auto simp: during_def safe_def)
      then show ?thesis by (simp add: conn_ok_def)
    qed
  qed
  then show ?thesis using s
    by (cases "on_packet ops io now uuid packet cn st") (auto simp: branch_ok_def conn_after_def split: res.splits)
qed

section \<open>The running broker\<close>

text \<open>
  Connections, delayed wills and commands run concurrently. A step is one branch of one loop; which one,
  the answers of the sockets (\<open>io\<close>), the clock (\<open>now\<close>) and the generated identifiers (\<open>uuid\<close>) are not
  determined. A connection whose handler has returned is \<open>None\<close>. A packet that reaches the loop was
  returned by \<open>PacketStream::read\<close>, so it is \<open>packet_ok\<close>.
\<close>

record 'c World =
  wd_state :: "'c BrokerState"
  wd_conns :: "Conn option list"

definition World_init :: "Config \<Rightarrow> 'c World" where
  "World_init config = \<lparr>wd_state = BrokerState_new config, wd_conns = []\<rparr>"

definition after :: "'c World \<Rightarrow> nat \<Rightarrow> ('c, Conn option) handled \<Rightarrow> 'c World" where
  "after w i h = \<lparr>wd_state = fst (snd h), wd_conns = (wd_conns w)[i := conn_after (fst h)]\<rparr>"

text \<open>\<open>rx.recv()\<close>: the next control message of channel \<open>ch\<close>.\<close>

definition recv_control :: "'c channel_ops \<Rightarrow> nat \<Rightarrow> 'c BrokerState \<Rightarrow> (SessionControl \<times> 'c BrokerState) option" where
  "recv_control ops ch st =
    (if ch < length (bk_channels st) then
       (case ch_recv ops (bk_channels st ! ch) of
          Some (control, c) \<Rightarrow> Some (control, st\<lparr>bk_channels := (bk_channels st)[ch := c]\<rparr>)
        | None \<Rightarrow> None)
     else None)"

definition live :: "'c World \<Rightarrow> nat \<Rightarrow> Conn \<Rightarrow> bool" where
  "live w i cn \<longleftrightarrow> i < length (wd_conns w) \<and> wd_conns w ! i = Some cn"

inductive step :: "'c channel_ops \<Rightarrow> 'c World \<Rightarrow> 'c World \<Rightarrow> bool" for ops where
  accept: "step ops w (w\<lparr>wd_conns := wd_conns w @ [Some Conn_init]\<rparr>)"
| control: "live w i cn \<Longrightarrow> cn_control cn = Some ch \<Longrightarrow> recv_control ops ch (wd_state w) = Some (msg, st) \<Longrightarrow>
    step ops w (after w i (on_control io msg cn st))"
| keep_alive: "live w i cn \<Longrightarrow> step ops w (after w i (on_keep_alive ops io cn (wd_state w)))"
| packet: "live w i cn \<Longrightarrow> packet_ok p \<Longrightarrow> step ops w (after w i (on_packet ops io now uuid p cn (wd_state w)))"
| eof: "live w i cn \<Longrightarrow> step ops w (after w i (on_eof ops cn (wd_state w)))"
| read_error: "live w i cn \<Longrightarrow> step ops w (after w i (on_error ops cn (wd_state w)))"
| command: "apply_command cmd (wd_state w) = Some st \<Longrightarrow> step ops w (w\<lparr>wd_state := st\<rparr>)"
| will: "i < length (bk_wills (wd_state w)) \<Longrightarrow> will_task ops i (wd_state w) = Ok st \<Longrightarrow> step ops w (w\<lparr>wd_state := st\<rparr>)"

definition reachable :: "'c channel_ops \<Rightarrow> Config \<Rightarrow> 'c World \<Rightarrow> bool" where
  "reachable ops config w \<longleftrightarrow> (step ops)\<^sup>*\<^sup>* (World_init config) w"

definition world_inv :: "Config \<Rightarrow> 'c World \<Rightarrow> bool" where
  "world_inv config w \<longleftrightarrow> broker_inv (wd_state w) \<and> bk_config (wd_state w) = config \<and>
    (\<forall>cn. Some cn \<in> set (wd_conns w) \<longrightarrow> conn_ok (wd_state w) cn)"

lemma live_ok: "world_inv config w \<Longrightarrow> live w i cn \<Longrightarrow> broker_inv (wd_state w) \<and> conn_ok (wd_state w) cn"
  using nth_mem [of i "wd_conns w"] by (auto simp: world_inv_def live_def)

lemma conn_ok_mono: "conn_ok st cn \<Longrightarrow> length (bk_sessions st) \<le> length (bk_sessions st') \<Longrightarrow> conn_ok st' cn"
  by (auto simp: conn_ok_def)

lemma world_inv_after:
  assumes "world_inv config w" and "branch_ok st h" and "length (bk_sessions st) = length (bk_sessions (wd_state w))"
    and "bk_config st = bk_config (wd_state w)"
  shows "world_inv config (after w i h)"
proof -
  obtain m st' out where h: "h = (m, st', out)" by (metis prod_cases3)
  have b: "broker_inv st'" "length (bk_sessions (wd_state w)) \<le> length (bk_sessions st')"
    "\<And>cn. conn_after m = Some cn \<Longrightarrow> conn_ok st' cn" "bk_config st' = bk_config (wd_state w)"
    using assms(2-4) by (auto simp: branch_ok_def safe_def h)
  have "conn_ok st' cn" if "Some cn \<in> set ((wd_conns w)[i := conn_after m])" for cn
  proof -
    have "conn_after m = Some cn \<or> Some cn \<in> set (wd_conns w)"
      using that set_update_subset_insert [of "wd_conns w" i "conn_after m"] by auto
    then show ?thesis
      using b assms(1) conn_ok_mono [OF _ b(2), of cn] by (auto simp: world_inv_def)
  qed
  with b(1,4) assms(1) show ?thesis by (simp add: world_inv_def after_def h)
qed

lemma world_inv_during:
  "world_inv config w \<Longrightarrow> during (wd_state w) st \<Longrightarrow> world_inv config (w\<lparr>wd_state := st\<rparr>)"
  by (auto simp: world_inv_def during_def intro: conn_ok_mono)

lemma recv_control_evolves: "recv_control ops ch st = Some (msg, st') \<Longrightarrow> evolves st st' \<and> length (bk_sessions st') = length (bk_sessions st) \<and>
    bk_config st' = bk_config st"
  by (auto simp: recv_control_def split: if_splits option.splits)

lemma will_task_during:
  assumes "broker_inv st" and "will_task ops i st = Ok st'"
  shows "during st st'"
proof -
  obtain will d over where e: "bk_wills st ! i = (will, d, over)" by (metis prod_cases3)
  note b = during_refl [OF assms(1)]
  show ?thesis
  proof (cases over)
    case False
    then have "route_publish ops (will_publish will) [] (st\<lparr>bk_wills := (bk_wills st)[i := (will, d, True)]\<rparr>) = Ok st'"
      using assms(2) by (simp add: will_task_def e publish_will_def)
    then show ?thesis by (rule during_evolves [OF during_evolves [OF b evolves_wills] evolves_route_publish])
  qed (use assms(2) b in \<open>simp add: will_task_def e\<close>)
qed

lemma apply_command_during:
  assumes "broker_inv st" and "apply_command cmd st = Some st'"
  shows "during st st'"
proof -
  have "pool_inv ss (SessionPool_set_session_expiry e p) = pool_inv ss p" "active_count (SessionPool_set_session_expiry e p) = active_count p" for ss e p
    by (simp_all add: SessionPool_set_session_expiry_def pool_inv_def active_count_def)
  with assms show ?thesis
    by (cases cmd)
      (auto simp: apply_command_def during_def broker_inv_def sessions_ok_def room_def split: option.splits)
qed

lemma step_world_inv:
  assumes "world_inv config w" and "step ops w w'"
  shows "world_inv config w'"
  using assms(2)
proof cases
  case accept
  then show ?thesis using assms(1) by (auto simp: world_inv_def Conn_init_def conn_ok_def)
next
  case (control i cn ch msg st io)
  note l = live_ok [OF assms(1) control(2)] and r = recv_control_evolves [OF control(4)]
  have "broker_inv st" using l r broker_inv_evolves by blast
  moreover have "conn_ok st cn" using l r by (simp add: conn_ok_def)
  ultimately have "branch_ok st (on_control io msg cn st)" by (rule on_control_ok)
  from world_inv_after [OF assms(1) this] r control(1) show ?thesis by simp
next
  case (command cmd st)
  have "broker_inv (wd_state w)" using assms(1) by (simp add: world_inv_def)
  from world_inv_during [OF assms(1) apply_command_during [OF this command(2)]] command(1) show ?thesis by simp
next
  case (will i st)
  have "broker_inv (wd_state w)" using assms(1) by (simp add: world_inv_def)
  from world_inv_during [OF assms(1) will_task_during [OF this will(3)]] will(1) show ?thesis by simp
qed (use live_ok [OF assms(1)] in
  \<open>auto intro!: world_inv_after [OF assms(1)] on_keep_alive_ok on_packet_ok on_eof_ok on_error_ok\<close>)

interpretation broker: transition_invariant "step ops" "world_inv config" "World_init config" for config ops
proof
  show "world_inv config (World_init config)"
    by (simp add: world_inv_def World_init_def broker_inv_new) (simp add: BrokerState_new_def)
qed (rule step_world_inv)

lemma reachable_inv: "reachable ops config w \<Longrightarrow> world_inv config w"
  unfolding reachable_def by (rule broker.reachable_keeps)

end
