(* ===== verification/Broker_Service.thy ===== *)
theory Broker_Service
  imports Broker_World
begin

text \<open>
  What a client of the broker observes: answers to CONNECT, delivery to subscribers, redelivery after a
  reconnect, takeover of a session, acknowledgement of publishing.
\<close>

section \<open>CONNECT\<close>

lemma first_ack_fields:
  "ca_reason (first_ack uuid connect pool) = R_Success" "ca_ack_flags (first_ack uuid connect pool) = 0"
  by (simp_all add: first_ack_def connect_id_def connect_expiry_def connect_keep_alive_def Let_def ConnAck_default_def
      ConnAck_set_server_keep_alive_def ConnAck_set_session_expiry_def split: option.split)

lemma session_present_laws:
  "ConnAck_session_present (ConnAck_set_session_present a True)"
  "ca_ack_flags a = 0 \<Longrightarrow> \<not> ConnAck_session_present a"
  "ca_reason (ConnAck_set_session_present a b) = ca_reason a"
  by (simp_all add: ConnAck_session_present_def ConnAck_set_session_present_def CONNACK_SESSION_PRESENT_MASK_def
      bit_eq_iff) (auto simp: bit_eq_iff bit_simps intro!: exI [of _ 0])

lemma connect_accepted:
  assumes inv: "broker_inv st" and io: "\<forall>p. io_write io p" and sid: "sid = connect_sid uuid connect"
    and cap: "SessionPool_get_active sid (bk_pool st) \<noteq> None \<or>
      \<not> SessionPool_at_capacity (bk_pool st) (cf_max_active_sessions (bk_config st))"
  shows "\<exists>ack r st'. handle_connect ops io now uuid connect st = (Ok (Some r), st', [Pkt_ConnAck ack]) \<and>
    ca_reason ack = R_Success \<and> (ConnAck_session_present ack \<longleftrightarrow> resumed st connect sid \<noteq> None) \<and>
    SessionPool_get_active sid (bk_pool st') = Some r \<and> broker_inv st' \<and>
    se_will_message (bk_sessions st' ! r) = Connect_will_message connect \<and>
    se_pending_ack (bk_sessions st' ! r) =
      (case resumed st connect sid of Some k \<Rightarrow> se_pending_ack (bk_sessions st ! k) | None \<Rightarrow> [])"
proof (cases rule: handle_connect_cases [OF inv sid refl, of ops io now])
  case 1
  with cap show ?thesis by simp
next
  case (2 ack r st')
  note p = 2(1) [unfolded connect_post_def]
  have "ca_reason ack = R_Success \<and> (ConnAck_session_present ack \<longleftrightarrow> resumed st connect sid \<noteq> None)"
    using p first_ack_fields [of uuid connect "bk_pool st"] by (auto simp: session_present_laws)
  with p 2(3) io show ?thesis
    by (auto simp: write_packet_def finish_def SessionPool_get_active_def split: option.splits)
qed

lemma connect_refused:
  assumes "broker_inv st" and "io_write io (Pkt_ConnAck ((first_ack uuid connect (bk_pool st))\<lparr>ca_reason := R_QuotaExceeded\<rparr>))"
    and "io_shutdown io" and "SessionPool_get_active (connect_sid uuid connect) (bk_pool st) = None"
    and "SessionPool_at_capacity (bk_pool st) (cf_max_active_sessions (bk_config st))"
  shows "\<exists>ack. handle_connect ops io now uuid connect st = (Ok None, st, [Pkt_ConnAck ack]) \<and> ca_reason ack = R_QuotaExceeded"
  using assms by (cases rule: handle_connect_cases [OF assms(1) refl refl, of uuid connect ops io now])
    (auto simp: write_packet_def finish_def)

text \<open>A SUBSCRIBE is answered with the granted level of every filter, in order; other sessions keep their subscriptions.\<close>

lemma subscribe_answered:
  assumes "broker_inv st" and "su_packet_id p \<noteq> 0"
  shows "\<exists>suback st'. handle_subscribe p sid st = Ok (suback, st') \<and> broker_inv st' \<and> sa_packet_id suback = su_packet_id p \<and>
    sa_reason_codes suback = map (\<lambda>f. granted_reason (SubscriptionFilter_qos f)) (su_filter p) \<and>
    (\<forall>x f. sb_session_id x \<noteq> sid \<longrightarrow> (x \<in> set (subs_at (bk_tree st') f) \<longleftrightarrow> x \<in> set (subs_at (bk_tree st) f)))"
  using subscribe_all_ok [OF broker_invD(2) [OF assms(1)], of "su_filter p" sid] broker_inv_tree [OF assms(1)] assms(2)
  by (auto simp: handle_subscribe_def SubAck_new_with_packet_id_def SubAck_default_def)

text \<open>A second connection under the identifier of an active session: the first one is told to go.\<close>

lemma takeover_notice:
  assumes inv: "broker_inv st" and r: "SessionPool_get_active sid (bk_pool st) = Some r"
    and old: "fst (se_control (bk_sessions st ! r)) < length (bk_channels st)"
    and c: "connect_session ops now connect sid ka ack st = (ack', r', st')"
  shows "bk_channels st' ! fst (se_control (bk_sessions st ! r)) =
    ch_send ops (bk_channels st ! fst (se_control (bk_sessions st ! r))) (SC_Disconnect R_SessionTakeOver)"
proof -
  note p = pool_invD [OF broker_invD(1) [OF inv]]
  have con: "se_connected (bk_sessions st ! r)" using p(6) r by (simp add: SessionPool_get_active_def)
  have none: "sp_inactive (bk_pool st) sid = None" using p(5) r by (auto simp: SessionPool_get_active_def)
  show ?thesis
    using c r con none old
    by (auto simp: connect_session_def Let_def SessionPool_remove_def SessionPool_activate_def SessionPool_get_active_def
        handle_takeover_def Session_disconnect_def send_control_def new_session_def new_channel_def resume_session_def cancel_pending_will_def
        nth_append split: if_splits)
qed

section \<open>Publishing\<close>

lemma publish_tracked:
  assumes inv: "broker_inv st" and q: "has_qos publish q" and plain: "plain_topic (split_topic (pu_topic_name publish))"
    and sub: "sub \<in> set (subs_at (bk_tree st) f)" "matches f (split_topic (pu_topic_name publish))"
    and act: "SessionPool_get_active (sb_session_id sub) (bk_pool st) = Some r"
    and other: "\<not> (sb_no_local sub \<and> sb_session_id sub = sender)" and level: "min q (sb_qos sub) \<noteq> AtMostOnce"
    and few: "\<forall>subs. matching_subscribers (bk_tree st) (pu_topic_name publish) = (Ok subs :: (BrokerError, Subscriber list) res) \<longrightarrow>
      length subs \<le> 65535"
  shows "\<exists>st' pid. route_publish ops publish sender st = Ok st' \<and> pid \<noteq> 0 \<and>
    pending_in st' r pid = Some ((Publish_set_qos publish (min q (sb_qos sub)))\<lparr>pu_packet_id := Some pid\<rparr>)"
proof -
  note d = broker_invD [OF inv]
  from route_publish_ok [OF q d(2), of ops sender] obtain subs where
    m: "matching_subscribers (bk_tree st) (pu_topic_name publish) = (Ok subs :: (BrokerError, Subscriber list) res)"
    and r: "route_publish ops publish sender st = Ok (route_list ops publish q sender subs st)" by metis
  have "sub \<in> set subs"
    using matching_subscribers_spec [OF d(2) plain, where ?'e = BrokerError] m sub by auto
  from route_list_tracks [OF d(3,1) this _ act other level, of ops publish] few m r show ?thesis by blast
qed

lemma subscribe_then_publish:
  assumes inv: "broker_inv st" and act: "SessionPool_get_active sid (bk_pool st) = Some r"
    and p: "su_filter p = [f]" and s: "handle_subscribe p sid st = Ok (suback, st1)"
    and q: "has_qos publish q" and level: "min q (SubscriptionFilter_qos f) \<noteq> AtMostOnce"
    and plain: "plain_topic (split_topic (pu_topic_name publish))"
    and m: "matches (split_topic (sf_filter f)) (split_topic (pu_topic_name publish))" and other: "sender \<noteq> sid"
    and few: "\<forall>subs. matching_subscribers (bk_tree st1) (pu_topic_name publish) = (Ok subs :: (BrokerError, Subscriber list) res) \<longrightarrow>
      length subs \<le> 65535"
  shows "\<exists>st2 pid. route_publish ops publish sender st1 = Ok st2 \<and> pid \<noteq> 0 \<and>
    pending_in st2 r pid = Some ((Publish_set_qos publish (min q (SubscriptionFilter_qos f)))\<lparr>pu_packet_id := Some pid\<rparr>)"
proof -
  let ?x = "\<lparr>sb_session_id = sid, sb_qos = SubscriptionFilter_qos f, sb_no_local = SubscriptionFilter_no_local f\<rparr>"
  from s p obtain tree where sub: "subscribe (bk_tree st) (sf_filter f) sid (SubscriptionFilter_qos f) (SubscriptionFilter_no_local f) =
      (Ok tree :: (BrokerError, TopicTree) res)" and st1: "st1 = st\<lparr>bk_tree := tree\<rparr>"
    by (auto simp: handle_subscribe_def Let_def split: prod.splits)
  from topics.sub_law [OF broker_invD(2) [OF inv], of "sf_filter f" sid "SubscriptionFilter_qos f" "SubscriptionFilter_no_local f", where ?'a = BrokerError] sub
  have t: "tree_inv tree" "subs_at tree (split_topic (sf_filter f)) = upsert (subs_at (bk_tree st) (split_topic (sf_filter f))) ?x"
    by auto
  have "?x \<in> set (subs_at (bk_tree st1) (split_topic (sf_filter f)))" by (simp add: st1 t(2) upsert_mem)
  from publish_tracked [OF broker_inv_tree [OF inv t(1), folded st1] q plain this m _ _ _ few, of r sender ops] act other level
  show ?thesis by (simp add: st1)
qed

text \<open>A message of QoS 1 is acknowledged, then routed.\<close>

lemma publish_acknowledged:
  assumes inv: "broker_inv st" and q: "has_qos publish AtLeastOnce" and pid: "pu_packet_id publish = Some pid"
    and io: "io_write io (Pkt_PubAck (PubResp_new_puback_with_packet_id pid))"
  shows "\<exists>st'. route_publish ops publish (se_id (bk_sessions st ! r)) st = Ok st' \<and>
    handle_packet ops io (Pkt_Publish publish) r st = (Ok (), st', [Pkt_PubAck (PubResp_new_puback_with_packet_id pid)])"
proof -
  obtain st' where "route_publish ops publish (se_id (bk_sessions st ! r)) st = Ok st'"
    using route_publish_during [OF inv q] by blast
  then show ?thesis
    using pid io by (simp add: handle_packet_def Let_def has_qos_any [OF q] run_def write_packet_def finish_def)
qed

text \<open>
  A subscriber of level 0 gets a QoS 1 or 2 message at level 0 with the publisher's packet identifier
  still in it, so that the level and the presence of the identifier disagree.
\<close>

lemma downgrade_keeps_id:
  assumes q: "has_qos publish q" and pid: "pu_packet_id publish = Some pid" and sub: "sb_qos sub = AtMostOnce"
    and act: "SessionPool_get_active (sb_session_id sub) (bk_pool st) = Some r"
    and other: "\<not> (sb_no_local sub \<and> sb_session_id sub = sender)"
  shows "\<exists>out. route_to ops publish sender sub st = Ok (deliver ops r out st) \<and> pu_packet_id out = Some pid \<and>
    has_qos out AtMostOnce \<and> \<not> Publish_id_agrees out"
proof -
  let ?out = "Publish_set_qos publish AtMostOnce"
  have m: "min q AtMostOnce = AtMostOnce" by (cases q) (simp_all add: min_def less_eq_QoSLevel_def)
  have "route_to ops publish sender sub st = Ok (deliver ops r ?out st)"
    using act other by (auto simp add: route_to_eq [OF q] route_one_def sub m)
  moreover have "pu_packet_id ?out = Some pid" using pid by (simp add: Publish_set_qos_def)
  moreover have h: "has_qos ?out AtMostOnce" by simp
  moreover have "\<not> Publish_id_agrees ?out"
    using h pid by (simp add: Publish_id_agrees_def has_qos_def Publish_qos_def Publish_set_qos_def)
  ultimately show ?thesis by blast
qed

section \<open>Redelivery\<close>

text \<open>What is sent again: the recorded message, marked as a duplicate, under its identifier.\<close>

fun again :: "u16 \<times> Publish \<Rightarrow> Publish" where
  "again (pid, p) = p\<lparr>pu_fixed_header := FixedHeader_set_dup (pu_fixed_header p) True, pu_packet_id := Some pid\<rparr>"

lemma update_fresh: "k \<notin> fst ` set l \<Longrightarrow> AList.update k v l = l @ [(k, v)]"
  by (induction l) auto

text \<open>
  The messages up to the first one that can not be written are sent, and these and that one are recorded
  again; the messages after it are gone.
\<close>

definition resent :: "conn_io \<Rightarrow> (u16 \<times> Publish) list \<Rightarrow> (u16 \<times> Publish) list" where
  "resent io pending = takeWhile (\<lambda>e. io_write io (Pkt_Publish (again e))) pending"

definition recorded_again :: "conn_io \<Rightarrow> (u16 \<times> Publish) list \<Rightarrow> (u16 \<times> Publish) list" where
  "recorded_again io pending = map (\<lambda>e. (fst e, again e)) (take (Suc (length (resent io pending))) pending)"

lemma recorded_again_Cons:
  "recorded_again io (e # pending) =
    (fst e, again e) # (if io_write io (Pkt_Publish (again e)) then recorded_again io pending else [])"
  by (simp add: recorded_again_def resent_def)

lemma redeliver_outcome:
  assumes "\<forall>e \<in> set pending. tracked_ok e" and "r < length (bk_sessions st)"
    and "distinct (map fst (se_pending_ack (bk_sessions st ! r) @ pending))"
  shows "redeliver io r pending st =
    (if resent io pending = pending then Ok () else Err BE_Stream,
     upd_session r (\<lambda>s. s\<lparr>se_pending_ack := se_pending_ack s @ recorded_again io pending\<rparr>) st,
     map (\<lambda>e. Pkt_Publish (again e)) (resent io pending))"
  using assms
proof (induction pending arbitrary: st)
  case Nil
  then show ?case by (simp add: finish_def resent_def recorded_again_def upd_session_def)
next
  case (Cons e pending)
  obtain pid p where e: "e = (pid, p)" by (cases e)
  then obtain q where q: "has_qos p q" "q \<noteq> AtMostOnce" using Cons.prems(1) by auto
  let ?dup = "p\<lparr>pu_fixed_header := FixedHeader_set_dup (pu_fixed_header p) True\<rparr>"
  have q': "has_qos ?dup q" using q(1) by simp
  let ?st = "upd_session r (Session_track_qos_publish pid (again e)) st"
  have ack: "se_pending_ack (bk_sessions ?st ! r) = se_pending_ack (bk_sessions st ! r) @ [(pid, again e)]"
    using Cons.prems(2,3) e by (simp add: Session_track_qos_publish_def update_fresh)
  have st: "?st = upd_session r (\<lambda>s. s\<lparr>se_pending_ack := se_pending_ack s @ [(pid, again e)]\<rparr>) st"
    using Cons.prems(2,3) e by (simp add: upd_session_def Session_track_qos_publish_def update_fresh)
  have head: "redeliver io r (e # pending) st = write_packet io (Pkt_Publish (again e)) ?st (redeliver io r pending)"
    using set_dup_qos [OF q] set_packet_id_qos [OF q' q(2)] by (simp add: e ignore_err_def run_def)
  have ih: "redeliver io r pending ?st =
    (if resent io pending = pending then Ok () else Err BE_Stream,
     upd_session r (\<lambda>s. s\<lparr>se_pending_ack := se_pending_ack s @ recorded_again io pending\<rparr>) ?st,
     map (\<lambda>e. Pkt_Publish (again e)) (resent io pending))"
    by (rule Cons.IH) (use Cons.prems ack e in simp_all)
  have fe: "fst e = pid" by (simp add: e)
  show ?case
  proof (cases "io_write io (Pkt_Publish (again e))")
    case True
    then show ?thesis
      unfolding head write_packet_def ih unfolding st upd_session_twice by (simp add: resent_def recorded_again_Cons fe)
  next
    case False
    then show ?thesis
      unfolding head write_packet_def st by (simp add: resent_def recorded_again_Cons fe)
  qed
qed

abbreviation drained :: "conn_io \<Rightarrow> 'c BrokerState \<Rightarrow> nat \<Rightarrow> (u16 \<times> Publish) list" where
  "drained io st r \<equiv> iteration (io_rank io) (se_pending_ack (bk_sessions st ! r))"

lemma serve_outcome:
  fixes io :: conn_io
  assumes inv: "broker_inv st" and r: "r < length (bk_sessions st)"
  defines "pending \<equiv> drained io st r"
  shows "serve io r cn st =
    (if resent io pending = pending
     then Ok (Some (cn\<lparr>cn_connected := True, cn_session := Some r, cn_control := snd (se_control (bk_sessions st ! r)),
            cn_keep_alive := se_keep_alive (bk_sessions st ! r)\<rparr>))
     else Err BE_Stream,
     upd_session r (\<lambda>s. s\<lparr>se_control := (fst (se_control s), None), se_pending_ack := recorded_again io pending\<rparr>) st,
     map (\<lambda>e. Pkt_Publish (again e)) (resent io pending))"
proof -
  let ?st = "upd_session r (\<lambda>_. (bk_sessions st ! r)\<lparr>se_control := (fst (se_control (bk_sessions st ! r)), None), se_pending_ack := []\<rparr>) st"
  have "session_ok (bk_sessions st ! r)" using sessions_okD [OF broker_invD(3) [OF inv] r] .
  then have "redeliver io r pending ?st =
    (if resent io pending = pending then Ok () else Err BE_Stream,
     upd_session r (\<lambda>s. s\<lparr>se_pending_ack := se_pending_ack s @ recorded_again io pending\<rparr>) ?st,
     map (\<lambda>e. Pkt_Publish (again e)) (resent io pending))"
    by (intro redeliver_outcome) (use r in \<open>simp_all add: session_ok_def pending_def\<close>)
  moreover have "upd_session r (\<lambda>s. s\<lparr>se_pending_ack := se_pending_ack s @ recorded_again io pending\<rparr>) ?st =
      upd_session r (\<lambda>s. s\<lparr>se_control := (fst (se_control s), None), se_pending_ack := recorded_again io pending\<rparr>) st"
    using r by (simp add: upd_session_def)
  ultimately show ?thesis
    by (simp add: serve_def Session_take_control_receiver_def Session_drain_pending_def and_then_def finish_def Let_def pending_def)
qed

lemma recorded_again_all:
  assumes "\<forall>p. io_write io p"
  shows "resent io pending = pending" "recorded_again io pending = map (\<lambda>e. (fst e, again e)) pending"
proof -
  show "resent io pending = pending" using assms by (simp add: resent_def)
  then show "recorded_again io pending = map (\<lambda>e. (fst e, again e)) pending" by (simp add: recorded_again_def)
qed

lemma serve_redelivers:
  assumes inv: "broker_inv st" and r: "r < length (bk_sessions st)" and io: "\<forall>p. io_write io p"
  shows "\<exists>cn' st' sent. serve io r cn st =
      (Ok (Some cn'), st', map (\<lambda>e. Pkt_Publish (again e)) sent) \<and> mset sent = mset (se_pending_ack (bk_sessions st ! r)) \<and>
    cn_connected cn' \<and> cn_session cn' = Some r \<and> cn_control cn' = snd (se_control (bk_sessions st ! r)) \<and>
    se_pending_ack (bk_sessions st' ! r) = map (\<lambda>e. (fst e, again e)) sent"
  using serve_outcome [OF inv r, of io cn] r by (auto simp: recorded_again_all [OF io] intro!: exI [of _ "drained io st r"])

section \<open>Wills\<close>

text \<open>The will message set on a CONNECT is the one the broker reads back, and what it publishes carries it.\<close>

lemma will_message_kept:
  "Connect_will_message (Connect_set_will_message c w) = Some w"
  "pu_topic_name (will_publish w) = wm_topic w" "pu_payload (will_publish w) = Some (wm_payload w)"
  "Publish_qos (will_publish w) = (Ok (wm_qos w) :: QoSLevel codec_result)" "Publish_retain (will_publish w) = wm_retain w"
  "pu_message_expiry (will_publish w) = wh_message_expiry (wm_header w)"
  using will_publish_qos [of w]
  by (simp_all add: has_qos_def)
    (auto simp: will_publish_def Let_def Publish_set_qos_def Publish_set_retain_def Publish_set_payload_format_def
      Publish_retain_def split: option.splits)

end
