(* ===== verification/Broker_Channels.thy ===== *)
theory Broker_Channels
  imports Broker_Service
begin

text \<open>
  The control channels of the sessions: every session sends on a channel of its own in every state the
  broker can reach, and, over channels that keep order and refuse only when they are full, what routing
  puts into the channel of a session is exactly what its subscriptions ask for.
\<close>

section \<open>Every session has a channel of its own\<close>

definition senders :: "'c BrokerState \<Rightarrow> nat list" where
  "senders st = map (\<lambda>s. fst (se_control s)) (bk_sessions st)"

definition channels_own :: "'c BrokerState \<Rightarrow> bool" where
  "channels_own st \<longleftrightarrow> distinct (senders st) \<and> (\<forall>ch \<in> set (senders st). ch < length (bk_channels st))"

text \<open>A handler that makes no channel.\<close>

definition keeps_senders :: "'c BrokerState \<Rightarrow> 'c BrokerState \<Rightarrow> bool" where
  "keeps_senders st st' \<longleftrightarrow> senders st' = senders st \<and> length (bk_channels st') = length (bk_channels st)"

named_theorems keeps

lemma keeps_senders_refl [keeps, simp]: "keeps_senders st st"
  by (simp add: keeps_senders_def)

lemma keeps_senders_trans: "keeps_senders a b \<Longrightarrow> keeps_senders b c \<Longrightarrow> keeps_senders a c"
  by (simp add: keeps_senders_def)

lemma channels_own_keeps: "channels_own st \<Longrightarrow> keeps_senders st st' \<Longrightarrow> channels_own st'"
  by (simp add: channels_own_def keeps_senders_def)

lemma keeps_senders_update:
  assumes "\<And>s. fst (se_control (f s)) = fst (se_control s)"
  shows "map (\<lambda>s. fst (se_control s)) (store[r := f (store ! r)]) = map (\<lambda>s. fst (se_control s)) store"
  by (cases "r < length store") (simp_all add: map_update assms list_update_beyond list_update_same_conv)

lemma keeps_upd_session: "(\<And>s. fst (se_control (f s)) = fst (se_control s)) \<Longrightarrow> keeps_senders st (upd_session r f st)"
  by (simp add: keeps_senders_def senders_def keeps_senders_update)

lemma keeps_same [keeps]:
  "keeps_senders st (st\<lparr>bk_pool := p\<rparr>)" "keeps_senders st (st\<lparr>bk_tree := t\<rparr>)" "keeps_senders st (st\<lparr>bk_wills := w\<rparr>)"
  "keeps_senders st (st\<lparr>bk_accept := b\<rparr>)" "keeps_senders st (st\<lparr>bk_channels := (bk_channels st)[ch := c]\<rparr>)"
  by (simp_all add: keeps_senders_def senders_def)

lemma keeps_send [keeps]:
  "keeps_senders st (send_control ops r msg st)" "keeps_senders st (snd (try_send_control ops r msg st))"
  "keeps_senders st (deliver ops r out st)" "keeps_senders st (cancel_will token st)"
proof -
  show t: "keeps_senders st (snd (try_send_control ops r msg st))" for r msg and st :: "'a BrokerState"
    by (simp add: try_send_control_def Let_def keeps split: option.split)
  show "keeps_senders st (deliver ops r out st)"
  proof (cases "try_send_control ops r (SC_Deliver out) st")
    case (Pair b st')
    then have "keeps_senders st st'" using t [where r = r and msg = "SC_Deliver out" and st = st] by simp
    then show ?thesis
      using keeps_senders_trans [OF _ t] by (simp add: deliver_def Pair split: bool.split)
  qed
qed (simp_all add: send_control_def cancel_will_def Let_def keeps split: option.split)

lemma keeps_deactivate [keeps]: "keeps_senders st (deactivate_session sid st)"
proof -
  have "map (\<lambda>s. fst (se_control s)) (store[r := Session_set_connected False (store ! r)]) = map (\<lambda>s. fst (se_control s)) store"
    for store r
    by (rule keeps_senders_update) (simp add: Session_set_connected_def)
  then show ?thesis
    by (simp add: deactivate_session_def SessionPool_deactivate_def keeps_senders_def senders_def Let_def split: option.split)
qed

lemma keeps_route_one: "keeps_senders st (route_one ops publish q r st)"
  by (auto simp: route_one_def Let_def keeps intro!: keeps_senders_trans [OF keeps_upd_session keeps_send(3)])
    (simp add: Session_track_qos_publish_def Session_next_packet_id_def Let_def)

lemma keeps_route_publish: "route_publish ops publish sender st = Ok st' \<Longrightarrow> keeps_senders st st'"
  by (erule route_publish_relation) (auto intro: keeps_route_one keeps_senders_trans)

lemma keeps_initiate_will: "initiate_will ops r st = Ok st' \<Longrightarrow> keeps_senders st st'"
proof -
  have take: "keeps_senders st (upd_session r (\<lambda>s. snd (Session_take_will s)) st)"
    by (rule keeps_upd_session) (simp add: Session_take_will_def)
  have pend: "keeps_senders s (upd_session r (\<lambda>s. snd (Session_set_pending_will t s)) s)" for s :: "'a BrokerState" and t
    by (rule keeps_upd_session) (simp add: Session_set_pending_will_def Session_cancel_pending_will_def)
  show "initiate_will ops r st = Ok st' \<Longrightarrow> keeps_senders st st'"
    by (auto simp: initiate_will_def Let_def publish_will_def split: option.splits if_splits dest!: keeps_route_publish
        intro: keeps_senders_trans [OF take] keeps_senders_trans [OF keeps_same(3)] keeps_senders_trans [OF keeps_send(4)] pend)
qed

text \<open>Handlers that end in a state with a given property, by the way they are put together.\<close>

definition ends_in :: "('c BrokerState \<Rightarrow> bool) \<Rightarrow> ('c, 'a) handled \<Rightarrow> bool" where
  "ends_in P h \<longleftrightarrow> P (fst (snd h))"

lemma ends_in_finish: "P st \<Longrightarrow> ends_in P (finish x st)"
  by (simp add: ends_in_def finish_def)

lemma ends_in_fail: "P st \<Longrightarrow> ends_in P (m, st, out)"
  by (simp add: ends_in_def)

lemma ends_in_write: "P st \<Longrightarrow> ends_in P (k st) \<Longrightarrow> ends_in P (write_packet io p st k)"
  by (cases "k st") (simp add: write_packet_def ends_in_def)

lemma ends_in_run: "P st \<Longrightarrow> (\<And>x. m = Ok x \<Longrightarrow> ends_in P (k x)) \<Longrightarrow> ends_in P (run m st k)"
  by (cases m) (simp_all add: run_def ends_in_fail)

lemma ends_in_and_then:
  assumes h: "ends_in P h" and k: "\<And>x st out. h = (Ok x, st, out) \<Longrightarrow> P st \<Longrightarrow> ends_in P (k x st)"
  shows "ends_in P (and_then h k)"
proof -
  obtain m st out where e: "h = (m, st, out)" by (metis prod_cases3)
  show ?thesis
  proof (cases m)
    case (Ok x)
    then have "ends_in P (k x st)" using h k e by (simp add: ends_in_def)
    then show ?thesis by (cases "k x st") (simp add: and_then_def e Ok ends_in_def)
  qed (use h in \<open>simp_all add: and_then_def e ends_in_def\<close>)
qed

lemmas ends_in_intros = ends_in_finish ends_in_fail ends_in_write ends_in_run

text \<open>A property of the broker state is kept by a step when the parts the branches are made of keep it.\<close>

lemma branch_keeps:
  assumes s: "step ops w w'" and P: "P (wd_state w)"
    and recv: "\<And>ch msg st. recv_control ops ch (wd_state w) = Some (msg, st) \<Longrightarrow> P st"
    and deact: "\<And>ch msg st sid. recv_control ops ch (wd_state w) = Some (msg, st) \<Longrightarrow> P st \<Longrightarrow> P (deactivate_session sid st)"
    and ab: "\<And>r st. abandon ops r (wd_state w) = Ok st \<Longrightarrow> P st"
    and pkt: "\<And>i cn p io now uuid. live w i cn \<Longrightarrow> packet_ok p \<Longrightarrow>
      w' = after w i (on_packet ops io now uuid p cn (wd_state w)) \<Longrightarrow> ends_in P (on_packet ops io now uuid p cn (wd_state w))"
    and cmd: "\<And>c st. apply_command c (wd_state w) = Some st \<Longrightarrow> P st"
    and wt: "\<And>i st. will_task ops i (wd_state w) = Ok st \<Longrightarrow> P st"
  shows "P (wd_state w')"
proof -
  have a: "P (wd_state (after w i h))" if "ends_in P h" for i h
    using that by (simp add: after_def ends_in_def)
  show ?thesis
    using s
  proof cases
    case (control i cn ch msg st io)
    then show ?thesis
      using recv [OF control(4)] deact [OF control(4)]
      by (auto simp: on_control_def Let_def intro!: a ends_in_intros split: SessionControl.split option.split)
  next
    case (packet i cn p io now uuid)
    then show ?thesis using a pkt by simp
  qed (use P ab cmd wt in \<open>auto simp: on_keep_alive_def on_eof_def on_error_def intro!: a ends_in_intros split: option.split\<close>)
qed

abbreviation owning :: "('c, 'a) handled \<Rightarrow> bool" where
  "owning \<equiv> ends_in channels_own"

section \<open>The branches of the connection loop\<close>

lemma own_abandon: "abandon ops r st = Ok st' \<Longrightarrow> channels_own st \<Longrightarrow> channels_own st'"
  by (auto simp: abandon_def Let_def
      intro: channels_own_keeps [OF _ keeps_senders_trans [OF keeps_initiate_will keeps_deactivate]])

lemma own_deactivate: "channels_own st \<Longrightarrow> channels_own (deactivate_session sid st)"
  by (rule channels_own_keeps [OF _ keeps_deactivate])

lemma own_handle_packet:
  assumes own: "channels_own st"
  shows "owning (handle_packet ops io packet r st)"
proof (cases packet)
  case (Pkt_Publish publish)
  note k = channels_own_keeps [OF own keeps_route_publish]
  show ?thesis
    by (auto simp: handle_packet_def Pkt_Publish Let_def intro!: ends_in_intros own split: option.split dest: k)
next
  case (Pkt_PubAck a)
  have "channels_own (upd_session r (\<lambda>s. snd (Session_acknowledge (pr_packet_id a) s)) st)"
    by (rule channels_own_keeps [OF own keeps_upd_session]) (simp add: Session_acknowledge_def)
  then show ?thesis by (simp add: handle_packet_def Pkt_PubAck ends_in_finish)
next
  case (Pkt_Disconnect d)
  have "channels_own (upd_session r Session_clear_will st)"
    by (rule channels_own_keeps [OF own keeps_upd_session]) (simp add: Session_clear_will_def)
  then show ?thesis
    using channels_own_keeps [OF own keeps_initiate_will]
    by (auto simp: handle_packet_def Pkt_Disconnect Let_def intro!: ends_in_intros own own_deactivate split: if_splits)
next
  case (Pkt_Subscribe p)
  then show ?thesis
    by (auto simp: handle_packet_def handle_subscribe_def Let_def intro!: ends_in_intros own channels_own_keeps [OF own keeps_same(2)]
        split: prod.splits)
next
  case (Pkt_Unsubscribe p)
  then show ?thesis
    by (auto simp: handle_packet_def handle_unsubscribe_def Let_def intro!: ends_in_intros own channels_own_keeps [OF own keeps_same(2)]
        split: prod.splits)
qed (use own in \<open>auto simp: handle_packet_def intro!: ends_in_intros\<close>)

text \<open>A new or a resumed session gets the channel made last.\<close>

lemma own_new_channel:
  assumes "channels_own st" and "new_channel ops n st = (chan, st')"
  shows "channels_own st'" "chan < length (bk_channels st')" "chan \<notin> set (senders st')" "bk_sessions st' = bk_sessions st"
  using assms by (auto simp: new_channel_def channels_own_def senders_def less_SucI)

lemma own_new_session:
  assumes own: "channels_own st" and s: "new_session ops now sid will ka n st = (r, st')"
  shows "channels_own st'"
proof -
  obtain chan st1 where c: "new_channel ops n st = (chan, st1)" by (metis prod.exhaust)
  note o = own_new_channel [OF own c]
  from s o show ?thesis
    by (auto simp: new_session_def c Let_def channels_own_def senders_def Session_new_def Session_set_connected_def)
qed

lemma own_reset_control:
  assumes "channels_own st" and "chan < length (bk_channels st)" and "chan \<notin> set (senders st)"
  shows "channels_own (upd_session r (Session_reset_control chan) st)"
proof (cases "r < length (bk_sessions st)")
  case True
  have e: "senders (upd_session r (Session_reset_control chan) st) = (senders st)[r := chan]"
    by (simp add: senders_def map_update Session_reset_control_def)
  show ?thesis
    using assms True set_update_subset_insert [of "senders st" r chan]
    by (auto simp: channels_own_def e intro!: distinct_list_update)
next
  case False
  then have "upd_session r (Session_reset_control chan) st = st" by (simp add: upd_session_def list_update_beyond)
  then show ?thesis using assms(1) by simp
qed

lemma own_resume_session:
  assumes own: "channels_own st"
  shows "channels_own (resume_session ops r will n st)"
proof -
  let ?st = "upd_session r (Session_set_will will) (cancel_pending_will r st)"
  have w: "keeps_senders s (upd_session r (Session_set_will will) s)" for s :: "'a BrokerState"
    by (rule keeps_upd_session) (simp add: Session_set_will_def)
  have p: "keeps_senders st (upd_session r (\<lambda>s. snd (Session_cancel_pending_will s)) st)"
    by (rule keeps_upd_session) (simp add: Session_cancel_pending_will_def)
  have "keeps_senders st ?st"
    unfolding cancel_pending_will_def by (rule keeps_senders_trans [OF keeps_senders_trans [OF p keeps_send(4)] w])
  then have s: "channels_own ?st" by (rule channels_own_keeps [OF own])
  obtain chan st1 where c: "new_channel ops n ?st = (chan, st1)" by (metis prod.exhaust)
  note o = own_new_channel [OF s c]
  from own_reset_control [OF o(1-3)] show ?thesis by (simp add: resume_session_def c)
qed

lemma own_connect_session:
  assumes own: "channels_own st" and c: "connect_session ops now connect sid ka ack st = (ack', r, st')"
  shows "channels_own st'"
proof -
  have t: "channels_own (handle_takeover ops r' (st\<lparr>bk_pool := p\<rparr>))" "channels_own (st\<lparr>bk_pool := p\<rparr>)" for r' p
    unfolding handle_takeover_def Session_disconnect_def
    by (rule channels_own_keeps [OF own keeps_senders_trans [OF keeps_same(1) keeps_send(1)]],
        rule channels_own_keeps [OF own keeps_same(1)])
  have l: "channels_own (upd_session r' (Session_set_last_active now) s)" if "channels_own s" for r' and s :: "'a BrokerState"
    by (rule channels_own_keeps [OF that keeps_upd_session]) (simp add: Session_set_last_active_def)
  have a: "channels_own (st\<lparr>bk_sessions := sessions, bk_pool := p\<rparr>)"
    if "SessionPool_activate now sid (bk_sessions st) (bk_pool st) = (x, sessions, p)" for x sessions p
  proof -
    have "map (\<lambda>s. fst (se_control s)) sessions = map (\<lambda>s. fst (se_control s)) (bk_sessions st)"
      using that keeps_senders_update [where f = "\<lambda>s. Session_set_last_active now (Session_set_connected True s)"]
      by (auto simp: SessionPool_activate_def Let_def Session_set_last_active_def Session_set_connected_def split: option.splits)
    then have "keeps_senders st (st\<lparr>bk_sessions := sessions, bk_pool := p\<rparr>)" by (simp add: keeps_senders_def senders_def)
    then show ?thesis by (rule channels_own_keeps [OF own])
  qed
  have ta: "channels_own (handle_takeover ops r' s)" if "channels_own s" for r' and s :: "'a BrokerState"
    using that by (auto simp: handle_takeover_def Session_disconnect_def intro: channels_own_keeps keeps)
  show ?thesis
  proof (cases "Connect_clean_start connect")
    case True
    obtain x p where x: "SessionPool_remove sid (bk_pool st) = (x, p)" by (metis prod.exhaust)
    show ?thesis
      using c True by (cases x) (auto simp: connect_session_def Let_def x intro: own_new_session [OF t(1)] own_new_session [OF t(2)] split: if_splits)
  next
    case False
    obtain x sessions p where x: "SessionPool_activate now sid (bk_sessions st) (bk_pool st) = (x, sessions, p)" by (metis prod_cases3)
    show ?thesis
      using c False by (cases x) (auto simp: connect_session_def Let_def x split: option.splits
          intro: own_new_session [OF a [OF x]] own_resume_session [OF a [OF x]] l own_resume_session [OF ta [OF a [OF x]]])
  qed
qed

lemma own_handle_connect:
  assumes own: "channels_own st"
  shows "owning (handle_connect ops io now uuid connect st)"
proof -
  have e: "channels_own (upd_session r (Session_set_session_expiry e) s)" if "channels_own s" for r e and s :: "'a BrokerState"
    by (rule channels_own_keeps [OF that keeps_upd_session]) (simp add: Session_set_session_expiry_def)
  show ?thesis
    by (auto simp: handle_connect_unfold Let_def intro!: ends_in_intros own e dest: own_connect_session [OF own] split: prod.split option.split)
qed

lemma own_redeliver: "channels_own st \<Longrightarrow> owning (redeliver io r pending st)"
proof (induction io r pending st rule: redeliver.induct)
  case (2 io r pid p pending st)
  have "channels_own (upd_session r (Session_track_qos_publish pid p') st)" for p'
    by (rule channels_own_keeps [OF 2(2) keeps_upd_session]) (simp add: Session_track_qos_publish_def)
  with 2 show ?case by (auto intro!: ends_in_intros)
qed (simp add: ends_in_finish)

lemma own_serve:
  assumes own: "channels_own st"
  shows "owning (serve io r cn st)"
proof -
  have "keeps_senders st (upd_session r (\<lambda>s. s\<lparr>se_control := (fst (se_control s), None), se_pending_ack := []\<rparr>) st)"
    by (rule keeps_upd_session) simp
  then have "channels_own (upd_session r (\<lambda>_. (bk_sessions st ! r)\<lparr>se_control := (fst (se_control (bk_sessions st ! r)), None), se_pending_ack := []\<rparr>) st)"
    using channels_own_keeps [OF own] by (simp add: upd_session_def)
  then show ?thesis
    by (auto simp: serve_def Session_take_control_receiver_def Session_drain_pending_def Let_def
        intro!: ends_in_and_then own_redeliver ends_in_finish)
qed

lemma own_on_packet:
  assumes "channels_own st"
  shows "owning (on_packet ops io now uuid packet cn st)"
proof -
  have "owning (handle_pre_connect ops io now uuid packet st)"
    using assms by (cases packet) (auto simp: handle_pre_connect_def intro!: ends_in_intros own_handle_connect)
  then show ?thesis
    using assms by (auto simp: on_packet_def intro!: ends_in_and_then own_serve ends_in_finish own_handle_packet split: option.split)
qed

lemma step_channels_own:
  assumes own: "channels_own (wd_state w)" and s: "step ops w w'"
  shows "channels_own (wd_state w')"
  using s own
proof (rule branch_keeps)
  show "channels_own st" if "recv_control ops ch (wd_state w) = Some (msg, st)" for ch msg st
    using that own by (auto simp: recv_control_def intro: channels_own_keeps keeps split: if_splits option.splits)
  show "channels_own st" if "apply_command c (wd_state w) = Some st" for c st
    using that own by (auto simp: apply_command_def intro: channels_own_keeps keeps split: BrokerCommand.splits)
  show "channels_own st" if "will_task ops i (wd_state w) = Ok st" for i st
    by (rule channels_own_keeps [OF own])
      (use that in \<open>auto simp: will_task_def publish_will_def split: prod.splits if_splits dest!: keeps_route_publish
        intro: keeps_senders_trans [OF keeps_same(3)]\<close>)
qed (use own own_deactivate own_abandon own_on_packet in auto)

interpretation control_channels: transition_invariant "step ops" "\<lambda>w. channels_own (wd_state w)" "World_init config" for config ops
proof
  show "channels_own (wd_state (World_init config))"
    by (simp add: World_init_def BrokerState_new_def channels_own_def senders_def)
qed (rule step_channels_own)

lemma reachable_channels_own: "reachable ops config w \<Longrightarrow> channels_own (wd_state w)"
  unfolding reachable_def by (rule control_channels.reachable_keeps)

section \<open>What routing puts into a channel\<close>

text \<open>
  What the broker relies on for its channels, with \<open>queue\<close> their content: there is room below the
  capacity, and messages are received in the order they were sent.
\<close>

definition fifo :: "'c channel_ops \<Rightarrow> ('c \<Rightarrow> SessionControl list) \<Rightarrow> nat \<Rightarrow> bool" where
  "fifo ops queue capacity \<longleftrightarrow>
    (\<forall>c m. length (queue c) < capacity \<longrightarrow> (\<exists>c'. ch_try_send ops c m = Some c' \<and> queue c' = queue c @ [m])) \<and>
    (\<forall>c m ms. queue c = m # ms \<longrightarrow> (\<exists>c'. ch_recv ops c = Some (m, c') \<and> queue c' = ms))"

definition queue_of :: "('c \<Rightarrow> SessionControl list) \<Rightarrow> nat \<Rightarrow> 'c BrokerState \<Rightarrow> SessionControl list" where
  "queue_of queue r st = queue (bk_channels st ! fst (se_control (bk_sessions st ! r)))"

definition next_id :: "u16 \<Rightarrow> u16" where
  "next_id pid = (if pid + 1 = 0 then 1 else pid + 1)"

text \<open>
  What the subscriptions of session \<open>sid\<close> ask for: one copy for each of them, at the lower of the two
  levels, above level 0 under the identifiers that come next.
\<close>

fun copies_for :: "Publish \<Rightarrow> QoSLevel \<Rightarrow> string \<Rightarrow> string \<Rightarrow> Subscriber list \<Rightarrow> u16 \<Rightarrow> Publish list" where
  "copies_for publish q sender sid [] pid = []"
| "copies_for publish q sender sid (sub # subs) pid =
    (if sb_session_id sub \<noteq> sid \<or> sb_no_local sub \<and> sid = sender then copies_for publish q sender sid subs pid
     else if min q (sb_qos sub) = AtMostOnce then Publish_set_qos publish AtMostOnce # copies_for publish q sender sid subs pid
     else (Publish_set_qos publish (min q (sb_qos sub)))\<lparr>pu_packet_id := Some pid\<rparr> # copies_for publish q sender sid subs (next_id pid))"

lemma own_channel:
  assumes "channels_own st" and "r < length (bk_sessions st)"
  shows "fst (se_control (bk_sessions st ! r)) < length (bk_channels st)"
    and "r' < length (bk_sessions st) \<Longrightarrow> r' \<noteq> r \<Longrightarrow> fst (se_control (bk_sessions st ! r')) \<noteq> fst (se_control (bk_sessions st ! r))"
proof -
  have n: "senders st ! i = fst (se_control (bk_sessions st ! i))" if "i < length (bk_sessions st)" for i
    using that by (simp add: senders_def)
  have l: "length (senders st) = length (bk_sessions st)" by (simp add: senders_def)
  show "fst (se_control (bk_sessions st ! r)) < length (bk_channels st)"
    using assms nth_mem [of r "senders st"] by (auto simp: channels_own_def n l)
  show "fst (se_control (bk_sessions st ! r')) \<noteq> fst (se_control (bk_sessions st ! r))"
    if "r' < length (bk_sessions st)" "r' \<noteq> r"
    using assms that nth_eq_iff_index_eq [of "senders st" r r'] by (auto simp: channels_own_def n l)
qed

lemma deliver_queue:
  assumes "channels_own st" and r: "r < length (bk_sessions st)"
  shows "fifo ops queue capacity \<Longrightarrow> length (queue_of queue r st) < capacity \<Longrightarrow>
      queue_of queue r (deliver ops r out st) = queue_of queue r st @ [SC_Deliver out]"
    and "r' < length (bk_sessions st) \<Longrightarrow> r' \<noteq> r \<Longrightarrow> queue_of queue r (deliver ops r' out st) = queue_of queue r st"
proof -
  note o = own_channel [OF assms]
  show "queue_of queue r (deliver ops r out st) = queue_of queue r st @ [SC_Deliver out]"
    if "fifo ops queue capacity" "length (queue_of queue r st) < capacity"
  proof -
    from that obtain c where "ch_try_send ops (bk_channels st ! fst (se_control (bk_sessions st ! r))) (SC_Deliver out) = Some c"
      "queue c = queue_of queue r st @ [SC_Deliver out]" unfolding fifo_def queue_of_def by blast
    then show ?thesis using o(1) by (simp add: deliver_def try_send_control_def Let_def queue_of_def)
  qed
  show "queue_of queue r (deliver ops r' out st) = queue_of queue r st"
    if "r' < length (bk_sessions st)" "r' \<noteq> r"
    using o(2) [OF that] by (auto simp: deliver_def try_send_control_def Let_def queue_of_def split: option.split)
qed

lemma route_one_queue:
  assumes own: "channels_own st" and r: "r < length (bk_sessions st)"
  defines "s \<equiv> bk_sessions st ! r"
  shows "r' < length (bk_sessions st) \<Longrightarrow> r' \<noteq> r \<Longrightarrow> queue_of queue r (route_one ops publish q r' st) = queue_of queue r st"
    and "fifo ops queue capacity \<Longrightarrow> length (queue_of queue r st) < capacity \<Longrightarrow>
      queue_of queue r (route_one ops publish q r st) = queue_of queue r st @
        [SC_Deliver (if q = AtMostOnce then Publish_set_qos publish q
          else (Publish_set_qos publish q)\<lparr>pu_packet_id := Some (se_next_packet_id s)\<rparr>)]"
    and "se_next_packet_id (bk_sessions (route_one ops publish q r st) ! r) =
      (if q = AtMostOnce then se_next_packet_id s else next_id (se_next_packet_id s))"
proof -
  let ?f = "\<lambda>pid out s. Session_track_qos_publish pid out (snd (Session_next_packet_id s))"
  have f: "se_control (?f pid out s) = se_control s" for pid out s
    by (simp add: Session_track_qos_publish_def Session_next_packet_id_def Let_def)
  have k: "channels_own (upd_session i (?f pid out) st)" for i pid out
    by (rule channels_own_keeps [OF own keeps_upd_session]) (simp add: f)
  have q: "queue_of queue r (upd_session i (?f pid out) st) = queue_of queue r st" for i pid out
    using r by (cases "i = r") (simp_all add: queue_of_def f)
  note d = deliver_queue [OF own r] and d' = deliver_queue [OF k, of r] 
  show "queue_of queue r (route_one ops publish q r' st) = queue_of queue r st" if "r' < length (bk_sessions st)" "r' \<noteq> r"
    using that r d(2) d'(2) by (simp add: route_one_def Let_def q)
  show "queue_of queue r (route_one ops publish q r st) = queue_of queue r st @
        [SC_Deliver (if q = AtMostOnce then Publish_set_qos publish q
          else (Publish_set_qos publish q)\<lparr>pu_packet_id := Some (se_next_packet_id s)\<rparr>)]"
    if "fifo ops queue capacity" "length (queue_of queue r st) < capacity"
    using that r d(1) d'(1) by (simp add: route_one_def Let_def q s_def)
  show "se_next_packet_id (bk_sessions (route_one ops publish q r st) ! r) =
      (if q = AtMostOnce then se_next_packet_id s else next_id (se_next_packet_id s))"
    using r by (simp add: route_one_def Let_def s_def track_fields(2)) (simp add: Session_next_packet_id_def Let_def next_id_def)
qed

lemma route_list_queue:
  assumes f: "fifo ops queue capacity"
  shows "channels_own st \<Longrightarrow> pool_inv (bk_sessions st) (bk_pool st) \<Longrightarrow> SessionPool_get_active sid (bk_pool st) = Some r \<Longrightarrow>
    length (queue_of queue r st) + length (copies_for publish q sender sid subs (se_next_packet_id (bk_sessions st ! r))) \<le> capacity \<Longrightarrow>
    queue_of queue r (route_list ops publish q sender subs st) =
      queue_of queue r st @ map SC_Deliver (copies_for publish q sender sid subs (se_next_packet_id (bk_sessions st ! r)))"
proof (induction subs arbitrary: st)
  case (Cons sub subs)
  note p = pool_invD [OF Cons.prems(2)]
  have r: "r < length (bk_sessions st)" "se_id (bk_sessions st ! r) = sid"
    using p(6) Cons.prems(3) by (auto simp: SessionPool_get_active_def)
  show ?case
  proof (cases "SessionPool_get_active (sb_session_id sub) (bk_pool st)")
    case None
    then have "sb_session_id sub \<noteq> sid" using Cons.prems(3) by auto
    with None Cons.IH [OF Cons.prems(1-3)] Cons.prems(4) show ?thesis by simp
  next
    case (Some r')
    let ?q = "min q (sb_qos sub)"
    let ?st = "route_one ops publish ?q r' st"
    have s: "r' < length (bk_sessions st)" "se_id (bk_sessions st ! r') = sb_session_id sub"
      using p(6) Some by (auto simp: SessionPool_get_active_def)
    then have r': "r' < length (bk_sessions st)" "r' = r \<longleftrightarrow> sb_session_id sub = sid"
      using Some Cons.prems(3) r(2) by (blast, metis option.inject)
    have e: "evolves st ?st" by (rule evolves_route_one)
    have i: "channels_own ?st" "pool_inv (bk_sessions ?st) (bk_pool ?st)" "SessionPool_get_active sid (bk_pool ?st) = Some r"
      using channels_own_keeps [OF Cons.prems(1) keeps_route_one] pool_inv_store [OF Cons.prems(2)] evolvesD [OF e] Cons.prems(3)
      by simp_all
    note ih = Cons.IH [OF i] and ih0 = Cons.IH [OF Cons.prems(1-3)]
    note o = route_one_queue [OF Cons.prems(1) r(1), where q = "?q" and ops = ops and publish = publish]
    show ?thesis
    proof (cases "sb_no_local sub \<and> sb_session_id sub = sender")
      case True
      then show ?thesis using ih0 Cons.prems(4) r'(2) by (auto simp: Some)
    next
      case False
      show ?thesis
      proof (cases "r' = r")
        case True
        then show ?thesis
          using False Some r'(2) ih o(2) [OF f] o(3) Cons.prems(4) by (cases "?q = AtMostOnce") auto
      next
        case other: False
        then have "bk_sessions ?st ! r = bk_sessions st ! r" by (simp add: route_one_other)
        then show ?thesis
          using False Some r' ih o(1) [OF r'(1) other] Cons.prems(4) other by auto
      qed
    qed
  qed
qed simp

text \<open>What is left of the session: the messages above level 0 are recorded, the identifiers are used up.\<close>

fun after_routing :: "Publish \<Rightarrow> QoSLevel \<Rightarrow> string \<Rightarrow> string \<Rightarrow> Subscriber list \<Rightarrow> Session \<Rightarrow> Session" where
  "after_routing publish q sender sid [] s = s"
| "after_routing publish q sender sid (sub # subs) s =
    after_routing publish q sender sid subs
      (if sb_session_id sub \<noteq> sid \<or> sb_no_local sub \<and> sid = sender \<or> min q (sb_qos sub) = AtMostOnce then s
       else Session_track_qos_publish (se_next_packet_id s)
         ((Publish_set_qos publish (min q (sb_qos sub)))\<lparr>pu_packet_id := Some (se_next_packet_id s)\<rparr>) (snd (Session_next_packet_id s)))"

lemma route_list_session:
  "pool_inv (bk_sessions st) (bk_pool st) \<Longrightarrow> SessionPool_get_active sid (bk_pool st) = Some r \<Longrightarrow>
    bk_sessions (route_list ops publish q sender subs st) ! r = after_routing publish q sender sid subs (bk_sessions st ! r)"
proof (induction subs arbitrary: st)
  case (Cons sub subs)
  note p = pool_invD [OF Cons.prems(1)]
  have r: "r < length (bk_sessions st)" "se_id (bk_sessions st ! r) = sid"
    using p(6) Cons.prems(2) by (auto simp: SessionPool_get_active_def)
  show ?case
  proof (cases "SessionPool_get_active (sb_session_id sub) (bk_pool st)")
    case None
    then have "sb_session_id sub \<noteq> sid" using Cons.prems(2) by auto
    with None Cons.IH [OF Cons.prems] show ?thesis by simp
  next
    case (Some r')
    let ?q = "min q (sb_qos sub)"
    let ?st = "route_one ops publish ?q r' st"
    have "se_id (bk_sessions st ! r') = sb_session_id sub"
      using p(6) Some by (auto simp: SessionPool_get_active_def)
    then have r': "r' = r \<longleftrightarrow> sb_session_id sub = sid"
      using Some Cons.prems(2) r(2) by (metis option.inject)
    have e: "evolves st ?st" by (rule evolves_route_one)
    have i: "pool_inv (bk_sessions ?st) (bk_pool ?st)" "SessionPool_get_active sid (bk_pool ?st) = Some r"
      using pool_inv_store [OF Cons.prems(1)] evolvesD [OF e] Cons.prems(2) by simp_all
    note ih = Cons.IH [OF i] and ih0 = Cons.IH [OF Cons.prems]
    show ?thesis
    proof (cases "r' = r \<and> ?q \<noteq> AtMostOnce")
      case True
      then show ?thesis using r' ih ih0 Some by (auto simp: route_one_same [OF _ r(1)])
    next
      case False
      then have "bk_sessions ?st ! r = bk_sessions st ! r" by (intro route_one_other) auto
      then show ?thesis using False r' ih ih0 Some by auto
    qed
  qed
qed simp

text \<open>A session with one matching subscription.\<close>

lemma copies_for_none: "filter (\<lambda>s. sb_session_id s = sid) subs = [] \<Longrightarrow> copies_for publish q sender sid subs pid = []"
  by (induction subs) (auto split: if_splits)

lemma after_routing_none: "filter (\<lambda>s. sb_session_id s = sid) subs = [] \<Longrightarrow> after_routing publish q sender sid subs s = s"
  by (induction subs) (auto split: if_splits)

lemma copies_for_single:
  assumes "sender \<noteq> sid" and "min q (sb_qos sub) = g" and "g \<noteq> AtMostOnce"
  shows "filter (\<lambda>s. sb_session_id s = sid) subs = [sub] \<Longrightarrow>
      copies_for publish q sender sid subs pid = [(Publish_set_qos publish g)\<lparr>pu_packet_id := Some pid\<rparr>]"
    and "filter (\<lambda>s. sb_session_id s = sid) subs = [sub] \<Longrightarrow> after_routing publish q sender sid subs s =
      Session_track_qos_publish (se_next_packet_id s)
        ((Publish_set_qos publish g)\<lparr>pu_packet_id := Some (se_next_packet_id s)\<rparr>) (snd (Session_next_packet_id s))"
  using assms by (induction subs) (auto simp: copies_for_none after_routing_none split: if_splits)

text \<open>Routing a message adds to the channel of an active session what its subscriptions ask for, in order.\<close>

lemma route_publish_queue:
  assumes inv: "broker_inv st" and own: "channels_own st" and f: "fifo ops queue capacity" and q: "has_qos publish q"
    and act: "SessionPool_get_active sid (bk_pool st) = Some r"
    and subs: "matching_subscribers (bk_tree st) (pu_topic_name publish) = (Ok subs :: (BrokerError, Subscriber list) res)"
    and room: "length (queue_of queue r st) + length (copies_for publish q sender sid subs (se_next_packet_id (bk_sessions st ! r))) \<le> capacity"
  shows "\<exists>st'. route_publish ops publish sender st = Ok st' \<and> queue_of queue r st' =
      queue_of queue r st @ map SC_Deliver (copies_for publish q sender sid subs (se_next_packet_id (bk_sessions st ! r))) \<and>
    bk_sessions st' ! r = after_routing publish q sender sid subs (bk_sessions st ! r)"
  using route_list_queue [OF f own broker_invD(1) [OF inv] act room] route_list_session [OF broker_invD(1) [OF inv] act] subs
  by (simp add: route_publish_def route_all_eq [OF q])

lemma recv_control_queue:
  assumes "fifo ops queue capacity" and "channels_own st" and "r < length (bk_sessions st)" and "queue_of queue r st = msg # msgs"
  shows "\<exists>st'. recv_control ops (fst (se_control (bk_sessions st ! r))) st = Some (msg, st') \<and> queue_of queue r st' = msgs \<and>
    bk_sessions st' = bk_sessions st \<and> bk_pool st' = bk_pool st \<and> bk_tree st' = bk_tree st"
proof -
  from assms(1,4) obtain c where "ch_recv ops (bk_channels st ! fst (se_control (bk_sessions st ! r))) = Some (msg, c)" "queue c = msgs"
    unfolding fifo_def queue_of_def by blast
  then show ?thesis using own_channel(1) [OF assms(2,3)] by (simp add: recv_control_def queue_of_def)
qed

end
