(* ===== verification/Broker_Retention.thy ===== *)
theory Broker_Retention
  imports Broker_Channels
begin

text \<open>
  What the broker owes its clients over time: a message recorded for a client stays recorded, through
  every step of every connection, until the client acknowledges it, starts afresh, or a redelivery is
  cut short; and a client, once known, is known for ever.
\<close>

section \<open>Handlers that leave the recorded messages alone\<close>

definition keeps_pending :: "'c BrokerState \<Rightarrow> 'c BrokerState \<Rightarrow> bool" where
  "keeps_pending st st' \<longleftrightarrow> length (bk_sessions st) \<le> length (bk_sessions st') \<and>
    (\<forall>r < length (bk_sessions st). pending_in st' r = pending_in st r)"

definition undisturbed :: "'c BrokerState \<Rightarrow> 'c BrokerState \<Rightarrow> bool" where
  "undisturbed st st' \<longleftrightarrow> keeps_pending st st' \<and> known st' = known st"

named_theorems calm

lemma keeps_pending_refl [calm, simp]: "keeps_pending st st"
  by (simp add: keeps_pending_def)

lemma keeps_pending_trans: "keeps_pending a b \<Longrightarrow> keeps_pending b c \<Longrightarrow> keeps_pending a c"
  by (auto simp: keeps_pending_def)

lemma keeps_pending_sessions: "bk_sessions st' = bk_sessions st \<Longrightarrow> keeps_pending st st'"
  by (simp add: keeps_pending_def pending_in_def fun_eq_iff)

lemma keeps_pending_upd:
  "(\<And>s. se_pending_ack (f s) = se_pending_ack s) \<Longrightarrow> keeps_pending st (upd_session r f st)"
  by (cases "r < length (bk_sessions st)") (auto simp: keeps_pending_def pending_in_def nth_list_update list_update_beyond fun_eq_iff)

lemma undisturbed_refl [calm, simp]: "undisturbed st st"
  by (simp add: undisturbed_def)

lemma undisturbed_trans: "undisturbed a b \<Longrightarrow> undisturbed b c \<Longrightarrow> undisturbed a c"
  by (auto simp: undisturbed_def intro: keeps_pending_trans)

lemma known_pool: "bk_pool st' = bk_pool st \<Longrightarrow> known st' = known st"
  by (rule ext) (simp add: known_def split: option.split)

lemma undisturbed_same [calm]:
  "undisturbed st (st\<lparr>bk_tree := t\<rparr>)" "undisturbed st (st\<lparr>bk_wills := w\<rparr>)" "undisturbed st (st\<lparr>bk_accept := b\<rparr>)"
  "undisturbed st (st\<lparr>bk_channels := c\<rparr>)"
  by (auto simp: undisturbed_def intro: keeps_pending_sessions known_pool)

lemma undisturbed_upd:
  "(\<And>s. se_pending_ack (f s) = se_pending_ack s) \<Longrightarrow> undisturbed st (upd_session r f st)"
  by (auto simp: undisturbed_def intro: keeps_pending_upd known_pool)

lemma undisturbed_cancel_will [calm]: "undisturbed st (cancel_will token st)"
  by (simp add: cancel_will_def calm split: option.split)

lemma undisturbed_deactivate:
  assumes "broker_inv st"
  shows "undisturbed st (deactivate_session sid st)"
proof (cases "sp_active (bk_pool st) sid")
  case None
  then show ?thesis
    by (simp add: deactivate_session_def SessionPool_deactivate_def)
next
  case (Some r)
  have id: "se_id (bk_sessions st ! r) = sid"
    using pool_invD(6) [OF broker_invD(1) [OF assms] Some] by blast
  have no: "sp_inactive (bk_pool st) sid = None"
    using pool_invD(5) [OF broker_invD(1) [OF assms]] Some by auto
  have e: "deactivate_session sid st = upd_session r (Session_set_connected False)
      (st\<lparr>bk_pool := (bk_pool st)\<lparr>sp_active := (sp_active (bk_pool st))(sid := None),
        sp_inactive_sessions := sp_inactive_sessions (bk_pool st) + 1, sp_inactive := (sp_inactive (bk_pool st))(sid \<mapsto> r),
        sp_active_sessions := sp_active_sessions (bk_pool st) - 1\<rparr>\<rparr>)" (is "_ = upd_session r _ ?st")
    using Some id by (simp add: deactivate_session_def SessionPool_deactivate_def Let_def upd_session_def Session_set_connected_def)
  have "keeps_pending st ?st" by (rule keeps_pending_sessions) simp
  moreover have "keeps_pending ?st (upd_session r (Session_set_connected False) ?st)"
    by (rule keeps_pending_upd) (simp add: Session_set_connected_def)
  moreover have "known (deactivate_session sid st) = known st"
    using Some no by (auto simp: known_def e fun_eq_iff split: option.split)
  ultimately show ?thesis unfolding undisturbed_def e by (blast intro: keeps_pending_trans)
qed

lemma undisturbed_recv: "recv_control ops ch st = Some (msg, st') \<Longrightarrow> undisturbed st st'"
  by (auto simp: recv_control_def calm split: if_splits option.splits)

lemma undisturbed_command: "apply_command cmd st = Some st' \<Longrightarrow> undisturbed st st'"
  by (auto simp: apply_command_def undisturbed_def known_def SessionPool_set_session_expiry_def fun_eq_iff
      intro!: keeps_pending_sessions split: BrokerCommand.splits option.split)

section \<open>Owed messages\<close>

text \<open>A message is owed to a client as it was routed or, after a redelivery, marked as a duplicate.\<close>

definition owes :: "string \<Rightarrow> u16 \<Rightarrow> Publish \<Rightarrow> 'c BrokerState \<Rightarrow> bool" where
  "owes sid pid p st \<longleftrightarrow>
    (case known st sid of Some r \<Rightarrow> pending_in st r pid \<in> {Some p, Some (again (pid, p))} | None \<Rightarrow> False)"

text \<open>No message matches so many subscriptions that the identifiers of the session come round to \<open>pid\<close>.\<close>

definition far_from_reuse :: "string \<Rightarrow> u16 \<Rightarrow> 'c BrokerState \<Rightarrow> bool" where
  "far_from_reuse sid pid st \<longleftrightarrow> (\<forall>topic subs r. known st sid = Some r \<longrightarrow>
    matching_subscribers (bk_tree st) topic = (Ok subs :: (BrokerError, Subscriber list) res) \<longrightarrow>
    length subs \<le> id_dist (unat pid) (next_in st r))"

lemma known_bound: "broker_inv st \<Longrightarrow> known st sid = Some r \<Longrightarrow> r < length (bk_sessions st) \<and> se_id (bk_sessions st ! r) = sid"
  using pool_invD(6,7) [OF broker_invD(1) [of st], where sid = sid and r = r] by (simp add: known_def split: option.splits)

lemma owes_undisturbed: "owes sid pid p st \<Longrightarrow> broker_inv st \<Longrightarrow> undisturbed st st' \<Longrightarrow> owes sid pid p st'"
  using known_bound [of st sid] by (auto simp: owes_def undisturbed_def keeps_pending_def split: option.splits)

lemma owes_id:
  assumes "owes sid pid p st" and "broker_inv st"
  shows "pid \<noteq> 0"
proof -
  obtain r p' where r: "known st sid = Some r" "map_of (se_pending_ack (bk_sessions st ! r)) pid = Some p'"
    using assms(1) by (auto simp: owes_def pending_in_def split: option.splits)
  then have "(pid, p') \<in> set (se_pending_ack (bk_sessions st ! r))" "session_ok (bk_sessions st ! r)"
    using known_bound [OF assms(2)] sessions_okD [OF broker_invD(3) [OF assms(2)]] by (auto dest: map_of_SomeD)
  then show ?thesis by (auto simp: session_ok_def)
qed

lemma owes_route:
  assumes o: "owes sid pid p st" and inv: "broker_inv st" and far: "far_from_reuse sid pid st" and q: "has_qos publish q"
    and rt: "route_publish ops publish sender st = Ok st'"
  shows "owes sid pid p st'"
proof -
  note d = broker_invD [OF inv]
  obtain r p' where r: "known st sid = Some r" "pending_in st r pid = Some p'" "p' \<in> {p, again (pid, p)}"
    using o by (auto simp: owes_def split: option.splits)
  obtain subs where m: "matching_subscribers (bk_tree st) (pu_topic_name publish) = (Ok subs :: (BrokerError, Subscriber list) res)"
    and e: "st' = route_list ops publish q sender subs st"
    using route_publish_ok [OF q d(2), of ops sender] rt by (metis res.inject(1))
  have "pending_in st' r pid = Some p'"
    unfolding e using far m r known_bound [OF inv r(1)] owes_id [OF o inv] d(3)
    by (intro route_list_keeps) (auto simp: far_from_reuse_def)
  moreover have "known st' = known st"
    by (rule known_pool) (use evolvesD(3) [OF evolves_route_publish [OF rt]] in simp)
  ultimately show ?thesis using r by (simp add: owes_def)
qed

lemma far_cong:
  "far_from_reuse sid pid st \<Longrightarrow> bk_tree st' = bk_tree st \<Longrightarrow> known st' = known st \<Longrightarrow>
    (\<And>r. next_in st' r = next_in st r) \<Longrightarrow> far_from_reuse sid pid st'"
  by (simp add: far_from_reuse_def)

lemma next_in_upd: "(\<And>s. se_next_packet_id (f s) = se_next_packet_id s) \<Longrightarrow> next_in (upd_session r f st) r' = next_in st r'"
  by (cases "r < length (bk_sessions st)") (auto simp: next_in_def nth_list_update list_update_beyond)

lemma owes_initiate_will:
  assumes o: "owes sid pid p st" and inv: "broker_inv st" and far: "far_from_reuse sid pid st"
    and w: "initiate_will ops r st = Ok st'"
  shows "owes sid pid p st'"
proof -
  let ?st = "upd_session r (\<lambda>s. snd (Session_take_will s)) st"
  have u: "undisturbed st ?st" by (rule undisturbed_upd) (simp add: Session_take_will_def)
  have ev: "evolves st ?st" by (rule evolves_upd_session) (simp_all add: Session_take_will_def session_ok_fields)
  note o' = owes_undisturbed [OF o inv u] and i' = broker_inv_evolves [OF inv ev]
  have far': "far_from_reuse sid pid ?st"
    by (rule far_cong [OF far _ known_pool]) (simp_all add: next_in_upd Session_take_will_def)
  show ?thesis
  proof (cases "fst (Session_take_will (bk_sessions st ! r))")
    case None
    with w o' show ?thesis by (simp add: initiate_will_def)
  next
    case (Some will)
    let ?d = "case wh_will_delay (wm_header will) of Some d \<Rightarrow> d | None \<Rightarrow> 0"
    show ?thesis
    proof (cases "?d = 0")
      case True
      with w Some have "route_publish ops (will_publish will) [] ?st = Ok st'"
        by (simp add: initiate_will_def Let_def publish_will_def)
      then show ?thesis by (rule owes_route [OF o' i' far' will_publish_qos])
    next
      case False
      let ?st2 = "?st\<lparr>bk_wills := bk_wills ?st @ [(will, unat ?d, False)]\<rparr>"
      let ?st3 = "cancel_will (fst (Session_set_pending_will (length (bk_wills ?st)) (bk_sessions ?st2 ! r))) ?st2"
      have "undisturbed ?st3 (upd_session r (\<lambda>s. snd (Session_set_pending_will (length (bk_wills ?st)) s)) ?st3)"
        by (rule undisturbed_upd) (simp add: Session_set_pending_will_def Session_cancel_pending_will_def)
      then have "undisturbed ?st (upd_session r (\<lambda>s. snd (Session_set_pending_will (length (bk_wills ?st)) s)) ?st3)"
        using undisturbed_same(2) undisturbed_cancel_will undisturbed_trans by blast
      from owes_undisturbed [OF o' i' this] w Some False show ?thesis by (simp add: initiate_will_def Let_def)
    qed
  qed
qed

lemma owes_deactivate: "owes sid pid p st \<Longrightarrow> broker_inv st \<Longrightarrow> owes sid pid p (deactivate_session u st)"
  by (rule owes_undisturbed [OF _ _ undisturbed_deactivate])

lemma owes_abandon:
  assumes "owes sid pid p st" and inv: "broker_inv st" and "far_from_reuse sid pid st" and "abandon ops r st = Ok st'"
  shows "owes sid pid p st'"
  using assms broker_inv_evolves [OF inv evolves_initiate_will]
  by (auto simp: abandon_def Let_def intro!: owes_deactivate intro: owes_initiate_will)

lemma owes_will_task:
  assumes o: "owes sid pid p st" and inv: "broker_inv st" and far: "far_from_reuse sid pid st" and w: "will_task ops i st = Ok st'"
  shows "owes sid pid p st'"
proof -
  obtain will d over where e: "bk_wills st ! i = (will, d, over)" by (metis prod_cases3)
  let ?st = "st\<lparr>bk_wills := (bk_wills st)[i := (will, d, True)]\<rparr>"
  have "far_from_reuse sid pid ?st" by (rule far_cong [OF far _ known_pool]) (simp_all add: next_in_def)
  from owes_route [OF owes_undisturbed [OF o inv undisturbed_same(2)] broker_inv_evolves [OF inv evolves_wills] this will_publish_qos]
  show ?thesis using w o by (auto simp: will_task_def e publish_will_def split: if_splits)
qed

lemma owes_acknowledge:
  assumes o: "owes sid pid p st" and other: "known st sid \<noteq> Some r \<or> pid' \<noteq> pid"
  shows "owes sid pid p (upd_session r (\<lambda>s. snd (Session_acknowledge pid' s)) st)" (is "owes sid pid p ?st")
proof -
  obtain k where k: "known st sid = Some k" using o by (auto simp: owes_def split: option.splits)
  have "pending_in ?st k pid = pending_in st k pid"
    using other k
    by (cases "r < length (bk_sessions st)")
      (auto simp: pending_in_def nth_list_update list_update_beyond Session_acknowledge_def delete_conv')
  moreover have "known ?st = known st" by (rule known_pool) simp
  ultimately show ?thesis using o k by (simp add: owes_def)
qed

lemma owes_handle_packet:
  assumes o: "owes sid pid p st" and inv: "broker_inv st" and far: "far_from_reuse sid pid st" and ok: "packet_ok packet"
    and other: "\<And>ack. packet = Pkt_PubAck ack \<Longrightarrow> known st sid \<noteq> Some r \<or> pr_packet_id ack \<noteq> pid"
  shows "ends_in (owes sid pid p) (handle_packet ops io packet r st)"
proof (cases packet)
  case (Pkt_Publish publish)
  then obtain q where q: "has_qos publish q" using ok by (auto simp: packet_ok_def)
  note rt = owes_route [OF o inv far q]
  show ?thesis
    by (auto simp: handle_packet_def Pkt_Publish Let_def intro!: ends_in_intros o split: option.split dest: rt)
next
  case (Pkt_PubAck a)
  then show ?thesis using owes_acknowledge [OF o other] by (simp add: handle_packet_def ends_in_finish)
next
  case (Pkt_Disconnect d)
  have "undisturbed st (upd_session r Session_clear_will st)" by (rule undisturbed_upd) (simp add: Session_clear_will_def)
  moreover have "evolves st (upd_session r Session_clear_will st)"
    by (rule evolves_upd_session) (simp_all add: Session_clear_will_def session_ok_fields)
  ultimately show ?thesis
    using owes_undisturbed [OF o inv] owes_initiate_will [OF o inv far] broker_inv_evolves [OF inv] broker_inv_evolves [OF inv evolves_initiate_will]
    by (auto simp: handle_packet_def Pkt_Disconnect Let_def intro!: ends_in_intros o owes_deactivate split: if_splits)
next
  case (Pkt_Subscribe x)
  then show ?thesis
    by (auto simp: handle_packet_def handle_subscribe_def Let_def intro!: ends_in_intros o owes_undisturbed [OF o inv undisturbed_same(1)]
        split: prod.splits)
next
  case (Pkt_Unsubscribe x)
  then show ?thesis
    by (auto simp: handle_packet_def handle_unsubscribe_def Let_def intro!: ends_in_intros o owes_undisturbed [OF o inv undisturbed_same(1)]
        split: prod.splits)
qed (use o in \<open>auto simp: handle_packet_def intro!: ends_in_intros\<close>)

section \<open>Connecting\<close>

lemma keeps_pending_append:
  "bk_sessions st' = bk_sessions st @ ss \<Longrightarrow> keeps_pending st st'"
  by (simp add: keeps_pending_def pending_in_def fun_eq_iff nth_append)

lemma keeps_pending_new: "new_session ops now sid will ka n st = (r, st') \<Longrightarrow> keeps_pending st st'"
  by (rule keeps_pending_append [of _ _ "[bk_sessions st' ! length (bk_sessions st)]"])
    (auto simp: new_session_def new_channel_def Let_def)

lemma keeps_pending_resume: "keeps_pending st (resume_session ops r will n st)"
proof -
  have a: "keeps_pending s (cancel_pending_will r s)" for s :: "'a BrokerState"
    unfolding cancel_pending_will_def
    by (rule keeps_pending_trans [OF keeps_pending_upd keeps_pending_sessions]) (simp_all add: Session_cancel_pending_will_def)
  have b: "keeps_pending s (upd_session r (Session_set_will will) s)" for s :: "'a BrokerState"
    by (rule keeps_pending_upd) (simp add: Session_set_will_def)
  have c: "keeps_pending s (upd_session r (Session_reset_control ch) s)" for s :: "'a BrokerState" and ch
    by (rule keeps_pending_upd) (simp add: Session_reset_control_def)
  have d: "keeps_pending s (s\<lparr>bk_channels := cs\<rparr>)" for s :: "'a BrokerState" and cs
    by (rule keeps_pending_sessions) simp
  show ?thesis
    unfolding resume_session_def new_channel_def Let_def prod.case
    by (rule keeps_pending_trans [OF keeps_pending_trans [OF keeps_pending_trans [OF a b] d] c])
qed

lemma keeps_pending_connect:
  assumes "connect_session ops now connect sid ka ack st = (ack', r, st')"
  shows "keeps_pending st st'"
proof -
  have sc: "keeps_pending s (handle_takeover ops k (s\<lparr>bk_pool := p\<rparr>))" "keeps_pending s (handle_takeover ops k s)"
      "keeps_pending s (s\<lparr>bk_pool := p\<rparr>)" for s :: "'a BrokerState" and k p
    by (rule keeps_pending_sessions; simp add: handle_takeover_def Session_disconnect_def)+
  have la: "keeps_pending s (upd_session k (Session_set_last_active now) s)" for s :: "'a BrokerState" and k
    by (rule keeps_pending_upd) (simp add: Session_set_last_active_def)
  have ac: "keeps_pending st (st\<lparr>bk_sessions := ss, bk_pool := p\<rparr>)"
    if "SessionPool_activate now sid (bk_sessions st) (bk_pool st) = (x, ss, p)" for x ss p
  proof -
    have "keeps_pending st (upd_session k (\<lambda>s. Session_set_last_active now (Session_set_connected True s)) st)" for k
      by (rule keeps_pending_upd) (simp add: Session_set_last_active_def Session_set_connected_def)
    then show ?thesis
      using that by (auto simp: SessionPool_activate_def Let_def upd_session_def keeps_pending_def pending_in_def fun_eq_iff split: option.splits)
  qed
  note t = keeps_pending_trans
  show ?thesis
    using assms unfolding connect_session_def Let_def
    by (auto split: if_splits prod.splits option.splits dest!: keeps_pending_new ac
        intro: t sc la keeps_pending_resume
          t [OF sc(1)] t [OF _ keeps_pending_resume] t [OF _ t [OF sc(2) t [OF keeps_pending_resume la]]])
qed

text \<open>What connecting does to the sessions of other clients, and to the client's own when it does not start afresh.\<close>

lemma connect_post_known:
  assumes "connect_post st connect sid ack ack' r st'" and "broker_inv st"
  shows "known st' u = (if u = sid then Some r else known st u)"
    and "\<not> Connect_clean_start connect \<Longrightarrow> known st sid \<noteq> None \<Longrightarrow> known st sid = Some r"
  using assms by (auto simp: connect_post_def known_def resumed_def split: option.splits)

lemma owes_connect_post:
  assumes o: "owes sid pid p st" and inv: "broker_inv st" and c: "connect_post st connect u ack ack' r st'"
    and k: "keeps_pending st st'" and keep: "\<not> (Connect_clean_start connect \<and> u = sid)"
  shows "owes sid pid p st'"
proof -
  obtain k0 where k0: "known st sid = Some k0" using o by (auto simp: owes_def split: option.splits)
  then have "known st' sid = Some k0" using connect_post_known [OF c inv] keep by auto
  moreover have "pending_in st' k0 = pending_in st k0"
    using k known_bound [OF inv k0] by (simp add: keeps_pending_def)
  ultimately show ?thesis using o k0 by (simp add: owes_def)
qed

lemma owes_handle_connect:
  assumes o: "owes sid pid p st" and inv: "broker_inv st" and keep: "\<not> (Connect_clean_start connect \<and> connect_sid uuid connect = sid)"
  shows "ends_in (owes sid pid p) (handle_connect ops io now uuid connect st)"
proof (cases "SessionPool_get_active (connect_sid uuid connect) (bk_pool st) = None \<and>
    SessionPool_at_capacity (bk_pool st) (cf_max_active_sessions (bk_config st))")
  case True
  then show ?thesis using o by (simp add: handle_connect_unfold ends_in_intros)
next
  case False
  let ?ka = "snd (connect_keep_alive connect (bk_pool st) ConnAck_default)" and ?ack = "first_ack uuid connect (bk_pool st)"
  obtain ack r st1 where c: "connect_session ops now connect (connect_sid uuid connect) ?ka ?ack st = (ack, r, st1)" by (metis prod_cases3)
  have p: "connect_post st connect (connect_sid uuid connect) ?ack ack r st1"
    by (rule connect_session_post [OF inv _ c]) (use False in auto)
  note o1 = owes_connect_post [OF o inv p keeps_pending_connect [OF c] keep]
  have i1: "broker_inv st1" using p by (simp add: connect_post_def)
  have "undisturbed st1 (upd_session r (Session_set_session_expiry e) st1)" for e
    by (rule undisturbed_upd) (simp add: Session_set_session_expiry_def)
  from owes_undisturbed [OF o1 i1 this] o1 c False show ?thesis
    by (auto simp: handle_connect_unfold Let_def intro!: ends_in_intros split: option.split)
qed

lemma again_idem [simp]: "again (pid, again (pid, p)) = again (pid, p)"
proof -
  have "(x AND NOT DUP_MASK OR 8) AND NOT DUP_MASK OR 8 = x AND NOT DUP_MASK OR 8" for x :: u8
    by (auto simp: header_masks bit_eq_iff bit_simps)
  then show ?thesis by (simp add: FixedHeader_set_dup_def)
qed

lemma map_of_again: "map_of (map (\<lambda>e. (fst e, again e)) l) pid = map_option (\<lambda>p. again (pid, p)) (map_of l pid)"
  by (induction l) (auto simp del: again.simps)

lemma owes_serve:
  assumes o: "owes sid pid p st" and inv: "broker_inv st" and r: "r < length (bk_sessions st)"
    and whole: "known st sid = Some r \<Longrightarrow> resent io (drained io st r) = drained io st r"
  shows "ends_in (owes sid pid p) (serve io r cn st)"
proof -
  let ?pending = "drained io st r"
  let ?st = "upd_session r (\<lambda>s. s\<lparr>se_control := (fst (se_control s), None), se_pending_ack := recorded_again io ?pending\<rparr>) st"
  obtain k where k: "known st sid = Some k" using o by (auto simp: owes_def split: option.splits)
  have kn: "known ?st = known st" by (rule known_pool) simp
  have "owes sid pid p ?st"
  proof (cases "k = r")
    case True
    then have "recorded_again io ?pending = map (\<lambda>e. (fst e, again e)) ?pending" using whole k by (simp add: recorded_again_def)
    then have "pending_in ?st r pid = map_option (\<lambda>p. again (pid, p)) (pending_in st r pid)"
      using r map_of_iteration [of "se_pending_ack (bk_sessions st ! r)" "io_rank io"] sessions_okD [OF broker_invD(3) [OF inv] r]
      by (simp add: pending_in_def map_of_again session_ok_def del: again.simps)
    then show ?thesis using o k True kn by (auto simp: owes_def simp del: again.simps)
  next
    case False
    then have "pending_in ?st k pid = pending_in st k pid" by (simp add: pending_in_def)
    then show ?thesis using o k kn by (simp add: owes_def)
  qed
  then show ?thesis by (simp add: serve_outcome [OF inv r] ends_in_def)
qed

section \<open>The running broker\<close>

text \<open>The three ways in which a message stops being owed.\<close>

definition acknowledges :: "'c channel_ops \<Rightarrow> string \<Rightarrow> u16 \<Rightarrow> 'c World \<Rightarrow> 'c World \<Rightarrow> bool" where
  "acknowledges ops sid pid w w' \<longleftrightarrow> (\<exists>i cn r io now uuid ack. live w i cn \<and> cn_connected cn \<and> cn_session cn = Some r \<and>
    known (wd_state w) sid = Some r \<and> pr_packet_id ack = pid \<and>
    w' = after w i (on_packet ops io now uuid (Pkt_PubAck ack) cn (wd_state w)))"

definition starts_afresh :: "'c channel_ops \<Rightarrow> string \<Rightarrow> 'c World \<Rightarrow> 'c World \<Rightarrow> bool" where
  "starts_afresh ops sid w w' \<longleftrightarrow> (\<exists>i cn io now uuid connect. live w i cn \<and> \<not> cn_connected cn \<and>
    Connect_clean_start connect \<and> connect_sid uuid connect = sid \<and>
    w' = after w i (on_packet ops io now uuid (Pkt_Connect connect) cn (wd_state w)))"

definition redelivery_cut :: "'c channel_ops \<Rightarrow> string \<Rightarrow> 'c World \<Rightarrow> 'c World \<Rightarrow> bool" where
  "redelivery_cut ops sid w w' \<longleftrightarrow> (\<exists>i cn io now uuid connect r st out. live w i cn \<and> \<not> cn_connected cn \<and>
    handle_pre_connect ops io now uuid (Pkt_Connect connect) (wd_state w) = (Ok (Some r), st, out) \<and> known st sid = Some r \<and>
    resent io (drained io st r) \<noteq> drained io st r \<and>
    w' = after w i (on_packet ops io now uuid (Pkt_Connect connect) cn (wd_state w)))"

lemma owes_on_packet:
  assumes o: "owes sid pid p (wd_state w)" and inv: "broker_inv (wd_state w)" and far: "far_from_reuse sid pid (wd_state w)"
    and ok: "packet_ok packet" and l: "live w i cn"
    and w': "w' = after w i (on_packet ops io now uuid packet cn (wd_state w))"
    and no: "\<not> acknowledges ops sid pid w w'" "\<not> starts_afresh ops sid w w'" "\<not> redelivery_cut ops sid w w'"
  shows "ends_in (owes sid pid p) (on_packet ops io now uuid packet cn (wd_state w))"
proof (cases "cn_connected cn")
  case True
  have "ends_in (owes sid pid p) (handle_packet ops io packet r (wd_state w))" if r: "cn_session cn = Some r" for r
    by (rule owes_handle_packet [OF o inv far ok]) (use no(1) l True r w' in \<open>unfold acknowledges_def, blast\<close>)
  then show ?thesis
    using True o by (auto simp: on_packet_def intro!: ends_in_and_then ends_in_finish split: option.split)
next
  case False
  have pre: "ends_in (owes sid pid p) (handle_pre_connect ops io now uuid packet (wd_state w))"
  proof (cases packet)
    case (Pkt_Connect connect)
    then have "\<not> (Connect_clean_start connect \<and> connect_sid uuid connect = sid)"
      using no(2) l False w' unfolding starts_afresh_def by blast
    from owes_handle_connect [OF o inv this] o show ?thesis by (simp add: handle_pre_connect_def Pkt_Connect ends_in_intros)
  qed (use o in \<open>auto simp: handle_pre_connect_def intro!: ends_in_intros\<close>)
  have srv: "ends_in (owes sid pid p) (serve io r cn st)"
    if h: "handle_pre_connect ops io now uuid packet (wd_state w) = (Ok (Some r), st, out)" and os: "owes sid pid p st" for r st out
  proof (rule owes_serve [OF os])
    note s = handle_pre_connect_safe [OF inv, of ops io now uuid packet]
    show "broker_inv st" "r < length (bk_sessions st)" using s h by (auto simp: safe_def)
    obtain connect where "packet = Pkt_Connect connect"
      using h by (cases packet) (auto simp: handle_pre_connect_def write_packet_def finish_def split: if_splits)
    then show "resent io (drained io st r) = drained io st r" if "known st sid = Some r"
      using no(3) l False w' h that unfolding redelivery_cut_def by blast
  qed
  show ?thesis
    using False pre srv by (auto simp: on_packet_def intro!: ends_in_and_then ends_in_finish split: option.split)
qed

lemma step_owes:
  assumes s: "step ops w w'" and inv: "world_inv config w" and o: "owes sid pid p (wd_state w)"
    and far: "far_from_reuse sid pid (wd_state w)"
    and no: "\<not> acknowledges ops sid pid w w'" "\<not> starts_afresh ops sid w w'" "\<not> redelivery_cut ops sid w w'"
  shows "owes sid pid p (wd_state w')"
proof -
  have b: "broker_inv (wd_state w)" using inv by (simp add: world_inv_def)
  from s o show ?thesis
  proof (rule branch_keeps)
    show "owes sid pid p (deactivate_session u st)" if "recv_control ops ch (wd_state w) = Some (msg, st)" "owes sid pid p st" for ch msg st u
      using owes_deactivate [OF that(2)] recv_control_evolves [OF that(1)] broker_inv_evolves [OF b] by blast
    show "ends_in (owes sid pid p) (on_packet ops io now uuid pk cn (wd_state w))"
      if "live w i cn" "packet_ok pk" "w' = after w i (on_packet ops io now uuid pk cn (wd_state w))" for i cn pk io now uuid
      using owes_on_packet [OF o b far that(2,1,3) no] .
  qed (rule owes_undisturbed [OF o b undisturbed_recv] owes_undisturbed [OF o b undisturbed_command]
      owes_abandon [OF o b far] owes_will_task [OF o b far]; assumption)+
qed

text \<open>A run in which none of them happens to message \<open>pid\<close> of client \<open>sid\<close>.\<close>

definition leaves_owed :: "'c channel_ops \<Rightarrow> string \<Rightarrow> u16 \<Rightarrow> 'c World \<Rightarrow> 'c World \<Rightarrow> bool" where
  "leaves_owed ops sid pid w w' \<longleftrightarrow> step ops w w' \<and> far_from_reuse sid pid (wd_state w) \<and>
    \<not> acknowledges ops sid pid w w' \<and> \<not> starts_afresh ops sid w w' \<and> \<not> redelivery_cut ops sid w w'"

interpretation owed: transition_system "leaves_owed ops sid pid" "\<lambda>w. world_inv config w \<and> owes sid pid p (wd_state w)"
  for ops sid pid config p
  by unfold_locales (auto simp: leaves_owed_def intro: step_world_inv step_owes)

lemma run_owes:
  assumes "(leaves_owed ops sid pid)\<^sup>*\<^sup>* w w'" and "reachable ops config w" and "owes sid pid p (wd_state w)"
  shows "owes sid pid p (wd_state w')"
  using owed.steps_keep [OF assms(1), of config p] reachable_inv [OF assms(2)] assms(3) by blast

section \<open>Clients are never forgotten\<close>

lemma known_evolves: "evolves st st' \<Longrightarrow> known st' = known st"
  by (rule known_pool) (rule evolvesD(3))

definition knows :: "string \<Rightarrow> 'c BrokerState \<Rightarrow> bool" where
  "knows sid st \<longleftrightarrow> known st sid \<noteq> None"

lemma knows_evolves: "knows sid st \<Longrightarrow> evolves st st' \<Longrightarrow> knows sid st'"
  by (simp add: knows_def known_evolves)

lemma knows_deactivate: "knows sid st \<Longrightarrow> broker_inv st \<Longrightarrow> knows sid (deactivate_session u st)"
  using undisturbed_deactivate [of st u] by (simp add: knows_def undisturbed_def)

lemma knows_abandon: "knows sid st \<Longrightarrow> broker_inv st \<Longrightarrow> abandon ops r st = Ok st' \<Longrightarrow> knows sid st'"
  by (auto simp: abandon_def Let_def intro!: knows_deactivate dest: evolves_initiate_will intro: knows_evolves broker_inv_evolves)

lemma knows_handle_packet:
  assumes k: "knows sid st" and inv: "broker_inv st"
  shows "ends_in (knows sid) (handle_packet ops io packet r st)"
proof (cases packet)
  case (Pkt_PubAck a)
  have "evolves st (upd_session r (\<lambda>s. snd (Session_acknowledge (pr_packet_id a) s)) st)"
    by (rule evolves_upd_session) (simp_all add: session_ok_acknowledge, simp_all add: Session_acknowledge_def)
  from knows_evolves [OF k this] show ?thesis by (simp add: handle_packet_def Pkt_PubAck ends_in_finish)
next
  case (Pkt_Disconnect d)
  have e: "evolves st (upd_session r Session_clear_will st)"
    by (rule evolves_upd_session) (simp_all add: Session_clear_will_def session_ok_fields)
  show ?thesis
    using e knows_evolves [OF k] broker_inv_evolves [OF inv] evolves_initiate_will [of ops r st]
    by (auto simp: handle_packet_def Pkt_Disconnect Let_def intro!: ends_in_intros k knows_deactivate split: if_splits)
qed (use k knows_evolves [OF k evolves_route_publish] in
    \<open>auto simp: handle_packet_def handle_subscribe_def handle_unsubscribe_def knows_def known_def Let_def
      intro!: ends_in_intros split: prod.splits option.splits\<close>)

lemma knows_on_packet:
  assumes k: "knows sid st" and inv: "broker_inv st"
  shows "ends_in (knows sid) (on_packet ops io now uuid packet cn st)"
proof -
  have c: "ends_in (knows sid) (handle_connect ops io now uuid connect st)" for connect
  proof (cases rule: handle_connect_cases [OF inv refl refl, of uuid connect ops io now])
    case (2 ack r st')
    then have "knows sid st'" using k connect_post_known(1) [OF 2(1) inv, of sid] by (simp add: knows_def)
    then show ?thesis by (simp add: 2(3) ends_in_intros)
  qed (simp add: ends_in_intros k)
  have "ends_in (knows sid) (handle_pre_connect ops io now uuid packet st)"
    using k c by (cases packet) (auto simp: handle_pre_connect_def intro!: ends_in_intros)
  moreover have "ends_in (knows sid) (serve io r cn st')"
    if h: "handle_pre_connect ops io now uuid packet st = (Ok (Some r), st', out)" and k': "knows sid st'" for r st' out
  proof -
    have "broker_inv st'" "r < length (bk_sessions st')"
      using handle_pre_connect_safe [OF inv, of ops io now uuid packet] h by (auto simp: safe_def)
    then show ?thesis using k' known_pool [of "upd_session r f st'" st' for f] by (simp add: serve_outcome ends_in_def knows_def)
  qed
  ultimately show ?thesis
    using k knows_handle_packet [OF k inv]
    by (auto simp: on_packet_def intro!: ends_in_and_then ends_in_finish split: option.split)
qed

lemma step_knows:
  assumes s: "step ops w w'" and inv: "world_inv config w" and k: "knows sid (wd_state w)"
  shows "knows sid (wd_state w')"
proof -
  have b: "broker_inv (wd_state w)" using inv by (simp add: world_inv_def)
  from s k show ?thesis
  proof (rule branch_keeps)
    show "knows sid (deactivate_session u st)" if "recv_control ops ch (wd_state w) = Some (msg, st)" "knows sid st" for ch msg st u
      using knows_deactivate [OF that(2)] recv_control_evolves [OF that(1)] broker_inv_evolves [OF b] by blast
    show "knows sid st" if "recv_control ops ch (wd_state w) = Some (msg, st)" for ch msg st
      using knows_evolves [OF k] recv_control_evolves [OF that] by blast
    show "knows sid st" if "apply_command c (wd_state w) = Some st" for c st
      using undisturbed_command [OF that] k by (simp add: knows_def undisturbed_def)
    show "knows sid st" if "will_task ops i (wd_state w) = Ok st" for i st
      using that k knows_evolves [OF k evolves_trans [OF evolves_wills evolves_route_publish]]
      by (auto simp: will_task_def publish_will_def split: prod.splits if_splits)
  qed (use knows_abandon [OF k b] knows_on_packet [OF k b] in blast)+
qed

interpretation known_clients: transition_system "step ops" "\<lambda>w. world_inv config w \<and> knows sid (wd_state w)" for ops config sid
  by unfold_locales (blast intro: step_world_inv step_knows)

text \<open>
  A client that comes back, however late, is told that its session is present, unless the broker takes no
  connections or, for a session that is not active, is at its limit of active ones.
\<close>

lemma session_outlives_expiry:
  assumes run: "(step ops)\<^sup>*\<^sup>* w w'" and w: "reachable ops config w" and k: "known (wd_state w) sid \<noteq> None"
    and c: "connect_sid uuid connect = sid" "\<not> Connect_clean_start connect" and io: "\<forall>p. io_write io p"
    and accept: "bk_accept (wd_state w')"
    and room: "SessionPool_get_active sid (bk_pool (wd_state w')) \<noteq> None \<or>
      \<not> SessionPool_at_capacity (bk_pool (wd_state w')) (cf_max_active_sessions config)"
  shows "\<exists>ack r st'. handle_pre_connect ops io now uuid (Pkt_Connect connect) (wd_state w') = (Ok (Some r), st', [Pkt_ConnAck ack]) \<and>
    ca_reason ack = R_Success \<and> ConnAck_session_present ack"
proof -
  have w': "world_inv config w'" "known (wd_state w') sid \<noteq> None"
    using known_clients.steps_keep [OF run, of config sid] k reachable_inv [OF w] by (auto simp: knows_def)
  then have "SessionPool_get_active sid (bk_pool (wd_state w')) \<noteq> None \<or>
      \<not> SessionPool_at_capacity (bk_pool (wd_state w')) (cf_max_active_sessions (bk_config (wd_state w')))"
    using room by (simp add: world_inv_def)
  moreover have "resumed (wd_state w') connect sid \<noteq> None" using w'(2) c(2) by (simp add: resumed_def)
  ultimately show ?thesis
    using connect_accepted [of "wd_state w'" io sid uuid connect ops now] w'(1) io c(1) accept
    by (fastforce simp: world_inv_def handle_pre_connect_def)
qed

text \<open>Messages behind one that can not be written again are lost, and the session stays active.\<close>

lemma cut_redelivery_loses:
  assumes inv: "broker_inv st" and r: "r < length (bk_sessions st)"
    and p: "drained io st r = sent @ e # lost"
    and io: "\<forall>x \<in> set sent. io_write io (Pkt_Publish (again x))" "\<not> io_write io (Pkt_Publish (again e))"
  shows "\<exists>st'. serve io r cn st = (Err BE_Stream, st', map (\<lambda>x. Pkt_Publish (again x)) sent) \<and>
    se_pending_ack (bk_sessions st' ! r) = map (\<lambda>x. (fst x, again x)) (sent @ [e]) \<and> bk_pool st' = bk_pool st \<and>
    (\<forall>x \<in> set lost. pending_in st' r (fst x) = None)"
proof -
  have s: "resent io (sent @ e # lost) = sent" using io by (simp add: resent_def takeWhile_append2)
  have d: "distinct (map fst (sent @ e # lost))"
    using sessions_okD [OF broker_invD(3) [OF inv] r] unfolding p [symmetric] by (simp add: session_ok_def)
  have a: "recorded_again io (sent @ e # lost) = map (\<lambda>x. (fst x, again x)) (sent @ [e])"
    by (simp add: recorded_again_def s)
  have "map_of (map (\<lambda>x. (fst x, again x)) (sent @ [e])) (fst x) = None" if "x \<in> set lost" for x
  proof -
    have "fst x \<in> fst ` set lost" using that by (rule imageI)
    then have "fst x \<notin> fst ` set (sent @ [e])" using d
      by (simp add: disjoint_iff) metis
    then show ?thesis by (simp add: map_of_eq_None_iff image_image del: map_append set_append)
  qed
  then show ?thesis
    unfolding serve_outcome [OF inv r] p s a using r by (simp add: pending_in_def del: map_append)
qed

text \<open>
  An identifier that comes round while its message is still owed is handed out again: the old message is
  replaced.
\<close>

lemma reissued_id_replaces:
  assumes "q \<noteq> AtMostOnce" and "r < length (bk_sessions st)" and "se_next_packet_id (bk_sessions st ! r) = pid"
  shows "pending_in (route_one ops publish q r st) r pid = Some ((Publish_set_qos publish q)\<lparr>pu_packet_id := Some pid\<rparr>)"
  using assms by (simp add: pending_in_def route_one_same track_fields)

text \<open>A delivery that can not be written ends the connection and leaves the session active and its will unpublished.\<close>

lemma failed_delivery_keeps_session:
  assumes "\<not> io_write io (Pkt_Publish publish)"
  shows "on_control io (SC_Deliver publish) cn st = (Err BE_Stream, st, [])"
  using assms by (simp add: on_control_def write_packet_def)

end
