(* ===== verification/Broker_Wills.thy ===== *)
theory Broker_Wills
  imports Broker_Retention
begin

text \<open>
  Will messages: a will is published to its subscribers when the connection of its client is lost, not
  when the client says goodbye; a delayed will belongs to the session that left it, is cancelled when the
  client comes back, and is published at most once. And what closing a connection does to a client that
  has taken its session over.
\<close>

section \<open>A will without delay\<close>

definition will_delay :: "WillMessage \<Rightarrow> u32" where
  "will_delay will = (case wh_will_delay (wm_header will) of Some d \<Rightarrow> d | None \<Rightarrow> 0)"

lemma initiate_will_now:
  assumes "se_will_message (bk_sessions st ! r) = Some will" and "will_delay will = 0"
  shows "initiate_will ops r st = route_publish ops (will_publish will) [] (upd_session r (\<lambda>s. s\<lparr>se_will_message := None\<rparr>) st)"
  using assms by (simp add: initiate_will_def Session_take_will_def Let_def publish_will_def will_delay_def)

lemma queue_of_deactivate: "queue_of queue r (deactivate_session sid st) = queue_of queue r st"
  by (auto simp: queue_of_def deactivate_session_def SessionPool_deactivate_def Session_set_connected_def Let_def nth_update_cases
      split: option.split)

lemma will_message_deactivate: "se_will_message (bk_sessions (deactivate_session sid st) ! r) = se_will_message (bk_sessions st ! r)"
  by (auto simp: deactivate_session_def SessionPool_deactivate_def Session_set_connected_def Let_def nth_update_cases split: option.split)

lemma will_message_route:
  assumes "route_publish ops publish sender st = Ok st'" and "r < length (bk_sessions st)"
  shows "se_will_message (bk_sessions st' ! r) = se_will_message (bk_sessions st ! r)"
proof -
  have "map se_will_message (bk_sessions st') = map se_will_message (bk_sessions st)"
    by (rule route_publish_fields [OF assms(1)])
      (simp_all add: Session_track_qos_publish_def Session_next_packet_id_def Let_def)
  with assms(2) route_publish_frame(1) [OF assms(1)] show ?thesis by (metis nth_map)
qed

lemma abandon_publishes_will:
  assumes inv: "broker_inv st" and own: "channels_own st" and f: "fifo ops queue capacity" and r: "r < length (bk_sessions st)"
    and will: "se_will_message (bk_sessions st ! r) = Some will" "will_delay will = 0"
    and act: "SessionPool_get_active sid (bk_pool st) = Some k"
    and subs: "matching_subscribers (bk_tree st) (wm_topic will) = (Ok subs :: (BrokerError, Subscriber list) res)"
    and room: "length (queue_of queue k st) +
      length (copies_for (will_publish will) (wm_qos will) [] sid subs (se_next_packet_id (bk_sessions st ! k))) \<le> capacity"
  shows "\<exists>st'. abandon ops r st = Ok st' \<and> queue_of queue k st' = queue_of queue k st @
      map SC_Deliver (copies_for (will_publish will) (wm_qos will) [] sid subs (se_next_packet_id (bk_sessions st ! k))) \<and>
    se_will_message (bk_sessions st' ! r) = None \<and>
    SessionPool_get_active (se_id (bk_sessions st ! r)) (bk_pool st') = None"
proof -
  let ?st = "upd_session r (\<lambda>s. s\<lparr>se_will_message := None\<rparr>) st" and ?sid = "se_id (bk_sessions st ! r)"
  have ev: "evolves st ?st" by (rule evolves_upd_session) (simp_all add: session_ok_fields)
  have own': "channels_own ?st" by (rule channels_own_keeps [OF own keeps_upd_session]) simp
  have s: "se_control (bk_sessions ?st ! k) = se_control (bk_sessions st ! k)"
    "se_next_packet_id (bk_sessions ?st ! k) = se_next_packet_id (bk_sessions st ! k)"
    by (auto simp: nth_update_cases)
  have q: "queue_of queue k ?st = queue_of queue k st" by (simp add: queue_of_def nth_update_cases)
  obtain st1 where st1: "route_publish ops (will_publish will) [] ?st = Ok st1"
    "queue_of queue k st1 = queue_of queue k st @
      map SC_Deliver (copies_for (will_publish will) (wm_qos will) [] sid subs (se_next_packet_id (bk_sessions st ! k)))"
    using route_publish_queue [OF broker_inv_evolves [OF inv ev] own' f will_publish_qos [of will], where sid = sid and r = k and subs = subs and sender = "[]"]
      act subs room by (auto simp: q s [simplified] will_message_kept)
  have "se_will_message (bk_sessions st1 ! r) = None"
    using will_message_route [OF st1(1), of r] r by simp
  moreover have "broker_inv st1" using broker_inv_evolves [OF broker_inv_evolves [OF inv ev] evolves_route_publish [OF st1(1)]] .
  ultimately show ?thesis
    using st1 deactivate_session_inactive
    by (simp add: abandon_def initiate_will_now [OF will] queue_of_deactivate will_message_deactivate)
qed

text \<open>After a DISCONNECT with the reason of success nothing is published, not even when the connection closes.\<close>

lemma disconnect_drops_will:
  assumes cn: "cn_connected cn" "cn_session cn = Some r" and r: "r < length (bk_sessions st)" and inv: "broker_inv st"
    and d: "dc_reason d = R_Success"
  shows "\<exists>st1 st2. on_packet ops io now uuid (Pkt_Disconnect d) cn st = (Ok (Some cn), st1, []) \<and>
    on_eof ops cn st1 = (Ok None, st2, []) \<and> bk_channels st2 = bk_channels st \<and> bk_wills st2 = bk_wills st \<and>
    se_will_message (bk_sessions st2 ! r) = None \<and> SessionPool_get_active (se_id (bk_sessions st ! r)) (bk_pool st2) = None"
proof -
  let ?st = "upd_session r Session_clear_will st" and ?sid = "se_id (bk_sessions st ! r)"
  let ?st1 = "deactivate_session ?sid ?st"
  have id: "se_id (bk_sessions ?st1 ! r) = ?sid" and will: "se_will_message (bk_sessions ?st1 ! r) = None"
    using r by (auto simp: deactivate_session_def SessionPool_deactivate_def Session_set_connected_def Session_clear_will_def Let_def
        nth_update_cases split: option.split)
  have d1: "on_packet ops io now uuid (Pkt_Disconnect d) cn st = (Ok (Some cn), ?st1, [])"
    using cn d r by (simp add: on_packet_def handle_packet_def run_def finish_def and_then_def Let_def Session_clear_will_def)
  let ?st2 = "deactivate_session ?sid (upd_session r (\<lambda>s. snd (Session_take_will s)) ?st1)"
  have d2: "on_eof ops cn ?st1 = (Ok None, ?st2, [])"
    using cn will id by (simp add: on_eof_def abandon_def initiate_will_def Session_take_will_def run_def finish_def Let_def)
  have fr: "bk_channels (deactivate_session u s) = bk_channels s" "bk_wills (deactivate_session u s) = bk_wills s"
    for u and s :: "'a BrokerState"
    by (simp_all add: deactivate_session_def SessionPool_deactivate_def Let_def split: option.split)
  have "se_will_message (bk_sessions ?st2 ! r) = None"
    using r by (simp add: will_message_deactivate Session_take_will_def)
  moreover have "SessionPool_get_active ?sid (bk_pool ?st2) = None"
    by (simp add: deactivate_session_def SessionPool_deactivate_def SessionPool_get_active_def Let_def split: option.split)
  ultimately show ?thesis using d1 d2 by (intro exI [of _ ?st1] exI [of _ ?st2]) (simp add: fr)
qed

section \<open>Delayed wills\<close>

definition tokens :: "'c BrokerState \<Rightarrow> nat option list" where
  "tokens st = map se_pending_will (bk_sessions st)"

definition will_over :: "nat \<Rightarrow> 'c BrokerState \<Rightarrow> bool" where
  "will_over t st \<longleftrightarrow> t < length (bk_wills st) \<and> snd (snd (bk_wills st ! t))"

text \<open>A pending will has a task, and no two sessions have the same one.\<close>

definition wills_own :: "'c BrokerState \<Rightarrow> bool" where
  "wills_own st \<longleftrightarrow> (\<forall>t. Some t \<in> set (tokens st) \<longrightarrow> t < length (bk_wills st)) \<and>
    (\<forall>r r' t. r < length (tokens st) \<longrightarrow> r' < length (tokens st) \<longrightarrow>
      tokens st ! r = Some t \<longrightarrow> tokens st ! r' = Some t \<longrightarrow> r = r')"

text \<open>Tasks are only added; they keep their message, and what is over stays over.\<close>

definition wills_grow :: "'c BrokerState \<Rightarrow> 'c BrokerState \<Rightarrow> bool" where
  "wills_grow st st' \<longleftrightarrow> length (bk_wills st) \<le> length (bk_wills st') \<and> (\<forall>t < length (bk_wills st).
    fst (bk_wills st' ! t) = fst (bk_wills st ! t) \<and> fst (snd (bk_wills st' ! t)) = fst (snd (bk_wills st ! t)) \<and>
    (snd (snd (bk_wills st ! t)) \<longrightarrow> snd (snd (bk_wills st' ! t))))"

definition wills_ok :: "'c BrokerState \<Rightarrow> 'c BrokerState \<Rightarrow> bool" where
  "wills_ok st0 st \<longleftrightarrow> wills_own st \<and> wills_grow st0 st"

lemma wills_grow_refl: "wills_grow st st"
  by (simp add: wills_grow_def)

lemma wills_grow_trans: "wills_grow a b \<Longrightarrow> wills_grow b c \<Longrightarrow> wills_grow a c"
  by (auto simp: wills_grow_def)

lemma wills_grow_same: "bk_wills st' = bk_wills st \<Longrightarrow> wills_grow st st'"
  by (simp add: wills_grow_def)

lemma wills_grow_over: "wills_grow st st' \<Longrightarrow> will_over t st \<Longrightarrow> will_over t st'"
  by (auto simp: wills_grow_def will_over_def)

lemma wills_ok_same: "wills_ok st0 st \<Longrightarrow> tokens st' = tokens st \<Longrightarrow> bk_wills st' = bk_wills st \<Longrightarrow> wills_ok st0 st'"
  by (simp add: wills_ok_def wills_own_def wills_grow_def)

lemma wills_ok_fewer:
  assumes ok: "wills_ok st0 st" and n: "length (tokens st') = length (tokens st)"
    and t: "\<And>k u. k < length (tokens st) \<Longrightarrow> tokens st' ! k = Some u \<Longrightarrow> tokens st ! k = Some u" and g: "wills_grow st st'"
  shows "wills_ok st0 st'"
proof -
  have m: "length (bk_wills st) \<le> length (bk_wills st')" using g by (simp add: wills_grow_def)
  have "Some u \<in> set (tokens st)" if "Some u \<in> set (tokens st')" for u
    using that n t nth_mem [where xs = "tokens st"] by (metis in_set_conv_nth)
  then have "u < length (bk_wills st')" if "Some u \<in> set (tokens st')" for u
    using that ok m by (meson order_less_le_trans wills_ok_def wills_own_def)
  moreover have "k = k'" if "k < length (tokens st)" "k' < length (tokens st)" "tokens st' ! k = Some u" "tokens st' ! k' = Some u" for k k' u
    using t [OF that(1,3)] t [OF that(2,4)] ok that(1,2) by (simp add: wills_ok_def wills_own_def)
  ultimately show ?thesis
    using ok wills_grow_trans [OF _ g] n unfolding wills_ok_def wills_own_def by metis
qed

lemma wills_ok_forget:
  "wills_ok st0 st \<Longrightarrow> tokens st' = (tokens st)[r := None] \<Longrightarrow> wills_grow st st' \<Longrightarrow> wills_ok st0 st'"
  by (erule wills_ok_fewer) (auto simp: nth_update_cases split: if_splits)

lemma wills_ok_new:
  assumes ok: "wills_ok st0 st" and t: "tokens st' = (tokens st)[r := Some (length (bk_wills st))]" and g: "wills_grow st st'"
    and n: "length (bk_wills st') = Suc (length (bk_wills st))"
  shows "wills_ok st0 st'"
proof -
  have old: "u < length (bk_wills st)" if "tokens st ! k = Some u" "k < length (tokens st)" for k u
    using ok that nth_mem [OF that(2)] by (auto simp: wills_ok_def wills_own_def)
  have "u < length (bk_wills st')" if "Some u \<in> set (tokens st')" for u
    using ok that n set_update_subset_insert [of "tokens st" r "Some (length (bk_wills st))"]
    by (auto simp: t wills_ok_def wills_own_def less_Suc_eq)
  moreover have "k = k'" if "k < length (tokens st)" "k' < length (tokens st)" "tokens st' ! k = Some u" "tokens st' ! k' = Some u" for k k' u
    using that ok old by (auto simp: t nth_update_cases wills_ok_def wills_own_def split: if_splits)
  ultimately show ?thesis
    using ok wills_grow_trans [OF _ g] by (simp add: wills_ok_def wills_own_def t)
qed

lemma wills_ok_append:
  assumes ok: "wills_ok st0 st" and t: "tokens st' = tokens st @ [None]" and g: "bk_wills st' = bk_wills st"
  shows "wills_ok st0 st'"
  using assms by (auto simp: wills_ok_def wills_own_def wills_grow_def nth_append split: if_splits)

lemma tokens_upd: "tokens (upd_session r f st) = (tokens st)[r := se_pending_will (f (bk_sessions st ! r))]"
  by (simp add: tokens_def map_update)

lemma tokens_upd_same: "(\<And>s. se_pending_will (f s) = se_pending_will s) \<Longrightarrow> tokens (upd_session r f st) = tokens st"
  by (cases "r < length (bk_sessions st)") (simp_all add: tokens_upd, simp_all add: tokens_def list_update_same_conv list_update_beyond)

lemma tokens_sessions: "bk_sessions st' = bk_sessions st \<Longrightarrow> tokens st' = tokens st"
  by (simp add: tokens_def)

lemma wills_grow_cancel: "wills_grow st (cancel_will token st)"
  by (auto simp: cancel_will_def wills_grow_def nth_update_cases split: option.split prod.split)

lemma wills_ok_upd: "wills_ok st0 st \<Longrightarrow> (\<And>s. se_pending_will (f s) = se_pending_will s) \<Longrightarrow> wills_ok st0 (upd_session r f st)"
  by (erule wills_ok_same) (simp_all add: tokens_upd_same)

lemma wills_ok_fields:
  "wills_ok st0 st \<Longrightarrow> wills_ok st0 (st\<lparr>bk_tree := t\<rparr>)" "wills_ok st0 st \<Longrightarrow> wills_ok st0 (st\<lparr>bk_channels := c\<rparr>)"
  "wills_ok st0 st \<Longrightarrow> wills_ok st0 (st\<lparr>bk_accept := b\<rparr>)" "wills_ok st0 st \<Longrightarrow> wills_ok st0 (st\<lparr>bk_pool := p\<rparr>)"
  by (erule wills_ok_same; simp add: tokens_def)+

lemma wills_ok_deactivate: "wills_ok st0 st \<Longrightarrow> wills_ok st0 (deactivate_session sid st)"
proof (cases "sp_active (bk_pool st) sid")
  case (Some r)
  assume "wills_ok st0 st"
  then have "wills_ok st0 (upd_session r (Session_set_connected False) st)"
    by (rule wills_ok_upd) (simp add: Session_set_connected_def)
  from wills_ok_fields(4) [OF this] Some show ?thesis
    by (simp add: deactivate_session_def SessionPool_deactivate_def Let_def upd_session_def)
qed (simp add: deactivate_session_def SessionPool_deactivate_def)

lemma wills_ok_route:
  assumes "wills_ok st0 st" and "route_publish ops publish sender st = Ok st'"
  shows "wills_ok st0 st'"
proof (rule wills_ok_same [OF assms(1)])
  show "tokens st' = tokens st"
    unfolding tokens_def
    by (rule route_publish_fields [OF assms(2)]) (simp_all add: Session_track_qos_publish_def Session_next_packet_id_def Let_def)
qed (rule route_publish_frame(2) [OF assms(2)])

lemma wills_ok_initiate:
  assumes ok: "wills_ok st0 st" and i: "initiate_will ops r st = Ok st'"
  shows "wills_ok st0 st'"
proof (cases "se_will_message (bk_sessions st ! r)")
  case None
  have "wills_ok st0 (upd_session r (\<lambda>s. snd (Session_take_will s)) st)"
    by (rule wills_ok_upd [OF ok]) (simp add: Session_take_will_def)
  with i None show ?thesis by (simp add: initiate_will_def Session_take_will_def)
next
  case (Some will)
  have ok1: "wills_ok st0 (upd_session r (\<lambda>s. s\<lparr>se_will_message := None\<rparr>) st)" (is "wills_ok st0 ?st")
    by (rule wills_ok_upd [OF ok]) simp
  show ?thesis
  proof (cases "will_delay will = 0")
    case True
    with wills_ok_route [OF ok1] i show ?thesis by (simp add: initiate_will_now [OF Some])
  next
    case False
    let ?t = "length (bk_wills st)"
    let ?st2 = "?st\<lparr>bk_wills := bk_wills st @ [(will, unat (will_delay will), False)]\<rparr>"
    let ?st3 = "cancel_will (se_pending_will (bk_sessions ?st ! r)) ?st2"
    have st': "st' = upd_session r (\<lambda>s. s\<lparr>se_pending_will := Some ?t\<rparr>) ?st3"
      using i Some False
      by (simp add: initiate_will_def Session_take_will_def Let_def will_delay_def Session_set_pending_will_def
          Session_cancel_pending_will_def)
    have n: "length (bk_wills ?st3) = Suc ?t" by (simp add: cancel_will_def split: option.split)
    have g: "wills_grow ?st ?st3"
      by (rule wills_grow_trans [OF _ wills_grow_cancel]) (simp add: wills_grow_def nth_append)
    have "tokens st' = (tokens ?st)[r := Some ?t]"
      by (simp add: st' tokens_upd) (simp add: tokens_def map_update)
    moreover have "wills_grow ?st st'" using wills_grow_trans [OF g wills_grow_same] by (simp add: st')
    ultimately show ?thesis using n by (intro wills_ok_new [OF ok1]) (simp_all add: st')
  qed
qed

lemma wills_ok_abandon: "wills_ok st0 st \<Longrightarrow> abandon ops r st = Ok st' \<Longrightarrow> wills_ok st0 st'"
  by (auto simp: abandon_def Let_def intro: wills_ok_deactivate wills_ok_initiate)

lemma wills_ok_task:
  assumes ok: "wills_ok st0 st" and w: "will_task ops i st = Ok st'"
  shows "wills_ok st0 st'"
proof -
  obtain will d over where e: "bk_wills st ! i = (will, d, over)" by (metis prod_cases3)
  let ?st = "st\<lparr>bk_wills := (bk_wills st)[i := (will, d, True)]\<rparr>"
  have "wills_grow st ?st" by (auto simp: wills_grow_def nth_update_cases e)
  then have "wills_ok st0 ?st" by (intro wills_ok_fewer [OF ok]) (simp_all add: tokens_def)
  from wills_ok_route [OF this] ok w show ?thesis by (auto simp: will_task_def e publish_will_def split: if_splits)
qed

lemma wills_ok_handle_packet:
  assumes ok: "wills_ok st0 st"
  shows "ends_in (wills_ok st0) (handle_packet ops io packet r st)"
proof (cases packet)
  case (Pkt_PubAck a)
  have "wills_ok st0 (upd_session r (\<lambda>s. snd (Session_acknowledge (pr_packet_id a) s)) st)"
    by (rule wills_ok_upd [OF ok]) (simp add: Session_acknowledge_def)
  then show ?thesis by (simp add: handle_packet_def Pkt_PubAck ends_in_finish)
next
  case (Pkt_Disconnect d)
  have "wills_ok st0 (upd_session r Session_clear_will st)" by (rule wills_ok_upd [OF ok]) (simp add: Session_clear_will_def)
  then show ?thesis
    using wills_ok_initiate [OF ok]
    by (auto simp: handle_packet_def Pkt_Disconnect Let_def intro!: ends_in_intros ok wills_ok_deactivate split: if_splits)
qed (use ok wills_ok_route [OF ok] in
    \<open>auto simp: handle_packet_def handle_subscribe_def handle_unsubscribe_def Let_def
      intro!: ends_in_intros wills_ok_fields split: prod.splits option.splits\<close>)

section \<open>Coming back\<close>

lemma wills_ok_new_session: "wills_ok st0 st \<Longrightarrow> new_session ops now sid will ka n st = (r, st') \<Longrightarrow> wills_ok st0 st'"
  by (erule wills_ok_append) (auto simp: new_session_def new_channel_def Let_def tokens_def Session_set_connected_def Session_new_def)

lemma wills_ok_cancel_pending:
  assumes "wills_ok st0 st"
  shows "wills_ok st0 (cancel_pending_will r st)"
  unfolding cancel_pending_will_def
proof (rule wills_ok_forget [OF assms])
  let ?st = "upd_session r (\<lambda>s. snd (Session_cancel_pending_will s)) st"
  show "tokens (cancel_will x ?st) = (tokens st)[r := None]" for x
    by (simp add: tokens_sessions [where st = ?st] tokens_upd Session_cancel_pending_will_def)
  show "wills_grow st (cancel_will x ?st)" for x
    by (rule wills_grow_trans [OF wills_grow_same wills_grow_cancel]) simp
qed

lemma wills_ok_resume:
  assumes "wills_ok st0 st"
  shows "wills_ok st0 (resume_session ops r will n st)"
proof -
  have "wills_ok st0 (upd_session r (Session_set_will will) (cancel_pending_will r st))"
    by (rule wills_ok_upd [OF wills_ok_cancel_pending [OF assms]]) (simp add: Session_set_will_def)
  then show ?thesis
    unfolding resume_session_def new_channel_def Let_def prod.case
    by (intro wills_ok_upd [OF wills_ok_fields(2)]) (simp_all add: Session_reset_control_def)
qed

lemma wills_ok_takeover: "wills_ok st0 st \<Longrightarrow> wills_ok st0 (handle_takeover ops k st)"
  by (simp add: handle_takeover_def Session_disconnect_def send_control_def Let_def wills_ok_fields)

lemma wills_ok_activate:
  assumes ok: "wills_ok st0 st" and a: "SessionPool_activate now sid (bk_sessions st) (bk_pool st) = (x, ss, p)"
  shows "wills_ok st0 (st\<lparr>bk_sessions := ss, bk_pool := p\<rparr>)"
proof (cases "sp_inactive (bk_pool st) sid")
  case (Some r)
  have "wills_ok st0 (upd_session r (\<lambda>s. Session_set_last_active now (Session_set_connected True s)) st)"
    by (rule wills_ok_upd [OF ok]) (simp add: Session_set_last_active_def Session_set_connected_def)
  from wills_ok_fields(4) [OF this, of p] a Some show ?thesis
    by (auto simp add: SessionPool_activate_def Let_def upd_session_def)
qed (use ok a in \<open>auto simp: SessionPool_activate_def\<close>)

lemma wills_ok_connect:
  assumes ok: "wills_ok st0 st" and c: "connect_session ops now connect sid ka ack st = (ack', r, st')"
  shows "wills_ok st0 st'"
proof -
  have la: "wills_ok st0 (upd_session k (Session_set_last_active now) s)" if "wills_ok st0 s" for k and s :: "'a BrokerState"
    by (rule wills_ok_upd [OF that]) (simp add: Session_set_last_active_def)
  show ?thesis
    using c ok unfolding connect_session_def Let_def
    by (auto split: if_splits prod.splits option.splits dest!: wills_ok_activate [OF ok]
        intro!: la wills_ok_resume wills_ok_takeover wills_ok_fields elim!: wills_ok_new_session [rotated])
qed

lemma wills_ok_on_packet:
  assumes ok: "wills_ok st0 st" and inv: "broker_inv st"
  shows "ends_in (wills_ok st0) (on_packet ops io now uuid packet cn st)"
proof -
  have ex: "wills_ok st0 (upd_session r (Session_set_session_expiry e) s)" if "wills_ok st0 s" for r e and s :: "'a BrokerState"
    by (rule wills_ok_upd [OF that]) (simp add: Session_set_session_expiry_def)
  have c: "ends_in (wills_ok st0) (handle_connect ops io now uuid connect st)" for connect
    by (auto simp: handle_connect_unfold Let_def intro!: ends_in_intros ok ex dest: wills_ok_connect [OF ok] split: prod.split option.split)
  have "ends_in (wills_ok st0) (handle_pre_connect ops io now uuid packet st)"
    using ok c by (cases packet) (auto simp: handle_pre_connect_def intro!: ends_in_intros)
  moreover have "ends_in (wills_ok st0) (serve io r cn st')"
    if h: "handle_pre_connect ops io now uuid packet st = (Ok (Some r), st', out)" and k: "wills_ok st0 st'" for r st' out
  proof -
    have i: "broker_inv st'" "r < length (bk_sessions st')"
      using handle_pre_connect_safe [OF inv, of ops io now uuid packet] h by (auto simp: safe_def)
    have "wills_ok st0 (upd_session r (\<lambda>s. s\<lparr>se_control := (fst (se_control s), None), se_pending_ack := l\<rparr>) st')" for l
      by (rule wills_ok_upd [OF k]) simp
    then show ?thesis by (simp add: serve_outcome [OF i] ends_in_def)
  qed
  ultimately show ?thesis
    using ok wills_ok_handle_packet [OF ok]
    by (auto simp: on_packet_def intro!: ends_in_and_then ends_in_finish split: option.split)
qed

lemma step_wills:
  assumes s: "step ops w w'" and inv: "world_inv config w" and ok: "wills_ok st0 (wd_state w)"
  shows "wills_ok st0 (wd_state w')"
proof -
  have b: "broker_inv (wd_state w)" using inv by (simp add: world_inv_def)
  from s ok show ?thesis
  proof (rule branch_keeps)
    show "wills_ok st0 st" if "recv_control ops ch (wd_state w) = Some (msg, st)" for ch msg st
      using that ok by (auto simp: recv_control_def wills_ok_fields split: if_splits option.splits)
    show "wills_ok st0 st" if "apply_command c (wd_state w) = Some st" for c st
      using that ok by (auto simp: apply_command_def wills_ok_fields split: BrokerCommand.splits)
  qed (use wills_ok_deactivate wills_ok_abandon [OF ok] wills_ok_task [OF ok] wills_ok_on_packet [OF ok b] in blast)+
qed

interpretation pending_wills: transition_system "step ops" "\<lambda>w. world_inv config w \<and> wills_ok st0 (wd_state w)"
  for ops config st0
  by unfold_locales (blast intro: step_world_inv step_wills)

lemma reachable_wills_own:
  assumes "reachable ops config w"
  shows "wills_own (wd_state w)"
proof -
  let ?w = "World_init config :: 'a World"
  have "wills_ok (wd_state ?w) (wd_state ?w)"
    by (simp add: wills_ok_def wills_grow_refl) (simp add: wills_own_def tokens_def World_init_def BrokerState_new_def)
  moreover have "world_inv config ?w" using reachable_inv [of ops config ?w] by (simp add: reachable_def)
  ultimately show ?thesis
    using pending_wills.steps_keep [of ops ?w w config "wd_state ?w"] assms by (simp add: reachable_def wills_ok_def)
qed

lemma run_wills_grow:
  assumes "(step ops)\<^sup>*\<^sup>* w w'" and "world_inv config w" and "wills_own (wd_state w)"
  shows "wills_grow (wd_state w) (wd_state w')"
  using pending_wills.steps_keep [OF assms(1), of config "wd_state w"] assms(2,3)
  by (simp add: wills_ok_def wills_grow_refl)

lemma will_over_upd [simp]: "will_over t (upd_session r f st) = will_over t st"
  by (simp add: will_over_def)

text \<open>Resuming a session ends the task of the will it left.\<close>

lemma resume_cancels:
  assumes "se_pending_will (bk_sessions st ! r) = Some t" and "t < length (bk_wills st)"
  shows "will_over t (resume_session ops r will n st)"
proof -
  have w: "bk_wills (cancel_will (Some t) s) ! t = (fst (bk_wills s ! t), fst (snd (bk_wills s ! t)), True)"
    "length (bk_wills (cancel_will (Some t) s)) = length (bk_wills s)" if "t < length (bk_wills s)" for s :: "'a BrokerState"
    using that by (simp_all add: cancel_will_def case_prod_beta)
  show ?thesis
    using assms w [of "upd_session r (\<lambda>s. snd (Session_cancel_pending_will s)) st"]
    by (simp add: resume_session_def new_channel_def Let_def will_over_def cancel_pending_will_def Session_cancel_pending_will_def)
qed

lemma connect_cancels_will:
  assumes inv: "broker_inv st" and own: "wills_own st" and k: "known st sid = Some r"
    and t: "se_pending_will (bk_sessions st ! r) = Some t" and keep: "\<not> Connect_clean_start connect"
    and c: "connect_session ops now connect sid ka ack st = (ack', r', st')"
  shows "will_over t st'"
proof -
  have r: "r < length (bk_sessions st)" using known_bound [OF inv k] by blast
  have n: "t < length (bk_wills st)"
    using own t r nth_mem [of r "tokens st"] by (auto simp: wills_own_def tokens_def)
  show ?thesis
  proof (cases "sp_active (bk_pool st) sid")
    case None
    then have i: "sp_inactive (bk_pool st) sid = Some r" using k by (simp add: known_def)
    obtain ss p where a: "SessionPool_activate now sid (bk_sessions st) (bk_pool st) = (Some r, ss, p)"
      "se_pending_will (ss ! r) = Some t"
      using i r t by (simp add: SessionPool_activate_def Let_def Session_set_last_active_def Session_set_connected_def)
    then show ?thesis
      using c keep n resume_cancels [of "st\<lparr>bk_sessions := ss, bk_pool := p\<rparr>" r t] by (auto simp: connect_session_def Let_def)
  next
    case (Some k')
    then have a: "k' = r" "sp_inactive (bk_pool st) sid = None"
      using k pool_invD(5) [OF broker_invD(1) [OF inv]] by (auto simp: known_def)
    have "bk_wills (handle_takeover ops r st) = bk_wills st" "bk_sessions (handle_takeover ops r st) = bk_sessions st"
      by (simp_all add: handle_takeover_def Session_disconnect_def send_control_def Let_def)
    then have "will_over t (resume_session ops r will m (handle_takeover ops r st))" for will m
      using resume_cancels [of "handle_takeover ops r st" r t] t n by simp
    then show ?thesis
      using c keep a Some by (auto simp: connect_session_def Let_def SessionPool_activate_def SessionPool_get_active_def)
  qed
qed

lemma serve_wills: "broker_inv st \<Longrightarrow> r < length (bk_sessions st) \<Longrightarrow> ends_in (\<lambda>st'. bk_wills st' = bk_wills st) (serve io r cn st)"
  by (simp add: serve_outcome ends_in_def)

lemma handle_connect_cancels:
  assumes inv: "broker_inv st" and own: "wills_own st" and k: "known st (connect_sid uuid connect) = Some r"
    and t: "se_pending_will (bk_sessions st ! r) = Some t" and keep: "\<not> Connect_clean_start connect"
    and cap: "\<not> SessionPool_at_capacity (bk_pool st) (cf_max_active_sessions (bk_config st))"
  shows "ends_in (will_over t) (handle_connect ops io now uuid connect st)"
  using cap connect_cancels_will [OF inv own k t keep]
  by (auto simp: handle_connect_unfold Let_def intro!: ends_in_intros split: prod.split option.split)

lemma reconnect_cancels_will:
  assumes w: "world_inv config w" and own: "wills_own (wd_state w)" and l: "live w i cn" "\<not> cn_connected cn" "bk_accept (wd_state w)"
    and k: "known (wd_state w) (connect_sid uuid connect) = Some r"
    and t: "se_pending_will (bk_sessions (wd_state w) ! r) = Some t" and keep: "\<not> Connect_clean_start connect"
    and cap: "cf_max_active_sessions config = None"
    and w1: "w1 = after w i (on_packet ops io now uuid (Pkt_Connect connect) cn (wd_state w))"
    and run: "(step ops)\<^sup>*\<^sup>* w1 w'"
  shows "will_task ops t (wd_state w') = Ok (wd_state w')"
proof -
  have inv: "broker_inv (wd_state w)" "bk_config (wd_state w) = config"
    using w by (simp_all add: world_inv_def)
  have "ends_in (will_over t) (handle_connect ops io now uuid connect (wd_state w))"
    by (rule handle_connect_cancels [OF inv(1) own k t keep])
      (simp add: inv(2) cap SessionPool_at_capacity_def)
  then have pre: "ends_in (will_over t) (handle_pre_connect ops io now uuid (Pkt_Connect connect) (wd_state w))"
    using l(3) by (simp add: handle_pre_connect_def)
  have "ends_in (will_over t) (serve io k cn st)"
    if h: "handle_pre_connect ops io now uuid (Pkt_Connect connect) (wd_state w) = (Ok (Some k), st, out)" and "will_over t st" for k st out
    using handle_pre_connect_safe [OF inv(1), of ops io now uuid "Pkt_Connect connect"] serve_wills [of st k io cn] that
    by (auto simp: safe_def ends_in_def will_over_def)
  then have "ends_in (will_over t) (on_packet ops io now uuid (Pkt_Connect connect) cn (wd_state w))"
    using l(2) pre by (auto simp: on_packet_def intro!: ends_in_and_then ends_in_finish split: option.split)
  then have o: "will_over t (wd_state w1)" by (simp add: w1 after_def ends_in_def)
  have "packet_ok (Pkt_Connect connect)" by (simp add: packet_ok_def)
  then have s: "step ops w w1" unfolding w1 by (intro packet l)
  have "wills_ok (wd_state w) (wd_state w)" using own by (simp add: wills_ok_def wills_grow_refl)
  from step_wills [OF s w this] have "wills_own (wd_state w1)" by (simp add: wills_ok_def)
  from wills_grow_over [OF run_wills_grow [OF run step_world_inv [OF w s] this] o] show ?thesis
    by (auto simp: will_over_def will_task_def split: prod.split)
qed

text \<open>A delayed will waits, without a message to anyone, and is published when its task is due.\<close>

lemma deactivate_others:
  "u \<noteq> sid \<Longrightarrow> SessionPool_get_active u (bk_pool (deactivate_session sid st)) = SessionPool_get_active u (bk_pool st)"
  "se_next_packet_id (bk_sessions (deactivate_session sid st) ! k) = se_next_packet_id (bk_sessions st ! k)"
  "bk_channels (deactivate_session sid st) = bk_channels st" "bk_wills (deactivate_session sid st) = bk_wills st"
  by (auto simp: deactivate_session_def SessionPool_deactivate_def SessionPool_get_active_def Session_set_connected_def Let_def
      nth_update_cases split: option.split)

lemma delayed_will_due:
  assumes inv: "broker_inv st" and own: "channels_own st" and wo: "wills_own st" and f: "fifo ops queue capacity" and r: "r < length (bk_sessions st)"
    and will: "se_will_message (bk_sessions st ! r) = Some will" "will_delay will \<noteq> 0"
    and act: "SessionPool_get_active sid (bk_pool st) = Some k" and other: "sid \<noteq> se_id (bk_sessions st ! r)"
    and subs: "matching_subscribers (bk_tree st) (wm_topic will) = (Ok subs :: (BrokerError, Subscriber list) res)"
    and room: "length (queue_of queue k st) +
      length (copies_for (will_publish will) (wm_qos will) [] sid subs (se_next_packet_id (bk_sessions st ! k))) \<le> capacity"
  shows "\<exists>st1 st2. abandon ops r st = Ok st1 \<and> bk_channels st1 = bk_channels st \<and>
    bk_wills st1 ! length (bk_wills st) = (will, unat (will_delay will), False) \<and>
    will_task ops (length (bk_wills st)) st1 = Ok st2 \<and> queue_of queue k st2 = queue_of queue k st @
      map SC_Deliver (copies_for (will_publish will) (wm_qos will) [] sid subs (se_next_packet_id (bk_sessions st ! k)))"
proof -
  let ?sid = "se_id (bk_sessions st ! r)" and ?t = "length (bk_wills st)"
  obtain st0 where i: "initiate_will ops r st = Ok st0" using initiate_will_total [OF broker_invD(2) [OF inv]] by blast
  let ?st1 = "deactivate_session ?sid st0"
  let ?st = "?st1\<lparr>bk_wills := (bk_wills ?st1)[?t := (will, unat (will_delay will), True)]\<rparr>"
  have ev: "evolves st st0" by (rule evolves_initiate_will [OF i])
  have u: "u < length (bk_wills st)" if "se_pending_will (bk_sessions st ! r) = Some u" for u
    using wo that r nth_mem [of r "tokens st"] by (auto simp: wills_own_def tokens_def)
  have s0: "bk_channels st0 = bk_channels st" "bk_wills st0 ! ?t = (will, unat (will_delay will), False)" "length (bk_wills st0) = Suc ?t"
    "se_next_packet_id (bk_sessions st0 ! k) = se_next_packet_id (bk_sessions st ! k)" "se_control (bk_sessions st0 ! k) = se_control (bk_sessions st ! k)"
    using i will r u
    by (auto simp: initiate_will_def Session_take_will_def Let_def will_delay_def Session_set_pending_will_def Session_cancel_pending_will_def
        cancel_will_def nth_update_cases split: option.splits)
  have a: "abandon ops r st = Ok ?st1" by (simp add: abandon_def i)
  have inv1: "broker_inv ?st" by (rule broker_inv_evolves [OF broker_inv_deactivate [OF broker_inv_evolves [OF inv ev]] evolves_wills])
  have own1: "channels_own ?st" by (rule channels_own_keeps [OF own_abandon [OF a own] keeps_same(3)])
  have q: "queue_of queue k ?st = queue_of queue k st"
    using queue_of_deactivate [of queue k ?sid st0] s0 by (simp add: queue_of_def)
  obtain st2 where "route_publish ops (will_publish will) [] ?st = Ok st2" "queue_of queue k st2 = queue_of queue k st @
      map SC_Deliver (copies_for (will_publish will) (wm_qos will) [] sid subs (se_next_packet_id (bk_sessions st ! k)))"
    using route_publish_queue [OF inv1 own1 f will_publish_qos [of will], where sid = sid and r = k and subs = subs and sender = "[]"]
      act subs room other evolvesD(3,4) [OF ev] s0(4) by (auto simp: q [unfolded deactivate_others(4)] deactivate_others will_message_kept)
  then show ?thesis
    using a s0 by (intro exI [of _ ?st1] exI [of _ st2]) (simp add: will_task_def publish_will_def deactivate_others)
qed

section \<open>A session taken over\<close>

text \<open>
  The connection whose session was taken over still refers to it. When it closes, the session of the
  client that took over is made inactive.
\<close>

lemma stale_close_deactivates:
  assumes inv: "broker_inv st" and act: "SessionPool_get_active sid (bk_pool st) = Some r" and cn: "cn_session cn = Some r"
    and c: "connect_sid uuid connect = sid" "\<not> Connect_clean_start connect" and io: "\<forall>p. io_write io p"
  shows "\<exists>ack st1 cn' out st2 st3. handle_connect ops io now uuid connect st = (Ok (Some r), st1, [Pkt_ConnAck ack]) \<and>
    serve io r Conn_init st1 = (Ok (Some cn'), st2, out) \<and> cn_connected cn' \<and> cn_session cn' = Some r \<and>
    SessionPool_get_active sid (bk_pool st2) = Some r \<and>
    on_eof ops cn st2 = (Ok None, st3, []) \<and> SessionPool_get_active sid (bk_pool st3) = None"
proof (cases rule: handle_connect_cases [OF inv c(1) [symmetric] refl, of ops io now])
  case 1
  with act show ?thesis by simp
next
  case (2 ack k st1)
  have k: "k = r" using 2(1) act c(2) by (simp add: connect_post_def resumed_def known_def SessionPool_get_active_def)
  have p: "broker_inv st1" "SessionPool_get_active sid (bk_pool st1) = Some r" "r < length (bk_sessions st1)"
    using 2(1) connect_post_during [OF 2(1)] k by (auto simp: connect_post_def SessionPool_get_active_def)
  then have id: "se_id (bk_sessions st1 ! r) = sid"
    using pool_invD(6) [OF broker_invD(1) [OF p(1)]] by (simp add: SessionPool_get_active_def)
  have h: "handle_connect ops io now uuid connect st = (Ok (Some r), st1, [Pkt_ConnAck ack])"
    using 2(3) io k by (simp add: write_packet_def finish_def)
  note s = serve_outcome [OF p(1,3), of io Conn_init, unfolded recorded_again_all(1) [OF io], simplified]
  let ?st2 = "fst (snd (serve io r Conn_init st1))"
  have st2: "broker_inv ?st2" "bk_pool ?st2 = bk_pool st1" "se_id (bk_sessions ?st2 ! r) = sid"
    using serve_safe(1) [OF p(1,3), of io Conn_init] p(3) id by (simp_all add: s safe_def)
  obtain st' where i: "initiate_will ops r ?st2 = Ok st'" using initiate_will_total [OF broker_invD(2) [OF st2(1)]] by blast
  have "on_eof ops cn ?st2 = (Ok None, deactivate_session sid st', [])"
    using cn i st2(3) by (simp add: on_eof_def abandon_def run_def finish_def)
  moreover have "SessionPool_get_active sid (bk_pool (deactivate_session sid st')) = None"
    using deactivate_session_inactive broker_inv_evolves [OF st2(1) evolves_initiate_will [OF i]] by blast
  ultimately show ?thesis using h s st2(2) p(2) by fastforce
qed

end
