(* ===== verification/Broker_Run.thy ===== *)
theory Broker_Run
  imports Broker_World
begin

text \<open>
  The broker object and its accept loop (\<open>Broker\<close> in \<open>vaux-broker/src/lib.rs\<close>): every iteration that goes
  on is a step of the system of all connections. Binding the address, accepting a socket and the TLS
  handshake are parameters, in the events; \<open>mk\<close> says whether a channel of a given size can be made.
\<close>

record 'c Broker =
  br_state :: "'c BrokerState"
  br_command :: bool

definition Broker_new_with_config :: "(nat \<Rightarrow> bool) \<Rightarrow> Config \<Rightarrow> (BrokerError, 'c Broker) res" where
  "Broker_new_with_config mk config =
    (if mk (cf_session_channel_size config) then Ok \<lparr>br_state = BrokerState_new config, br_command = True\<rparr> else Panic)"

definition Broker_default :: "(nat \<Rightarrow> bool) \<Rightarrow> (BrokerError, 'c Broker) res" where
  "Broker_default mk =
    (if mk DEFAULT_SESSION_CHANNEL_SIZE then Ok \<lparr>br_state = BrokerState_new Config_default, br_command = True\<rparr> else Panic)"

definition Broker_set_session_expiration :: "nat \<Rightarrow> 'c Broker \<Rightarrow> 'c Broker" where
  "Broker_set_session_expiration expiration b =
    b\<lparr>br_state := (br_state b)\<lparr>bk_pool := SessionPool_set_session_expiry expiration (bk_pool (br_state b))\<rparr>\<rparr>"

definition Broker_stop :: "'c Broker \<Rightarrow> 'c Broker" where
  "Broker_stop b = b"

text \<open>\<open>run\<close> up to the task it spawns, which is given the shared state; \<open>bound\<close>: the address could be bound.\<close>

definition Broker_run :: "bool \<Rightarrow> 'c Broker \<Rightarrow> (BrokerError, 'c World) res \<times> 'c Broker" where
  "Broker_run bound b =
    (if bound then
       if br_command b then (Ok \<lparr>wd_state = br_state b, wd_conns = []\<rparr>, b\<lparr>br_command := False\<rparr>)
       else (Panic, b)
     else (Err BE_Io, b))"

text \<open>
  One iteration of the accept loop. A socket is served unless there is a TLS acceptor (\<open>Some\<close>) whose
  handshake fails.
\<close>

datatype accept_event =
    Command "BrokerCommand option"
  | Accepted "bool option"
  | Accept_failed

definition accept_loop :: "accept_event \<Rightarrow> 'c World \<Rightarrow> (BrokerError, unit) res option \<times> 'c World" where
  "accept_loop ev w =
    (case ev of
       Command (Some cmd) \<Rightarrow>
         (case apply_command cmd (wd_state w) of Some st \<Rightarrow> (None, w\<lparr>wd_state := st\<rparr>) | None \<Rightarrow> (Some (Ok ()), w))
     | Command None \<Rightarrow> (Some (Ok ()), w)
     | Accepted tls \<Rightarrow>
         (case tls of
            Some False \<Rightarrow> (None, w)
          | _ \<Rightarrow> (None, w\<lparr>wd_conns := wd_conns w @ [Some Conn_init]\<rparr>))
     | Accept_failed \<Rightarrow> (Some (Err BE_Io), w))"

section \<open>The loop inside the system\<close>

lemma accept_loop_steps: "accept_loop ev w = (r, w') \<Longrightarrow> w' = w \<or> step ops w w'"
  by (auto simp: accept_loop_def split: accept_event.splits option.splits bool.splits intro: step.intros)

lemma accept_loop_reachable:
  assumes "reachable ops config w" and "accept_loop ev w = (r, w')"
  shows "reachable ops config w'"
  using accept_loop_steps [OF assms(2), of ops] assms(1) by (auto simp: reachable_def)

text \<open>A broker that was just made and is run starts where the system starts; it can be run once.\<close>

lemma Broker_run_starts:
  assumes "Broker_new_with_config mk config = Ok b"
  shows "fst (Broker_run True b) = Ok (World_init config)"
    and "fst (Broker_run True (snd (Broker_run True b))) = Panic"
  using assms by (auto simp: Broker_new_with_config_def Broker_run_def World_init_def split: if_splits)

text \<open>While accepting is paused a CONNECT is answered with \<open>ServerBusy\<close> and changes nothing.\<close>

lemma paused_refuses:
  assumes "\<not> bk_accept st" and "\<forall>p. io_write io p" and "io_shutdown io"
  shows "\<exists>ack. handle_pre_connect ops io now uuid (Pkt_Connect connect) st = (Ok None, st, [Pkt_ConnAck ack]) \<and>
    ca_reason ack = R_ServerBusy"
  using assms by (simp add: handle_pre_connect_def write_packet_def finish_def)

text \<open>Pausing and resuming give back the state before.\<close>

lemma pause_resume:
  assumes "accept_loop (Command (Some PauseAccept)) w = (None, w1)" and "accept_loop (Command (Some ResumeAccept)) w1 = (None, w2)"
    and "bk_accept (wd_state w)"
  shows "\<not> bk_accept (wd_state w1) \<and> w2 = w"
  using assms by (auto simp: accept_loop_def apply_command_def)

end
