(* ===== verification/Command_Line.thy ===== *)
theory Command_Line
  imports Broker_Run
begin

text \<open>
  The broker's executable (\<open>vaux/src/main.rs\<close>): from the arguments to a running broker. Reading files
  and PEM, making a TLS configuration, parsing an address, binding it and waiting for the interrupt are
  parameters.
\<close>

section \<open>Arguments and configuration\<close>

record Args =
  ar_listen_addr :: "string option"
  ar_port :: "u16 option"
  ar_max_sessions :: "u32 option"
  ar_max_active_sessions :: "u32 option"
  ar_session_expiration :: "u32 option"
  ar_session_timeout :: "u32 option"
  ar_max_session_timeout :: "u32 option"
  ar_tui :: bool
  ar_tls_cert :: "string option"
  ar_tls_key :: "string option"
  ar_channel_size :: "nat option"

definition BROKER_DEFAULT_PORT :: u16 where "BROKER_DEFAULT_PORT = 1883"
definition BROKER_DEFAULT_TLS_PORT :: u16 where "BROKER_DEFAULT_TLS_PORT = 8883"
definition BROKER_DEFAULT_LISTEN_ADDR :: string where "BROKER_DEFAULT_LISTEN_ADDR = ''127.0.0.1''"

text \<open>The whole \<open>Config\<close>: with the address, and the TLS acceptor.\<close>

record ('ip, 'tls) ServerConfig = Config +
  sc_listen_addr :: "'ip \<times> u16"
  sc_tls_acceptor :: "'tls option"

definition Config_new :: "'ip \<times> u16 \<Rightarrow> ('ip, 'tls) ServerConfig" where
  "Config_new listen_addr = Config.extend Config_default \<lparr>sc_listen_addr = listen_addr, sc_tls_acceptor = None\<rparr>"

section \<open>TLS\<close>

text \<open>Files, PEM and \<open>rustls\<close>.\<close>

record ('file, 'cert, 'key, 'tls) pki =
  fs_open :: "string \<Rightarrow> 'file option"
  pem_certs :: "'file \<Rightarrow> 'cert list option"
  pem_private_key :: "'file \<Rightarrow> 'key option option"
  tls_with_single_cert :: "'cert list \<Rightarrow> 'key \<Rightarrow> 'tls option"

datatype tls_error = No_cert_file | No_key_file | Bad_certs | No_certs | Bad_key | No_key | Bad_pair

definition ok_or :: "'a option \<Rightarrow> 'e \<Rightarrow> ('e, 'a) res" where
  "ok_or x e = (case x of Some v \<Rightarrow> Ok v | None \<Rightarrow> Err e)"

definition load_tls_acceptor :: "('file, 'cert, 'key, 'tls) pki \<Rightarrow> string \<Rightarrow> string \<Rightarrow> (tls_error, 'tls) res" where
  "load_tls_acceptor env cert_path key_path =
    bind (ok_or (fs_open env cert_path) No_cert_file) (\<lambda>cert_file.
    bind (ok_or (fs_open env key_path) No_key_file) (\<lambda>key_file.
    bind (ok_or (pem_certs env cert_file) Bad_certs) (\<lambda>certs.
    if certs = [] then Err No_certs
    else
      bind (ok_or (pem_private_key env key_file) Bad_key) (\<lambda>key.
      bind (ok_or key No_key) (\<lambda>key.
        ok_or (tls_with_single_cert env certs key) Bad_pair)))))"

section \<open>From the arguments to the configuration\<close>

definition main_listen_addr :: "(string \<Rightarrow> 'ip option) \<Rightarrow> Args \<Rightarrow> ('e, 'ip) res" where
  "main_listen_addr parse args =
    (case ar_listen_addr args of
       Some listen_addr \<Rightarrow> (case parse listen_addr of Some addr \<Rightarrow> Ok addr | None \<Rightarrow> Panic)
     | None \<Rightarrow> (case parse BROKER_DEFAULT_LISTEN_ADDR of Some addr \<Rightarrow> Ok addr | None \<Rightarrow> Panic))"

definition main_tls :: "('file, 'cert, 'key, 'tls) pki \<Rightarrow> Args \<Rightarrow> ('e, 'tls option) res" where
  "main_tls env args =
    (case (ar_tls_cert args, ar_tls_key args) of
       (Some cert, Some key) \<Rightarrow> (case load_tls_acceptor env cert key of Ok a \<Rightarrow> Ok (Some a) | _ \<Rightarrow> Panic)
     | (Some _, None) \<Rightarrow> Panic
     | (None, Some _) \<Rightarrow> Panic
     | (None, None) \<Rightarrow> Ok None)"

definition main_config ::
    "(string \<Rightarrow> 'ip option) \<Rightarrow> ('file, 'cert, 'key, 'tls) pki \<Rightarrow> Args \<Rightarrow> ('e, ('ip, 'tls) ServerConfig) res" where
  "main_config parse env args =
    bind (main_listen_addr parse args) (\<lambda>listen_addr.
    bind (main_tls env args) (\<lambda>tls_acceptor.
      let default_port = (if tls_acceptor \<noteq> None then BROKER_DEFAULT_TLS_PORT else BROKER_DEFAULT_PORT);
          listen_port = (case ar_port args of Some port \<Rightarrow> port | None \<Rightarrow> default_port);
          config = (Config_new (listen_addr, listen_port))\<lparr>sc_tls_acceptor := tls_acceptor\<rparr>;
          config = (case ar_session_expiration args of
                      Some expiration \<Rightarrow> config\<lparr>cf_session_expiry := unat expiration\<rparr> | None \<Rightarrow> config);
          config = (case ar_channel_size args of
                      Some n \<Rightarrow> config\<lparr>cf_session_channel_size := n\<rparr> | None \<Rightarrow> config);
          config = (case ar_max_active_sessions args of
                      Some limit \<Rightarrow> config\<lparr>cf_max_active_sessions := Some limit\<rparr> | None \<Rightarrow> config)
      in Ok config))"

text \<open>
  The rest of \<open>main\<close>, up to the interrupt: what it prints (the second is the error of \<open>run\<close>), and the
  broker's task if there is one. \<open>bindable\<close> says which addresses can be bound.
\<close>

datatype 'ip notice = Started "'ip \<times> u16" bool | Start_error BrokerError

definition main ::
    "(string \<Rightarrow> 'ip option) \<Rightarrow> ('file, 'cert, 'key, 'tls) pki \<Rightarrow> (nat \<Rightarrow> bool) \<Rightarrow> ('ip \<times> u16 \<Rightarrow> bool) \<Rightarrow> Args \<Rightarrow>
      (BrokerError, 'ip notice list \<times> 'c World option) res" where
  "main parse env mk bindable args =
    bind (main_config parse env args) (\<lambda>config.
    bind (Broker_new_with_config mk (Config.truncate config)) (\<lambda>broker.
      let (result, broker) = Broker_run (bindable (sc_listen_addr config)) broker;
          started = Started (sc_listen_addr config) (sc_tls_acceptor config \<noteq> None)
      in case result of
           Ok w \<Rightarrow> Ok ([started], Some w)
         | Err e \<Rightarrow> Ok ([started, Start_error e], None)
         | Panic \<Rightarrow> Panic))"

section \<open>What the arguments do\<close>

text \<open>Four of the arguments are read and never used.\<close>

lemma unused_arguments:
  "main parse env mk bindable
    (args\<lparr>ar_max_sessions := a, ar_session_timeout := b, ar_max_session_timeout := c, ar_tui := d\<rparr>) =
   main parse env mk bindable args"
  by (simp add: main_def main_config_def main_listen_addr_def main_tls_def)

lemma half_tls_panics:
  fixes env :: "('a, 'b, 'c, 'd) pki" and parse :: "string \<Rightarrow> 'e option"
  assumes "(ar_tls_cert args = None) \<noteq> (ar_tls_key args = None)"
  shows "main parse env mk bindable args = Panic"
proof -
  have "main_tls env args = (Panic :: (BrokerError, 'd option) res)"
    using assms by (auto simp: main_tls_def split: option.splits)
  then have "main_config parse env args = (Panic :: (BrokerError, ('e, 'd) ServerConfig) res)"
    by (simp add: main_config_def main_listen_addr_def split: option.split)
  then show ?thesis by (simp add: main_def)
qed

text \<open>The configuration the arguments describe.\<close>

definition args_config :: "Args \<Rightarrow> Config" where
  "args_config args = Config_default
    \<lparr>cf_session_expiry := (case ar_session_expiration args of Some e \<Rightarrow> unat e | None \<Rightarrow> DEFAULT_SESSION_EXPIRY),
     cf_session_channel_size := (case ar_channel_size args of Some n \<Rightarrow> n | None \<Rightarrow> DEFAULT_SESSION_CHANNEL_SIZE),
     cf_max_active_sessions := (case ar_max_active_sessions args of Some m \<Rightarrow> Some m | None \<Rightarrow> None)\<rparr>"

definition args_port :: "Args \<Rightarrow> 'tls option \<Rightarrow> u16" where
  "args_port args tls = (case ar_port args of Some p \<Rightarrow> p | None \<Rightarrow> if tls = None then 1883 else 8883)"

lemma main_config_args:
  assumes "main_listen_addr parse args = (Ok ip :: ('e, 'ip) res)" and "main_tls env args = (Ok tls :: ('e, 'tls option) res)"
  shows "\<exists>config. main_config parse env args = (Ok config :: ('e, ('ip, 'tls) ServerConfig) res) \<and> Config.truncate config = args_config args \<and>
    sc_listen_addr config = (ip, args_port args tls) \<and> sc_tls_acceptor config = tls"
  using assms
  by (simp add: main_config_def Config_new_def Config.defs args_config_def args_port_def BROKER_DEFAULT_PORT_def BROKER_DEFAULT_TLS_PORT_def
      Config_default_def DEFAULT_MAX_ACTIVE_SESSIONS_def Let_def split: option.split)

text \<open>With an address and a TLS acceptor, the broker is announced whether or not the address can be bound.\<close>

lemma main_runs:
  assumes "main_listen_addr parse args = (Ok ip :: (BrokerError, 'ip) res)" and "main_tls env args = (Ok tls :: (BrokerError, 'tls option) res)"
    and "mk (cf_session_channel_size (args_config args))"
  shows "main parse env mk bindable args = Ok (
    if bindable (ip, args_port args tls) then ([Started (ip, args_port args tls) (tls \<noteq> None)], Some (World_init (args_config args)))
    else ([Started (ip, args_port args tls) (tls \<noteq> None), Start_error BE_Io], None))"
proof -
  obtain config where c: "main_config parse env args = (Ok config :: (BrokerError, ('ip, 'tls) ServerConfig) res)"
    "Config.truncate config = args_config args" "sc_listen_addr config = (ip, args_port args tls)" "sc_tls_acceptor config = tls"
    using main_config_args [OF assms(1,2)] by blast
  then show ?thesis
    using assms(3) by (simp add: main_def Broker_new_with_config_def Broker_run_def World_init_def)
qed

end
