(* ===== verification/Client_Session.thy ===== *)
theory Client_Session
  imports Packet_Codec
begin

text \<open>
  The client's session (\<open>vaux-client/src/session.rs\<close>): the state of the QoS 1 and 2 exchanges, sending
  (\<open>write_next\<close>), receiving (\<open>handle_packet\<close>), the connect handshake. Whether a packet can be written to
  the stream is a parameter (\<open>wr\<close>); the packets written are returned. A call that never returns has the
  value \<open>None\<close>. Durations are seconds. A subtraction below 0 of a \<open>usize\<close> panics, as it does with overflow
  checks.
\<close>

section \<open>State\<close>

datatype ClientErrorKind =
    CE_Codec | CE_Protocol Reason | CE_IO | CE_Connection | CE_Timeout | CE_Transport | CE_Session | CE_Channel

datatype QoSPacket = QP_PubAck | QP_PubRec | QP_PubRel | QP_PubComp

record QoSPacketState =
  qs_packet_id :: u16
  qs_packet :: "Packet option"
  qs_next :: QoSPacket

definition QoSPacketState_new_qos1 :: "Packet \<Rightarrow> QoSPacketState" where
  "QoSPacketState_new_qos1 packet = \<lparr>qs_packet_id = 0, qs_packet = Some packet, qs_next = QP_PubAck\<rparr>"

definition QoSPacketState_new_qos2 :: "Packet \<Rightarrow> QoSPacketState" where
  "QoSPacketState_new_qos2 packet = \<lparr>qs_packet_id = 0, qs_packet = Some packet, qs_next = QP_PubRec\<rparr>"

definition QoSPacketState_next :: "QoSPacketState \<Rightarrow> QoSPacketState option" where
  "QoSPacketState_next s =
    (case qs_next s of
       QP_PubAck \<Rightarrow> None
     | QP_PubRec \<Rightarrow> Some \<lparr>qs_packet_id = qs_packet_id s, qs_packet = None, qs_next = QP_PubRel\<rparr>
     | QP_PubRel \<Rightarrow> Some \<lparr>qs_packet_id = qs_packet_id s, qs_packet = None, qs_next = QP_PubComp\<rparr>
     | QP_PubComp \<Rightarrow> None)"

type_synonym pending_qos = "(u16 \<times> QoSPacketState) list"

record SessionState =
  ss_client_id :: "string option"
  ss_keep_alive :: nat
  ss_session_expiry :: nat
  ss_qos_send_remaining :: nat
  ss_pending_qos_send :: pending_qos
  ss_qos_recv_remaining :: nat
  ss_pending_qos_recv :: pending_qos
  ss_max_packet_size :: nat
  ss_auto_packet_id :: bool
  ss_last_packet_id :: u16
  ss_auto_ack :: bool
  ss_pingresp :: bool
  ss_keep_alive_enabled :: bool

definition DEFAULT_MAX_PACKET_SIZE :: nat where "DEFAULT_MAX_PACKET_SIZE = 64 * 1024"
definition DEFAULT_CLIENT_ID_PREFIX :: string where "DEFAULT_CLIENT_ID_PREFIX = ''vaux-client''"
definition DEFAULT_CLIENT_KEEP_ALIVE :: nat where "DEFAULT_CLIENT_KEEP_ALIVE = 60"
definition DEFAULT_CLIENT_SESSION_EXPIRY :: nat where "DEFAULT_CLIENT_SESSION_EXPIRY = 600"

definition SessionState_new :: "string \<Rightarrow> SessionState" where
  "SessionState_new uuid =
    \<lparr>ss_client_id = Some (DEFAULT_CLIENT_ID_PREFIX @ ''-'' @ uuid), ss_keep_alive = DEFAULT_CLIENT_KEEP_ALIVE,
     ss_session_expiry = DEFAULT_CLIENT_SESSION_EXPIRY, ss_qos_send_remaining = 65535, ss_pending_qos_send = [],
     ss_qos_recv_remaining = 65535, ss_pending_qos_recv = [], ss_max_packet_size = DEFAULT_MAX_PACKET_SIZE,
     ss_auto_packet_id = True, ss_last_packet_id = 0, ss_auto_ack = True, ss_pingresp = False,
     ss_keep_alive_enabled = True\<rparr>"

text \<open>\<open>cs_stream_open\<close> is what is kept of \<open>packet_stream\<close>: whether it was shut down.\<close>

record ClientSession =
  cs_connected :: bool
  cs_stream_open :: bool
  cs_last_active :: nat
  cs_state :: SessionState
  cs_usable :: bool

type_synonym 'a client_result = "(ClientErrorKind, 'a) res \<times> ClientSession \<times> Packet list"

definition upd_state :: "(SessionState \<Rightarrow> SessionState) \<Rightarrow> ClientSession \<Rightarrow> ClientSession" where
  "upd_state f cs = cs\<lparr>cs_state := f (cs_state cs)\<rparr>"

definition end_session :: "string \<Rightarrow> ClientSession \<Rightarrow> SessionState \<times> ClientSession" where
  "end_session uuid cs = (cs_state cs, cs\<lparr>cs_usable := False, cs_state := SessionState_new uuid\<rparr>)"

definition shutdown :: "ClientSession \<Rightarrow> ClientSession" where
  "shutdown cs = cs\<lparr>cs_stream_open := False\<rparr>"

section \<open>Sending\<close>

text \<open>\<open>send_packet(..).await?\<close> and the rest of the method.\<close>

definition send_packet :: "(Packet \<Rightarrow> bool) \<Rightarrow> Packet \<Rightarrow> ClientSession \<Rightarrow> unit client_result" where
  "send_packet wr packet cs = (if wr packet then (Ok (), cs, [packet]) else (Err CE_Transport, cs, []))"

definition pending_insert :: "u16 \<Rightarrow> QoSPacketState \<Rightarrow> pending_qos \<Rightarrow> pending_qos" where
  "pending_insert pid s m = AList.update pid s m"

definition pending_remove :: "u16 \<Rightarrow> pending_qos \<Rightarrow> pending_qos" where
  "pending_remove pid m = AList.delete pid m"

definition set_send :: "pending_qos \<Rightarrow> ClientSession \<Rightarrow> ClientSession" where
  "set_send m cs = upd_state (\<lambda>s. s\<lparr>ss_pending_qos_send := m\<rparr>) cs"

definition set_recv :: "pending_qos \<Rightarrow> ClientSession \<Rightarrow> ClientSession" where
  "set_recv m cs = upd_state (\<lambda>s. s\<lparr>ss_pending_qos_recv := m\<rparr>) cs"

text \<open>The loop that looks for an identifier not in use.\<close>

partial_function (option) free_packet_id :: "pending_qos \<Rightarrow> u16 \<Rightarrow> u16 option" where
  "free_packet_id m pid = (if map_of m pid \<noteq> None then free_packet_id m (pid + 1) else Some pid)"

text \<open>
  The identifier of an outgoing QoS 1 or 2 message: the checks before it is recorded. \<open>None\<close> when the
  search for an identifier does not end. \<open>set_packet_id\<close> fails for QoS 0 only, so its error is not reached.
\<close>

definition choose_packet_id :: "Publish \<Rightarrow> SessionState \<Rightarrow> (ClientErrorKind, Publish \<times> SessionState) res option" where
  "choose_packet_id p s =
    (case pu_packet_id p of
       Some packet_id \<Rightarrow>
         if map_of (ss_pending_qos_send s) packet_id \<noteq> None then Some (Err (CE_Protocol R_MalformedPacket))
         else Some (Ok (p, s))
     | None \<Rightarrow>
         if ss_auto_packet_id s then
           (case free_packet_id (ss_pending_qos_send s) (ss_last_packet_id s + 1) of
              None \<Rightarrow> None
            | Some pid \<Rightarrow>
                Some (case Publish_set_packet_id p (Some pid) of
                    Ok p \<Rightarrow> Ok (p, s\<lparr>ss_last_packet_id := pid\<rparr>)
                  | Err _ \<Rightarrow> Err (CE_Protocol R_MalformedPacket)
                  | Panic \<Rightarrow> Panic))
         else Some (Err (CE_Protocol R_MalformedPacket)))"

definition track_publish :: "QoSLevel \<Rightarrow> Publish \<Rightarrow> SessionState \<Rightarrow> (ClientErrorKind, SessionState) res" where
  "track_publish qos p s =
    (case (qos, pu_packet_id p) of
       (AtMostOnce, _) \<Rightarrow> Ok s
     | (_, None) \<Rightarrow> Panic
     | (AtLeastOnce, Some pid) \<Rightarrow>
         Ok (s\<lparr>ss_pending_qos_send := pending_insert pid (QoSPacketState_new_qos1 (Pkt_Publish p)) (ss_pending_qos_send s)\<rparr>)
     | (ExactlyOnce, Some pid) \<Rightarrow>
         Ok (s\<lparr>ss_pending_qos_send := pending_insert pid (QoSPacketState_new_qos2 (Pkt_Publish p)) (ss_pending_qos_send s)\<rparr>))"

definition write_publish :: "(Packet \<Rightarrow> bool) \<Rightarrow> Publish \<Rightarrow> ClientSession \<Rightarrow> unit client_result option" where
  "write_publish wr p cs =
    (case Publish_qos p of
       Err e \<Rightarrow> Some (Err e, cs, [])
     | Panic \<Rightarrow> Some (Panic, cs, [])
     | Ok qos \<Rightarrow>
         if qos = AtLeastOnce \<or> qos = ExactlyOnce then
           if 65535 \<le> length (ss_pending_qos_send (cs_state cs)) \<or> ss_qos_send_remaining (cs_state cs) = 0
           then Some (Err (CE_Protocol R_ProtocolErr), cs, [])
           else
             (case choose_packet_id p (cs_state cs) of
                None \<Rightarrow> None
              | Some (Err e) \<Rightarrow> Some (Err e, cs, [])
              | Some Panic \<Rightarrow> Some (Panic, cs, [])
              | Some (Ok (p, s)) \<Rightarrow>
                  Some (case track_publish qos p s of
                      Ok s \<Rightarrow> send_packet wr (Pkt_Publish p) (cs\<lparr>cs_state := s\<rparr>)
                    | Err e \<Rightarrow> (Err e, cs\<lparr>cs_state := s\<rparr>, [])
                    | Panic \<Rightarrow> (Panic, cs\<lparr>cs_state := s\<rparr>, [])))
         else Some (send_packet wr (Pkt_Publish p) cs))"

definition write_next :: "(Packet \<Rightarrow> bool) \<Rightarrow> Packet \<Rightarrow> ClientSession \<Rightarrow> unit client_result option" where
  "write_next wr packet cs =
    (case packet of
       Pkt_Publish p \<Rightarrow> write_publish wr p cs
     | Pkt_Disconnect d \<Rightarrow>
         Some (case send_packet wr (Pkt_Disconnect d) cs of
             (Ok _, cs, out) \<Rightarrow> (Ok (), (shutdown cs)\<lparr>cs_connected := False\<rparr>, out)
           | (r, cs, out) \<Rightarrow> (r, cs, out))
     | _ \<Rightarrow> Some (send_packet wr packet cs))"

definition handle_keep_alive :: "(Packet \<Rightarrow> bool) \<Rightarrow> nat \<Rightarrow> ClientSession \<Rightarrow> unit client_result" where
  "handle_keep_alive wr now cs =
    (case send_packet wr (Pkt_PingRequest PingReq_default) cs of
       (Ok _, cs, out) \<Rightarrow> (Ok (), cs\<lparr>cs_last_active := now\<rparr>, out)
     | (r, cs, out) \<Rightarrow> (r, cs, out))"

section \<open>Receiving\<close>

definition unexpected :: "ClientSession \<Rightarrow> 'a client_result" where
  "unexpected cs = (Err (CE_Protocol R_ProtocolErr), cs, [])"

text \<open>\<open>qos_recv_remaining -= 1\<close> and the rest of the method.\<close>

definition take_recv_slot :: "ClientSession \<Rightarrow> (ClientSession \<Rightarrow> 'a client_result) \<Rightarrow> 'a client_result" where
  "take_recv_slot cs k =
    (if ss_qos_recv_remaining (cs_state cs) = 0 then (Panic, cs, [])
     else k (upd_state (\<lambda>s. s\<lparr>ss_qos_recv_remaining := ss_qos_recv_remaining s - 1\<rparr>) cs))"

definition free_recv_slot :: "ClientSession \<Rightarrow> ClientSession" where
  "free_recv_slot cs = upd_state (\<lambda>s. s\<lparr>ss_qos_recv_remaining := ss_qos_recv_remaining s + 1\<rparr>) cs"

definition free_send_slot :: "ClientSession \<Rightarrow> ClientSession" where
  "free_send_slot cs = upd_state (\<lambda>s. s\<lparr>ss_qos_send_remaining := ss_qos_send_remaining s + 1\<rparr>) cs"

definition recv_qos1 :: "(Packet \<Rightarrow> bool) \<Rightarrow> Publish \<Rightarrow> u16 \<Rightarrow> ClientSession \<Rightarrow> unit client_result" where
  "recv_qos1 wr publish pid cs =
    (let cs = set_recv (pending_insert pid (QoSPacketState_new_qos1 (Pkt_Publish publish)) (ss_pending_qos_recv (cs_state cs))) cs in
     take_recv_slot cs (\<lambda>cs.
       if ss_auto_ack (cs_state cs) then
         (case send_packet wr (Pkt_PubAck (PubResp_new_puback_with_packet_id pid)) cs of
            (Ok _, cs, out) \<Rightarrow>
              (Ok (), free_recv_slot (set_recv (pending_remove pid (ss_pending_qos_recv (cs_state cs))) cs), out)
          | (Err _, cs, out) \<Rightarrow> (Err CE_Transport, cs, out)
          | (Panic, cs, out) \<Rightarrow> (Panic, cs, out))
       else (Ok (), cs, [])))"

definition recv_qos2 :: "(Packet \<Rightarrow> bool) \<Rightarrow> Publish \<Rightarrow> u16 \<Rightarrow> ClientSession \<Rightarrow> unit client_result" where
  "recv_qos2 wr publish pid cs =
    (let cs = set_recv (pending_insert pid (QoSPacketState_new_qos2 (Pkt_Publish publish)) (ss_pending_qos_recv (cs_state cs))) cs in
     take_recv_slot cs (\<lambda>cs.
       if ss_auto_ack (cs_state cs) then
         (case send_packet wr (Pkt_PubRec (PubResp_new_pubrec_with_packet_id pid)) cs of
            (Ok _, cs, out) \<Rightarrow>
              (let m = ss_pending_qos_recv (cs_state cs); cs' = set_recv (pending_remove pid m) cs in
               case map_of m pid of
                 None \<Rightarrow> (Err CE_Session, cs', out)
               | Some p \<Rightarrow>
                   (case QoSPacketState_next p of
                      None \<Rightarrow> (Panic, cs', out)
                    | Some nxt \<Rightarrow>
                        (Ok (), set_recv (pending_insert pid nxt (ss_pending_qos_recv (cs_state cs'))) cs', out)))
          | (Err _, cs, out) \<Rightarrow> (Err CE_Transport, cs, out)
          | (Panic, cs, out) \<Rightarrow> (Panic, cs, out))
       else (Ok (), cs, [])))"

text \<open>
  \<open>publish.packet_id().unwrap()\<close> comes before the tests for a missing identifier, so these are never
  reached.
\<close>

definition handle_recv_publish :: "(Packet \<Rightarrow> bool) \<Rightarrow> Publish \<Rightarrow> ClientSession \<Rightarrow> unit client_result" where
  "handle_recv_publish wr publish cs =
    (case Publish_qos publish of
       Err e \<Rightarrow> (Err e, cs, [])
     | Panic \<Rightarrow> (Panic, cs, [])
     | Ok AtMostOnce \<Rightarrow> (Ok (), cs, [])
     | Ok AtLeastOnce \<Rightarrow>
         if ss_qos_recv_remaining (cs_state cs) = 0 then unexpected cs
         else (case pu_packet_id publish of None \<Rightarrow> (Panic, cs, []) | Some pid \<Rightarrow> recv_qos1 wr publish pid cs)
     | Ok ExactlyOnce \<Rightarrow>
         (case pu_packet_id publish of None \<Rightarrow> (Panic, cs, []) | Some pid \<Rightarrow> recv_qos2 wr publish pid cs))"

definition recv_puback :: "u16 \<Rightarrow> ClientSession \<Rightarrow> unit client_result" where
  "recv_puback pid cs =
    (let m = ss_pending_qos_send (cs_state cs) in
     case map_of m pid of
       Some p \<Rightarrow>
         if qs_next p = QP_PubAck then (Ok (), free_send_slot (set_send (pending_remove pid m) cs), [])
         else unexpected cs
     | None \<Rightarrow> unexpected cs)"

text \<open>After the PUBREL was sent: the entry that was inserted moves on.\<close>

definition pubrel_sent :: "u16 \<Rightarrow> ClientSession \<Rightarrow> Packet list \<Rightarrow> unit client_result" where
  "pubrel_sent pid cs out =
    (let m = ss_pending_qos_send (cs_state cs); cs' = set_send (pending_remove pid m) cs in
     case map_of m pid of
       None \<Rightarrow> (Ok (), cs', out)
     | Some p \<Rightarrow>
         if qs_next p = QP_PubRel then
           (case QoSPacketState_next p of
              Some nxt \<Rightarrow> (Ok (), set_send (pending_insert pid nxt (pending_remove pid m)) cs', out)
            | None \<Rightarrow> (Err CE_Session, cs', out))
         else (Err (CE_Protocol R_ProtocolErr), set_send (pending_insert pid p (pending_remove pid m)) cs', out))"

definition recv_pubrec :: "(Packet \<Rightarrow> bool) \<Rightarrow> u16 \<Rightarrow> ClientSession \<Rightarrow> unit client_result" where
  "recv_pubrec wr pid cs =
    (let m = ss_pending_qos_send (cs_state cs) in
     case map_of m pid of
       None \<Rightarrow> unexpected cs
     | Some p \<Rightarrow>
         (let m = pending_remove pid m; cs = set_send m cs in
          if qs_next p = QP_PubRec then
            if ss_auto_ack (cs_state cs) then
              (case QoSPacketState_next p of
                 None \<Rightarrow> (Err CE_Session, cs, [])
               | Some pubrec_state \<Rightarrow>
                   (case send_packet wr (Pkt_PubRel (PubResp_new_pubrel_with_packet_id pid))
                           (set_send (pending_insert pid pubrec_state m) cs) of
                      (Ok _, cs, out) \<Rightarrow> pubrel_sent pid cs out
                    | (Err _, cs, out) \<Rightarrow> (Err CE_Transport, cs, out)
                    | (Panic, cs, out) \<Rightarrow> (Panic, cs, out)))
            else (Ok (), cs, [])
          else unexpected (set_send (pending_insert pid p m) cs)))"

definition recv_pubrel :: "(Packet \<Rightarrow> bool) \<Rightarrow> u16 \<Rightarrow> ClientSession \<Rightarrow> unit client_result" where
  "recv_pubrel wr pid cs =
    (let m = ss_pending_qos_recv (cs_state cs) in
     case map_of m pid of
       None \<Rightarrow> unexpected cs
     | Some p \<Rightarrow>
         (let m = pending_remove pid m; cs = set_recv m cs in
          if qs_next p = QP_PubRel then
            if ss_auto_ack (cs_state cs) then
              (case send_packet wr (Pkt_PubComp (PubResp_new_pubcomp_with_packet_id pid)) cs of
                 (Ok _, cs, out) \<Rightarrow> (Ok (), free_recv_slot (set_recv (pending_remove pid m) cs), out)
               | (Err _, cs, out) \<Rightarrow> (Err CE_Transport, set_recv (pending_insert pid p m) cs, out)
               | (Panic, cs, out) \<Rightarrow> (Panic, cs, out))
            else (Ok (), cs, [])
          else unexpected (set_recv (pending_insert pid p m) cs)))"

definition recv_pubcomp :: "u16 \<Rightarrow> ClientSession \<Rightarrow> unit client_result" where
  "recv_pubcomp pid cs =
    (let m = ss_pending_qos_send (cs_state cs) in
     case map_of m pid of
       None \<Rightarrow> unexpected cs
     | Some p \<Rightarrow>
         (let m = pending_remove pid m; cs = set_send m cs in
          if qs_next p = QP_PubComp then (Ok (), free_send_slot cs, [])
          else unexpected (set_send (pending_insert pid p m) cs)))"

text \<open>The packet is passed on to the consumer unless the answer says otherwise.\<close>

definition pass_on :: "bool \<Rightarrow> Packet \<Rightarrow> unit client_result \<Rightarrow> Packet option client_result" where
  "pass_on to_consumer packet h =
    (case h of
       (Ok _, cs, out) \<Rightarrow> (Ok (if to_consumer then Some packet else None), cs, out)
     | (Err e, cs, out) \<Rightarrow> (Err e, cs, out)
     | (Panic, cs, out) \<Rightarrow> (Panic, cs, out))"

definition client_handle_packet :: "(Packet \<Rightarrow> bool) \<Rightarrow> Packet \<Rightarrow> ClientSession \<Rightarrow> Packet option client_result" where
  "client_handle_packet wr packet cs =
    (case packet of
       Pkt_PingResponse _ \<Rightarrow> pass_on (ss_pingresp (cs_state cs)) packet (Ok (), cs, [])
     | Pkt_Disconnect d \<Rightarrow> (Err (CE_Protocol (dc_reason d)), shutdown cs, [])
     | Pkt_Publish publish \<Rightarrow> pass_on True packet (handle_recv_publish wr publish cs)
     | Pkt_PubAck p \<Rightarrow> pass_on True packet (recv_puback (pr_packet_id p) cs)
     | Pkt_PubRec p \<Rightarrow> pass_on True packet (recv_pubrec wr (pr_packet_id p) cs)
     | Pkt_PubRel p \<Rightarrow> pass_on True packet (recv_pubrel wr (pr_packet_id p) cs)
     | Pkt_PubComp p \<Rightarrow> pass_on True packet (recv_pubcomp (pr_packet_id p) cs)
     | _ \<Rightarrow> pass_on True packet (Ok (), cs, []))"

section \<open>Connecting\<close>

definition connect_request ::
    "string \<Rightarrow> (string \<times> string) option \<Rightarrow> bool \<Rightarrow> WillMessage option \<Rightarrow> SessionState \<Rightarrow> Connect" where
  "connect_request uuid credentials clean_start will s =
    (let c = (Connect_new uuid)\<lparr>co_keep_alive := of_nat (ss_keep_alive s)\<rparr>;
         c = Connect_set_clean_start c clean_start;
         c = (case ss_client_id s of Some cid \<Rightarrow> c\<lparr>co_client_id := cid\<rparr> | None \<Rightarrow> c);
         c = Connect_set_session_expiry_interval c (of_nat (ss_session_expiry s));
         c = (case credentials of
                Some (username, password) \<Rightarrow> Connect_set_password (Connect_set_username c (Some username)) (Some (as_bytes password))
              | None \<Rightarrow> c)
     in case will of Some w \<Rightarrow> Connect_set_will_message c w | None \<Rightarrow> c)"

text \<open>
  \<open>handle_connack\<close> holds the lock of the client identifier to its end; where it would lock it again to
  store an assigned identifier, it waits for itself and never returns.
\<close>

definition handle_connack :: "ConnAck \<Rightarrow> ClientSession \<Rightarrow> ConnAck client_result option" where
  "handle_connack connack cs =
    (if ca_reason connack \<noteq> R_Success then Some (Err (CE_Protocol (ca_reason connack)), cs\<lparr>cs_connected := False\<rparr>, [])
     else
       (let cs = cs\<lparr>cs_connected := True\<rparr> in
        if ss_client_id (cs_state cs) = None then
          (if ca_assigned_client_id connack \<noteq> None then None
           else Some (Err (CE_Protocol R_InvalidClientId), cs, []))
        else
          (let cs = (case ca_server_keep_alive connack of
                       Some k \<Rightarrow> upd_state (\<lambda>s. s\<lparr>ss_keep_alive := unat k\<rparr>) cs | None \<Rightarrow> cs);
               cs = (case ca_session_expiry_interval connack of
                       Some e \<Rightarrow> upd_state (\<lambda>s. s\<lparr>ss_session_expiry := unat e\<rparr>) cs | None \<Rightarrow> cs);
               cs = (case ca_receive_maximum connack of
                       Some n \<Rightarrow> upd_state (\<lambda>s. s\<lparr>ss_qos_send_remaining := unat n\<rparr>) cs | None \<Rightarrow> cs)
           in Some (Ok connack, cs, []))))"

text \<open>\<open>read_next\<close>: every error of the stream becomes a transport error.\<close>

definition read_next :: "(unit, Packet option) res \<Rightarrow> (ClientErrorKind, Packet option) res" where
  "read_next r = (case r of Ok x \<Rightarrow> Ok x | Err _ \<Rightarrow> Err CE_Transport | Panic \<Rightarrow> Panic)"

text \<open>
  The loop that waits for the CONNACK: \<open>reads\<close> are the outcomes of the reads that start before the
  waiting time is over.
\<close>

fun await_connack :: "(unit, Packet option) res list \<Rightarrow> ClientSession \<Rightarrow> ConnAck client_result option" where
  "await_connack [] cs = Some (Err CE_Timeout, cs, [])"
| "await_connack (r # reads) cs =
    (case read_next r of
       Ok (Some (Pkt_ConnAck connack)) \<Rightarrow> handle_connack connack cs
     | Ok (Some (Pkt_Disconnect d)) \<Rightarrow> Some (Err (CE_Protocol (dc_reason d)), cs, [])
     | Ok (Some _) \<Rightarrow> Some (Err (CE_Protocol R_ProtocolErr), cs, [])
     | Ok None \<Rightarrow> Some (Err (CE_Protocol R_ProtocolErr), cs, [])
     | Err CE_Timeout \<Rightarrow> await_connack reads cs
     | Err _ \<Rightarrow> Some (Err CE_Transport, cs, [])
     | Panic \<Rightarrow> Some (Panic, cs, []))"

definition client_connect ::
    "(Packet \<Rightarrow> bool) \<Rightarrow> string \<Rightarrow> (unit, Packet option) res list \<Rightarrow> (string \<times> string) option \<Rightarrow> bool \<Rightarrow> WillMessage option \<Rightarrow>
      ClientSession \<Rightarrow> ConnAck client_result option" where
  "client_connect wr uuid reads credentials clean_start will cs =
    (if \<not> cs_usable cs then Some (Err CE_Session, cs, [])
     else
       (let connect = connect_request uuid credentials clean_start will (cs_state cs) in
        case Connect_encode connect of
          Ok _ \<Rightarrow>
            if wr (Pkt_Connect connect)
            then map_option (\<lambda>(r, cs, out). (r, cs, Pkt_Connect connect # out)) (await_connack reads cs)
            else Some (Err CE_Transport, cs, [])
        | _ \<Rightarrow> Some (Panic, cs, [])))"

end
