(* ===== verification/Client_Exchange.thy ===== *)
theory Client_Exchange
  imports Client_Session
begin

text \<open>
  What the client's session promises: identifiers of outgoing messages are found and are not in use, and
  the QoS 1 and 2 exchanges follow the protocol, as a refinement of a table of what is awaited next for
  every identifier.
\<close>

section \<open>Identifiers\<close>

lemma free_id_exists:
  assumes "length m < 65536"
  shows "\<exists>i < 65536. map_of m (start + of_nat i :: u16) = None"
proof (rule ccontr)
  assume "\<not> ?thesis"
  then have used: "\<And>i. i < 65536 \<Longrightarrow> start + of_nat i \<in> fst ` set m"
    by (metis map_of_eq_None_iff)
  have "x \<in> fst ` set m" for x :: u16
    using used [of "unat (x - start)"] unat_u16_less [of "x - start"] by (simp add: add.commute)
  then have "(UNIV :: u16 set) \<subseteq> fst ` set m" by blast
  then have "card (UNIV :: u16 set) \<le> card (fst ` set m)" by (intro card_mono) simp_all
  also have "\<dots> \<le> length m" by (metis card_image_le card_length finite_set le_trans)
  finally show False using assms by (simp add: card_word)
qed

text \<open>The search ends, on an identifier that is not in use.\<close>

lemma free_packet_id_returns:
  assumes "length m < 65536"
  shows "\<exists>pid. free_packet_id m start = Some pid \<and> map_of m pid = None"
proof -
  from free_id_exists [OF assms] obtain i where "map_of m (start + of_nat i) = None" by blast
  then show ?thesis
  proof (induction i arbitrary: start)
    case 0
    then show ?case by (simp add: free_packet_id.simps [of m start])
  next
    case (Suc i)
    then show ?case
      using Suc.IH [of "start + 1"] by (cases "map_of m start") (simp_all add: free_packet_id.simps [of m start] algebra_simps)
  qed
qed

section \<open>What is awaited\<close>

text \<open>The packet awaited next for every identifier.\<close>

definition awaits :: "pending_qos \<Rightarrow> u16 \<Rightarrow> QoSPacket option" where
  "awaits m pid = map_option qs_next (map_of m pid)"

lemma awaits_update [simp]:
  "awaits (pending_insert pid s m) = (awaits m)(pid \<mapsto> qs_next s)" "awaits (pending_remove pid m) = (awaits m)(pid := None)"
  by (auto simp: awaits_def pending_insert_def pending_remove_def AList.update_conv' delete_conv')

lemma awaits_cases: "awaits m pid = (case map_of m pid of Some p \<Rightarrow> Some (qs_next p) | None \<Rightarrow> None)"
  by (simp add: awaits_def split: option.split)

text \<open>
  A table of pending exchanges inside the session, read and written as a whole; \<open>other\<close> is what writing
  it must leave alone.
\<close>

locale pending_table =
  fixes table :: "ClientSession \<Rightarrow> pending_qos" and put :: "pending_qos \<Rightarrow> ClientSession \<Rightarrow> ClientSession"
    and other :: "ClientSession \<Rightarrow> 'a"
  assumes table_put: "table (put m cs) = m" and put_put: "put m (put m' cs) = put m cs"
    and other_put: "other (put m cs) = other cs"
begin

lemma remove_insert:
  "put (pending_insert pid s (table (put (pending_remove pid (table cs)) cs))) (put (pending_remove pid (table cs)) cs) =
    put (pending_insert pid s (pending_remove pid (table cs))) cs"
  by (simp add: table_put put_put)

lemma awaits_put_insert: "awaits (table (put (pending_insert pid s (table cs)) cs)) = (awaits (table cs))(pid \<mapsto> qs_next s)"
  by (simp add: table_put)

lemma awaits_put_remove: "awaits (table (put (pending_remove pid (table cs)) cs)) = (awaits (table cs))(pid := None)"
  by (simp add: table_put)

lemma other_twice: "other (put m (put m' cs)) = other cs"
  by (simp add: put_put other_put)

end

definition send_table :: "ClientSession \<Rightarrow> pending_qos" where
  "send_table cs = ss_pending_qos_send (cs_state cs)"

definition recv_table :: "ClientSession \<Rightarrow> pending_qos" where
  "recv_table cs = ss_pending_qos_recv (cs_state cs)"

interpretation tx: pending_table send_table set_send "\<lambda>cs. (recv_table cs, ss_qos_recv_remaining (cs_state cs), ss_auto_ack (cs_state cs))"
  by unfold_locales (simp_all add: send_table_def recv_table_def set_send_def upd_state_def)

interpretation rx: pending_table recv_table set_recv "\<lambda>cs. (send_table cs, ss_qos_recv_remaining (cs_state cs), ss_auto_ack (cs_state cs))"
  by unfold_locales (simp_all add: send_table_def recv_table_def set_recv_def upd_state_def)

lemmas table_laws = tx.table_put tx.put_put tx.other_put [simplified] rx.table_put rx.put_put rx.other_put [simplified]

lemma slot_frame [simp]:
  "send_table (free_send_slot cs) = send_table cs" "recv_table (free_send_slot cs) = recv_table cs"
  "send_table (free_recv_slot cs) = send_table cs" "recv_table (free_recv_slot cs) = recv_table cs"
  "ss_qos_recv_remaining (cs_state (free_recv_slot cs)) = Suc (ss_qos_recv_remaining (cs_state cs))"
  by (simp_all add: free_send_slot_def free_recv_slot_def upd_state_def send_table_def recv_table_def)

section \<open>Sending a message\<close>

definition session_of :: "'a client_result \<Rightarrow> ClientSession" where
  "session_of h = fst (snd h)"

text \<open>\<open>pid\<close> is an identifier for the message: its own, or a new one.\<close>

definition with_id :: "Publish \<Rightarrow> u16 \<Rightarrow> Publish" where
  "with_id p pid = p\<lparr>pu_packet_id := Some pid\<rparr>"

primrec first_awaited :: "QoSLevel \<Rightarrow> QoSPacket option" where
  "first_awaited AtMostOnce = None"
| "first_awaited AtLeastOnce = Some QP_PubAck"
| "first_awaited ExactlyOnce = Some QP_PubRec"

lemma write_publish_accepted:
  assumes q: "has_qos p q" "q \<noteq> AtMostOnce" and room: "length (send_table cs) < 65535" "0 < ss_qos_send_remaining (cs_state cs)"
    and id: "case pu_packet_id p of Some pid \<Rightarrow> map_of (send_table cs) pid = None | None \<Rightarrow> ss_auto_packet_id (cs_state cs)"
  shows "\<exists>pid cs'. write_publish wr p cs = Some (send_packet wr (Pkt_Publish (with_id p pid)) cs') \<and>
    awaits (send_table cs) pid = None \<and> (\<forall>k. pu_packet_id p = Some k \<longrightarrow> pid = k) \<and>
    awaits (send_table cs') = (awaits (send_table cs))(pid := first_awaited q) \<and> recv_table cs' = recv_table cs \<and>
    ss_qos_send_remaining (cs_state cs') = ss_qos_send_remaining (cs_state cs)"
proof -
  let ?s = "cs_state cs"
  obtain pid s where c: "choose_packet_id p ?s = Some (Ok (with_id p pid, s))" and free: "map_of (send_table cs) pid = None"
    and own: "\<forall>k. pu_packet_id p = Some k \<longrightarrow> pid = k" and s: "s = ?s \<or> s = ?s\<lparr>ss_last_packet_id := pid\<rparr>"
  proof (cases "pu_packet_id p")
    case (Some k)
    then have "with_id p k = p" by (simp add: with_id_def)
    then show ?thesis
      by (intro that [of k ?s]) (use Some id in \<open>simp_all add: choose_packet_id_def send_table_def\<close>)
  next
    case None
    obtain k where k: "free_packet_id (send_table cs) (ss_last_packet_id ?s + 1) = Some k" "map_of (send_table cs) k = None"
      using free_packet_id_returns [of "send_table cs" "ss_last_packet_id ?s + 1"] room(1) by auto
    then show ?thesis
      by (intro that [of k "?s\<lparr>ss_last_packet_id := k\<rparr>"])
        (use None id in \<open>simp_all add: choose_packet_id_def send_table_def with_id_def set_packet_id_qos [OF q]\<close>)
  qed
  obtain s' where t: "track_publish q (with_id p pid) s = Ok s'" "awaits (ss_pending_qos_send s') = (awaits (send_table cs))(pid := first_awaited q)"
    "ss_pending_qos_recv s' = ss_pending_qos_recv ?s" "ss_qos_send_remaining s' = ss_qos_send_remaining ?s"
    using s q(2)
    by (cases q) (auto simp: track_publish_def with_id_def send_table_def QoSPacketState_new_qos1_def QoSPacketState_new_qos2_def)
  have "write_publish wr p cs = Some (send_packet wr (Pkt_Publish (with_id p pid)) (cs\<lparr>cs_state := s'\<rparr>))"
    using q room c t(1) by (cases q) (simp_all add: write_publish_def has_qos_any [OF q(1)] send_table_def)
  with free own t show ?thesis
    by (intro exI [of _ pid] exI [of _ "cs\<lparr>cs_state := s'\<rparr>"]) (simp add: awaits_def send_table_def recv_table_def)
qed

section \<open>Acknowledgements of what was sent\<close>

text \<open>
  The sender's protocol: PUBACK ends a QoS 1 exchange; PUBREC moves a QoS 2 exchange on to the PUBCOMP
  that ends it; anything else is an error.
\<close>

fun tx_step :: "QoSPacket \<Rightarrow> u16 \<Rightarrow> (u16 \<Rightarrow> QoSPacket option) \<Rightarrow> (u16 \<Rightarrow> QoSPacket option) option" where
  "tx_step QP_PubAck pid T = (if T pid = Some QP_PubAck then Some (T(pid := None)) else None)"
| "tx_step QP_PubRec pid T = (if T pid = Some QP_PubRec then Some (T(pid \<mapsto> QP_PubComp)) else None)"
| "tx_step QP_PubComp pid T = (if T pid = Some QP_PubComp then Some (T(pid := None)) else None)"
| "tx_step QP_PubRel pid T = None"

fun control_of :: "Packet \<Rightarrow> (QoSPacket \<times> u16) option" where
  "control_of (Pkt_PubAck p) = Some (QP_PubAck, pr_packet_id p)"
| "control_of (Pkt_PubRec p) = Some (QP_PubRec, pr_packet_id p)"
| "control_of (Pkt_PubRel p) = Some (QP_PubRel, pr_packet_id p)"
| "control_of (Pkt_PubComp p) = Some (QP_PubComp, pr_packet_id p)"
| "control_of _ = None"

text \<open>A result against a step of the protocol: what is answered, what is awaited afterwards.\<close>

definition follows ::
    "(u16 \<Rightarrow> QoSPacket option) option \<Rightarrow> Packet list \<Rightarrow> ('a \<Rightarrow> bool) \<Rightarrow> (ClientSession \<Rightarrow> pending_qos) \<Rightarrow> ClientSession \<Rightarrow> 'a client_result \<Rightarrow> bool" where
  "follows step answer good table cs h \<longleftrightarrow>
    (case step of
       Some T \<Rightarrow> (\<exists>x cs'. h = (Ok x, cs', answer) \<and> good x \<and> awaits (table cs') = T)
     | None \<Rightarrow> (\<exists>cs'. h = (Err (CE_Protocol R_ProtocolErr), cs', []) \<and> awaits (table cs') = awaits (table cs)))"

lemma awaits_reinsert: "map_of m pid = Some p \<Longrightarrow> (awaits m)(pid \<mapsto> qs_next p) = awaits m"
  by (auto simp: awaits_def)

lemma recv_puback_follows: "follows (tx_step QP_PubAck pid (awaits (send_table cs))) [] (\<lambda>_. True) send_table cs (recv_puback pid cs)"
  by (cases "map_of (send_table cs) pid")
    (auto simp: follows_def recv_puback_def Let_def unexpected_def table_laws awaits_cases [of _ pid] simp flip: send_table_def)

lemma recv_pubcomp_follows: "follows (tx_step QP_PubComp pid (awaits (send_table cs))) [] (\<lambda>_. True) send_table cs (recv_pubcomp pid cs)"
  by (cases "map_of (send_table cs) pid")
    (auto simp: follows_def recv_pubcomp_def Let_def unexpected_def table_laws awaits_cases [of _ pid] awaits_reinsert
      simp flip: send_table_def)

lemma recv_pubrec_follows:
  assumes "ss_auto_ack (cs_state cs)" and "wr (Pkt_PubRel (PubResp_new_pubrel_with_packet_id pid))"
  shows "follows (tx_step QP_PubRec pid (awaits (send_table cs))) [Pkt_PubRel (PubResp_new_pubrel_with_packet_id pid)] (\<lambda>_. True)
    send_table cs (recv_pubrec wr pid cs)"
proof (cases "map_of (send_table cs) pid")
  case None
  then show ?thesis by (simp add: follows_def recv_pubrec_def Let_def unexpected_def awaits_cases [of _ pid] flip: send_table_def)
next
  case (Some p)
  let ?m = "pending_remove pid (send_table cs)"
  have ack: "ss_auto_ack (cs_state (set_send ?m cs))" using assms(1) by (simp add: table_laws)
  show ?thesis
  proof (cases "qs_next p = QP_PubRec")
    case False
    with Some show ?thesis
      by (simp add: follows_def recv_pubrec_def Let_def unexpected_def awaits_cases [of _ pid] table_laws awaits_reinsert flip: send_table_def)
  next
    case True
    let ?rel = "\<lparr>qs_packet_id = qs_packet_id p, qs_packet = None, qs_next = QP_PubRel\<rparr>"
    let ?cs = "set_send (pending_insert pid ?rel ?m) cs"
    have "map_of (send_table ?cs) pid = Some ?rel" by (simp add: table_laws pending_insert_def AList.update_conv')
    then have "\<exists>cs'. pubrel_sent pid ?cs [Pkt_PubRel (PubResp_new_pubrel_with_packet_id pid)] =
        (Ok (), cs', [Pkt_PubRel (PubResp_new_pubrel_with_packet_id pid)]) \<and>
        awaits (send_table cs') = (awaits (send_table cs))(pid \<mapsto> QP_PubComp)"
      by (simp add: pubrel_sent_def Let_def QoSPacketState_next_def table_laws flip: send_table_def)
    with Some True ack assms(2) show ?thesis
      by (simp add: follows_def recv_pubrec_def Let_def QoSPacketState_next_def send_packet_def table_laws awaits_cases [of _ pid]
          flip: send_table_def)
  qed
qed

section \<open>Messages received\<close>

text \<open>The receiver's protocol for QoS 2: PUBREL ends the exchange of a message that was received.\<close>

definition rx_release :: "u16 \<Rightarrow> (u16 \<Rightarrow> QoSPacket option) \<Rightarrow> (u16 \<Rightarrow> QoSPacket option) option" where
  "rx_release pid T = (if T pid = Some QP_PubRel then Some (T(pid := None)) else None)"

lemma recv_pubrel_follows:
  assumes "ss_auto_ack (cs_state cs)" and "wr (Pkt_PubComp (PubResp_new_pubcomp_with_packet_id pid))"
  shows "follows (rx_release pid (awaits (recv_table cs))) [Pkt_PubComp (PubResp_new_pubcomp_with_packet_id pid)] (\<lambda>_. True)
    recv_table cs (recv_pubrel wr pid cs)"
proof (cases "map_of (recv_table cs) pid")
  case (Some p)
  have "ss_auto_ack (cs_state (set_recv m cs))" for m using assms(1) by (simp add: table_laws)
  with Some assms(2) show ?thesis
    by (simp add: follows_def rx_release_def recv_pubrel_def Let_def send_packet_def unexpected_def awaits_cases [of _ pid] table_laws
        awaits_reinsert flip: recv_table_def)
qed (simp add: follows_def rx_release_def recv_pubrel_def Let_def unexpected_def awaits_cases [of _ pid] flip: recv_table_def)

lemma take_slot_frame [simp]:
  "send_table (upd_state (\<lambda>s. s\<lparr>ss_qos_recv_remaining := f s\<rparr>) cs) = send_table cs"
  "recv_table (upd_state (\<lambda>s. s\<lparr>ss_qos_recv_remaining := f s\<rparr>) cs) = recv_table cs"
  "ss_auto_ack (cs_state (upd_state (\<lambda>s. s\<lparr>ss_qos_recv_remaining := f s\<rparr>) cs)) = ss_auto_ack (cs_state cs)"
  "ss_qos_recv_remaining (cs_state (upd_state (\<lambda>s. s\<lparr>ss_qos_recv_remaining := f s\<rparr>) cs)) = f (cs_state cs)"
  by (simp_all add: send_table_def recv_table_def upd_state_def)

lemma recv_qos1_auto:
  assumes "ss_auto_ack (cs_state cs)" and "0 < ss_qos_recv_remaining (cs_state cs)"
    and "wr (Pkt_PubAck (PubResp_new_puback_with_packet_id pid))"
  shows "\<exists>cs'. recv_qos1 wr p pid cs = (Ok (), cs', [Pkt_PubAck (PubResp_new_puback_with_packet_id pid)]) \<and>
    awaits (recv_table cs') = (awaits (recv_table cs))(pid := None) \<and> send_table cs' = send_table cs \<and>
    ss_qos_recv_remaining (cs_state cs') = ss_qos_recv_remaining (cs_state cs)"
  using assms
  by (simp add: recv_qos1_def Let_def take_recv_slot_def send_packet_def table_laws flip: recv_table_def)

lemma recv_qos2_auto:
  assumes "ss_auto_ack (cs_state cs)" and "0 < ss_qos_recv_remaining (cs_state cs)"
    and "wr (Pkt_PubRec (PubResp_new_pubrec_with_packet_id pid))"
  shows "\<exists>cs'. recv_qos2 wr p pid cs = (Ok (), cs', [Pkt_PubRec (PubResp_new_pubrec_with_packet_id pid)]) \<and>
    awaits (recv_table cs') = (awaits (recv_table cs))(pid \<mapsto> QP_PubRel) \<and> send_table cs' = send_table cs \<and>
    ss_auto_ack (cs_state cs') \<and> Suc (ss_qos_recv_remaining (cs_state cs')) = ss_qos_recv_remaining (cs_state cs)"
proof -
  let ?new = "QoSPacketState_new_qos2 (Pkt_Publish p)"
  have "map_of (pending_insert pid ?new m) pid = Some ?new" for m by (simp add: pending_insert_def AList.update_conv')
  with assms show ?thesis
    by (simp add: recv_qos2_def Let_def take_recv_slot_def send_packet_def table_laws QoSPacketState_next_def
        QoSPacketState_new_qos2_def flip: recv_table_def)
qed

section \<open>Exchanges through \<open>handle_packet\<close>\<close>

lemma follows_pass_on:
  "follows step answer (\<lambda>_. True) table cs h \<Longrightarrow> follows step answer (\<lambda>x. x = Some packet) table cs (pass_on True packet h)"
  by (auto simp: follows_def pass_on_def split: option.splits)

lemma client_sender_follows:
  assumes "ss_auto_ack (cs_state cs)" and "\<forall>p. wr p" and "control_of packet = Some (k, pid)" and "k \<noteq> QP_PubRel"
  shows "follows (tx_step k pid (awaits (send_table cs)))
    (if k = QP_PubRec then [Pkt_PubRel (PubResp_new_pubrel_with_packet_id pid)] else []) (\<lambda>x. x = Some packet)
    send_table cs (client_handle_packet wr packet cs)"
  using assms follows_pass_on [OF recv_puback_follows] follows_pass_on [OF recv_pubcomp_follows]
    follows_pass_on [OF recv_pubrec_follows [OF assms(1)]]
  by (cases packet) (auto simp: client_handle_packet_def)

lemma recv_pubrel_slot:
  assumes "recv_pubrel wr pid cs = (Ok x, cs', out)" and "ss_auto_ack (cs_state cs)"
  shows "ss_qos_recv_remaining (cs_state cs') = Suc (ss_qos_recv_remaining (cs_state cs)) \<and> send_table cs' = send_table cs"
proof -
  have "ss_auto_ack (cs_state (set_recv m cs))" for m using assms(2) by (simp add: table_laws)
  with assms show ?thesis
    by (auto simp: recv_pubrel_def Let_def send_packet_def unexpected_def table_laws split: option.splits if_splits)
qed

lemma recv_publish_qos2:
  assumes "has_qos p ExactlyOnce" and "pu_packet_id p = Some pid"
  shows "client_handle_packet wr (Pkt_Publish p) cs = pass_on True (Pkt_Publish p) (recv_qos2 wr p pid cs)"
  using assms by (simp add: client_handle_packet_def handle_recv_publish_def has_qos_any [OF assms(1)])

lemma qos2_receive:
  assumes auto: "ss_auto_ack (cs_state cs)" and room: "0 < ss_qos_recv_remaining (cs_state cs)" and wr: "\<forall>p. wr p"
    and p: "has_qos p ExactlyOnce" "pu_packet_id p = Some pid" and rel: "pr_packet_id rel = pid"
  shows "\<exists>cs1 cs2. client_handle_packet wr (Pkt_Publish p) cs =
      (Ok (Some (Pkt_Publish p)), cs1, [Pkt_PubRec (PubResp_new_pubrec_with_packet_id pid)]) \<and>
    client_handle_packet wr (Pkt_PubRel rel) cs1 =
      (Ok (Some (Pkt_PubRel rel)), cs2, [Pkt_PubComp (PubResp_new_pubcomp_with_packet_id pid)]) \<and>
    awaits (recv_table cs2) = (awaits (recv_table cs))(pid := None) \<and> send_table cs2 = send_table cs \<and>
    ss_qos_recv_remaining (cs_state cs2) = ss_qos_recv_remaining (cs_state cs)"
proof -
  from recv_qos2_auto [OF auto room, of wr pid p] wr obtain cs1 where
    c1: "recv_qos2 wr p pid cs = (Ok (), cs1, [Pkt_PubRec (PubResp_new_pubrec_with_packet_id pid)])"
      "awaits (recv_table cs1) = (awaits (recv_table cs))(pid \<mapsto> QP_PubRel)" "send_table cs1 = send_table cs"
      "ss_auto_ack (cs_state cs1)" "Suc (ss_qos_recv_remaining (cs_state cs1)) = ss_qos_recv_remaining (cs_state cs)" by blast
  from recv_pubrel_follows [OF c1(4), of wr pid] wr c1(2) obtain x cs2 where
    c2: "recv_pubrel wr pid cs1 = (Ok x, cs2, [Pkt_PubComp (PubResp_new_pubcomp_with_packet_id pid)])"
      "awaits (recv_table cs2) = (awaits (recv_table cs))(pid := None)" by (auto simp: follows_def rx_release_def)
  from recv_pubrel_slot [OF c2(1) c1(4)] c1 c2 show ?thesis
    by (simp add: recv_publish_qos2 [OF p] pass_on_def) (simp add: client_handle_packet_def pass_on_def rel)
qed

text \<open>A QoS 2 message that is sent again while its exchange is open is passed on to the consumer again.\<close>

lemma qos2_duplicate_passed_on:
  assumes auto: "ss_auto_ack (cs_state cs)" and room: "1 < ss_qos_recv_remaining (cs_state cs)" and wr: "\<forall>p. wr p"
    and p: "has_qos p ExactlyOnce" "pu_packet_id p = Some pid"
  shows "\<exists>cs1 cs2 out1 out2. client_handle_packet wr (Pkt_Publish p) cs = (Ok (Some (Pkt_Publish p)), cs1, out1) \<and>
    awaits (recv_table cs1) pid = Some QP_PubRel \<and>
    client_handle_packet wr (Pkt_Publish p) cs1 = (Ok (Some (Pkt_Publish p)), cs2, out2)"
proof -
  from recv_qos2_auto [OF auto, of wr pid p] wr room obtain cs1 where
    c1: "recv_qos2 wr p pid cs = (Ok (), cs1, [Pkt_PubRec (PubResp_new_pubrec_with_packet_id pid)])"
      "awaits (recv_table cs1) = (awaits (recv_table cs))(pid \<mapsto> QP_PubRel)" "ss_auto_ack (cs_state cs1)"
      "0 < ss_qos_recv_remaining (cs_state cs1)" by auto
  from recv_qos2_auto [OF c1(3,4), of wr pid p] wr c1 show ?thesis
    by (auto simp: recv_publish_qos2 [OF p] pass_on_def)
qed

text \<open>
  Without automatic acknowledgement a PUBREC drops the exchange, so the PUBCOMP that ends it is an error.
\<close>

lemma manual_qos2_send_fails:
  assumes "\<not> ss_auto_ack (cs_state cs)" and "awaits (send_table cs) pid = Some QP_PubRec"
    and "pr_packet_id rc = pid" and "pr_packet_id cmp = pid"
  shows "\<exists>cs1 cs2. client_handle_packet wr (Pkt_PubRec rc) cs = (Ok (Some (Pkt_PubRec rc)), cs1, []) \<and>
    client_handle_packet wr (Pkt_PubComp cmp) cs1 = (Err (CE_Protocol R_ProtocolErr), cs2, [])"
proof -
  from assms(2) obtain p where p: "map_of (send_table cs) pid = Some p" "qs_next p = QP_PubRec"
    by (auto simp: awaits_def)
  let ?cs1 = "set_send (pending_remove pid (send_table cs)) cs"
  have "\<not> ss_auto_ack (cs_state ?cs1)" using assms(1) by (simp add: table_laws)
  then have "recv_pubrec wr pid cs = (Ok (), ?cs1, [])"
    using p by (simp add: recv_pubrec_def Let_def flip: send_table_def)
  moreover have "recv_pubcomp pid ?cs1 = unexpected ?cs1"
    by (simp add: recv_pubcomp_def Let_def table_laws pending_remove_def delete_conv' flip: send_table_def)
  ultimately show ?thesis
    using assms(3,4) by (simp add: client_handle_packet_def pass_on_def unexpected_def)
qed

text \<open>The search for an identifier goes through 0.\<close>

lemma packet_id_zero_assigned:
  assumes "has_qos p q" and "q \<noteq> AtMostOnce" and "pu_packet_id p = None" and "ss_auto_packet_id s"
    and "ss_last_packet_id s = 65535" and "map_of (ss_pending_qos_send s) 0 = None"
  shows "choose_packet_id p s = Some (Ok (with_id p 0, s\<lparr>ss_last_packet_id := 0\<rparr>))"
proof -
  have "ss_last_packet_id s + 1 = 0" using assms(5) by simp
  then have "free_packet_id (ss_pending_qos_send s) (ss_last_packet_id s + 1) = Some 0"
    using assms(6) by (simp only: free_packet_id.simps [of _ 0]) simp
  with assms(3,4) show ?thesis
    by (simp add: choose_packet_id_def with_id_def set_packet_id_qos [OF assms(1,2)])
qed

section \<open>Invariant of the tables\<close>

text \<open>Identifiers are distinct, and a message not yet answered is kept under the identifier it carries.\<close>

definition entry_ok :: "u16 \<times> QoSPacketState \<Rightarrow> bool" where
  "entry_ok e \<longleftrightarrow> qs_next (snd e) \<in> {QP_PubAck, QP_PubRec} \<longrightarrow>
    (\<exists>p. qs_packet (snd e) = Some (Pkt_Publish p) \<and> pu_packet_id p = Some (fst e))"

definition table_ok :: "pending_qos \<Rightarrow> bool" where
  "table_ok m \<longleftrightarrow> distinct (map fst m) \<and> (\<forall>e \<in> set m. entry_ok e)"

definition client_inv :: "ClientSession \<Rightarrow> bool" where
  "client_inv cs \<longleftrightarrow> table_ok (send_table cs) \<and> table_ok (recv_table cs)"

lemma table_ok_insert: "table_ok m \<Longrightarrow> entry_ok (pid, s) \<Longrightarrow> table_ok (pending_insert pid s m)"
  using set_update_subset [of pid s m] by (auto simp: table_ok_def pending_insert_def distinct_update)

lemma table_ok_remove: "table_ok m \<Longrightarrow> table_ok (pending_remove pid m)"
  using set_delete_subset [of pid m] by (auto simp: table_ok_def pending_remove_def distinct_delete)

lemma table_ok_lookup: "table_ok m \<Longrightarrow> map_of m pid = Some s \<Longrightarrow> entry_ok (pid, s)"
  by (auto simp: table_ok_def dest: map_of_SomeD)

lemma entry_ok_next: "QoSPacketState_next s = Some s' \<Longrightarrow> entry_ok (pid, s')"
  by (auto simp: QoSPacketState_next_def entry_ok_def split: QoSPacket.splits)

lemma entry_ok_new:
  "pu_packet_id p = Some pid \<Longrightarrow> entry_ok (pid, QoSPacketState_new_qos1 (Pkt_Publish p))"
  "pu_packet_id p = Some pid \<Longrightarrow> entry_ok (pid, QoSPacketState_new_qos2 (Pkt_Publish p))"
  by (simp_all add: entry_ok_def QoSPacketState_new_qos1_def QoSPacketState_new_qos2_def)

lemmas table_oks = table_ok_insert table_ok_remove entry_ok_next entry_ok_new

lemma client_inv_frame [simp]:
  "client_inv (set_send m cs) \<longleftrightarrow> table_ok m \<and> table_ok (recv_table cs)"
  "client_inv (set_recv m cs) \<longleftrightarrow> table_ok (send_table cs) \<and> table_ok m"
  "client_inv (free_send_slot cs) = client_inv cs" "client_inv (free_recv_slot cs) = client_inv cs"
  "client_inv (upd_state (\<lambda>s. s\<lparr>ss_qos_recv_remaining := f s\<rparr>) cs) = client_inv cs" "client_inv (shutdown cs) = client_inv cs"
  by (simp_all add: client_inv_def table_laws) (simp_all add: shutdown_def send_table_def recv_table_def)

lemma session_of_simps [simp]: "session_of (r, cs, out) = cs" "session_of (unexpected cs) = cs"
  "session_of (pass_on b packet h) = session_of h"
  by (simp_all add: session_of_def unexpected_def pass_on_def split: prod.splits res.splits)

lemma take_recv_slot_keeps:
  assumes "client_inv cs" and "\<And>cs. client_inv cs \<Longrightarrow> client_inv (session_of (k cs))"
  shows "client_inv (session_of (take_recv_slot cs k))"
  using assms by (simp add: take_recv_slot_def)

lemma recv_keeps:
  assumes "client_inv cs"
  shows "client_inv (session_of (recv_puback pid cs))" "client_inv (session_of (recv_pubcomp pid cs))"
    "client_inv (session_of (recv_pubrec wr pid cs))" "client_inv (session_of (recv_pubrel wr pid cs))"
proof -
  note oks = table_oks table_ok_lookup [of "send_table cs" pid] table_ok_lookup [of "recv_table cs" pid]
  have t: "table_ok (send_table cs)" "table_ok (recv_table cs)" using assms by (simp_all add: client_inv_def)
  show "client_inv (session_of (recv_puback pid cs))"
    using t by (auto simp: recv_puback_def Let_def assms oks simp flip: send_table_def split: option.split)
  show "client_inv (session_of (recv_pubcomp pid cs))"
    using t by (auto simp: recv_pubcomp_def Let_def assms oks table_laws simp flip: send_table_def split: option.split)
  have sent: "client_inv (session_of (pubrel_sent pid cs' out))" if "client_inv cs'" for cs' out
    using that table_ok_lookup [of "send_table cs'" pid]
    by (auto simp: pubrel_sent_def Let_def table_oks table_laws client_inv_def [of cs'] simp flip: send_table_def split: option.split)
  show "client_inv (session_of (recv_pubrec wr pid cs))"
    using t by (auto simp: recv_pubrec_def send_packet_def Let_def assms oks sent table_laws simp flip: send_table_def split: option.split)
  show "client_inv (session_of (recv_pubrel wr pid cs))"
    using t by (auto simp: recv_pubrel_def send_packet_def Let_def assms oks table_laws simp flip: recv_table_def split: option.split)
qed

lemma recv_publish_keeps:
  assumes "client_inv cs"
  shows "client_inv (session_of (handle_recv_publish wr publish cs))"
proof -
  have t: "table_ok (send_table cs')" "table_ok (recv_table cs')" if "client_inv cs'" for cs'
    using that by (simp_all add: client_inv_def)
  have "client_inv (session_of (recv_qos1 wr publish pid cs))" if "pu_packet_id publish = Some pid" for pid
    unfolding recv_qos1_def Let_def
    by (rule take_recv_slot_keeps)
      (use that assms in \<open>simp_all add: t table_oks send_packet_def flip: recv_table_def\<close>)
  moreover have "client_inv (session_of (recv_qos2 wr publish pid cs))" if "pu_packet_id publish = Some pid" for pid
    unfolding recv_qos2_def Let_def
    by (rule take_recv_slot_keeps)
      (use that assms in \<open>auto simp: t table_oks table_laws send_packet_def simp flip: recv_table_def split: option.splits\<close>)
  ultimately show ?thesis
    using assms by (auto simp: handle_recv_publish_def split: option.splits res.splits QoSLevel.splits)
qed

text \<open>Whatever is received, in whatever order, the tables stay well formed.\<close>

lemma client_handle_packet_keeps:
  "client_inv cs \<Longrightarrow> client_inv (session_of (client_handle_packet wr packet cs))"
  by (cases packet) (simp_all add: client_handle_packet_def recv_keeps recv_publish_keeps)

lemma choose_packet_id_post:
  assumes "choose_packet_id p s = Some (Ok (p', s'))"
  shows "ss_pending_qos_send s' = ss_pending_qos_send s" "ss_pending_qos_recv s' = ss_pending_qos_recv s"
  using assms by (auto simp: choose_packet_id_def split: option.splits if_splits res.splits)

lemma write_publish_keeps:
  assumes "client_inv cs" and "write_publish wr p cs = Some h"
  shows "client_inv (session_of h)"
proof -
  have "client_inv (cs\<lparr>cs_state := s\<rparr>)" if "choose_packet_id p (cs_state cs) = Some (Ok (p', s))" for p' s
    using assms(1) choose_packet_id_post [OF that] by (simp add: client_inv_def send_table_def recv_table_def)
  moreover have "client_inv (cs\<lparr>cs_state := s'\<rparr>)"
    if "client_inv (cs\<lparr>cs_state := s\<rparr>)" "track_publish q p' s = Ok s'" for p' q s s'
    using that
    by (auto simp: client_inv_def send_table_def recv_table_def track_publish_def table_oks split: QoSLevel.splits option.splits)
  ultimately show ?thesis
    using assms
    by (auto simp: write_publish_def send_packet_def split: res.splits if_splits option.splits)
qed

lemma write_next_keeps:
  assumes "client_inv cs" and "write_next wr packet cs = Some h"
  shows "client_inv (session_of h)"
proof (cases "\<exists>p. packet = Pkt_Publish p")
  case True
  with assms show ?thesis by (auto simp: write_next_def intro: write_publish_keeps)
next
  case False
  have "client_inv (cs\<lparr>cs_connected := b\<rparr>) = client_inv cs" for cs b
    by (simp add: client_inv_def send_table_def recv_table_def)
  with False assms show ?thesis
    by (auto simp: write_next_def send_packet_def split: Packet.splits)
qed

text \<open>Sending returns: the search for an identifier starts only where one is free.\<close>

lemma write_publish_returns: "write_publish wr p cs \<noteq> None"
proof -
  have "choose_packet_id p (cs_state cs) \<noteq> None" if "length (send_table cs) < 65535"
    using free_packet_id_returns [of "send_table cs" "ss_last_packet_id (cs_state cs) + 1"] that
    by (auto simp: choose_packet_id_def send_table_def split: option.splits)
  then show ?thesis
    by (simp add: write_publish_def send_table_def del: not_None_eq split: res.splits option.splits)
qed

lemma write_next_returns: "write_next wr packet cs \<noteq> None"
  by (cases packet) (simp_all add: write_next_def write_publish_returns)

end
