(* ===== verification/Client_Setup.thy ===== *)
theory Client_Setup
  imports Client_Session
begin

text \<open>
  Setting a client up: the connection (\<open>vaux-client/src/connection.rs\<close>), the builder
  (\<open>vaux-client/src/builder.rs\<close>), the client object, and \<open>start\<close> up to the task it spawns
  (\<open>vaux-client/src/client.rs\<close>). Name resolution, TCP and TLS are parameters (\<open>network\<close>), and so is
  whether a channel of a given size can be made (\<open>mk\<close>). Durations are seconds.
\<close>

section \<open>The connection\<close>

datatype MqttStream = TcpStream | ClientTlsStream | ServerTlsStream

text \<open>The outcome of a TCP connection attempt under the connection timeout.\<close>

datatype tcp_outcome = Tcp_connected | Tcp_failed | Tcp_timed_out

record ('addr, 'ca, 'name) network =
  nt_resolve :: "string \<Rightarrow> 'addr list option"
  nt_tcp :: "'addr \<Rightarrow> tcp_outcome"
  nt_server_name :: "string \<Rightarrow> 'name option"
  nt_tls :: "'ca \<Rightarrow> 'name \<Rightarrow> bool"

record 'ca MqttConnection =
  mc_host :: string
  mc_port :: "u16 option"
  mc_username :: "string option"
  mc_password :: "string option"
  mc_tls :: bool
  mc_trusted_ca :: "'ca option"
  mc_stream :: "MqttStream option"

definition DEFAULT_HOST :: string where "DEFAULT_HOST = ''localhost''"
definition DEFAULT_PORT :: u16 where "DEFAULT_PORT = 1883"
definition DEFAULT_SECURE_PORT :: u16 where "DEFAULT_SECURE_PORT = 8883"

definition MqttConnection_new :: "'ca MqttConnection" where
  "MqttConnection_new =
    \<lparr>mc_host = DEFAULT_HOST, mc_port = None, mc_username = None, mc_password = None, mc_tls = False,
     mc_trusted_ca = None, mc_stream = None\<rparr>"

definition credentials :: "'ca MqttConnection \<Rightarrow> (string \<times> string) option" where
  "credentials c =
    (case mc_username c of
       Some username \<Rightarrow> (case mc_password c of Some password \<Rightarrow> Some (username, password) | None \<Rightarrow> None)
     | None \<Rightarrow> None)"

definition with_credentials :: "'ca MqttConnection \<Rightarrow> string \<Rightarrow> string \<Rightarrow> 'ca MqttConnection" where
  "with_credentials c username password = c\<lparr>mc_username := Some username, mc_password := Some password\<rparr>"

definition with_tls :: "'ca MqttConnection \<Rightarrow> 'ca MqttConnection" where
  "with_tls c =
    (let c = c\<lparr>mc_tls := True\<rparr> in if mc_port c = None then c\<lparr>mc_port := Some DEFAULT_SECURE_PORT\<rparr> else c)"

definition with_host :: "'ca MqttConnection \<Rightarrow> string \<Rightarrow> 'ca MqttConnection" where
  "with_host c host = c\<lparr>mc_host := host\<rparr>"

definition with_port :: "'ca MqttConnection \<Rightarrow> u16 \<Rightarrow> 'ca MqttConnection" where
  "with_port c port = c\<lparr>mc_port := Some port\<rparr>"

definition with_trust_store :: "'ca MqttConnection \<Rightarrow> 'ca \<Rightarrow> 'ca MqttConnection" where
  "with_trust_store c trusted_ca = c\<lparr>mc_trusted_ca := Some trusted_ca\<rparr>"

definition take_stream :: "'ca MqttConnection \<Rightarrow> MqttStream option \<times> 'ca MqttConnection" where
  "take_stream c = (mc_stream c, c\<lparr>mc_stream := None\<rparr>)"

text \<open>Decimal notation of a port.\<close>

fun decimal :: "nat \<Rightarrow> string" where
  "decimal n = (if n < 10 then [char_of (48 + n)] else decimal (n div 10) @ [char_of (48 + n mod 10)])"

declare decimal.simps [simp del]

definition connect_tls :: "('addr, 'ca, 'name) network \<Rightarrow> 'ca MqttConnection \<Rightarrow> (ClientErrorKind, MqttStream) res" where
  "connect_tls net c =
    (case nt_server_name net (mc_host c) of
       None \<Rightarrow> Err CE_Connection
     | Some server_name \<Rightarrow>
         (case mc_trusted_ca c of
            Some ca \<Rightarrow> if nt_tls net ca server_name then Ok ClientTlsStream else Err CE_Connection
          | None \<Rightarrow> Err CE_Connection))"

text \<open>An address list that is empty makes \<open>next().unwrap()\<close> panic.\<close>

definition connect_with_timeout ::
    "('addr, 'ca, 'name) network \<Rightarrow> 'ca MqttConnection \<Rightarrow> (ClientErrorKind, unit) res \<times> 'ca MqttConnection" where
  "connect_with_timeout net c =
    (let port = (case mc_port c of None \<Rightarrow> DEFAULT_PORT | Some p \<Rightarrow> p);
         c = c\<lparr>mc_port := Some port\<rparr>
     in case nt_resolve net (mc_host c @ '':'' @ decimal (unat port)) of
          None \<Rightarrow> (Err CE_Connection, c)
        | Some [] \<Rightarrow> (Panic, c)
        | Some (socket_addr # _) \<Rightarrow>
            (case nt_tcp net socket_addr of
               Tcp_connected \<Rightarrow>
                 if mc_tls c then
                   (case connect_tls net c of
                      Ok s \<Rightarrow> (Ok (), c\<lparr>mc_stream := Some s\<rparr>)
                    | Err e \<Rightarrow> (Err e, c)
                    | Panic \<Rightarrow> (Panic, c))
                 else (Ok (), c\<lparr>mc_stream := Some TcpStream\<rparr>)
             | Tcp_failed \<Rightarrow> (Err CE_Connection, c)
             | Tcp_timed_out \<Rightarrow> (Err CE_Timeout, c)))"

section \<open>The client object\<close>

text \<open>A channel: its size, and whether its receiver is still here.\<close>

record PacketChannel =
  pc_size :: nat
  pc_receiver :: bool

definition DEFAULT_CHANNEL_SIZE :: nat where "DEFAULT_CHANNEL_SIZE = 128"
definition MAX_CONNECT_WAIT :: nat where "MAX_CONNECT_WAIT = 5"

definition PacketChannel_new_with_size :: "(nat \<Rightarrow> bool) \<Rightarrow> nat \<Rightarrow> ('e, PacketChannel) res" where
  "PacketChannel_new_with_size mk n = (if mk n then Ok \<lparr>pc_size = n, pc_receiver = True\<rparr> else Panic)"

definition PacketChannel_new :: "(nat \<Rightarrow> bool) \<Rightarrow> ('e, PacketChannel) res" where
  "PacketChannel_new mk = PacketChannel_new_with_size mk DEFAULT_CHANNEL_SIZE"

definition PacketChannel_take_receiver :: "PacketChannel \<Rightarrow> bool \<times> PacketChannel" where
  "PacketChannel_take_receiver ch = (pc_receiver ch, ch\<lparr>pc_receiver := False\<rparr>)"

type_synonym 'c FilteredChannel = "(PacketType \<times> 'c) list"

text \<open>The client's \<open>keep_alive\<close> and \<open>session_expiry\<close> are the very locks of the session state.\<close>

record ('ca, 'c) MqttClient =
  cl_connection :: "'ca MqttConnection option"
  cl_filter_channel :: "'c FilteredChannel"
  cl_connected :: bool
  cl_packet_in :: PacketChannel
  cl_packet_out :: PacketChannel
  cl_err_chan :: "'c option"
  cl_max_connect_wait :: nat
  cl_will_message :: "WillMessage option"
  cl_session_state :: "SessionState option"

definition MqttClient_new :: "(nat \<Rightarrow> bool) \<Rightarrow> SessionState \<Rightarrow> u16 option \<Rightarrow> ('e, ('ca, 'c) MqttClient) res" where
  "MqttClient_new mk state channel_size =
    (let n = (case channel_size of Some k \<Rightarrow> unat k | None \<Rightarrow> DEFAULT_CHANNEL_SIZE) in
     bind (PacketChannel_new_with_size mk n) (\<lambda>packet_in.
     bind (PacketChannel_new_with_size mk n) (\<lambda>packet_out.
       Ok \<lparr>cl_connection = None, cl_filter_channel = [], cl_connected = False, cl_packet_in = packet_in,
           cl_packet_out = packet_out, cl_err_chan = None, cl_max_connect_wait = MAX_CONNECT_WAIT,
           cl_will_message = None, cl_session_state = Some state\<rparr>)))"

definition MqttClient_new_with_connection ::
    "(nat \<Rightarrow> bool) \<Rightarrow> 'ca MqttConnection \<Rightarrow> SessionState \<Rightarrow> u16 option \<Rightarrow> ('e, ('ca, 'c) MqttClient) res" where
  "MqttClient_new_with_connection mk connection state channel_size =
    bind (MqttClient_new mk state channel_size) (\<lambda>client. Ok (client\<lparr>cl_connection := Some connection\<rparr>))"

definition add_filtered_packet_handler :: "PacketType \<Rightarrow> 'c \<Rightarrow> ('ca, 'c) MqttClient \<Rightarrow> ('ca, 'c) MqttClient" where
  "add_filtered_packet_handler packet_type sender client =
    client\<lparr>cl_filter_channel := AList.update packet_type sender (cl_filter_channel client)\<rparr>"

definition take_packet_consumer :: "('ca, 'c) MqttClient \<Rightarrow> bool \<times> ('ca, 'c) MqttClient" where
  "take_packet_consumer client =
    (let (r, ch) = PacketChannel_take_receiver (cl_packet_out client) in (r, client\<lparr>cl_packet_out := ch\<rparr>))"

section \<open>The builder\<close>

datatype BuilderError = ProducerRequired | ConsumerRequired | MinKeepAlive

definition MIN_KEEP_ALIVE :: nat where "MIN_KEEP_ALIVE = 30"

record ('ca, 'c) ClientBuilder =
  cb_connection :: "'ca MqttConnection"
  cb_state :: SessionState
  cb_max_connect_wait :: nat
  cb_channel_size :: "u16 option"
  cb_filtered_consumer :: "'c FilteredChannel option"
  cb_error_out :: "'c option"
  cb_will_message :: "WillMessage option"

definition ClientBuilder_default :: "string \<Rightarrow> ('ca, 'c) ClientBuilder" where
  "ClientBuilder_default uuid =
    \<lparr>cb_connection = MqttConnection_new, cb_state = SessionState_new uuid, cb_max_connect_wait = MAX_CONNECT_WAIT,
     cb_channel_size = None, cb_filtered_consumer = None, cb_error_out = None, cb_will_message = None\<rparr>"

definition ClientBuilder_new :: "string \<Rightarrow> 'ca MqttConnection \<Rightarrow> ('ca, 'c) ClientBuilder" where
  "ClientBuilder_new uuid connection = (ClientBuilder_default uuid)\<lparr>cb_connection := connection\<rparr>"

definition with_state :: "('ca, 'c) ClientBuilder \<Rightarrow> 'ca MqttConnection \<Rightarrow> SessionState \<Rightarrow> ('ca, 'c) ClientBuilder" where
  "with_state b connection state = b\<lparr>cb_connection := connection, cb_state := state\<rparr>"

definition upd_builder_state :: "(SessionState \<Rightarrow> SessionState) \<Rightarrow> ('ca, 'c) ClientBuilder \<Rightarrow> ('ca, 'c) ClientBuilder" where
  "upd_builder_state f b = b\<lparr>cb_state := f (cb_state b)\<rparr>"

definition with_auto_ack :: "('ca, 'c) ClientBuilder \<Rightarrow> bool \<Rightarrow> ('ca, 'c) ClientBuilder" where
  "with_auto_ack b auto_ack = upd_builder_state (\<lambda>s. s\<lparr>ss_auto_ack := auto_ack\<rparr>) b"

definition with_auto_packet_id :: "('ca, 'c) ClientBuilder \<Rightarrow> bool \<Rightarrow> ('ca, 'c) ClientBuilder" where
  "with_auto_packet_id b auto_packet_id = upd_builder_state (\<lambda>s. s\<lparr>ss_auto_packet_id := auto_packet_id\<rparr>) b"

definition with_receive_max :: "('ca, 'c) ClientBuilder \<Rightarrow> u16 \<Rightarrow> ('ca, 'c) ClientBuilder" where
  "with_receive_max b receive_max = upd_builder_state (\<lambda>s. s\<lparr>ss_qos_recv_remaining := unat receive_max\<rparr>) b"

definition with_session_expiry :: "('ca, 'c) ClientBuilder \<Rightarrow> nat \<Rightarrow> ('ca, 'c) ClientBuilder" where
  "with_session_expiry b session_expiry = upd_builder_state (\<lambda>s. s\<lparr>ss_session_expiry := session_expiry\<rparr>) b"

definition with_client_id :: "('ca, 'c) ClientBuilder \<Rightarrow> string \<Rightarrow> ('ca, 'c) ClientBuilder" where
  "with_client_id b client_id = upd_builder_state (\<lambda>s. s\<lparr>ss_client_id := Some client_id\<rparr>) b"

definition with_max_packet_size :: "('ca, 'c) ClientBuilder \<Rightarrow> nat \<Rightarrow> ('ca, 'c) ClientBuilder" where
  "with_max_packet_size b max_packet_size = upd_builder_state (\<lambda>s. s\<lparr>ss_max_packet_size := max_packet_size\<rparr>) b"

definition with_keep_alive :: "('ca, 'c) ClientBuilder \<Rightarrow> nat \<Rightarrow> ('ca, 'c) ClientBuilder" where
  "with_keep_alive b keep_alive = upd_builder_state (\<lambda>s. s\<lparr>ss_keep_alive := keep_alive\<rparr>) b"

definition with_max_connect_wait :: "('ca, 'c) ClientBuilder \<Rightarrow> nat \<Rightarrow> ('ca, 'c) ClientBuilder" where
  "with_max_connect_wait b max_connect_wait = b\<lparr>cb_max_connect_wait := max_connect_wait\<rparr>"

definition with_filtered_consumer :: "('ca, 'c) ClientBuilder \<Rightarrow> PacketType \<Rightarrow> 'c \<Rightarrow> ('ca, 'c) ClientBuilder" where
  "with_filtered_consumer b packet_type sender =
    (let b = (if cb_filtered_consumer b = None then b\<lparr>cb_filtered_consumer := Some []\<rparr> else b) in
     case cb_filtered_consumer b of
       Some consumer \<Rightarrow> b\<lparr>cb_filtered_consumer := Some (AList.update packet_type sender consumer)\<rparr>
     | None \<Rightarrow> b)"

definition with_error_handler :: "('ca, 'c) ClientBuilder \<Rightarrow> 'c \<Rightarrow> ('ca, 'c) ClientBuilder" where
  "with_error_handler b error_out = b\<lparr>cb_error_out := Some error_out\<rparr>"

definition with_will_message :: "('ca, 'c) ClientBuilder \<Rightarrow> WillMessage \<Rightarrow> ('ca, 'c) ClientBuilder" where
  "with_will_message b will_message = b\<lparr>cb_will_message := Some will_message\<rparr>"

definition with_channel_size :: "('ca, 'c) ClientBuilder \<Rightarrow> u16 \<Rightarrow> ('ca, 'c) ClientBuilder" where
  "with_channel_size b channel_size = b\<lparr>cb_channel_size := Some channel_size\<rparr>"

definition with_keep_alive_enabled :: "('ca, 'c) ClientBuilder \<Rightarrow> bool \<Rightarrow> ('ca, 'c) ClientBuilder" where
  "with_keep_alive_enabled b enabled = upd_builder_state (\<lambda>s. s\<lparr>ss_keep_alive_enabled := enabled\<rparr>) b"

definition with_pingresp :: "('ca, 'c) ClientBuilder \<Rightarrow> bool \<Rightarrow> ('ca, 'c) ClientBuilder" where
  "with_pingresp b pingresp = upd_builder_state (\<lambda>s. s\<lparr>ss_pingresp := pingresp\<rparr>) b"

definition MqttClient_set_max_connect_wait :: "nat \<Rightarrow> ('ca, 'c) MqttClient \<Rightarrow> ('ca, 'c) MqttClient" where
  "MqttClient_set_max_connect_wait wait client = client\<lparr>cl_max_connect_wait := wait\<rparr>"

definition MqttClient_set_error_out :: "'c \<Rightarrow> ('ca, 'c) MqttClient \<Rightarrow> ('ca, 'c) MqttClient" where
  "MqttClient_set_error_out error_out client = client\<lparr>cl_err_chan := Some error_out\<rparr>"

definition MqttClient_set_will_message :: "WillMessage option \<Rightarrow> ('ca, 'c) MqttClient \<Rightarrow> ('ca, 'c) MqttClient" where
  "MqttClient_set_will_message will client = client\<lparr>cl_will_message := will\<rparr>"

definition build :: "(nat \<Rightarrow> bool) \<Rightarrow> ('ca, 'c) ClientBuilder \<Rightarrow> (BuilderError, ('ca, 'c) MqttClient) res" where
  "build mk b =
    (if ss_keep_alive (cb_state b) < MIN_KEEP_ALIVE then Err MinKeepAlive
     else
       bind (MqttClient_new_with_connection mk (cb_connection b) (cb_state b) (cb_channel_size b)) (\<lambda>client.
         let client = MqttClient_set_max_connect_wait (cb_max_connect_wait b) client;
             client = (case cb_error_out b of Some error_out \<Rightarrow> MqttClient_set_error_out error_out client | None \<Rightarrow> client);
             client = MqttClient_set_will_message (cb_will_message b) client;
             client = (case cb_filtered_consumer b of
                 Some filtered_consumer \<Rightarrow> fold (\<lambda>(packet_type, sender). add_filtered_packet_handler packet_type sender) filtered_consumer client
               | None \<Rightarrow> client)
         in Ok client))"

section \<open>\<open>start\<close>, up to the task\<close>

text \<open>\<open>new_from_client\<close>: what is missing makes an \<open>unwrap\<close> panic.\<close>

definition new_from_client :: "nat \<Rightarrow> ('ca, 'c) MqttClient \<Rightarrow> (ClientErrorKind, ClientSession) res \<times> ('ca, 'c) MqttClient" where
  "new_from_client now client =
    (case cl_session_state client of
       None \<Rightarrow> (Panic, client)
     | Some state \<Rightarrow>
         (let client = client\<lparr>cl_session_state := None\<rparr> in
          case cl_connection client of
            None \<Rightarrow> (Panic, client)
          | Some connection \<Rightarrow>
              (let client = client\<lparr>cl_connection := None\<rparr> in
               case fst (take_stream connection) of
                 None \<Rightarrow> (Panic, client)
               | Some _ \<Rightarrow>
                   (Ok \<lparr>cs_connected = False, cs_stream_open = True, cs_last_active = now, cs_state = state, cs_usable = True\<rparr>,
                    client))))"

text \<open>What the spawned task is given: the session, the credentials, the will, the filtered consumers.\<close>

record 'c task_input =
  ti_session :: ClientSession
  ti_credentials :: "(string \<times> string) option"
  ti_will :: "WillMessage option"
  ti_filter_channel :: "'c FilteredChannel"
  ti_max_connect_wait :: nat

definition start ::
    "('addr, 'ca, 'name) network \<Rightarrow> nat \<Rightarrow> ('ca, 'c) MqttClient \<Rightarrow> (ClientErrorKind, 'c task_input) res \<times> ('ca, 'c) MqttClient" where
  "start net now client =
    (case cl_connection client of
       None \<Rightarrow> (Err CE_Connection, client)
     | Some connection \<Rightarrow>
         (let (receiver, ch) = PacketChannel_take_receiver (cl_packet_in client); client = client\<lparr>cl_packet_in := ch\<rparr> in
          if \<not> receiver then (Err CE_Transport, client)
          else
            (let (r, connection') = connect_with_timeout net connection; client = client\<lparr>cl_connection := Some connection'\<rparr> in
             case r of
               Panic \<Rightarrow> (Panic, client)
             | Err _ \<Rightarrow> (Err CE_Transport, client)
             | Ok _ \<Rightarrow>
                 (case new_from_client now client of
                    (Ok session, client') \<Rightarrow>
                      (Ok \<lparr>ti_session = session, ti_credentials = credentials connection, ti_will = cl_will_message client,
                           ti_filter_channel = cl_filter_channel client, ti_max_connect_wait = cl_max_connect_wait client\<rparr>, client')
                  | (Err _, client') \<Rightarrow> (Err CE_Transport, client')
                  | (Panic, client') \<Rightarrow> (Panic, client')))))"

section \<open>Properties\<close>

lemma fold_add_filtered:
  "fold (\<lambda>(packet_type, sender). add_filtered_packet_handler packet_type sender) l client =
    client\<lparr>cl_filter_channel := fold (\<lambda>(k, v). AList.update k v) l (cl_filter_channel client)\<rparr>"
  by (induction l arbitrary: client) (auto simp: add_filtered_packet_handler_def)

lemma map_of_fold_update: "distinct (map fst l) \<Longrightarrow> map_of (fold (\<lambda>(k, v). AList.update k v) l m) = map_of m ++ map_of l"
proof (induction l arbitrary: m)
  case (Cons x l)
  obtain k v where x: "x = (k, v)" by (cases x)
  have "map_of l k = None" using Cons.prems by (simp add: x map_of_eq_None_iff)
  with Cons show ?case by (auto simp: x AList.update_conv' map_add_def fun_eq_iff split: option.splits)
qed simp

text \<open>Filtered consumers: the one registered last for a packet type.\<close>

definition consumers :: "('ca, 'c) ClientBuilder \<Rightarrow> PacketType \<Rightarrow> 'c option" where
  "consumers b = (case cb_filtered_consumer b of Some l \<Rightarrow> map_of l | None \<Rightarrow> Map.empty)"

definition builder_ok :: "('ca, 'c) ClientBuilder \<Rightarrow> bool" where
  "builder_ok b \<longleftrightarrow> (case cb_filtered_consumer b of Some l \<Rightarrow> distinct (map fst l) | None \<Rightarrow> True)"

lemma with_filtered_consumer_consumers:
  "consumers (with_filtered_consumer b t c) = (consumers b)(t \<mapsto> c)"
  "builder_ok b \<Longrightarrow> builder_ok (with_filtered_consumer b t c)"
  by (auto simp: consumers_def builder_ok_def with_filtered_consumer_def Let_def AList.update_conv' distinct_update
      split: option.splits)

lemma build_result:
  assumes "builder_ok b" and "\<And>n. 0 < n \<Longrightarrow> mk n" and "cb_channel_size b \<noteq> Some 0"
  shows "if ss_keep_alive (cb_state b) < 30 then build mk b = Err MinKeepAlive
    else \<exists>client. build mk b = Ok client \<and> cl_connection client = Some (cb_connection b) \<and>
      cl_session_state client = Some (cb_state b) \<and> cl_will_message client = cb_will_message b \<and>
      cl_max_connect_wait client = cb_max_connect_wait b \<and> map_of (cl_filter_channel client) = consumers b \<and>
      pc_receiver (cl_packet_in client) \<and> pc_receiver (cl_packet_out client)"
proof -
  let ?n = "case cb_channel_size b of Some k \<Rightarrow> unat k | None \<Rightarrow> DEFAULT_CHANNEL_SIZE"
  have "mk ?n" using assms(2,3) by (auto simp: DEFAULT_CHANNEL_SIZE_def unat_gt_0 split: option.split)
  with assms(1) show ?thesis
    by (auto simp: build_def MqttClient_set_max_connect_wait_def MqttClient_set_error_out_def MqttClient_set_will_message_def MIN_KEEP_ALIVE_def MqttClient_new_with_connection_def MqttClient_new_def Let_def
        PacketChannel_new_with_size_def fold_add_filtered map_of_fold_update consumers_def builder_ok_def split: option.splits)
qed

text \<open>A client that can be started has everything the session takes from it.\<close>

definition client_ready :: "('ca, 'c) MqttClient \<Rightarrow> bool" where
  "client_ready client \<longleftrightarrow> (cl_connection client \<noteq> None \<longrightarrow> cl_session_state client \<noteq> None)"

lemma connect_with_timeout_stream:
  "connect_with_timeout net c = (Ok u, c') \<Longrightarrow> mc_stream c' \<noteq> None"
  by (auto simp: connect_with_timeout_def Let_def split: option.splits list.splits tcp_outcome.splits if_splits res.splits)

lemma start_safe:
  assumes "client_ready client" and "\<And>a. nt_resolve net a \<noteq> Some []"
  shows "fst (start net now client) \<noteq> Panic" and "client_ready (snd (start net now client))"
proof -
  have conn: "fst (connect_with_timeout net c) \<noteq> Panic" for c
    using assms(2)
    by (auto simp: connect_with_timeout_def connect_tls_def Let_def split: option.splits list.splits tcp_outcome.splits if_splits)
  have "fst (start net now client) \<noteq> Panic \<and> client_ready (snd (start net now client))"
  proof (cases "cl_connection client")
    case None
    then show ?thesis by (simp add: start_def client_ready_def)
  next
    case (Some c)
    obtain r c' where r: "connect_with_timeout net c = (r, c')" by (cases "connect_with_timeout net c")
    from conn [of c] connect_with_timeout_stream [of net c "()" c'] r Some assms(1) show ?thesis
      by (auto simp: start_def client_ready_def new_from_client_def take_stream_def PacketChannel_take_receiver_def Let_def
          split: res.splits option.splits)
  qed
  then show "fst (start net now client) \<noteq> Panic" and "client_ready (snd (start net now client))" by simp_all
qed

text \<open>\<open>start\<close> takes the receiver of the producer's channel first: it cannot be called twice.\<close>

lemma start_once: "\<exists>e. fst (start net' later (snd (start net now client))) = Err e"
proof -
  have "cl_connection (snd (start net now client)) = None \<or> \<not> pc_receiver (cl_packet_in (snd (start net now client)))"
    by (auto simp: start_def new_from_client_def PacketChannel_take_receiver_def Let_def split: res.splits option.splits prod.splits)
  then show ?thesis
    by (auto simp: start_def [of net' later] PacketChannel_take_receiver_def Let_def split: option.splits)
qed

text \<open>What a successful \<open>start\<close> hands to the task.\<close>

lemma start_ok:
  assumes "cl_connection client = Some c" and "pc_receiver (cl_packet_in client)" and "cl_session_state client = Some state"
    and "connect_with_timeout net c = (Ok u, c')"
  shows "\<exists>client'. start net now client =
    (Ok \<lparr>ti_session = \<lparr>cs_connected = False, cs_stream_open = True, cs_last_active = now, cs_state = state, cs_usable = True\<rparr>,
       ti_credentials = credentials c, ti_will = cl_will_message client, ti_filter_channel = cl_filter_channel client,
       ti_max_connect_wait = cl_max_connect_wait client\<rparr>, client')"
  using assms connect_with_timeout_stream [OF assms(4)]
  by (auto simp: start_def new_from_client_def take_stream_def PacketChannel_take_receiver_def Let_def)

text \<open>The port: the one given, else 8883 with TLS and 1883 without; TLS needs a trust store.\<close>

lemma with_tls_port: "mc_port (with_tls c) = Some (case mc_port c of Some p \<Rightarrow> p | None \<Rightarrow> 8883)"
  by (simp add: with_tls_def Let_def DEFAULT_SECURE_PORT_def split: option.split)

lemma tls_needs_trust_store:
  assumes "mc_tls c" and "mc_trusted_ca c = None"
  shows "fst (connect_with_timeout net c) \<noteq> Ok ()"
  using assms by (auto simp: connect_with_timeout_def connect_tls_def Let_def split: option.splits list.splits tcp_outcome.splits)

end
