(* ===== verification/Client_Loop.thy ===== *)
theory Client_Loop
  imports Client_Exchange Client_Setup
begin

text \<open>
  The task of a running client (\<open>vaux-client/src/client.rs\<close>, \<open>start\<close>): the handshake, then the loop whose
  branches are the keep-alive timer, the retry of a packet its consumer had no room for, a packet read from
  the broker, and a packet of the application. Which branch runs, what the stream and the channels answer,
  and how much time an iteration takes are in the event; the channels are not modelled further. A call that
  does not return has the value \<open>None\<close>.
\<close>

section \<open>The task\<close>

definition qos_control :: "Packet \<Rightarrow> bool" where
  "qos_control packet \<longleftrightarrow>
    (case packet of Pkt_PubAck _ \<Rightarrow> True | Pkt_PubRec _ \<Rightarrow> True | Pkt_PubRel _ \<Rightarrow> True | Pkt_PubComp _ \<Rightarrow> True | _ \<Rightarrow> False)"

text \<open>
  The local variables of the task. \<open>ct_connected\<close> is the flag the client object shares;
  \<open>ct_keep_alive\<close> and \<open>ct_keep_alive_enabled\<close> are read once, after the handshake.
\<close>

record 'c ClientTask =
  ct_session :: ClientSession
  ct_connected :: bool
  ct_keep_alive :: nat
  ct_keep_alive_enabled :: bool
  ct_filter_channel :: "'c FilteredChannel"
  ct_pending_forward :: "Packet option"

text \<open>What a task does: packets written to the broker, packets put into a consumer's channel (\<open>None\<close> is the default one).\<close>

datatype 'c action = Written Packet | Handed "'c option" Packet

text \<open>How a task ends: with the session state, or with an error and the session state.\<close>

type_synonym task_end = "(ClientErrorKind \<times> SessionState, SessionState) res"

type_synonym 'c task_step = "task_end option \<times> 'c ClientTask \<times> 'c action list"

datatype send_outcome = Sent | Full | Closed

datatype branch =
    Keep_alive
  | Forward bool
  | Read "(unit, Packet option) res" send_outcome
  | App "Packet option"

record loop_event =
  ev_elapsed :: nat
  ev_now :: nat
  ev_writes :: "Packet \<Rightarrow> bool"
  ev_uuid :: string
  ev_branch :: branch

section \<open>One iteration\<close>

definition consumer :: "'c ClientTask \<Rightarrow> Packet \<Rightarrow> 'c option" where
  "consumer t packet = map_of (ct_filter_channel t) (PacketType_from_packet packet)"

definition set_session :: "ClientSession \<Rightarrow> 'c ClientTask \<Rightarrow> 'c ClientTask" where
  "set_session cs t = t\<lparr>ct_session := cs\<rparr>"

text \<open>\<open>*connected.write().await = false\<close> and the return of the session state.\<close>

definition task_failed :: "string \<Rightarrow> ClientErrorKind \<Rightarrow> 'c action list \<Rightarrow> 'c ClientTask \<Rightarrow> 'c task_step" where
  "task_failed uuid e acts t =
    (let (s, cs) = end_session uuid (ct_session t) in (Some (Err (e, s)), (set_session cs t)\<lparr>ct_connected := False\<rparr>, acts))"

text \<open>The end of an iteration.\<close>

definition next_round :: "string \<Rightarrow> 'c action list \<Rightarrow> 'c ClientTask \<Rightarrow> 'c task_step" where
  "next_round uuid acts t =
    (if cs_connected (ct_session t) then (None, t, acts)
     else let (s, cs) = end_session uuid (ct_session t) in (Some (Ok s), (set_session cs t)\<lparr>ct_connected := False\<rparr>, acts))"

text \<open>The result of a call of the session: an error ends the task, otherwise \<open>k\<close> goes on.\<close>

definition after_call ::
    "string \<Rightarrow> 'a client_result \<Rightarrow> 'c ClientTask \<Rightarrow> ('a \<Rightarrow> 'c action list \<Rightarrow> 'c ClientTask \<Rightarrow> 'c task_step) \<Rightarrow> 'c task_step" where
  "after_call uuid h t k =
    (case h of
       (Ok x, cs, out) \<Rightarrow> k x (map Written out) (set_session cs t)
     | (Err e, cs, out) \<Rightarrow> task_failed uuid e (map Written out) (set_session cs t)
     | (Panic, cs, out) \<Rightarrow> (Some Panic, set_session cs t, map Written out))"

definition on_keep_alive_timer :: "loop_event \<Rightarrow> 'c ClientTask \<Rightarrow> 'c task_step" where
  "on_keep_alive_timer ev t =
    after_call (ev_uuid ev) (handle_keep_alive (ev_writes ev) (ev_now ev) (ct_session t)) t (\<lambda>_. next_round (ev_uuid ev))"

definition on_forward :: "loop_event \<Rightarrow> bool \<Rightarrow> 'c ClientTask \<Rightarrow> 'c task_step" where
  "on_forward ev sent t =
    (case ct_pending_forward t of
       None \<Rightarrow> next_round (ev_uuid ev) [] t
     | Some packet \<Rightarrow>
         if sent then next_round (ev_uuid ev) [Handed (consumer t packet) packet] (t\<lparr>ct_pending_forward := None\<rparr>)
         else task_failed (ev_uuid ev) CE_Channel [] t)"

definition hand_over :: "string \<Rightarrow> send_outcome \<Rightarrow> Packet \<Rightarrow> 'c action list \<Rightarrow> 'c ClientTask \<Rightarrow> 'c task_step" where
  "hand_over uuid outcome packet acts t =
    (case outcome of
       Sent \<Rightarrow> next_round uuid (acts @ [Handed (consumer t packet) packet]) t
     | Full \<Rightarrow> next_round uuid acts (t\<lparr>ct_pending_forward := Some packet\<rparr>)
     | Closed \<Rightarrow> task_failed uuid CE_Channel acts t)"

definition on_read :: "loop_event \<Rightarrow> (unit, Packet option) res \<Rightarrow> send_outcome \<Rightarrow> 'c ClientTask \<Rightarrow> 'c task_step" where
  "on_read ev r outcome t =
    (case read_next r of
       Ok (Some packet) \<Rightarrow>
         after_call (ev_uuid ev) (client_handle_packet (ev_writes ev) packet (ct_session t)) t (\<lambda>x acts t.
           case x of
             Some packet \<Rightarrow> hand_over (ev_uuid ev) outcome packet acts t
           | None \<Rightarrow> next_round (ev_uuid ev) acts t)
     | Ok None \<Rightarrow> task_failed (ev_uuid ev) CE_Transport [] t
     | Err e \<Rightarrow> task_failed (ev_uuid ev) e [] t
     | Panic \<Rightarrow> (Some Panic, t, []))"

text \<open>With automatic acknowledgement the application's own control packets are dropped (\<open>continue\<close>).\<close>

definition on_app :: "loop_event \<Rightarrow> Packet option \<Rightarrow> 'c ClientTask \<Rightarrow> 'c task_step option" where
  "on_app ev pending_packet t =
    (case pending_packet of
       None \<Rightarrow> Some (task_failed (ev_uuid ev) CE_Transport [] t)
     | Some inbound_packet \<Rightarrow>
         if qos_control inbound_packet \<and> ss_auto_ack (cs_state (ct_session t)) then Some (None, t, [])
         else
           map_option (\<lambda>h. after_call (ev_uuid ev) h t (\<lambda>_. next_round (ev_uuid ev)))
             (write_next (ev_writes ev) inbound_packet (ct_session t)))"

text \<open>
  The guards of the branches, and the timer. \<open>keep_alive_timer\<close> is called in the \<open>select!\<close> of every
  iteration, so it counts from the start of the iteration; \<open>ev_elapsed\<close> is how long after that start the
  branch of the event became ready. The branch that becomes ready first is taken, so once the timer is
  over no later one is: with the timer on, every other branch became ready within the keep-alive time.
  A task that is polled late may find the timer over and another branch ready as well, and takes either;
  when it takes the other branch, that branch counts as having been ready in time.
\<close>

definition keep_alive_timer :: "nat \<Rightarrow> nat \<Rightarrow> bool" where
  "keep_alive_timer keep_alive elapsed \<longleftrightarrow> keep_alive \<le> elapsed"

definition enabled :: "loop_event \<Rightarrow> 'c ClientTask \<Rightarrow> bool" where
  "enabled ev t \<longleftrightarrow>
    (case ev_branch ev of
       Keep_alive \<Rightarrow> ct_keep_alive_enabled t \<and> keep_alive_timer (ct_keep_alive t) (ev_elapsed ev)
     | Forward _ \<Rightarrow> ct_pending_forward t \<noteq> None \<and> (ct_keep_alive_enabled t \<longrightarrow> ev_elapsed ev \<le> ct_keep_alive t)
     | Read _ _ \<Rightarrow> ct_pending_forward t = None \<and> (ct_keep_alive_enabled t \<longrightarrow> ev_elapsed ev \<le> ct_keep_alive t)
     | App _ \<Rightarrow> ct_keep_alive_enabled t \<longrightarrow> ev_elapsed ev \<le> ct_keep_alive t)"

definition client_step :: "loop_event \<Rightarrow> 'c ClientTask \<Rightarrow> 'c task_step option" where
  "client_step ev t =
    (case ev_branch ev of
       Keep_alive \<Rightarrow> Some (on_keep_alive_timer ev t)
     | Forward sent \<Rightarrow> Some (on_forward ev sent t)
     | Read r outcome \<Rightarrow> Some (on_read ev r outcome t)
     | App p \<Rightarrow> on_app ev p t)"

section \<open>The whole task\<close>

definition task_loop_start :: "'c FilteredChannel \<Rightarrow> ClientSession \<Rightarrow> 'c ClientTask" where
  "task_loop_start filters cs =
    \<lparr>ct_session = cs, ct_connected = True, ct_keep_alive = ss_keep_alive (cs_state cs),
     ct_keep_alive_enabled = ss_keep_alive_enabled (cs_state cs), ct_filter_channel = filters, ct_pending_forward = None\<rparr>"

text \<open>The handshake, before the loop.\<close>

definition task_connect ::
    "(Packet \<Rightarrow> bool) \<Rightarrow> string \<Rightarrow> (unit, Packet option) res list \<Rightarrow> bool \<Rightarrow> 'c task_input \<Rightarrow> 'c task_step option" where
  "task_connect wr uuid reads clean_start ti =
    map_option (\<lambda>h. after_call uuid h ((task_loop_start (ti_filter_channel ti) (ti_session ti))\<lparr>ct_connected := False\<rparr>) (\<lambda>_ acts t.
        (None, task_loop_start (ti_filter_channel ti) (ct_session t), acts)))
      (client_connect wr uuid reads (ti_credentials ti) clean_start (ti_will ti) (ti_session ti))"

text \<open>
  \<open>client_runs t evs acts t'\<close>: from \<open>t\<close>, iterations with the events \<open>evs\<close> lead to \<open>t'\<close>, the task still
  running, and \<open>acts\<close> is what was done.
\<close>

inductive client_runs :: "'c ClientTask \<Rightarrow> loop_event list \<Rightarrow> 'c action list \<Rightarrow> 'c ClientTask \<Rightarrow> bool" where
  runs_stop: "client_runs t [] [] t"
| runs_step: "enabled ev t \<Longrightarrow> client_step ev t = Some (None, t1, acts) \<Longrightarrow> client_runs t1 evs acts' t' \<Longrightarrow>
    client_runs t (ev # evs) (acts @ acts') t'"

inductive_simps runs_Nil: "client_runs t [] acts t'"
inductive_cases runs_ConsE: "client_runs t (ev # evs) acts t'"

section \<open>Helpers of the client object\<close>

text \<open>These put a packet into the producer's channel; \<open>send\<close> says whether the channel takes it.\<close>

definition client_ping :: "(Packet \<Rightarrow> bool) \<Rightarrow> (Packet, unit) res" where
  "client_ping send = (let p = Pkt_PingRequest PingReq_default in if send p then Ok () else Err p)"

definition subscribe_request :: "u16 \<Rightarrow> string list \<Rightarrow> QoSLevel \<Rightarrow> Subscribe" where
  "subscribe_request packet_id topic_filter qos =
    fold (\<lambda>topic s. Subscribe_add_filter s (SubscriptionFilter_new topic qos)) topic_filter
      (Subscribe_default\<lparr>su_packet_id := packet_id\<rparr>)"

definition client_subscribe :: "(Packet \<Rightarrow> bool) \<Rightarrow> u16 \<Rightarrow> string list \<Rightarrow> QoSLevel \<Rightarrow> (Packet, unit) res" where
  "client_subscribe send packet_id topic_filter qos =
    (let p = Pkt_Subscribe (subscribe_request packet_id topic_filter qos) in if send p then Ok () else Err p)"

definition client_stop :: "(Packet \<Rightarrow> bool) \<Rightarrow> (ClientErrorKind, unit) res" where
  "client_stop send = (if send (Pkt_Disconnect Disconnect_default) then Ok () else Err CE_Transport)"

text \<open>
  \<open>try_start\<close>: \<open>started\<close> is what \<open>start\<close> returned, \<open>in_time\<close> whether the connected flag was seen before
  the waiting time was over, \<open>connected\<close> the flag afterwards.
\<close>

definition try_start :: "(Packet \<Rightarrow> bool) \<Rightarrow> bool \<Rightarrow> bool \<Rightarrow> (ClientErrorKind, 'c task_input) res \<Rightarrow> (ClientErrorKind, 'c task_input) res" where
  "try_start send in_time connected started =
    (case started of
       Panic \<Rightarrow> Panic
     | _ \<Rightarrow>
         if in_time then started
         else if connected then
           (case client_stop send of Err _ \<Rightarrow> Err CE_Transport | Panic \<Rightarrow> Panic | Ok _ \<Rightarrow> Err CE_Transport)
         else Err CE_Transport)"

section \<open>What the consumers get\<close>

text \<open>
  The same events without channels: every packet the session passes on reaches its consumer at once.
  Next to the packet passed on, the session afterwards.
\<close>

primrec option_list :: "'a option \<Rightarrow> 'a list" where
  "option_list None = []"
| "option_list (Some x) = [x]"

definition session_after :: "loop_event \<Rightarrow> ClientSession \<Rightarrow> Packet option \<times> ClientSession" where
  "session_after ev cs =
    (case ev_branch ev of
       Keep_alive \<Rightarrow> (None, session_of (handle_keep_alive (ev_writes ev) (ev_now ev) cs))
     | Forward _ \<Rightarrow> (None, cs)
     | Read r _ \<Rightarrow>
         (case read_next r of
            Ok (Some packet) \<Rightarrow>
              (case client_handle_packet (ev_writes ev) packet cs of (Ok x, cs', _) \<Rightarrow> (x, cs') | (_, cs', _) \<Rightarrow> (None, cs'))
          | _ \<Rightarrow> (None, cs))
     | App None \<Rightarrow> (None, cs)
     | App (Some packet) \<Rightarrow>
         if qos_control packet \<and> ss_auto_ack (cs_state cs) then (None, cs)
         else (case write_next (ev_writes ev) packet cs of Some h \<Rightarrow> (None, session_of h) | None \<Rightarrow> (None, cs)))"

fun received :: "loop_event list \<Rightarrow> ClientSession \<Rightarrow> Packet list" where
  "received [] cs = []"
| "received (ev # evs) cs = (let (x, cs') = session_after ev cs in option_list x @ received evs cs')"

fun handed :: "'c action list \<Rightarrow> Packet list" where
  "handed [] = []"
| "handed (Handed _ p # acts) = p # handed acts"
| "handed (Written _ # acts) = handed acts"

lemma handed_append [simp]: "handed (acts @ acts') = handed acts @ handed acts'"
  by (induction acts rule: handed.induct) simp_all

lemma handed_written [simp]: "handed (map Written ps) = []"
  by (induction ps) simp_all

definition placed_well :: "'c FilteredChannel \<Rightarrow> 'c action list \<Rightarrow> bool" where
  "placed_well filters acts \<longleftrightarrow> (\<forall>c p. Handed c p \<in> set acts \<longrightarrow> c = map_of filters (PacketType_from_packet p))"

lemma next_round_running:
  "next_round uuid acts t = (None, t', acts') \<longleftrightarrow> cs_connected (ct_session t) \<and> t' = t \<and> acts' = acts"
  by (auto simp: next_round_def split: prod.splits)

lemma task_failed_running [simp]: "task_failed uuid e acts t \<noteq> (None, t', acts')"
  by (auto simp: task_failed_def split: prod.splits)

lemma after_call_running:
  assumes "after_call uuid h t k = (None, t', acts)"
  obtains x cs out where "h = (Ok x, cs, out)" and "k x (map Written out) (set_session cs t) = (None, t', acts)"
  using assms by (cases h) (auto simp: after_call_def split: res.splits)

lemma set_session_frame [simp]:
  "ct_session (set_session cs t) = cs" "ct_pending_forward (set_session cs t) = ct_pending_forward t"
  "ct_filter_channel (set_session cs t) = ct_filter_channel t"
  by (simp_all add: set_session_def)

text \<open>One iteration that goes on, against the session alone.\<close>

lemma client_step_running:
  assumes "enabled ev t" and "client_step ev t = Some (None, t', acts)"
  shows "ct_session t' = snd (session_after ev (ct_session t)) \<and> ct_filter_channel t' = ct_filter_channel t \<and>
    placed_well (ct_filter_channel t) acts \<and>
    option_list (ct_pending_forward t) @ option_list (fst (session_after ev (ct_session t))) =
      handed acts @ option_list (ct_pending_forward t')"
proof (cases "ev_branch ev")
  case Keep_alive
  with assms(2) show ?thesis
    by (auto simp: client_step_def on_keep_alive_timer_def session_after_def next_round_running placed_well_def
        elim!: after_call_running)
next
  case (Forward sent)
  with assms show ?thesis
    by (auto simp: client_step_def on_forward_def enabled_def session_after_def next_round_running placed_well_def consumer_def
        split: option.splits if_splits)
next
  case (Read r outcome)
  with assms(1) have idle: "ct_pending_forward t = None" by (simp add: enabled_def)
  from Read assms(2) have "on_read ev r outcome t = (None, t', acts)" by (simp add: client_step_def)
  then obtain packet where p: "read_next r = Ok (Some packet)"
    by (auto simp: on_read_def split: res.splits option.splits)
  with \<open>on_read ev r outcome t = _\<close> idle Read show ?thesis
    by (auto simp: on_read_def session_after_def hand_over_def next_round_running placed_well_def consumer_def
        elim!: after_call_running split: option.splits send_outcome.splits)
next
  case (App p)
  with assms(2) show ?thesis
    by (auto simp: client_step_def on_app_def session_after_def next_round_running placed_well_def
        elim!: after_call_running split: option.splits if_splits)
qed

lemma client_runs_delivers:
  assumes "client_runs t evs acts t'"
  shows "option_list (ct_pending_forward t) @ received evs (ct_session t) = handed acts @ option_list (ct_pending_forward t')
    \<and> placed_well (ct_filter_channel t) acts"
  using assms
proof (induction rule: client_runs.induct)
  case (runs_step ev t t1 acts evs acts' t')
  note s = client_step_running [OF runs_step.hyps(1,2)]
  have "option_list (ct_pending_forward t) @ received (ev # evs) (ct_session t) =
    (option_list (ct_pending_forward t) @ option_list (fst (session_after ev (ct_session t)))) @ received evs (ct_session t1)"
    using s by (simp add: case_prod_unfold Let_def)
  also have "\<dots> = handed acts @ option_list (ct_pending_forward t1) @ received evs (ct_session t1)" using s by simp
  finally show ?case using runs_step.IH s by (auto simp: placed_well_def)
qed (simp add: placed_well_def)

text \<open>The events determine a run.\<close>

lemma client_runs_unique:
  assumes "client_runs t evs acts t1" and "client_runs t evs acts' t2"
  shows "acts' = acts \<and> t2 = t1"
  using assms
proof (induction arbitrary: acts' t2 rule: client_runs.induct)
  case (runs_stop t)
  then show ?case by (simp add: runs_Nil)
next
  case (runs_step ev t t0 acts evs acts1 t1)
  from runs_step.prems obtain t0' a a' where
    e: "client_step ev t = Some (None, t0', a)" "acts' = a @ a'" and rest: "client_runs t0' evs a' t2"
    by (rule runs_ConsE)
  from e(1) runs_step.hyps(2) have "t0' = t0" "a = acts" by simp_all
  with runs_step.IH [of a' t2] rest e(2) show ?case by simp
qed

section \<open>Invariant, ends of the task\<close>

lemma handle_keep_alive_keeps: "client_inv cs \<Longrightarrow> client_inv (session_of (handle_keep_alive wr now cs))"
  by (auto simp: handle_keep_alive_def send_packet_def client_inv_def send_table_def recv_table_def)

lemma session_after_keeps: "client_inv cs \<Longrightarrow> client_inv (snd (session_after ev cs))"
  using client_handle_packet_keeps [of cs "ev_writes ev"] write_next_keeps [of cs "ev_writes ev"]
    handle_keep_alive_keeps [of cs "ev_writes ev"]
  by (auto simp: session_after_def session_of_def split: branch.splits res.splits option.splits prod.splits)
    (metis fst_conv snd_conv)+

definition client_moves :: "'c ClientTask \<Rightarrow> 'c ClientTask \<Rightarrow> bool" where
  "client_moves t t' \<longleftrightarrow> (\<exists>ev acts. enabled ev t \<and> client_step ev t = Some (None, t', acts))"

interpretation client: transition_system client_moves "\<lambda>t. client_inv (ct_session t)"
  by unfold_locales (auto simp: client_moves_def dest!: client_step_running intro: session_after_keeps)

lemma runs_moves: "client_runs t evs acts t' \<Longrightarrow> client_moves\<^sup>*\<^sup>* t t'"
  by (induction rule: client_runs.induct) (auto simp: client_moves_def intro: converse_rtranclp_into_rtranclp)

lemma client_runs_inv: "client_runs t evs acts t' \<Longrightarrow> client_inv (ct_session t) \<Longrightarrow> client_inv (ct_session t')"
  by (rule client.steps_keep [OF runs_moves])

text \<open>Every iteration ends, and a task that ends without a panic leaves its flag down and its session unusable.\<close>

lemma client_step_returns: "client_step ev t \<noteq> None"
  by (auto simp: client_step_def on_app_def write_next_returns simp del: not_None_eq split: branch.split option.split)

lemma next_round_end: "next_round uuid acts t = (Some r, t', acts') \<Longrightarrow>
  \<not> ct_connected t' \<and> \<not> cs_usable (ct_session t') \<and> r = Ok (cs_state (ct_session t))"
  by (auto simp: next_round_def end_session_def set_session_def split: if_splits)

lemma task_failed_end: "task_failed uuid e acts t = (Some r, t', acts') \<Longrightarrow>
  \<not> ct_connected t' \<and> \<not> cs_usable (ct_session t') \<and> r = Err (e, cs_state (ct_session t))"
  by (auto simp: task_failed_def end_session_def set_session_def)

definition ended_well :: "'c task_step \<Rightarrow> bool" where
  "ended_well h \<longleftrightarrow> (case h of
      (Some r, t', _) \<Rightarrow> r = Panic \<or> \<not> ct_connected t' \<and> \<not> cs_usable (ct_session t')
    | (None, _, _) \<Rightarrow> True)"

lemma ended_wells [simp]: "ended_well (next_round uuid acts t)" "ended_well (task_failed uuid e acts t)"
  "ended_well (None, t, acts)" "ended_well (Some Panic, t, acts)"
  by (auto simp: ended_well_def dest: next_round_end task_failed_end split: prod.splits option.splits)

lemma after_call_ended: "(\<And>x acts t. ended_well (k x acts t)) \<Longrightarrow> ended_well (after_call uuid h t k)"
  by (auto simp: after_call_def split: prod.splits res.splits)

lemma client_step_ended: "client_step ev t = Some h \<Longrightarrow> ended_well h"
  by (auto simp: client_step_def on_keep_alive_timer_def on_forward_def on_read_def on_app_def hand_over_def
      intro!: after_call_ended split: branch.splits option.splits res.splits send_outcome.splits if_splits)

text \<open>\<open>stop\<close>: the DISCONNECT it sends is written, and the task ends with its session state.\<close>

lemma stop_step:
  assumes "ev_branch ev = App (Some (Pkt_Disconnect d))" and "ev_writes ev (Pkt_Disconnect d)"
  shows "\<exists>t'. client_step ev t = Some (Some (Ok (cs_state (ct_session t))), t', [Written (Pkt_Disconnect d)]) \<and>
    \<not> ct_connected t' \<and> \<not> cs_stream_open (ct_session t')"
  using assms
  by (simp add: client_step_def on_app_def qos_control_def write_next_def send_packet_def after_call_def shutdown_def
      next_round_def end_session_def set_session_def)

section \<open>Keep alive\<close>

text \<open>
  An idle client pings: in an iteration in which no branch became ready within the keep-alive time, the
  timer is the only branch left, and a PINGREQ is written.
\<close>

lemma idle_client_pings:
  assumes "ct_keep_alive_enabled t" and "cs_connected (ct_session t)" and "enabled ev t" and "ct_keep_alive t < ev_elapsed ev"
    and "ev_writes ev (Pkt_PingRequest PingReq_default)"
  shows "\<exists>t'. client_step ev t = Some (None, t', [Written (Pkt_PingRequest PingReq_default)])"
proof -
  have "ev_branch ev = Keep_alive" using assms(1,3,4) by (auto simp: enabled_def split: branch.splits)
  with assms show ?thesis
    by (auto simp: client_step_def on_keep_alive_timer_def handle_keep_alive_def send_packet_def after_call_def
        next_round_def set_session_def)
qed

text \<open>
  The timer starts again with every iteration, so a client that only receives never pings: QoS 0 messages
  that come a little faster than the keep-alive time keep it silent for any length of time.
\<close>

definition message_event :: "nat \<Rightarrow> Publish \<Rightarrow> loop_event" where
  "message_event d p =
    \<lparr>ev_elapsed = d, ev_now = 0, ev_writes = (\<lambda>_. True), ev_uuid = [], ev_branch = Read (Ok (Some (Pkt_Publish p))) Sent\<rparr>"

lemma message_step:
  assumes "has_qos p AtMostOnce" and "cs_connected (ct_session t)"
  shows "client_step (message_event d p) t = Some (None, t, [Handed (consumer t (Pkt_Publish p)) (Pkt_Publish p)])"
  using assms
  by (simp add: message_event_def client_step_def on_read_def read_next_def client_handle_packet_def handle_recv_publish_def
      has_qos_any [OF assms(1)] pass_on_def after_call_def hand_over_def next_round_def set_session_def consumer_def)

lemma message_enabled:
  assumes "ct_pending_forward t = None" and "ct_keep_alive_enabled t"
  shows "enabled (message_event d p) t \<longleftrightarrow> d \<le> ct_keep_alive t"
  using assms by (simp add: enabled_def message_event_def)

lemma busy_client_silent:
  assumes "has_qos p AtMostOnce" and "cs_connected (ct_session t)" and "ct_pending_forward t = None"
    and "ct_keep_alive_enabled t" and "d \<le> ct_keep_alive t"
  shows "client_runs t (replicate n (message_event d p)) (replicate n (Handed (consumer t (Pkt_Publish p)) (Pkt_Publish p))) t"
proof (induction n)
  case (Suc n)
  from runs_step [OF message_enabled [THEN iffD2, OF assms(3-5)] message_step [OF assms(1,2)] Suc] show ?case by simp
qed (simp add: runs_stop)

text \<open>The time a run takes: the sum over its iterations.\<close>

definition run_time :: "loop_event list \<Rightarrow> nat" where
  "run_time evs = sum_list (map ev_elapsed evs)"

lemma run_time_messages: "run_time (replicate n (message_event d p)) = n * d"
  by (simp add: run_time_def message_event_def sum_list_replicate)

section \<open>From the builder to the loop\<close>

text \<open>The handshake succeeds exactly when the CONNACK says so; the loop starts with what the server set.\<close>

lemma task_connect_ok:
  assumes "client_connect wr uuid reads (ti_credentials ti) clean_start (ti_will ti) (ti_session ti) = Some (Ok ack, cs, out)"
  shows "task_connect wr uuid reads clean_start ti = Some (None, task_loop_start (ti_filter_channel ti) cs, map Written out)"
  using assms by (simp add: task_connect_def after_call_def)

end
