(* ===== verification/Handshake.thy ===== *)
theory Handshake
  imports Broker_Service Client_Loop
begin

text \<open>
  Client and broker together, over the wire: the CONNECT of the client's session is decoded and answered by
  the broker, whose CONNACK is decoded and taken by the client.
\<close>

section \<open>The CONNACK on the wire\<close>

text \<open>The fields the broker sets in a CONNACK; the others keep their defaults.\<close>

definition plain_ack :: "ConnAck \<Rightarrow> bool" where
  "plain_ack ack \<longleftrightarrow> (\<exists>f r e k. ack = ConnAck_default\<lparr>ca_ack_flags := f, ca_reason := r,
    ca_session_expiry_interval := e, ca_server_keep_alive := k\<rparr>)"

lemma plain_ack_sendable:
  assumes "plain_ack ack"
  shows "ConnAck_sendable ack"
proof -
  obtain f r e k where ack: "ack = ConnAck_default\<lparr>ca_ack_flags := f, ca_reason := r, ca_session_expiry_interval := e, ca_server_keep_alive := k\<rparr>"
    using assms by (auto simp: plain_ack_def)
  have wf: "ConnAck_wf ack" by (simp add: ack ConnAck_wf_def ConnAck_default_def wf_string_opt_def)
  have short: "length (entries_bytes (ConnAck_entries ack)) \<le> 8"
    by (cases e; cases k) (simp_all add: ack ConnAck_entries_def ConnAck_default_def entries_bytes_def entry_opt_def entry_bytes_def)
  then have "unat (ConnAck_property_size ack) < 128"
    by (simp add: connack.size_entries [OF wf] unat_of_nat_u32)
  with short have "length (ConnAck_body ack) \<le> 14" by (simp add: ConnAck_body_def length_vbi_1)
  with wf show ?thesis by (simp add: ConnAck_sendable_def) (simp add: ack ConnAck_default_def)
qed

lemma first_ack_plain:
  assumes "co_client_id connect \<noteq> []"
  shows "plain_ack (first_ack uuid connect pool)" and "plain_ack (ConnAck_set_session_present (first_ack uuid connect pool) True)"
  using assms
  by (auto simp: plain_ack_def first_ack_def connect_id_def connect_expiry_def connect_keep_alive_def Let_def ConnAck_default_def
      ConnAck_set_server_keep_alive_def ConnAck_set_session_expiry_def ConnAck_set_session_present_def split: option.split)

section \<open>The keep-alive time\<close>

text \<open>The client's wish, brought into the broker's bounds.\<close>

definition agreed_keep_alive :: "u16 \<Rightarrow> SessionPool \<Rightarrow> u16" where
  "agreed_keep_alive k pool =
    (if k < SessionPool_default_keep_alive_secs pool then SessionPool_default_keep_alive_secs pool
     else if SessionPool_max_keep_alive_secs pool < k then SessionPool_max_keep_alive_secs pool else k)"

lemma first_ack_keep_alive:
  assumes "SessionPool_max_keep_alive_secs pool \<noteq> 0"
  shows "(case ca_server_keep_alive (first_ack uuid connect pool) of Some k \<Rightarrow> k | None \<Rightarrow> co_keep_alive connect) =
      agreed_keep_alive (co_keep_alive connect) pool"
    and "snd (connect_keep_alive connect pool ack) = keep_alive_factor (agreed_keep_alive (co_keep_alive connect) pool)"
  using assms
  by (auto simp: agreed_keep_alive_def first_ack_def connect_id_def connect_expiry_def connect_keep_alive_def Let_def
      ConnAck_default_def ConnAck_set_server_keep_alive_def ConnAck_set_session_expiry_def split: option.split)

lemma new_session_keep_alive:
  assumes "connect_session ops now connect sid ka ack st = (ack', r, st')" and "resumed st connect sid = None"
  shows "se_keep_alive (bk_sessions st' ! r) = ka"
proof -
  have "se_keep_alive (bk_sessions st2 ! r2) = ka" if "new_session ops now sid will ka n st1 = (r2, st2)" for will n st1 r2 st2
    using that by (auto simp: new_session_def new_channel_def Let_def Session_set_connected_def Session_new_def)
  with assms show ?thesis
    by (auto simp: connect_session_def Let_def resumed_def known_def SessionPool_activate_def SessionPool_get_active_def
        split: if_splits option.splits prod.splits)
qed

lemma handle_connect_keep_alive:
  assumes "handle_connect ops io now uuid connect st = (Ok (Some r), st', out)" and "\<forall>p. io_write io p"
    and "resumed st connect (connect_sid uuid connect) = None" and "SessionPool_max_keep_alive_secs (bk_pool st) \<noteq> 0"
  shows "se_keep_alive (bk_sessions st' ! r) = keep_alive_factor (agreed_keep_alive (co_keep_alive connect) (bk_pool st))"
proof -
  have keep: "se_keep_alive (ss[r := Session_set_session_expiry e (ss ! r)] ! r) = se_keep_alive (ss ! r)" for ss e r
    by (cases "r < length ss") (simp_all add: Session_set_session_expiry_def list_update_beyond)
  show ?thesis
    using assms new_session_keep_alive [OF _ assms(3)] first_ack_keep_alive(2) [OF assms(4)]
    by (auto simp: handle_connect_unfold Let_def write_packet_def finish_def keep split: if_splits prod.splits option.splits)
qed

section \<open>The client's side\<close>

lemma connect_request_fields:
  assumes "ss_client_id s = Some cid"
  shows "co_client_id (connect_request uuid cred clean_start will s) = cid"
    and "co_keep_alive (connect_request uuid cred clean_start will s) = of_nat (ss_keep_alive s)"
  using assms
  by (auto simp: connect_request_def Let_def Connect_set_will_message_def Connect_set_will_def Connect_set_will_qos_def
      Connect_set_will_retain_def Connect_set_password_def Connect_set_username_def Connect_set_session_expiry_interval_def
      Connect_set_clean_start_def split: option.split)

lemma client_takes_connack:
  assumes "ss_client_id (cs_state cs) = Some cid" and "ca_reason ack = R_Success"
  shows "\<exists>cs'. handle_connack ack cs = Some (Ok ack, cs', []) \<and> cs_connected cs' \<and>
    ss_keep_alive (cs_state cs') = (case ca_server_keep_alive ack of Some k \<Rightarrow> unat k | None \<Rightarrow> ss_keep_alive (cs_state cs)) \<and>
    client_inv cs' = client_inv cs"
  using assms
  by (auto simp: handle_connack_def Let_def upd_state_def client_inv_def send_table_def recv_table_def split: option.split)

text \<open>
  What a client without a will sends survives the wire, when its identifier is a string MQTT can carry and
  its credentials are too and are not empty.
\<close>

definition credentials_ok :: "(string \<times> string) option \<Rightarrow> bool" where
  "credentials_ok cred \<longleftrightarrow>
    (case cred of Some (u, p) \<Rightarrow> wf_string u \<and> u \<noteq> [] \<and> p \<noteq> [] \<and> length p \<le> 65535 | None \<Rightarrow> True)"

lemma plain_connect_sendable:
  assumes "wf_string cid" and "wf_string u" and "length p \<le> 65535"
    and c: "c = (Connect_new uuid)\<lparr>co_keep_alive := ka, co_client_id := cid, co_session_expiry_interval := e, co_username := u, co_password := p, co_connect_flags := f\<rparr>"
    and flags: "f AND CONNECT_FLAG_WILL = 0" "f AND CONNECT_FLAG_USERNAME \<noteq> 0 \<longleftrightarrow> u \<noteq> []" "f AND CONNECT_FLAG_PASSWORD \<noteq> 0 \<longleftrightarrow> p \<noteq> []"
  shows "Connect_sendable c"
proof -
  have wf: "Connect_wf c" by (simp add: c Connect_wf_def Connect_new_def wf_string_opt_def)
  have "wf_string MQTT_PROTOCOL_NAME"
    by (simp add: wf_string_def rust_str_def as_bytes_def MQTT_PROTOCOL_NAME_def)
  then have payload: "Connect_payload_wf c"
    using assms(1-3) by (simp add: c Connect_payload_wf_def Connect_new_def wf_string_opt_def)
  have short: "length (entries_bytes (Connect_entries c)) \<le> 5"
    by (cases e) (simp_all add: c Connect_new_def Connect_entries_def entries_bytes_def entry_opt_def entry_vec_def entry_bytes_def)
  then have "unat (Connect_property_size c) < 128" by (simp add: connect.size_entries [OF wf] unat_of_nat_u32)
  moreover have "co_protocol_name c = ''MQTT''" "co_client_id c = cid" "co_username c = u" "co_password c = p"
    "co_will_properties c = None" "co_will_payload c = []" "co_will_topic c = None"
    by (simp_all add: c Connect_new_def MQTT_PROTOCOL_NAME_def)
  ultimately have "length (Connect_body c) < 2097152"
    using short assms(1-3)
    by (simp add: Connect_body_def length_vbi_1 will_bytes_def username_bytes_def password_bytes_def string_bytes_def array_bytes_def
        wf_string_def)
  with wf payload flags show ?thesis
    by (simp add: Connect_sendable_def Connect_flags_agree_def) (simp add: c Connect_new_def Connect_will_def Connect_username_def Connect_password_def)
qed

lemma connect_request_sendable:
  assumes "ss_client_id s = Some cid" and "wf_string cid" and "credentials_ok cred"
  shows "Connect_sendable (connect_request uuid cred clean_start None s)"
proof -
  let ?f = "(0 AND NOT CONNECT_FLAG_CLEAN_START) OR push_bit 1 (of_bool clean_start) :: u8"
  let ?e = "if of_nat (ss_session_expiry s) = (0 :: u32) then None else Some (of_nat (ss_session_expiry s))"
  show ?thesis
  proof (cases cred)
    case None
    show ?thesis
      by (rule plain_connect_sendable [OF assms(2), where u = "[]" and p = "[]" and uuid = uuid and ka = "of_nat (ss_keep_alive s)" and e = ?e and f = ?f])
        (use None assms in \<open>simp_all add: connect_request_def Let_def Connect_new_def Connect_set_clean_start_def
          Connect_set_session_expiry_interval_def connect_masks wf_string_def rust_str_def as_bytes_def\<close>)
  next
    case (Some up)
    then obtain u p where up: "cred = Some (u, p)" by (cases up) simp
    let ?f' = "(((?f AND NOT CONNECT_FLAG_USERNAME) OR push_bit 7 1) AND NOT CONNECT_FLAG_PASSWORD) OR push_bit 6 1"
    show ?thesis
      by (rule plain_connect_sendable [OF assms(2), where u = u and p = "as_bytes p" and uuid = uuid and ka = "of_nat (ss_keep_alive s)" and e = ?e and f = ?f'])
        (use up assms in \<open>simp_all add: connect_request_def Let_def Connect_new_def Connect_set_clean_start_def credentials_ok_def
          Connect_set_session_expiry_interval_def Connect_set_username_def Connect_set_password_def connect_masks as_bytes_def\<close>)
  qed
qed

section \<open>The handshake\<close>

lemma handshake_over_wire:
  assumes c_eq: "c = connect_request uuid cred clean_start will (cs_state cs)"
    and inv: "broker_inv st" and io: "\<forall>p. io_write io p" "\<forall>p. wr p" and max: "SessionPool_max_keep_alive_secs (bk_pool st) \<noteq> 0"
    and cs: "cs_usable cs" "ss_client_id (cs_state cs) = Some cid" "cid \<noteq> []" "ss_keep_alive (cs_state cs) < 65536"
    and c: "Connect_sendable c"
    and cap: "SessionPool_get_active cid (bk_pool st) \<noteq> None \<or>
      \<not> SessionPool_at_capacity (bk_pool st) (cf_max_active_sessions (bk_config st))"
  shows "\<exists>bs ack r st' bs' cs'. Packet_encode (Pkt_Connect c) = Ok bs \<and>
    decode u bs = Ok (Some (Pkt_Connect c, length bs), []) \<and>
    handle_connect ops io now u' c st = (Ok (Some r), st', [Pkt_ConnAck ack]) \<and>
    Packet_encode (Pkt_ConnAck ack) = Ok bs' \<and> decode u bs' = Ok (Some (Pkt_ConnAck ack, length bs'), []) \<and>
    client_connect wr uuid (Ok (Some (Pkt_ConnAck ack)) # reads) cred clean_start will cs =
      Some (Ok ack, cs', [Pkt_Connect c]) \<and>
    cs_connected cs' \<and> SessionPool_get_active cid (bk_pool st') = Some r \<and>
    ss_keep_alive (cs_state cs') = unat (agreed_keep_alive (of_nat (ss_keep_alive (cs_state cs))) (bk_pool st)) \<and>
    se_keep_alive (bk_sessions st' ! r) =
      (case resumed st c cid of None \<Rightarrow> (ss_keep_alive (cs_state cs') * 3) div 2 | Some k \<Rightarrow> se_keep_alive (bk_sessions st ! k))"
proof -
  note f = connect_request_fields [OF cs(2), of uuid cred clean_start will, folded c_eq]
  have sid: "connect_sid u' c = cid" using f(1) cs(3) by (simp add: connect_sid_def)
  obtain ack r st' where h: "connect_post st c cid (first_ack u' c (bk_pool st)) ack r st'"
    "handle_connect ops io now u' c st = (Ok (Some r), st', [Pkt_ConnAck ack])"
    using cap io(1)
    by (cases rule: handle_connect_cases [OF inv sid [symmetric] refl, of ops io now]) (auto simp: write_packet_def finish_def)
  have ack: "ack = first_ack u' c (bk_pool st) \<or> ack = ConnAck_set_session_present (first_ack u' c (bk_pool st)) True"
    and act: "sp_active (bk_pool st') cid = Some r"
    using h(1) by (auto simp: connect_post_def)
  have plain: "plain_ack ack" using ack first_ack_plain [of c u'] f(1) cs(3) by auto
  have reason: "ca_reason ack = R_Success"
    using ack first_ack_fields(1) [of u' c "bk_pool st"] by (auto simp: ConnAck_set_session_present_def)
  have ska: "ca_server_keep_alive ack = ca_server_keep_alive (first_ack u' c (bk_pool st))"
    using ack by (auto simp: ConnAck_set_session_present_def)
  obtain cs' where t: "handle_connack ack cs = Some (Ok ack, cs', [])" "cs_connected cs'"
    "ss_keep_alive (cs_state cs') = (case ca_server_keep_alive ack of Some k \<Rightarrow> unat k | None \<Rightarrow> ss_keep_alive (cs_state cs))"
    using client_takes_connack [OF cs(2) reason] by blast
  have ka: "ss_keep_alive (cs_state cs') = unat (agreed_keep_alive (co_keep_alive c) (bk_pool st))"
    using first_ack_keep_alive(1) [OF max, of c u'] cs(4) f(2) t(3) ska
    by (auto simp: unat_of_nat split: option.splits)
  have s: "Packet_sendable (Pkt_Connect c)" "Packet_sendable (Pkt_ConnAck ack)"
    using c plain_ack_sendable [OF plain] by simp_all
  obtain bs where e: "Connect_encode c = Ok bs" using Packet_encode_wire [OF s(1)] by auto
  have "client_connect wr uuid (Ok (Some (Pkt_ConnAck ack)) # reads) cred clean_start will cs = Some (Ok ack, cs', [Pkt_Connect c])"
    using cs(1) io(2) e t(1) by (simp add: client_connect_def Let_def read_next_def flip: c_eq)
  moreover have "se_keep_alive (bk_sessions st' ! r) =
      (case resumed st c cid of None \<Rightarrow> (ss_keep_alive (cs_state cs') * 3) div 2 | Some k \<Rightarrow> se_keep_alive (bk_sessions st ! k))"
    using handle_connect_keep_alive [OF h(2) io(1) _ max] sid ka h(1)
    by (simp add: keep_alive_factor_def connect_post_def split: option.splits)
  ultimately show ?thesis
    using h(2) t(2) ka f(2) act Packet_encode_wire [OF s(1)] Packet_encode_wire [OF s(2)]
      decode_wire [OF s(1), of u "[]"] decode_wire [OF s(2), of u "[]"]
    by (auto simp: SessionPool_get_active_def)
qed

text \<open>A broker that is full: the client learns the reason and is not connected.\<close>

lemma refused_over_wire:
  assumes c_eq: "c = connect_request uuid cred clean_start will (cs_state cs)"
    and inv: "broker_inv st" and io: "\<forall>p. io_write io p" "io_shutdown io" "\<forall>p. wr p"
    and cs: "cs_usable cs" "ss_client_id (cs_state cs) = Some cid" "cid \<noteq> []" and c: "Connect_sendable c"
    and full: "SessionPool_get_active cid (bk_pool st) = None" "SessionPool_at_capacity (bk_pool st) (cf_max_active_sessions (bk_config st))"
  shows "\<exists>ack bs' cs'. handle_connect ops io now u' c st = (Ok None, st, [Pkt_ConnAck ack]) \<and>
    Packet_encode (Pkt_ConnAck ack) = Ok bs' \<and> decode u bs' = Ok (Some (Pkt_ConnAck ack, length bs'), []) \<and>
    client_connect wr uuid (Ok (Some (Pkt_ConnAck ack)) # reads) cred clean_start will cs =
      Some (Err (CE_Protocol R_QuotaExceeded), cs', [Pkt_Connect c]) \<and> \<not> cs_connected cs'"
proof -
  let ?ack = "(first_ack u' c (bk_pool st))\<lparr>ca_reason := R_QuotaExceeded\<rparr>"
  note f = connect_request_fields [OF cs(2), of uuid cred clean_start will, folded c_eq]
  have sid: "connect_sid u' c = cid" using f(1) cs(3) by (simp add: connect_sid_def)
  have h: "handle_connect ops io now u' c st = (Ok None, st, [Pkt_ConnAck ?ack])"
    using full io by (simp add: handle_connect_unfold sid Let_def write_packet_def finish_def)
  have "plain_ack ?ack" using first_ack_plain(1) [of c u' "bk_pool st"] f(1) cs(3) by (auto simp: plain_ack_def ConnAck_default_def)
  then have s: "Packet_sendable (Pkt_ConnAck ?ack)" by (simp add: plain_ack_sendable)
  obtain bs where e: "Connect_encode c = Ok bs" using Packet_encode_wire [of "Pkt_Connect c"] c by auto
  have "client_connect wr uuid (Ok (Some (Pkt_ConnAck ?ack)) # reads) cred clean_start will cs =
      Some (Err (CE_Protocol R_QuotaExceeded), cs\<lparr>cs_connected := False\<rparr>, [Pkt_Connect c])"
    using cs(1) io(3) e by (simp add: client_connect_def Let_def read_next_def handle_connack_def flip: c_eq)
  with h Packet_encode_wire [OF s] decode_wire [OF s, of u "[]"] show ?thesis by simp
qed

section \<open>A QoS 1 message from the broker to a client\<close>

lemma puback_sendable: "Packet_sendable (Pkt_PubAck (PubResp_new_puback_with_packet_id pid))"
  by (simp add: PubResp_sendable_as_def PubResp_sendable_def PubResp_new_puback_with_packet_id_def PubResp_default_def PubResp_wf_def
      PubResp_abbreviated_def PubResp_body_def wf_string_opt_def PubResp_property_size_def
      size_for_string_property_opt_def UserProperty_property_size_def UserProperty_pairs_def)

lemma puback_decoded_id: "pr_packet_id (PubResp_decoded p) = pr_packet_id p"
  by (simp add: PubResp_decoded_def)

lemma decoded_publish_same [simp]:
  "has_qos (Publish_decoded p) q = has_qos p q" "pu_packet_id (Publish_decoded p) = pu_packet_id p"
  by (simp_all add: Publish_decoded_def has_qos_def Publish_qos_def)

lemma client_acks_qos1:
  assumes "has_qos p AtLeastOnce" and "pu_packet_id p = Some pid" and "ss_auto_ack (cs_state cs)"
    and "0 < ss_qos_recv_remaining (cs_state cs)" and "wr (Pkt_PubAck (PubResp_new_puback_with_packet_id pid))"
  shows "\<exists>cs'. client_handle_packet wr (Pkt_Publish p) cs =
      (Ok (Some (Pkt_Publish p)), cs', [Pkt_PubAck (PubResp_new_puback_with_packet_id pid)]) \<and>
    ss_qos_recv_remaining (cs_state cs') = ss_qos_recv_remaining (cs_state cs)"
  using assms recv_qos1_auto [OF assms(3,4), of wr pid p]
  by (auto simp: client_handle_packet_def handle_recv_publish_def has_qos_any [OF assms(1)] pass_on_def)

lemma qos1_delivery_over_wire:
  assumes p: "has_qos p AtLeastOnce" "pu_packet_id p = Some pid" "Publish_sendable p"
    and r: "r < length (bk_sessions st)" and io: "\<forall>p. io_write io p" "\<forall>p. wr p"
    and cs: "ss_auto_ack (cs_state cs)" "0 < ss_qos_recv_remaining (cs_state cs)"
  shows "\<exists>bs cs' ack bs' ack' st'. on_control io (SC_Deliver p) cn st = (Ok (Some cn), st, [Pkt_Publish p]) \<and>
    Packet_encode (Pkt_Publish p) = Ok bs \<and> decode u bs = Ok (Some (Pkt_Publish (Publish_decoded p), length bs), []) \<and>
    client_handle_packet wr (Pkt_Publish (Publish_decoded p)) cs = (Ok (Some (Pkt_Publish (Publish_decoded p))), cs', [Pkt_PubAck ack]) \<and>
    Packet_encode (Pkt_PubAck ack) = Ok bs' \<and> decode u bs' = Ok (Some (Pkt_PubAck ack', length bs'), []) \<and>
    handle_packet ops io (Pkt_PubAck ack') r st = (Ok (), st', []) \<and>
    pending_in st' r = (pending_in st r)(pid := None)"
proof -
  let ?ack = "PubResp_new_puback_with_packet_id pid"
  obtain cs' where c: "client_handle_packet wr (Pkt_Publish (Publish_decoded p)) cs = (Ok (Some (Pkt_Publish (Publish_decoded p))), cs', [Pkt_PubAck ?ack])"
    using client_acks_qos1 [of "Publish_decoded p" pid cs wr] p cs io(2) by auto
  have s: "Packet_sendable (Pkt_Publish p)" using p(3) by simp
  have id: "pr_packet_id (PubResp_decoded ?ack) = pid"
    by (simp add: puback_decoded_id PubResp_new_puback_with_packet_id_def)
  have "on_control io (SC_Deliver p) cn st = (Ok (Some cn), st, [Pkt_Publish p])"
    using io(1) by (simp add: on_control_def write_packet_def finish_def)
  moreover have "\<exists>st'. handle_packet ops io (Pkt_PubAck (PubResp_decoded ?ack)) r st = (Ok (), st', []) \<and>
      pending_in st' r = (pending_in st r)(pid := None)"
    using r by (simp add: handle_packet_def finish_def id fun_eq_iff pending_in_def upd_session_def Session_acknowledge_def delete_conv')
  ultimately show ?thesis
    using c Packet_encode_wire [OF s] Packet_encode_wire [OF puback_sendable [of pid]]
      decode_wire [OF s, of u "[]"] decode_wire [OF puback_sendable, of u pid "[]"]
    by simp
qed

end
