(* ===== verification/End_To_End.thy ===== *)
theory End_To_End
  imports Handshake Broker_Channels
begin

text \<open>
  A QoS 1 message from one client to another: the sender's session, the wire, the broker's connection
  loop, the channel of the subscribed session, the wire, the receiver's session, and the two
  acknowledgements on their way back.
\<close>

section \<open>Packets on the wire\<close>

text \<open>\<open>p'\<close> is what the other side reads when \<open>p\<close> is written.\<close>

definition over_wire :: "string \<Rightarrow> Packet \<Rightarrow> Packet \<Rightarrow> bool" where
  "over_wire u p p' \<longleftrightarrow> (\<exists>bs. Packet_encode p = Ok bs \<and> decode u bs = Ok (Some (p', length bs), []))"

lemma publish_over_wire: "Publish_sendable p \<Longrightarrow> over_wire u (Pkt_Publish p) (Pkt_Publish (Publish_decoded p))"
  using Packet_encode_wire [of "Pkt_Publish p"] decode_wire [of "Pkt_Publish p" u "[]"] by (auto simp: over_wire_def)

lemma puback_over_wire:
  "\<exists>ack. over_wire u (Pkt_PubAck (PubResp_new_puback_with_packet_id pid)) (Pkt_PubAck ack) \<and> pr_packet_id ack = pid"
  using Packet_encode_wire [OF puback_sendable [of pid]] decode_wire [OF puback_sendable [of pid], of u "[]"]
  by (auto simp: over_wire_def puback_decoded_id PubResp_new_puback_with_packet_id_def)

text \<open>Whether a QoS 1 or 2 message can be sent does not depend on its identifier and its level.\<close>

lemma set_qos_wf_header:
  assumes "fh_packet_type h = PT_Publish" and "wf_header h"
  shows "wf_header (FixedHeader_set_qos h q)"
proof -
  have y: "push_bit 1 (QoSLevel_as_u8 q) AND NOT 0x0f = 0" by (cases q) simp_all
  have "(x AND NOT QOS_MASK) AND NOT 0x0f = (x AND NOT 0x0f) AND NOT QOS_MASK" for x :: u8
    by (simp only: and.assoc and.commute and.left_commute)
  then have "((fh_flags h AND NOT QOS_MASK) OR push_bit 1 (QoSLevel_as_u8 q)) AND NOT 0x0f = 0"
    using assms unfolding bit.conj_disj_distrib2 y by (simp add: wf_header_def)
  then show ?thesis using assms(1) by (simp add: wf_header_def) (simp add: FixedHeader_set_qos_def)
qed

lemma same_sendable:
  assumes "Publish_sendable p" and "pu_packet_id p = Some k" and "g \<noteq> AtMostOnce"
  shows "Publish_sendable ((Publish_set_qos (Publish_decoded p) g)\<lparr>pu_packet_id := Some pid\<rparr>)" (is "Publish_sendable ?m")
proof -
  have h: "has_qos ?m g" by simp
  have "Publish_id_agrees ?m"
    using h assms(3) by (simp add: Publish_id_agrees_def has_qos_def Publish_qos_def)
  moreover have "length (Publish_body ?m) = length (Publish_body p)"
    using assms(2) by (simp add: Publish_body_def Publish_set_qos_def Publish_decoded_def Publish_entries_def
        Publish_property_size_def packet_id_bytes_def payload_bytes_def put_u16_def)
  ultimately show ?thesis
    using assms(1) set_qos_wf_header [of "pu_fixed_header p" g]
    by (simp add: Publish_sendable_def Publish_wf_def) (simp add: Publish_set_qos_def Publish_decoded_def)
qed

section \<open>The sender and the broker\<close>

lemma on_packet_served:
  assumes "cn_connected cn" and "cn_session cn = Some r" and "handle_packet ops io packet r st = (Ok (), st', out)"
  shows "on_packet ops io now uuid packet cn st = (Ok (Some cn), st', out)"
  using assms by (simp add: on_packet_def and_then_def finish_def)

lemma client_takes_puback:
  assumes "awaits (send_table cs) (pr_packet_id ack) = Some QP_PubAck"
  shows "\<exists>cs'. client_handle_packet wr (Pkt_PubAck ack) cs = (Ok (Some (Pkt_PubAck ack)), cs', []) \<and>
    awaits (send_table cs') = (awaits (send_table cs))(pr_packet_id ack := None)"
  using follows_pass_on [OF recv_puback_follows [of "pr_packet_id ack" cs], of "Pkt_PubAck ack"] assms
  by (auto simp: client_handle_packet_def follows_def)

lemma publish_from_client:
  assumes p: "has_qos p AtLeastOnce" and sendable: "\<forall>pid. Publish_sendable (with_id p pid)"
    and cs: "length (send_table cs) < 65535" "0 < ss_qos_send_remaining (cs_state cs)"
      "case pu_packet_id p of Some pid \<Rightarrow> map_of (send_table cs) pid = None | None \<Rightarrow> ss_auto_packet_id (cs_state cs)"
    and st: "broker_inv st" and cn: "cn_connected cn" "cn_session cn = Some r" and io: "\<forall>p. io_write io p" "\<forall>p. wr p"
  shows "\<exists>pid cs1 m st' ack cs2. write_next wr (Pkt_Publish p) cs = Some (Ok (), cs1, [Pkt_Publish (with_id p pid)]) \<and>
    m = Publish_decoded (with_id p pid) \<and> over_wire u (Pkt_Publish (with_id p pid)) (Pkt_Publish m) \<and>
    route_publish ops m (se_id (bk_sessions st ! r)) st = Ok st' \<and>
    on_packet ops io now uuid (Pkt_Publish m) cn st = (Ok (Some cn), st', [Pkt_PubAck (PubResp_new_puback_with_packet_id pid)]) \<and>
    over_wire u (Pkt_PubAck (PubResp_new_puback_with_packet_id pid)) (Pkt_PubAck ack) \<and>
    client_handle_packet wr (Pkt_PubAck ack) cs1 = (Ok (Some (Pkt_PubAck ack)), cs2, []) \<and>
    awaits (send_table cs2) = awaits (send_table cs)"
proof -
  obtain pid cs1 where w: "write_next wr (Pkt_Publish p) cs = Some (Ok (), cs1, [Pkt_Publish (with_id p pid)])"
    and free: "awaits (send_table cs) pid = None" and a: "awaits (send_table cs1) = (awaits (send_table cs))(pid \<mapsto> QP_PubAck)"
    using write_publish_accepted [OF p _ cs, of wr] io(2) by (auto simp: write_next_def send_packet_def)
  let ?m = "Publish_decoded (with_id p pid)"
  have m: "has_qos ?m AtLeastOnce" "pu_packet_id ?m = Some pid"
    using p by (simp_all add: with_id_def has_qos_def Publish_qos_def Publish_decoded_def)
  obtain st' where r: "route_publish ops ?m (se_id (bk_sessions st ! r)) st = Ok st'"
    "handle_packet ops io (Pkt_Publish ?m) r st = (Ok (), st', [Pkt_PubAck (PubResp_new_puback_with_packet_id pid)])"
    using publish_acknowledged [OF st m, of io ops r] io(1) by blast
  obtain ack where ack: "over_wire u (Pkt_PubAck (PubResp_new_puback_with_packet_id pid)) (Pkt_PubAck ack)" "pr_packet_id ack = pid"
    using puback_over_wire by blast
  obtain cs2 where "client_handle_packet wr (Pkt_PubAck ack) cs1 = (Ok (Some (Pkt_PubAck ack)), cs2, [])"
    "awaits (send_table cs2) = (awaits (send_table cs1))(pid := None)"
    using client_takes_puback [of cs1 ack wr] a ack(2) by auto
  moreover from this(2) have "awaits (send_table cs2) = awaits (send_table cs)"
    using free by (simp add: a fun_upd_idem)
  ultimately show ?thesis
    using w r(1) on_packet_served [OF cn r(2)] ack(1) publish_over_wire sendable by blast
qed

section \<open>The broker and the receiver\<close>

lemma deliver_to_client:
  assumes p: "has_qos p AtLeastOnce" "pu_packet_id p = Some pid" "Publish_sendable p"
    and r: "r < length (bk_sessions st)" and cn: "cn_connected cn" "cn_session cn = Some r"
    and io: "\<forall>p. io_write io p" "\<forall>p. wr p"
    and cs: "ss_auto_ack (cs_state cs)" "0 < ss_qos_recv_remaining (cs_state cs)"
  shows "\<exists>cs' ack st'. on_control io (SC_Deliver p) cn st = (Ok (Some cn), st, [Pkt_Publish p]) \<and>
    over_wire u (Pkt_Publish p) (Pkt_Publish (Publish_decoded p)) \<and>
    client_handle_packet wr (Pkt_Publish (Publish_decoded p)) cs =
      (Ok (Some (Pkt_Publish (Publish_decoded p))), cs', [Pkt_PubAck (PubResp_new_puback_with_packet_id pid)]) \<and>
    over_wire u (Pkt_PubAck (PubResp_new_puback_with_packet_id pid)) (Pkt_PubAck ack) \<and>
    on_packet ops io now uuid (Pkt_PubAck ack) cn st = (Ok (Some cn), st', []) \<and>
    pending_in st' r = (pending_in st r)(pid := None) \<and> bk_channels st' = bk_channels st \<and>
    fst (se_control (bk_sessions st' ! r)) = fst (se_control (bk_sessions st ! r))"
proof -
  obtain cs' where c: "client_handle_packet wr (Pkt_Publish (Publish_decoded p)) cs =
      (Ok (Some (Pkt_Publish (Publish_decoded p))), cs', [Pkt_PubAck (PubResp_new_puback_with_packet_id pid)])"
    using client_acks_qos1 [of "Publish_decoded p" pid cs wr] p cs io(2) by auto
  obtain ack where ack: "over_wire u (Pkt_PubAck (PubResp_new_puback_with_packet_id pid)) (Pkt_PubAck ack)" "pr_packet_id ack = pid"
    using puback_over_wire by blast
  let ?st = "upd_session r (\<lambda>s. snd (Session_acknowledge pid s)) st"
  have "handle_packet ops io (Pkt_PubAck ack) r st = (Ok (), ?st, [])"
    by (simp add: handle_packet_def finish_def ack(2))
  note o = on_packet_served [OF cn this, of now uuid]
  have "pending_in ?st r = (pending_in st r)(pid := None)" "bk_channels ?st = bk_channels st"
    "fst (se_control (bk_sessions ?st ! r)) = fst (se_control (bk_sessions st ! r))"
    using r by (simp_all add: fun_eq_iff pending_in_def upd_session_def Session_acknowledge_def delete_conv')
  moreover have "on_control io (SC_Deliver p) cn st = (Ok (Some cn), st, [Pkt_Publish p])"
    using io(1) by (simp add: on_control_def write_packet_def finish_def)
  ultimately show ?thesis using c ack(1) o publish_over_wire [OF p(3)] by blast
qed

section \<open>From client to client\<close>

text \<open>The connection \<open>cn\<close> serves session \<open>r\<close> and listens to its channel.\<close>

definition serves :: "'c BrokerState \<Rightarrow> Conn \<Rightarrow> nat \<Rightarrow> bool" where
  "serves st cn r \<longleftrightarrow> cn_connected cn \<and> cn_session cn = Some r \<and> cn_control cn = Some (fst (se_control (bk_sessions st ! r))) \<and>
    SessionPool_get_active (se_id (bk_sessions st ! r)) (bk_pool st) = Some r"

lemma min_qos1: "q \<noteq> AtMostOnce \<Longrightarrow> min AtLeastOnce q = AtLeastOnce"
  by (cases q) (simp_all add: min_def less_eq_QoSLevel_def)

text \<open>Routing to a session with one matching subscription and an empty channel.\<close>

lemma routed_to_subscriber:
  fixes st :: "'c BrokerState"
  assumes inv: "broker_inv st" and own: "channels_own st" and f: "fifo ops queue capacity" "0 < capacity"
    and m: "has_qos m AtLeastOnce" and s: "s = bk_sessions st ! r" and act: "SessionPool_get_active (se_id s) (bk_pool st) = Some r"
    and subs: "matching_subscribers (bk_tree st) (pu_topic_name m) = (Ok subs :: (BrokerError, Subscriber list) res)"
    and sub: "filter (\<lambda>x. sb_session_id x = se_id s) subs = [sub]" "sb_qos sub \<noteq> AtMostOnce"
    and sender: "sender \<noteq> se_id s" and idle: "queue_of queue r st = []"
    and route: "route_publish ops m sender st = Ok st1"
    and out: "out = (Publish_set_qos m AtLeastOnce)\<lparr>pu_packet_id := Some (se_next_packet_id s)\<rparr>"
  shows "queue_of queue r st1 = [SC_Deliver out]" "pending_in st1 r = (pending_in st r)(se_next_packet_id s \<mapsto> out)"
    "fst (se_control (bk_sessions st1 ! r)) = fst (se_control s)" "channels_own st1" "r < length (bk_sessions st1)"
proof -
  note single = copies_for_single [OF sender, where q = AtLeastOnce and sub = sub, OF min_qos1 [OF sub(2)] _ sub(1), where publish = m]
  have h: "copies_for m AtLeastOnce sender (se_id s) subs (se_next_packet_id s) = [out]"
    using single(1) by (simp add: out)
  have q: "queue_of queue r st1 = [SC_Deliver out]"
    "bk_sessions st1 ! r = Session_track_qos_publish (se_next_packet_id s) out (snd (Session_next_packet_id s))"
    using route_publish_queue [OF inv own f(1) m act subs, of sender] route h idle f(2) single(2) [where s = s]
    by (simp_all add: out s)
  show "queue_of queue r st1 = [SC_Deliver out]" by (rule q(1))
  show "pending_in st1 r = (pending_in st r)(se_next_packet_id s \<mapsto> out)"
    by (simp add: fun_eq_iff pending_in_def q(2) track_fields s)
  show "fst (se_control (bk_sessions st1 ! r)) = fst (se_control s)"
    by (simp add: q(2) Session_track_qos_publish_def Session_next_packet_id_def Let_def)
  show "channels_own st1" by (rule channels_own_keeps [OF own keeps_route_publish [OF route]])
  have "r < length (bk_sessions st)"
    using pool_invD(6) [OF broker_invD(1) [OF inv]] act by (auto simp: SessionPool_get_active_def)
  then show "r < length (bk_sessions st1)" using evolvesD(2) [OF evolves_route_publish [OF route]] by simp
qed

lemma qos1_from_client_to_client:
  fixes st :: "'c BrokerState"
  assumes inv: "broker_inv st" and own: "channels_own st" and f: "fifo ops queue capacity" "0 < capacity"
    and A: "serves st cnA rA" and B: "serves st cnB rB"
    and p: "has_qos p AtLeastOnce" and sendable: "\<forall>pid. Publish_sendable (with_id p pid)"
    and csA: "length (send_table csA) < 65535" "0 < ss_qos_send_remaining (cs_state csA)"
      "case pu_packet_id p of Some pid \<Rightarrow> map_of (send_table csA) pid = None | None \<Rightarrow> ss_auto_packet_id (cs_state csA)"
    and csB: "ss_auto_ack (cs_state csB)" "0 < ss_qos_recv_remaining (cs_state csB)"
    and io: "\<forall>p. io_write io p" "\<forall>p. wr p"
    and sub: "matching_subscribers (bk_tree st) (pu_topic_name p) = (Ok subs :: (BrokerError, Subscriber list) res)"
      "filter (\<lambda>s. sb_session_id s = se_id (bk_sessions st ! rB)) subs = [sub]" "sb_qos sub \<noteq> AtMostOnce"
    and AB: "se_id (bk_sessions st ! rA) \<noteq> se_id (bk_sessions st ! rB)" and idle: "queue_of queue rB st = []"
  shows "\<exists>pid csA1 m st1 ackA csA2 pid' out st2 csB' ackB st3.
    write_next wr (Pkt_Publish p) csA = Some (Ok (), csA1, [Pkt_Publish (with_id p pid)]) \<and>
    over_wire u (Pkt_Publish (with_id p pid)) (Pkt_Publish m) \<and>
    on_packet ops io now uuid (Pkt_Publish m) cnA st = (Ok (Some cnA), st1, [Pkt_PubAck (PubResp_new_puback_with_packet_id pid)]) \<and>
    over_wire u (Pkt_PubAck (PubResp_new_puback_with_packet_id pid)) (Pkt_PubAck ackA) \<and>
    client_handle_packet wr (Pkt_PubAck ackA) csA1 = (Ok (Some (Pkt_PubAck ackA)), csA2, []) \<and>
    awaits (send_table csA2) = awaits (send_table csA) \<and>
    pending_in st1 rB pid' = Some out \<and>
    recv_control ops (the (cn_control cnB)) st1 = Some (SC_Deliver out, st2) \<and>
    on_control io (SC_Deliver out) cnB st2 = (Ok (Some cnB), st2, [Pkt_Publish out]) \<and>
    over_wire u (Pkt_Publish out) (Pkt_Publish (Publish_decoded out)) \<and>
    client_handle_packet wr (Pkt_Publish (Publish_decoded out)) csB =
      (Ok (Some (Pkt_Publish (Publish_decoded out))), csB', [Pkt_PubAck (PubResp_new_puback_with_packet_id pid')]) \<and>
    pu_topic_name (Publish_decoded out) = pu_topic_name p \<and>
    payload_bytes (pu_payload (Publish_decoded out)) = payload_bytes (pu_payload p) \<and>
    over_wire u (Pkt_PubAck (PubResp_new_puback_with_packet_id pid')) (Pkt_PubAck ackB) \<and>
    on_packet ops io now uuid (Pkt_PubAck ackB) cnB st2 = (Ok (Some cnB), st3, []) \<and>
    pending_in st3 rB = (pending_in st rB)(pid' := None) \<and> queue_of queue rB st3 = []"
proof -
  note servesD = A [unfolded serves_def] B [unfolded serves_def]
  obtain pid csA1 m st1 ackA csA2 where a:
    "write_next wr (Pkt_Publish p) csA = Some (Ok (), csA1, [Pkt_Publish (with_id p pid)])"
    "m = Publish_decoded (with_id p pid)" "over_wire u (Pkt_Publish (with_id p pid)) (Pkt_Publish m)"
    "route_publish ops m (se_id (bk_sessions st ! rA)) st = Ok st1"
    "on_packet ops io now uuid (Pkt_Publish m) cnA st = (Ok (Some cnA), st1, [Pkt_PubAck (PubResp_new_puback_with_packet_id pid)])"
    "over_wire u (Pkt_PubAck (PubResp_new_puback_with_packet_id pid)) (Pkt_PubAck ackA)"
    "client_handle_packet wr (Pkt_PubAck ackA) csA1 = (Ok (Some (Pkt_PubAck ackA)), csA2, [])"
    "awaits (send_table csA2) = awaits (send_table csA)"
    using publish_from_client [OF p sendable csA inv _ _ io, of cnA rA] servesD(1) by blast
  have m: "has_qos m AtLeastOnce" "pu_topic_name m = pu_topic_name p" "payload_bytes (pu_payload m) = payload_bytes (pu_payload p)"
    using p by (simp_all add: a(2) with_id_def has_qos_def Publish_qos_def Publish_decoded_def payload_bytes_def)
  define pid' where "pid' = se_next_packet_id (bk_sessions st ! rB)"
  define out where "out = (Publish_set_qos m AtLeastOnce)\<lparr>pu_packet_id := Some pid'\<rparr>"
  note routed = routed_to_subscriber [OF inv own f m(1) refl _ sub(1) [folded m(2)] sub(2,3) AB idle a(4) out_def [unfolded pid'_def]]
  have q: "queue_of queue rB st1 = [SC_Deliver out]" "pending_in st1 rB = (pending_in st rB)(pid' \<mapsto> out)"
    "fst (se_control (bk_sessions st1 ! rB)) = fst (se_control (bk_sessions st ! rB))" "channels_own st1" "rB < length (bk_sessions st1)"
    using routed servesD(2) by (simp_all add: pid'_def)
  obtain st2 where rc: "recv_control ops (the (cn_control cnB)) st1 = Some (SC_Deliver out, st2)" "queue_of queue rB st2 = []"
    "bk_sessions st2 = bk_sessions st1"
    using recv_control_queue [OF f(1) q(4,5,1)] q(3) servesD(2) by auto
  have o: "has_qos out AtLeastOnce" "pu_packet_id out = Some pid'" "Publish_sendable out"
    using same_sendable [of "with_id p pid" pid AtLeastOnce pid'] sendable
    by (simp_all add: out_def a(2) with_id_def)
  have r2: "rB < length (bk_sessions st2)" using q(5) rc(3) by simp
  obtain csB' ackB st3 where d: "on_control io (SC_Deliver out) cnB st2 = (Ok (Some cnB), st2, [Pkt_Publish out])"
    "over_wire u (Pkt_Publish out) (Pkt_Publish (Publish_decoded out))"
    "client_handle_packet wr (Pkt_Publish (Publish_decoded out)) csB =
      (Ok (Some (Pkt_Publish (Publish_decoded out))), csB', [Pkt_PubAck (PubResp_new_puback_with_packet_id pid')])"
    "over_wire u (Pkt_PubAck (PubResp_new_puback_with_packet_id pid')) (Pkt_PubAck ackB)"
    "on_packet ops io now uuid (Pkt_PubAck ackB) cnB st2 = (Ok (Some cnB), st3, [])"
    "pending_in st3 rB = (pending_in st2 rB)(pid' := None)" "bk_channels st3 = bk_channels st2"
    "fst (se_control (bk_sessions st3 ! rB)) = fst (se_control (bk_sessions st2 ! rB))"
    using deliver_to_client [OF o r2 _ _ io csB, of cnB] servesD(2) by blast
  have "pending_in st3 rB = (pending_in st rB)(pid' := None)" "queue_of queue rB st3 = []"
    using d(6-8) q(2) rc(2,3) by (simp_all add: pending_in_def fun_eq_iff queue_of_def)
  moreover have "pu_topic_name (Publish_decoded out) = pu_topic_name p" "payload_bytes (pu_payload (Publish_decoded out)) = payload_bytes (pu_payload p)"
    using m(2,3) by (simp_all add: out_def Publish_decoded_def Publish_set_qos_def payload_bytes_def)
  moreover have "pending_in st1 rB pid' = Some out" by (simp add: q(2))
  ultimately show ?thesis using a d(1-5) rc(1) by blast
qed

section \<open>A QoS 2 message is never completed\<close>

text \<open>Of the acknowledgements of the QoS protocols, the broker only writes PUBACK.\<close>

definition no_qos2 :: "Packet \<Rightarrow> bool" where
  "no_qos2 p \<longleftrightarrow> (\<forall>k pid. control_of p = Some (k, pid) \<longrightarrow> k = QP_PubAck)"

definition writes_no_qos2 :: "('c, 'a) handled \<Rightarrow> bool" where
  "writes_no_qos2 h \<longleftrightarrow> (\<forall>p \<in> set (snd (snd h)). no_qos2 p)"

lemma no_qos2_packets [simp]:
  "no_qos2 (Pkt_PingResponse a)" "no_qos2 (Pkt_SubAck b)" "no_qos2 (Pkt_UnsubAck c)" "no_qos2 (Pkt_PubAck d)"
  "no_qos2 (Pkt_Publish e)" "no_qos2 (Pkt_Disconnect f)" "no_qos2 (Pkt_ConnAck g)"
  by (simp_all add: no_qos2_def)

lemma writes_ends: "writes_no_qos2 (finish x st)" "writes_no_qos2 (m, st, [])"
  by (simp_all add: writes_no_qos2_def finish_def)

lemma writes_write: "no_qos2 p \<Longrightarrow> writes_no_qos2 (k st) \<Longrightarrow> writes_no_qos2 (write_packet io p st k)"
  by (cases "k st") (simp add: write_packet_def writes_no_qos2_def)

lemma writes_run: "(\<And>x. writes_no_qos2 (k x)) \<Longrightarrow> writes_no_qos2 (run m st k)"
  by (cases m) (simp_all add: run_def writes_ends)

lemma writes_and_then:
  assumes "writes_no_qos2 h" and "\<And>x st. writes_no_qos2 (k x st)"
  shows "writes_no_qos2 (and_then h k)"
proof -
  obtain m st out where h: "h = (m, st, out)" by (metis prod_cases3)
  show ?thesis
  proof (cases m)
    case (Ok x)
    then show ?thesis using assms(1) assms(2) [of x st] by (cases "k x st") (auto simp: h and_then_def writes_no_qos2_def)
  qed (use assms(1) in \<open>simp_all add: h and_then_def writes_no_qos2_def\<close>)
qed

lemmas writes_intros = writes_ends writes_write writes_run writes_and_then

lemma writes_redeliver: "writes_no_qos2 (redeliver io r pending st)"
  by (induction io r pending st rule: redeliver.induct) (auto intro!: writes_intros)

lemma writes_handle_packet: "writes_no_qos2 (handle_packet ops io packet r st)"
  by (cases packet) (auto simp: handle_packet_def Let_def intro!: writes_intros split: option.split)

lemma writes_pre_connect: "writes_no_qos2 (handle_pre_connect ops io now uuid packet st)"
  by (cases packet) (auto simp: handle_pre_connect_def handle_connect_unfold Let_def intro!: writes_intros split: prod.split)

lemma branches_write_no_qos2:
  "writes_no_qos2 (on_packet ops io now uuid packet cn st)" "writes_no_qos2 (on_control io msg cn st)"
  "writes_no_qos2 (on_keep_alive ops io cn st)" "writes_no_qos2 (on_eof ops cn st)" "writes_no_qos2 (on_error ops cn st)"
  by (auto simp: on_packet_def serve_def on_control_def on_keep_alive_def on_eof_def on_error_def Let_def
      intro!: writes_intros writes_handle_packet writes_pre_connect writes_redeliver split: option.split prod.split SessionControl.split)

text \<open>What some branch of a connection loop writes.\<close>

definition broker_writes :: "'c channel_ops \<Rightarrow> Packet \<Rightarrow> bool" where
  "broker_writes ops p \<longleftrightarrow> (\<exists>io now uuid packet msg cn st h. p \<in> set (snd (snd h)) \<and>
    h \<in> {on_packet ops io now uuid packet cn st, on_control io msg cn st, on_keep_alive ops io cn st, on_eof ops cn st, on_error ops cn st})"

lemma broker_writes_no_qos2: "broker_writes ops p \<Longrightarrow> no_qos2 p"
  unfolding broker_writes_def
  by (elim exE conjE insertE emptyE)
    (simp_all add: branches_write_no_qos2 [unfolded writes_no_qos2_def, THEN bspec])

text \<open>A client that handles packets one after the other.\<close>

fun client_after :: "(Packet \<Rightarrow> bool) \<Rightarrow> Packet list \<Rightarrow> ClientSession \<Rightarrow> ClientSession" where
  "client_after wr [] cs = cs"
| "client_after wr (p # ps) cs = client_after wr ps (session_of (client_handle_packet wr p cs))"

lemma recv_publish_send_table: "send_table (session_of (handle_recv_publish wr publish cs)) = send_table cs"
  by (auto simp: handle_recv_publish_def recv_qos1_def recv_qos2_def take_recv_slot_def send_packet_def Let_def table_laws
      simp flip: recv_table_def split: option.splits res.splits QoSLevel.splits)

lemma client_still_awaits:
  assumes "no_qos2 p" and "awaits (send_table cs) pid = Some QP_PubRec"
  shows "awaits (send_table (session_of (client_handle_packet wr p cs))) pid = Some QP_PubRec"
proof (cases p)
  case (Pkt_PubAck a)
  show ?thesis
    using recv_puback_follows [of "pr_packet_id a" cs] assms(2)
    by (cases "pr_packet_id a = pid")
      (auto simp: client_handle_packet_def Pkt_PubAck pass_on_def follows_def split: if_splits)
next
  case (Pkt_Publish m)
  then show ?thesis
    using assms(2) recv_publish_send_table [of wr m cs]
    by (cases "handle_recv_publish wr m cs") (auto simp: client_handle_packet_def pass_on_def split: res.splits)
qed (use assms in \<open>auto simp: client_handle_packet_def pass_on_def no_qos2_def shutdown_def send_table_def\<close>)

lemma qos2_exchange_stays_open:
  assumes "awaits (send_table cs) pid = Some QP_PubRec" and "\<forall>p \<in> set ps. broker_writes ops p"
  shows "awaits (send_table (client_after wr ps cs)) pid = Some QP_PubRec"
  using assms by (induction wr ps cs rule: client_after.induct) (auto simp: client_still_awaits dest: broker_writes_no_qos2)

end
