(* ===== verification/Socket.thy ===== *)
theory Socket
  imports Prelude
begin

text \<open>
  The socket a packet stream reads and writes (\<open>vaux-async/src/stream/mod.rs\<close>): a plain connection or
  one of the two sides of a TLS connection behind one interface. The sockets themselves are parameters:
  what each operation answers, and the socket and the buffer after it.
\<close>

record ('s, 'cx, 'buf) async_io =
  ai_poll_read :: "'s \<Rightarrow> 'cx \<Rightarrow> 'buf \<Rightarrow> (unit, unit) res option \<times> 's \<times> 'buf"
  ai_poll_write :: "'s \<Rightarrow> 'cx \<Rightarrow> bytes \<Rightarrow> (unit, nat) res option \<times> 's"
  ai_poll_flush :: "'s \<Rightarrow> 'cx \<Rightarrow> (unit, unit) res option \<times> 's"
  ai_poll_shutdown :: "'s \<Rightarrow> 'cx \<Rightarrow> (unit, unit) res option \<times> 's"

datatype ('t, 'c, 's) AsyncMqttStream = AS_TcpStream 't | AS_ClientTlsStream 'c | AS_ServerTlsStream 's

record ('t, 'c, 's, 'cx, 'buf) sockets =
  io_tcp :: "('t, 'cx, 'buf) async_io"
  io_client_tls :: "('c, 'cx, 'buf) async_io"
  io_server_tls :: "('s, 'cx, 'buf) async_io"

text \<open>The operations; an answer of \<open>None\<close> is \<open>Poll::Pending\<close>.\<close>

fun poll_read :: "('t, 'c, 's, 'cx, 'buf) sockets \<Rightarrow> ('t, 'c, 's) AsyncMqttStream \<Rightarrow> 'cx \<Rightarrow> 'buf \<Rightarrow>
    (unit, unit) res option \<times> ('t, 'c, 's) AsyncMqttStream \<times> 'buf" where
  "poll_read env (AS_TcpStream stream) cx buf =
    (case ai_poll_read (io_tcp env) stream cx buf of (r, stream, buf) \<Rightarrow> (r, AS_TcpStream stream, buf))"
| "poll_read env (AS_ClientTlsStream stream) cx buf =
    (case ai_poll_read (io_client_tls env) stream cx buf of (r, stream, buf) \<Rightarrow> (r, AS_ClientTlsStream stream, buf))"
| "poll_read env (AS_ServerTlsStream stream) cx buf =
    (case ai_poll_read (io_server_tls env) stream cx buf of (r, stream, buf) \<Rightarrow> (r, AS_ServerTlsStream stream, buf))"

fun poll_write :: "('t, 'c, 's, 'cx, 'buf) sockets \<Rightarrow> ('t, 'c, 's) AsyncMqttStream \<Rightarrow> 'cx \<Rightarrow> bytes \<Rightarrow>
    (unit, nat) res option \<times> ('t, 'c, 's) AsyncMqttStream" where
  "poll_write env (AS_TcpStream stream) cx buf = map_prod (\<lambda>r. r) AS_TcpStream (ai_poll_write (io_tcp env) stream cx buf)"
| "poll_write env (AS_ClientTlsStream stream) cx buf = map_prod (\<lambda>r. r) AS_ClientTlsStream (ai_poll_write (io_client_tls env) stream cx buf)"
| "poll_write env (AS_ServerTlsStream stream) cx buf = map_prod (\<lambda>r. r) AS_ServerTlsStream (ai_poll_write (io_server_tls env) stream cx buf)"

fun poll_flush :: "('t, 'c, 's, 'cx, 'buf) sockets \<Rightarrow> ('t, 'c, 's) AsyncMqttStream \<Rightarrow> 'cx \<Rightarrow>
    (unit, unit) res option \<times> ('t, 'c, 's) AsyncMqttStream" where
  "poll_flush env (AS_TcpStream stream) cx = map_prod (\<lambda>r. r) AS_TcpStream (ai_poll_flush (io_tcp env) stream cx)"
| "poll_flush env (AS_ClientTlsStream stream) cx = map_prod (\<lambda>r. r) AS_ClientTlsStream (ai_poll_flush (io_client_tls env) stream cx)"
| "poll_flush env (AS_ServerTlsStream stream) cx = map_prod (\<lambda>r. r) AS_ServerTlsStream (ai_poll_flush (io_server_tls env) stream cx)"

fun poll_shutdown :: "('t, 'c, 's, 'cx, 'buf) sockets \<Rightarrow> ('t, 'c, 's) AsyncMqttStream \<Rightarrow> 'cx \<Rightarrow>
    (unit, unit) res option \<times> ('t, 'c, 's) AsyncMqttStream" where
  "poll_shutdown env (AS_TcpStream stream) cx = map_prod (\<lambda>r. r) AS_TcpStream (ai_poll_shutdown (io_tcp env) stream cx)"
| "poll_shutdown env (AS_ClientTlsStream stream) cx = map_prod (\<lambda>r. r) AS_ClientTlsStream (ai_poll_shutdown (io_client_tls env) stream cx)"
| "poll_shutdown env (AS_ServerTlsStream stream) cx = map_prod (\<lambda>r. r) AS_ServerTlsStream (ai_poll_shutdown (io_server_tls env) stream cx)"

section \<open>The wrapper is the socket it wraps\<close>

datatype ('cx, 'buf) call = Read 'cx 'buf | Write 'cx bytes | Flush 'cx | Shutdown 'cx

datatype 'buf answer = Did_read "(unit, unit) res option" 'buf | Did_write "(unit, nat) res option" | Done "(unit, unit) res option"

text \<open>A sequence of calls on a socket, and on the wrapper.\<close>

fun ai_call :: "('s, 'cx, 'buf) async_io \<Rightarrow> ('cx, 'buf) call \<Rightarrow> 's \<Rightarrow> 'buf answer \<times> 's" where
  "ai_call ai (Read cx buf) s = (case ai_poll_read ai s cx buf of (r, s, buf) \<Rightarrow> (Did_read r buf, s))"
| "ai_call ai (Write cx bs) s = map_prod Did_write (\<lambda>s. s) (ai_poll_write ai s cx bs)"
| "ai_call ai (Flush cx) s = map_prod Done (\<lambda>s. s) (ai_poll_flush ai s cx)"
| "ai_call ai (Shutdown cx) s = map_prod Done (\<lambda>s. s) (ai_poll_shutdown ai s cx)"

fun ai_calls :: "('s, 'cx, 'buf) async_io \<Rightarrow> ('cx, 'buf) call list \<Rightarrow> 's \<Rightarrow> 'buf answer list \<times> 's" where
  "ai_calls ai [] s = ([], s)"
| "ai_calls ai (c # cs) s = (case ai_call ai c s of (a, s) \<Rightarrow> map_prod ((#) a) (\<lambda>s. s) (ai_calls ai cs s))"

definition wrapper :: "('t, 'c, 's, 'cx, 'buf) sockets \<Rightarrow> (('t, 'c, 's) AsyncMqttStream, 'cx, 'buf) async_io" where
  "wrapper env = \<lparr>ai_poll_read = poll_read env, ai_poll_write = poll_write env, ai_poll_flush = poll_flush env,
    ai_poll_shutdown = poll_shutdown env\<rparr>"

text \<open>An embedding of a socket that every operation respects is respected by every sequence of calls.\<close>

locale embedded_socket =
  fixes inner :: "('a, 'cx, 'buf) async_io" and outer :: "('b, 'cx, 'buf) async_io" and emb :: "'a \<Rightarrow> 'b"
  assumes read: "ai_poll_read outer (emb s) cx buf = (case ai_poll_read inner s cx buf of (r, s, buf) \<Rightarrow> (r, emb s, buf))"
    and writes: "ai_poll_write outer (emb s) cx bs = map_prod (\<lambda>r. r) emb (ai_poll_write inner s cx bs)"
    and flush: "ai_poll_flush outer (emb s) cx = map_prod (\<lambda>r. r) emb (ai_poll_flush inner s cx)"
    and shutdown: "ai_poll_shutdown outer (emb s) cx = map_prod (\<lambda>r. r) emb (ai_poll_shutdown inner s cx)"
begin

lemma call_embedded: "ai_call outer c (emb s) = map_prod (\<lambda>a. a) emb (ai_call inner c s)"
  by (cases c) (simp_all add: read writes flush shutdown map_prod_def case_prod_beta)

lemma calls_embedded: "ai_calls outer cs (emb s) = map_prod (\<lambda>a. a) emb (ai_calls inner cs s)"
  by (induction cs arbitrary: s) (simp_all add: call_embedded map_prod_def case_prod_beta)

end

interpretation tcp: embedded_socket "io_tcp env" "wrapper env" AS_TcpStream for env
  by unfold_locales (simp_all add: wrapper_def)

interpretation client_tls: embedded_socket "io_client_tls env" "wrapper env" AS_ClientTlsStream for env
  by unfold_locales (simp_all add: wrapper_def)

interpretation server_tls: embedded_socket "io_server_tls env" "wrapper env" AS_ServerTlsStream for env
  by unfold_locales (simp_all add: wrapper_def)

lemma wrapper_transparent:
  "ai_calls (wrapper env) cs (AS_TcpStream t) = map_prod (\<lambda>a. a) AS_TcpStream (ai_calls (io_tcp env) cs t)"
  "ai_calls (wrapper env) cs (AS_ClientTlsStream c) = map_prod (\<lambda>a. a) AS_ClientTlsStream (ai_calls (io_client_tls env) cs c)"
  "ai_calls (wrapper env) cs (AS_ServerTlsStream s) = map_prod (\<lambda>a. a) AS_ServerTlsStream (ai_calls (io_server_tls env) cs s)"
  by (rule tcp.calls_embedded client_tls.calls_embedded server_tls.calls_embedded)+

end
