(* ===== verification/Developer_Tls.thy ===== *)
theory Developer_Tls
  imports Prelude
begin

text \<open>
  The certificate verifier of the feature \<open>developer\<close> (\<open>vaux-client/src/developer.rs\<close>), which a client
  gives to \<open>rustls\<close>: certificates, names, signatures and times are parameters, printing is left out.
\<close>

datatype ServerCertVerified = assertion

datatype HandshakeSignatureValid = valid_assertion

definition verify_server_cert ::
    "'cert \<Rightarrow> 'cert list \<Rightarrow> 'name \<Rightarrow> bytes \<Rightarrow> 'time \<Rightarrow> ('err, ServerCertVerified) res" where
  "verify_server_cert end_entity intermediates server_name ocsp_response now = Ok assertion"

text \<open>\<open>todo!()\<close> panics.\<close>

definition verify_tls12_signature :: "bytes \<Rightarrow> 'cert \<Rightarrow> 'dss \<Rightarrow> ('err, HandshakeSignatureValid) res" where
  "verify_tls12_signature message cert dss = Panic"

definition verify_tls13_signature :: "bytes \<Rightarrow> 'cert \<Rightarrow> 'dss \<Rightarrow> ('err, HandshakeSignatureValid) res" where
  "verify_tls13_signature message cert dss = Panic"

definition supported_verify_schemes :: "('err, 'scheme list) res" where
  "supported_verify_schemes = Panic"

text \<open>
  A client asks for the schemes when it writes its first message, and has the server's signature verified
  after its certificate: with this verifier a handshake panics before the first message is written, and
  would panic after the certificate.
\<close>

lemma developer_handshake_panics:
  "bind supported_verify_schemes k = Panic"
  "bind (verify_server_cert cert chain server ocsp now) (\<lambda>_. bind (if tls13 then verify_tls13_signature m cert d else verify_tls12_signature m cert d) k') = Panic"
  by (simp_all add: supported_verify_schemes_def verify_server_cert_def verify_tls13_signature_def verify_tls12_signature_def)

end
