(* ===== verification/Macro_Syntax.thy ===== *)
theory Macro_Syntax
  imports Prelude
begin

text \<open>
  What \<open>vaux-macro\<close> reads: the struct item that \<open>syn\<close> hands to the macros, as data, and the attribute
  queries of \<open>vaux-macro/src/util.rs\<close>. The results of \<open>syn\<close>'s own parsers are part of that data: an
  attribute carries the argument list its parser returns (or none, where it fails), a string literal
  the path and the expression it parses to, an integer literal its value. The macros' \<open>unwrap\<close>s of
  those results are panics here as there.
\<close>

section \<open>The syntax tree\<close>

type_synonym ident = string

datatype ty = Ty_Path path | Ty_Other
and path = Path (leading_colon: bool) (segments: "segment list")
and segment = Segment (seg_ident: ident) (seg_arguments: path_arguments)
and path_arguments = No_Arguments | AngleBracketed "generic_argument list" | Parenthesized
and generic_argument = Arg_Type ty | Arg_Other

text \<open>An expression that a macro only copies into its output is its text.\<close>

type_synonym expr_text = string

datatype lit =
    Lit_Str (lit_value: string) (parsed_path: "path option") (parsed_expr: "expr_text option")
  | Lit_Int (base10: "nat option")
  | Lit_Other

datatype syn_expr = Expr_Lit lit | Expr_Other

datatype meta =
    Meta_Path (meta_path: path)
  | Meta_List (meta_path: path)
  | Meta_NameValue (meta_path: path) (nv_value: syn_expr)

datatype attribute = Attribute (attr_path: path) (attr_args: "meta list option")

datatype visibility = Vis_Public | Vis_Crate | Vis_Inherited

record syn_field =
  fld_attrs :: "attribute list"
  fld_vis :: visibility
  fld_ident :: ident
  fld_ty :: ty

datatype fields = Fields_Named "syn_field list" | Fields_Unnamed | Fields_Unit

record item_struct =
  it_attrs :: "attribute list"
  it_vis :: visibility
  it_ident :: ident
  it_fields :: fields

text \<open>The fields of a named or unit struct; a tuple struct is refused before they are looked at.\<close>

primrec named_fields :: "fields \<Rightarrow> syn_field list" where
  "named_fields (Fields_Named fs) = fs"
| "named_fields Fields_Unnamed = []"
| "named_fields Fields_Unit = []"

datatype syn_error = Syn_Error

type_synonym 'a syn_result = "(syn_error, 'a) res"

text \<open>\<open>Path::is_ident\<close>, \<open>segments.last().unwrap()\<close>, \<open>args.first().unwrap()\<close> and \<open>parse_args_with\<close>.\<close>

definition is_ident :: "path \<Rightarrow> ident \<Rightarrow> bool" where
  "is_ident p name \<longleftrightarrow> p = Path False [Segment name No_Arguments]"

definition last_segment :: "path \<Rightarrow> segment syn_result" where
  "last_segment p = (if segments p = [] then Panic else Ok (last (segments p)))"

primrec first_arg :: "generic_argument list \<Rightarrow> generic_argument syn_result" where
  "first_arg [] = Panic"
| "first_arg (g # gs) = Ok g"

definition parse_args :: "attribute \<Rightarrow> meta list syn_result" where
  "parse_args attr = (case attr_args attr of Some nested \<Rightarrow> Ok nested | None \<Rightarrow> Err Syn_Error)"

text \<open>\<open>lit_str.parse().unwrap()\<close>\<close>

definition unwrap_opt :: "'a option \<Rightarrow> 'a syn_result" where
  "unwrap_opt v = (case v of Some x \<Rightarrow> Ok x | None \<Rightarrow> Panic)"

text \<open>\<open>Iterator::find_map\<close> with a closure that may panic.\<close>

primrec find_map_res :: "('a \<Rightarrow> ('e, 'b option) res) \<Rightarrow> 'a list \<Rightarrow> ('e, 'b option) res" where
  "find_map_res f [] = Ok None"
| "find_map_res f (x # xs) =
    bind (f x) (\<lambda>r. case r of Some v \<Rightarrow> Ok (Some v) | None \<Rightarrow> find_map_res f xs)"

text \<open>A loop that pushes one result per element.\<close>

primrec each_res :: "('a \<Rightarrow> ('e, 'b) res) \<Rightarrow> 'a list \<Rightarrow> ('e, 'b list) res" where
  "each_res f [] = Ok []"
| "each_res f (x # xs) = bind (f x) (\<lambda>y. map_ok ((#) y) (each_res f xs))"

lemma each_res_step: "f x = Ok y \<Longrightarrow> each_res f xs = Ok ys \<Longrightarrow> each_res f (x # xs) = Ok (y # ys)"
  by simp

text \<open>
  What a macro returns: an implementation, the single token stream \<open>compile_error!(..)\<close>, or nothing.
\<close>

datatype 'a expansion = Expanded 'a | Refused string | Empty_Stream

section \<open>Attribute names\<close>

definition CODEC_ATTR :: string where "CODEC_ATTR = ''codec''"
definition PACKET_ATTR :: string where "PACKET_ATTR = ''packet''"
definition PACKET_ATTR_PACKET_TYPE_ARG :: string where "PACKET_ATTR_PACKET_TYPE_ARG = ''packet_type''"
definition CODEC_ATTR_PROPERTY_TYPE_ARG :: string where "CODEC_ATTR_PROPERTY_TYPE_ARG = ''property_type''"
definition CODEC_ATTR_DECODE_WITH_ARG :: string where "CODEC_ATTR_DECODE_WITH_ARG = ''decode_with''"
definition CODEC_ATTR_ENCODE_WITH_ARG :: string where "CODEC_ATTR_ENCODE_WITH_ARG = ''encode_with''"
definition CODEC_ATTR_SKIP_ARG :: string where "CODEC_ATTR_SKIP_ARG = ''skip''"
definition CODEC_ATTR_SKIP_IF_ARG :: string where "CODEC_ATTR_SKIP_IF_ARG = ''skip_if''"
definition CODEC_ATTR_PAYLOAD_ARG :: string where "CODEC_ATTR_PAYLOAD_ARG = ''payload_type''"
definition CODEC_ATTR_CODEC_MIN_SIZE_ARG :: string where "CODEC_ATTR_CODEC_MIN_SIZE_ARG = ''min_decode''"
definition CODEC_ATTR_PAYLOAD_TYPE_REMAINING :: string where "CODEC_ATTR_PAYLOAD_TYPE_REMAINING = ''remaining''"
definition CODEC_ATTR_PAYLOAD_TYPE_FIELD :: string where "CODEC_ATTR_PAYLOAD_TYPE_FIELD = ''field''"
definition CODEC_ATTR_ABBREVIATED_WHEN_ARG :: string where "CODEC_ATTR_ABBREVIATED_WHEN_ARG = ''abbreviated_when''"
definition CODEC_ATTR_NON_ABBREVIATED_ARG :: string where "CODEC_ATTR_NON_ABBREVIATED_ARG = ''non_abbreviated''"
definition CODEC_ATTR_AS_PACKET_ARG :: string where "CODEC_ATTR_AS_PACKET_ARG = ''as_packet''"
definition CODEC_ATTR_SKIP_DECODE_ARG :: string where "CODEC_ATTR_SKIP_DECODE_ARG = ''skip_decode''"

lemmas attr_names = CODEC_ATTR_def PACKET_ATTR_def PACKET_ATTR_PACKET_TYPE_ARG_def
  CODEC_ATTR_PROPERTY_TYPE_ARG_def CODEC_ATTR_DECODE_WITH_ARG_def CODEC_ATTR_ENCODE_WITH_ARG_def
  CODEC_ATTR_SKIP_ARG_def CODEC_ATTR_SKIP_IF_ARG_def CODEC_ATTR_PAYLOAD_ARG_def
  CODEC_ATTR_CODEC_MIN_SIZE_ARG_def CODEC_ATTR_PAYLOAD_TYPE_REMAINING_def
  CODEC_ATTR_PAYLOAD_TYPE_FIELD_def CODEC_ATTR_ABBREVIATED_WHEN_ARG_def
  CODEC_ATTR_NON_ABBREVIATED_ARG_def CODEC_ATTR_AS_PACKET_ARG_def CODEC_ATTR_SKIP_DECODE_ARG_def

section \<open>Attribute queries\<close>

text \<open>The message of \<open>compile_error\<close> and \<open>compile_error2\<close>.\<close>

definition compile_error :: "string \<Rightarrow> string" where
  "compile_error message = ''Compile-time error in vaux-macro: '' @ message"

text \<open>\<open>attr.path().is_ident(name)\<close>, and the filter the queries start with.\<close>

definition attr_is :: "string \<Rightarrow> attribute \<Rightarrow> bool" where
  "attr_is name attr \<longleftrightarrow> is_ident (attr_path attr) name"

definition is_path_arg :: "string \<Rightarrow> meta \<Rightarrow> bool" where
  "is_path_arg value m \<longleftrightarrow> (case m of Meta_Path p \<Rightarrow> is_ident p value | _ \<Rightarrow> False)"

definition is_name_value_arg :: "string \<Rightarrow> meta \<Rightarrow> bool" where
  "is_name_value_arg key m \<longleftrightarrow> (case m of Meta_NameValue p _ \<Rightarrow> is_ident p key | _ \<Rightarrow> False)"

text \<open>
  The nested loop of the three \<open>*_with_*\<close> queries: the first attribute with an argument that passes
  the test; an attribute that does not parse ends the search unless an earlier one matched.
\<close>

primrec search_attrs :: "(meta \<Rightarrow> bool) \<Rightarrow> attribute list \<Rightarrow> attribute option syn_result" where
  "search_attrs test [] = Ok None"
| "search_attrs test (attr # attrs) =
    bind (parse_args attr) (\<lambda>nested.
      if list_ex test nested then Ok (Some attr) else search_attrs test attrs)"

definition has_attribute_with_path :: "attribute list \<Rightarrow> string \<Rightarrow> string \<Rightarrow> bool syn_result" where
  "has_attribute_with_path attrs name value =
    map_ok (\<lambda>r. r \<noteq> None) (search_attrs (is_path_arg value) (filter (attr_is name) attrs))"

definition has_attribute_with_name_value :: "attribute list \<Rightarrow> string \<Rightarrow> string \<Rightarrow> bool syn_result" where
  "has_attribute_with_name_value attrs name key =
    map_ok (\<lambda>r. r \<noteq> None) (search_attrs (is_name_value_arg key) (filter (attr_is name) attrs))"

definition attribute_with_name_value :: "attribute list \<Rightarrow> string \<Rightarrow> string \<Rightarrow> attribute option syn_result" where
  "attribute_with_name_value attrs name key =
    search_attrs (is_name_value_arg key) (filter (attr_is name) attrs)"

definition skip_field :: "attribute list \<Rightarrow> bool syn_result" where
  "skip_field attrs = has_attribute_with_path attrs CODEC_ATTR CODEC_ATTR_SKIP_ARG"

definition is_property_field :: "attribute list \<Rightarrow> bool syn_result" where
  "is_property_field attrs = has_attribute_with_name_value attrs CODEC_ATTR CODEC_ATTR_PROPERTY_TYPE_ARG"

definition is_payload_field :: "attribute list \<Rightarrow> bool syn_result" where
  "is_payload_field attrs = has_attribute_with_name_value attrs CODEC_ATTR CODEC_ATTR_PAYLOAD_ARG"

definition is_non_abbreviated_field :: "attribute list \<Rightarrow> bool syn_result" where
  "is_non_abbreviated_field attrs = has_attribute_with_path attrs CODEC_ATTR CODEC_ATTR_NON_ABBREVIATED_ARG"

definition is_as_packet :: "attribute list \<Rightarrow> bool" where
  "is_as_packet attrs = unwrap_or (has_attribute_with_path attrs CODEC_ATTR CODEC_ATTR_AS_PACKET_ARG) False"

definition is_skip_decode :: "attribute list \<Rightarrow> bool" where
  "is_skip_decode attrs = unwrap_or (has_attribute_with_path attrs CODEC_ATTR CODEC_ATTR_SKIP_DECODE_ARG) False"

text \<open>
  The queries that return an argument's value share their shape: the first \<open>codec\<close> attribute with an
  argument \<open>key = literal\<close> whose literal \<open>read\<close> accepts. Here the attribute must parse.
\<close>

definition arg_value :: "string \<Rightarrow> (lit \<Rightarrow> 'a option syn_result) \<Rightarrow> meta \<Rightarrow> 'a option syn_result" where
  "arg_value key read_lit m =
    (if is_ident (meta_path m) key then
       (case m of Meta_NameValue _ (Expr_Lit l) \<Rightarrow> read_lit l | _ \<Rightarrow> Ok None)
     else Ok None)"

definition codec_find_map :: "string \<Rightarrow> (lit \<Rightarrow> 'a option syn_result) \<Rightarrow> attribute list \<Rightarrow> 'a option syn_result" where
  "codec_find_map key read_lit = find_map_res (\<lambda>attr.
    if attr_is CODEC_ATTR attr then
      bind (unwrap (parse_args attr)) (find_map_res (arg_value key read_lit))
    else Ok None)"

definition payload_type :: "attribute list \<Rightarrow> string option syn_result" where
  "payload_type = codec_find_map CODEC_ATTR_PAYLOAD_ARG
    (\<lambda>l. case l of Lit_Str v _ _ \<Rightarrow> Ok (Some v) | _ \<Rightarrow> Ok None)"

definition min_decode_size :: "attribute list \<Rightarrow> nat option syn_result" where
  "min_decode_size = codec_find_map CODEC_ATTR_CODEC_MIN_SIZE_ARG
    (\<lambda>l. case l of Lit_Int n \<Rightarrow> map_ok Some (unwrap_opt n) | _ \<Rightarrow> Ok None)"

definition abbreviated_when_expr :: "attribute list \<Rightarrow> expr_text option syn_result" where
  "abbreviated_when_expr = codec_find_map CODEC_ATTR_ABBREVIATED_WHEN_ARG
    (\<lambda>l. case l of Lit_Str _ _ e \<Rightarrow> map_ok Some (unwrap_opt e) | _ \<Rightarrow> Ok None)"

definition property_type :: "attribute list \<Rightarrow> path option syn_result" where
  "property_type = codec_find_map CODEC_ATTR_PROPERTY_TYPE_ARG
    (\<lambda>l. case l of Lit_Str _ p _ \<Rightarrow> map_ok Some (unwrap_opt p) | _ \<Rightarrow> Ok None)"

text \<open>\<open>get_skip_if_path\<close> gives up, rather than panics, on an attribute that does not parse.\<close>

definition skip_if_arg :: "meta \<Rightarrow> path option syn_result" where
  "skip_if_arg m =
    (case m of
       Meta_NameValue p (Expr_Lit (Lit_Str _ parsed _)) \<Rightarrow>
         if is_ident p CODEC_ATTR_SKIP_IF_ARG then map_ok Some (unwrap_opt parsed) else Ok None
     | _ \<Rightarrow> Ok None)"

primrec skip_if_search :: "attribute list \<Rightarrow> path option syn_result" where
  "skip_if_search [] = Ok None"
| "skip_if_search (attr # attrs) =
    (case parse_args attr of
       Ok nested \<Rightarrow>
         bind (find_map_res skip_if_arg nested) (\<lambda>r.
           case r of Some p \<Rightarrow> Ok (Some p) | None \<Rightarrow> skip_if_search attrs)
     | _ \<Rightarrow> Ok None)"

definition get_skip_if_path :: "attribute list \<Rightarrow> path option syn_result" where
  "get_skip_if_path attrs = skip_if_search (filter (attr_is CODEC_ATTR) attrs)"

text \<open>\<open>get_packet_type\<close> on the argument of \<open>#[packet(..)]\<close>, a name and a value.\<close>

definition get_packet_type :: "path \<Rightarrow> syn_expr \<Rightarrow> path option syn_result" where
  "get_packet_type name value =
    (if is_ident name PACKET_ATTR_PACKET_TYPE_ARG then
       (case value of Expr_Lit (Lit_Str _ parsed _) \<Rightarrow> map_ok Some (unwrap_opt parsed) | _ \<Rightarrow> Ok None)
     else Ok None)"

definition struct_has_attribute :: "syn_field list \<Rightarrow> string \<Rightarrow> bool" where
  "struct_has_attribute fs name \<longleftrightarrow> list_ex (\<lambda>f. list_ex (attr_is name) (fld_attrs f)) fs"

definition has_attribute :: "attribute list \<Rightarrow> string \<Rightarrow> bool" where
  "has_attribute attrs name \<longleftrightarrow> list_ex (attr_is name) attrs"

definition struct_has_attribute_with_name_value :: "syn_field list \<Rightarrow> string \<Rightarrow> string \<Rightarrow> bool" where
  "struct_has_attribute_with_name_value fs name key \<longleftrightarrow>
    list_ex (\<lambda>f. list_ex (\<lambda>attr. attr_is name attr \<and>
      has_attribute_with_name_value (fld_attrs f) name key = Ok True) (fld_attrs f)) fs"

definition is_primitive_type :: "string \<Rightarrow> bool" where
  "is_primitive_type type_name \<longleftrightarrow> type_name \<in>
    {''u8'', ''i8'', ''u16'', ''i16'', ''u32'', ''i32'', ''bool'', ''u64'', ''i64'', ''f32'', ''f64'', ''char''}"

definition filter_attributes :: "attribute list \<Rightarrow> string list \<Rightarrow> attribute list" where
  "filter_attributes attrs exclude = filter (\<lambda>attr. \<not> list_ex (\<lambda>r. attr_is r attr) exclude) attrs"

section \<open>What the queries return\<close>

lemma search_attrs_Some:
  "search_attrs test attrs = Ok (Some attr) \<Longrightarrow>
    attr \<in> set attrs \<and> (\<exists>nested. attr_args attr = Some nested \<and> list_ex test nested)"
  by (induction attrs) (auto simp: parse_args_def split: if_splits option.splits)

text \<open>\<open>attribute_with_name_value\<close> finds an attribute exactly when \<open>has_attribute_with_name_value\<close> says so.\<close>

lemma has_attribute_with_name_value_iff:
  "has_attribute_with_name_value attrs name key = Ok True \<longleftrightarrow>
    (\<exists>attr. attribute_with_name_value attrs name key = Ok (Some attr))"
  by (auto simp: has_attribute_with_name_value_def attribute_with_name_value_def)

lemma struct_has_attribute_with_name_value_iff:
  "struct_has_attribute_with_name_value fs name key \<longleftrightarrow>
    (\<exists>f \<in> set fs. has_attribute_with_name_value (fld_attrs f) name key = Ok True)"
proof -
  have "\<exists>attr \<in> set attrs. attr_is name attr"
    if "has_attribute_with_name_value attrs name key = Ok True" for attrs
    using that by (auto simp: has_attribute_with_name_value_def dest!: search_attrs_Some)
  then show ?thesis
    by (auto simp: struct_has_attribute_with_name_value_def list_ex_iff) blast
qed

text \<open>\<open>filter_attributes\<close> removes the named attributes and no other.\<close>

lemma filter_attributes_set:
  "set (filter_attributes attrs exclude) = {attr \<in> set attrs. \<forall>r \<in> set exclude. \<not> attr_is r attr}"
  by (auto simp: filter_attributes_def list_ex_iff)

text \<open>
  For attributes that parse, a field is a property for the groupings of the generators exactly when
  it has a value for \<open>property_type\<close>; the field emitters then require the value to be a string.
\<close>

lemma find_map_res_None:
  "find_map_res f xs = Ok None \<longleftrightarrow> (\<forall>x \<in> set xs. f x = Ok None)"
  by (induction xs) (auto split: option.splits)

lemma property_type_is_property:
  assumes "property_type attrs = Ok (Some p)" and "\<forall>attr \<in> set attrs. attr_args attr \<noteq> None"
  shows "is_property_field attrs = Ok True"
proof (rule ccontr)
  assume *: "is_property_field attrs \<noteq> Ok True"
  have total: "\<exists>r. search_attrs test as = Ok r" if "set as \<subseteq> set attrs" for test as
    using that
  proof (induction as)
    case (Cons a as)
    with assms(2) obtain nested where "parse_args a = Ok nested" by (auto simp: parse_args_def)
    with Cons show ?case by (cases "list_ex test nested") auto
  qed simp
  have none: "search_attrs test as = Ok None \<Longrightarrow> attr \<in> set as \<Longrightarrow> parse_args attr = Ok nested \<Longrightarrow>
      m \<in> set nested \<Longrightarrow> \<not> test m" for test as attr nested m
    by (induction as) (auto simp: list_ex_iff split: if_splits)
  obtain r where r: "search_attrs (is_name_value_arg CODEC_ATTR_PROPERTY_TYPE_ARG) (filter (attr_is CODEC_ATTR) attrs) = Ok r"
    using total [of "filter (attr_is CODEC_ATTR) attrs"] by auto
  with * have r: "search_attrs (is_name_value_arg CODEC_ATTR_PROPERTY_TYPE_ARG) (filter (attr_is CODEC_ATTR) attrs) = Ok None"
    by (auto simp: is_property_field_def has_attribute_with_name_value_def)
  have "property_type attrs = Ok None"
    unfolding property_type_def codec_find_map_def find_map_res_None
  proof (intro ballI)
    fix attr assume a: "attr \<in> set attrs"
    then obtain nested where n: "parse_args attr = Ok nested" using assms(2) by (auto simp: parse_args_def)
    have "\<not> is_name_value_arg CODEC_ATTR_PROPERTY_TYPE_ARG m" if "attr_is CODEC_ATTR attr" "m \<in> set nested" for m
      using none [OF r _ n that(2)] a that(1) by simp
    then have "arg_value CODEC_ATTR_PROPERTY_TYPE_ARG rd m = Ok None" if "attr_is CODEC_ATTR attr" "m \<in> set nested"
      for rd :: "lit \<Rightarrow> path option syn_result" and m
      using that by (cases m) (fastforce simp: arg_value_def is_name_value_arg_def)+
    then show "(if attr_is CODEC_ATTR attr then bind (unwrap (parse_args attr)) (find_map_res
        (arg_value CODEC_ATTR_PROPERTY_TYPE_ARG (\<lambda>l. case l of Lit_Str _ p _ \<Rightarrow> map_ok Some (unwrap_opt p) | _ \<Rightarrow> Ok None)))
      else Ok None) = Ok None"
      using n by (auto simp: find_map_res_None)
  qed
  with assms(1) show False by simp
qed

end
