(* ===== verification/Macro_Encode.thy ===== *)
theory Macro_Encode
  imports Macro_Syntax
begin

text \<open>
  The encoder generator (\<open>vaux-macro/src/encode.rs\<close>) as a compiler: each function returns the
  statements its \<open>quote!\<close> templates emit for a field. \<open>Macro_Meaning\<close> says what they do when run.
\<close>

section \<open>Emitted statements\<close>

text \<open>\<open>self.f\<close>, or a variable bound by a pattern of the emitted code.\<close>

datatype place = Self_Field ident | Local ident

datatype enc_stmt =
    E_Compile_Error string               \<comment> \<open>\<open>compile_error!(..);\<close>\<close>
  | E_Put_Ident path                     \<comment> \<open>\<open>dest.put_u8(path as u8);\<close>\<close>
  | E_Encode_String place                \<comment> \<open>\<open>codec::encode_string(place, dest)?;\<close>\<close>
  | E_Encode_Array place                 \<comment> \<open>\<open>codec::encode_array_field(place, dest)?;\<close>\<close>
  | E_Put string place                   \<comment> \<open>\<open>dest.put_u16(place);\<close> for the named integer type\<close>
  | E_Put_Bool place                     \<comment> \<open>\<open>dest.put_u8(if place { 1 } else { 0 });\<close>\<close>
  | E_Encode place                       \<comment> \<open>\<open>place.encode(dest)?;\<close>\<close>
  | E_Call path ident                    \<comment> \<open>\<open>path(&self.f, dest)?;\<close>\<close>
  | E_If_Some ident ident "enc_stmt list" \<comment> \<open>\<open>if let Some(v) = self.f { .. }\<close>\<close>
  | E_For ident place "enc_stmt list"     \<comment> \<open>\<open>for item in place.iter() { .. }\<close>\<close>
  | E_Unless path ident "enc_stmt list"   \<comment> \<open>\<open>if !path(&self.f) { .. }\<close>\<close>
  | E_Property_Length                    \<comment> \<open>\<open>codec::encode_variable_byte_int(self.property_size(), dest)?;\<close>\<close>

definition enc_error :: "string \<Rightarrow> enc_stmt list" where
  "enc_error message = [E_Compile_Error (compile_error message)]"

section \<open>One emitter per kind of field\<close>

definition prop_ident_tokens :: "path option \<Rightarrow> enc_stmt list" where
  "prop_ident_tokens pt = (case pt of Some prop_ident \<Rightarrow> [E_Put_Ident prop_ident] | None \<Rightarrow> [])"

definition encode_for_string_tokens :: "ident \<Rightarrow> bool \<Rightarrow> path option \<Rightarrow> enc_stmt list" where
  "encode_for_string_tokens field is_optional pt =
    (if is_optional then
       [E_If_Some ''v'' field (prop_ident_tokens pt @ [E_Encode_String (Local ''v'')])]
     else prop_ident_tokens pt @ [E_Encode_String (Self_Field field)])"

definition encode_for_vec_tokens :: "ident \<Rightarrow> path \<Rightarrow> bool \<Rightarrow> path option \<Rightarrow> enc_stmt list syn_result" where
  "encode_for_vec_tokens field type_path is_optional pt =
    (let is_property = pt \<noteq> None;
         wrapped = (\<lambda>encode_stmt. if is_optional then [E_If_Some field field encode_stmt] else encode_stmt) in
     bind (last_segment type_path) (\<lambda>seg.
       case seg_arguments seg of
         AngleBracketed args \<Rightarrow>
           bind (first_arg args) (\<lambda>arg.
             case arg of
               Arg_Type (Ty_Path vec_inner_type_path) \<Rightarrow>
                 bind (last_segment vec_inner_type_path) (\<lambda>inner.
                   if seg_ident inner = ''u8'' then
                     Ok (wrapped (prop_ident_tokens pt @
                       [E_Encode_Array (if is_optional then Local field else Self_Field field)]))
                   else if seg_ident inner \<in> {''i8'', ''u16'', ''i16'', ''i32'', ''u32'', ''u64'', ''i64'',
                       ''f32'', ''f64'', ''bool''} then
                     Ok (enc_error ''Unsupported Vec inner type for Encode derive'')
                   else if is_optional then
                     Ok (wrapped [E_For ''item'' (Local field) (prop_ident_tokens pt @ [E_Encode (Local ''item'')])])
                   else if is_property then
                     Ok (wrapped [E_For ''item'' (Self_Field field) (prop_ident_tokens pt @ [E_Encode (Local ''item'')])])
                   else Ok (wrapped [E_For ''item'' (Self_Field field) [E_Encode (Local ''item'')]]))
             | _ \<Rightarrow> Ok (enc_error ''Unsupported Vec inner type for Encode derive''))
       | _ \<Rightarrow> Ok (enc_error ''Unsupported Vec type for Encode derive'')))"

definition encode_for_primitive_tokens :: "ident \<Rightarrow> string \<Rightarrow> bool \<Rightarrow> path option \<Rightarrow> enc_stmt list" where
  "encode_for_primitive_tokens field field_type is_optional pt =
    (let some_field_name = (if is_optional then Local ''v'' else Self_Field field);
         encode = (if field_type \<in> {''u8'', ''u16'', ''u32'', ''i8'', ''i16'', ''i32''}
                   then [E_Put field_type some_field_name]
                   else if field_type = ''bool'' then [E_Put_Bool some_field_name]
                   else enc_error ''Unsupported primitive type for MQTT codec encoding'') in
     if is_optional then [E_If_Some ''v'' field (prop_ident_tokens pt @ encode)]
     else prop_ident_tokens pt @ encode)"

definition encode_for_option_tokens :: "ident \<Rightarrow> path \<Rightarrow> path option \<Rightarrow> enc_stmt list syn_result" where
  "encode_for_option_tokens field type_path pt =
    bind (last_segment type_path) (\<lambda>seg.
      case seg_arguments seg of
        AngleBracketed args \<Rightarrow>
          bind (first_arg args) (\<lambda>generic_type.
            case generic_type of
              Arg_Type (Ty_Path inner_path) \<Rightarrow>
                bind (last_segment inner_path) (\<lambda>inner.
                  let type_name = seg_ident inner in
                  if type_name = ''String'' then Ok (encode_for_string_tokens field True pt)
                  else if type_name = ''Vec'' then encode_for_vec_tokens field inner_path True pt
                  else if is_primitive_type type_name then
                    Ok (encode_for_primitive_tokens field type_name True pt)
                  else Ok [E_If_Some field field (prop_ident_tokens pt @ [E_Encode (Local field)])])
            | _ \<Rightarrow> Ok (enc_error ''Unsupported Option inner type for Encode derive''))
      | _ \<Rightarrow> Ok (enc_error ''Unsupported Option type for Size derive''))"

definition encode_with_arg :: "ident \<Rightarrow> bool \<Rightarrow> path option \<Rightarrow> meta \<Rightarrow> enc_stmt list option syn_result" where
  "encode_with_arg field optional_field pt m =
    (case m of
       Meta_NameValue name (Expr_Lit (Lit_Str _ parsed _)) \<Rightarrow>
         if is_ident name CODEC_ATTR_ENCODE_WITH_ARG then
           bind (unwrap_opt parsed) (\<lambda>path.
             Ok (Some (if optional_field
               then [E_If_Some ''f'' field (prop_ident_tokens pt @ [E_Call path field])]
               else prop_ident_tokens pt @ [E_Call path field])))
         else Ok None
     | _ \<Rightarrow> Ok None)"

definition encode_for_encode_with_tokens :: "ident \<Rightarrow> attribute \<Rightarrow> bool \<Rightarrow> path option \<Rightarrow> enc_stmt list syn_result" where
  "encode_for_encode_with_tokens field attr optional_field pt =
    (case parse_args attr of
       Ok nested \<Rightarrow>
         bind (find_map_res (encode_with_arg field optional_field pt) nested) (\<lambda>r.
           case r of Some tokens \<Rightarrow> Ok tokens
           | None \<Rightarrow> Ok (enc_error ''Unsupported custom encode attribute for Encode derive''))
     | _ \<Rightarrow> Ok (enc_error ''Unsupported custom encode attribute for Encode derive''))"

section \<open>Dispatch on the field\<close>

definition encode_field :: "syn_field \<Rightarrow> enc_stmt list syn_result" where
  "encode_field field =
    bind (unwrap (skip_field (fld_attrs field))) (\<lambda>skip.
    if skip then Ok []
    else
      bind (unwrap (has_attribute_with_name_value (fld_attrs field) CODEC_ATTR CODEC_ATTR_PROPERTY_TYPE_ARG)) (\<lambda>is_property.
      bind (unwrap (attribute_with_name_value (fld_attrs field) CODEC_ATTR CODEC_ATTR_ENCODE_WITH_ARG)) (\<lambda>encode_with.
      bind (property_type (fld_attrs field)) (\<lambda>pt.
      if pt = None \<and> is_property then Ok (enc_error ''Property attribute requires a property_type argument'')
      else
        bind (payload_type (fld_attrs field)) (\<lambda>_.
        let property_type_ident = (if is_property \<and> pt \<noteq> None then pt else None) in
        case fld_ty field of
          Ty_Path type_path \<Rightarrow>
            bind (last_segment type_path) (\<lambda>seg.
              let type_name = seg_ident seg; optional_field = (type_name = ''Option'') in
              case encode_with of
                Some attr \<Rightarrow> encode_for_encode_with_tokens (fld_ident field) attr optional_field property_type_ident
              | None \<Rightarrow>
                  if type_name = ''String'' then
                    Ok (encode_for_string_tokens (fld_ident field) optional_field property_type_ident)
                  else if type_name = ''Vec'' then
                    encode_for_vec_tokens (fld_ident field) type_path optional_field property_type_ident
                  else if type_name = ''Option'' then
                    encode_for_option_tokens (fld_ident field) type_path property_type_ident
                  else if is_primitive_type type_name then
                    Ok (encode_for_primitive_tokens (fld_ident field) type_name optional_field property_type_ident)
                  else Ok [E_Encode (Self_Field (fld_ident field))])
        | Ty_Other \<Rightarrow> Ok (enc_error ''Unsupported field type for Encode derive''))))))"

text \<open>The \<open>skip_if\<close> wrapper both generators put around a field.\<close>

definition encode_field_skip_if :: "syn_field \<Rightarrow> enc_stmt list syn_result" where
  "encode_field_skip_if f =
    bind (get_skip_if_path (fld_attrs f)) (\<lambda>skip_path.
    bind (encode_field f) (\<lambda>inner_expr.
      Ok (case skip_path of Some p \<Rightarrow> [E_Unless p (fld_ident f) inner_expr] | None \<Rightarrow> inner_expr)))"

section \<open>The two implementations\<close>

text \<open>\<open>property_encode_internal\<close>: the body of \<open>property_encode\<close>, one entry per field.\<close>

definition property_encode_tokens :: "item_struct \<Rightarrow> enc_stmt list list expansion syn_result" where
  "property_encode_tokens input =
    (if it_fields input = Fields_Unnamed then
       Ok (Refused (compile_error ''Encode does not support tuple structs''))
     else
       let fs = named_fields (it_fields input) in
       if struct_has_attribute_with_name_value fs CODEC_ATTR CODEC_ATTR_PROPERTY_TYPE_ARG then
         map_ok (\<lambda>encoded. Expanded ([E_Property_Length] # encoded))
           (each_res encode_field_skip_if (filter (\<lambda>f. unwrap_or (is_property_field (fld_attrs f)) False) fs))
       else Ok (Expanded []))"

text \<open>\<open>encode_internal\<close>: the parts of the emitted \<open>encode\<close>, in the order it runs them.\<close>

record encode_impl =
  ei_packet_encode :: bool
  ei_header_fields :: "enc_stmt list list"
  ei_abbreviated_check :: "expr_text option"
  ei_non_abbreviated_header_fields :: "enc_stmt list list"
  ei_property_encode :: bool
  ei_payload_fields :: "enc_stmt list list"

text \<open>The three groups of fields.\<close>

definition is_header_field :: "syn_field \<Rightarrow> bool" where
  "is_header_field f \<longleftrightarrow> \<not> (unwrap_or (is_property_field (fld_attrs f)) False
    \<or> unwrap_or (is_payload_field (fld_attrs f)) False)"

definition is_abbreviated_out :: "syn_field \<Rightarrow> bool" where
  "is_abbreviated_out f \<longleftrightarrow> unwrap_or (is_non_abbreviated_field (fld_attrs f)) False"

definition encode_internal_tokens :: "item_struct \<Rightarrow> bool \<Rightarrow> encode_impl expansion syn_result" where
  "encode_internal_tokens input as_packet =
    (if it_fields input = Fields_Unnamed then
       Ok (Refused (compile_error ''Encode does not support tuple structs''))
     else
       let fs = named_fields (it_fields input);
           header = filter is_header_field fs;
           has_properties = struct_has_attribute_with_name_value fs CODEC_ATTR CODEC_ATTR_PROPERTY_TYPE_ARG;
           has_payload = struct_has_attribute_with_name_value fs CODEC_ATTR CODEC_ATTR_PAYLOAD_ARG in
       bind (each_res encode_field_skip_if (filter (\<lambda>f. \<not> is_abbreviated_out f) header)) (\<lambda>header_fields.
       bind (each_res encode_field_skip_if (filter is_abbreviated_out header)) (\<lambda>non_abbreviated.
       bind (if has_payload then
               each_res encode_field_skip_if
                 (filter (\<lambda>f. unwrap_or (is_payload_field (fld_attrs f)) False) fs)
             else Ok []) (\<lambda>payload_fields.
       bind (abbreviated_when_expr (it_attrs input)) (\<lambda>abbreviated_when.
         Ok (Expanded \<lparr>
           ei_packet_encode = as_packet \<or> is_as_packet (it_attrs input),
           ei_header_fields = header_fields,
           ei_abbreviated_check = abbreviated_when,
           ei_non_abbreviated_header_fields = non_abbreviated,
           ei_property_encode = has_properties,
           ei_payload_fields = payload_fields\<rparr>))))))"

end
