(* ===== verification/Macro_Size.thy ===== *)
theory Macro_Size
  imports Macro_Encode
begin

text \<open>
  The size generator: \<open>vaux-macro/src/size.rs\<close>, and the derives \<open>PropertyCodecSize\<close> and \<open>CodecSize\<close> of
  \<open>vaux-macro/src/lib.rs\<close>.
\<close>

section \<open>Emitted statements\<close>

text \<open>The accumulator a statement adds to, a local variable of the method it is part of.\<close>

datatype accumulator = Acc_total_size | Acc_property_size

datatype size_expr =
    S_Const nat
  | S_Len place                    \<comment> \<open>\<open>place.len() as u32\<close>\<close>
  | S_Codec_Size place             \<comment> \<open>\<open>place.codec_size()\<close>\<close>
  | S_Property_Size place          \<comment> \<open>\<open>place.property_size()\<close>\<close>
  | S_Sum nat place                \<comment> \<open>\<open>place.iter().map(|item| n + item.codec_size()).sum::<u32>()\<close>\<close>
  | S_Call path ident              \<comment> \<open>\<open>path(&self.f)\<close>\<close>
  | S_Plus size_expr size_expr
  | S_Error string                 \<comment> \<open>\<open>compile_error!(..)\<close>\<close>

datatype size_stmt =
    S_Compile_Error string
  | S_Add accumulator size_expr    \<comment> \<open>\<open>acc += expr;\<close>\<close>
  | S_If_Some ident ident "size_stmt list"
  | S_If_Not_Empty place "size_stmt list"
  | S_Unless path ident "size_stmt list"

definition size_error :: "string \<Rightarrow> size_stmt list" where
  "size_error message = [S_Compile_Error (compile_error message)]"

section \<open>One emitter per kind of field\<close>

definition size_for_codec_size_tokens :: "ident \<Rightarrow> bool \<Rightarrow> bool \<Rightarrow> size_stmt list" where
  "size_for_codec_size_tokens field is_property optional =
    (if is_property then
       (if optional then [S_If_Some ''field'' field [S_Add Acc_property_size (S_Property_Size (Local ''field''))]]
        else [S_Add Acc_property_size (S_Property_Size (Self_Field field))])
     else
       (if optional then [S_If_Some ''field'' field [S_Add Acc_total_size (S_Codec_Size (Local ''field''))]]
        else [S_Add Acc_total_size (S_Codec_Size (Self_Field field))]))"

definition size_for_string_property_tokens :: "ident \<Rightarrow> bool \<Rightarrow> size_stmt list" where
  "size_for_string_property_tokens field optional =
    (let add = (\<lambda>s. S_Add Acc_property_size (S_Plus (S_Const 1) (S_Plus (S_Len s) (S_Const 2)))) in
     if optional then [S_If_Some ''field_name'' field [add (Local ''field_name'')]]
     else [add (Self_Field field)])"

text \<open>The size of a primitive in both of its functions; \<open>None\<close> for the types they refuse.\<close>

definition primitive_width :: "string \<Rightarrow> nat option" where
  "primitive_width field_type =
    (if field_type \<in> {''u8'', ''i8'', ''bool''} then Some 1
     else if field_type \<in> {''u16'', ''i16''} then Some 2
     else if field_type \<in> {''u32'', ''i32'', ''char''} then Some 4
     else None)"

definition unsupported_primitive :: "string \<Rightarrow> size_stmt list" where
  "unsupported_primitive field_type =
    size_error (''Unsupported primitive type '' @ [CHR 39] @ field_type @ [CHR 39] @ '' for Size derive'')"

definition size_for_primitive_property_tokens :: "ident \<Rightarrow> string \<Rightarrow> bool \<Rightarrow> size_stmt list" where
  "size_for_primitive_property_tokens field field_type optional =
    (let size_calc = (case primitive_width field_type of
           Some n \<Rightarrow> [S_Add Acc_property_size (S_Plus (S_Const 1) (S_Const n))]
         | None \<Rightarrow> unsupported_primitive field_type) in
     if optional then [S_If_Some ''_'' field size_calc] else size_calc)"

definition size_for_option_string_tokens :: "ident \<Rightarrow> size_stmt list" where
  "size_for_option_string_tokens field =
    [S_If_Some ''value'' field [S_Add Acc_total_size (S_Const 2), S_Add Acc_total_size (S_Len (Local ''value''))]]"

definition size_for_string_tokens :: "ident \<Rightarrow> size_stmt list" where
  "size_for_string_tokens field =
    [S_Add Acc_total_size (S_Const 2), S_Add Acc_total_size (S_Len (Self_Field field))]"

definition size_for_vec_tokens :: "ident \<Rightarrow> path \<Rightarrow> bool \<Rightarrow> bool \<Rightarrow> size_stmt list syn_result" where
  "size_for_vec_tokens field type_path is_property optional =
    (let acc = (if is_property then Acc_property_size else Acc_total_size);
         prop_ident_size = (\<lambda>e. if is_property then S_Plus (S_Const 1) e else e);
         wrapped = (\<lambda>field_size.
           if optional then [S_If_Some field field [S_If_Not_Empty (Local field) [S_Add acc field_size]]]
           else [S_If_Not_Empty (Self_Field field) [S_Add acc field_size]]) in
     bind (last_segment type_path) (\<lambda>seg.
       case seg_arguments seg of
         AngleBracketed args \<Rightarrow>
           bind (first_arg args) (\<lambda>arg.
             case arg of
               Arg_Type (Ty_Path vec_inner_type_path) \<Rightarrow>
                 bind (last_segment vec_inner_type_path) (\<lambda>inner.
                   if seg_ident inner \<in> {''u8'', ''i8''} then
                     Ok (wrapped (prop_ident_size (S_Plus (S_Const 2)
                       (S_Len (if optional then Local field else Self_Field field)))))
                   else if seg_ident inner \<in> {''u16'', ''i16'', ''u32'', ''i32'', ''char''} then
                     Ok (wrapped (S_Error (compile_error ''Unsupported Vec inner type for CodecSize'')))
                   else if is_property then Ok (wrapped (S_Sum 1 (Local field)))
                   else Ok (wrapped (S_Sum 0 (Self_Field field))))
             | _ \<Rightarrow> Ok (size_error ''Unsupported Vec type for Size derive''))
       | _ \<Rightarrow> Ok (size_error ''Unsupported Vec type for Size derive'')))"

definition size_for_primitive_internal :: "string \<Rightarrow> size_stmt list" where
  "size_for_primitive_internal field_type =
    (case primitive_width field_type of
       Some n \<Rightarrow> [S_Add Acc_total_size (S_Const n)]
     | None \<Rightarrow> unsupported_primitive field_type)"

definition size_for_primitive_optional_tokens :: "ident \<Rightarrow> string \<Rightarrow> size_stmt list" where
  "size_for_primitive_optional_tokens field field_type =
    [S_If_Some ''_'' field (size_for_primitive_internal field_type)]"

definition size_for_primitive_tokens :: "ty \<Rightarrow> size_stmt list syn_result" where
  "size_for_primitive_tokens field_type =
    (case field_type of
       Ty_Path type_path \<Rightarrow>
         bind (last_segment type_path) (\<lambda>seg. Ok (size_for_primitive_internal (seg_ident seg)))
     | Ty_Other \<Rightarrow> Ok (size_error ''Unsupported field type for Size derive''))"

definition size_with_arg :: "ident \<Rightarrow> bool \<Rightarrow> bool \<Rightarrow> meta \<Rightarrow> size_stmt list option syn_result" where
  "size_with_arg field property_field optional m =
    (case m of
       Meta_NameValue name value \<Rightarrow>
         if is_ident name ''size_with'' then
           (case value of
              Expr_Lit l \<Rightarrow>
                (case l of
                   Lit_Str _ parsed _ \<Rightarrow>
                     bind (unwrap_opt parsed) (\<lambda>path.
                       let add = (if property_field
                             then S_Add Acc_property_size (S_Plus (S_Const 1) (S_Call path field))
                             else S_Add Acc_total_size (S_Call path field)) in
                       Ok (Some (if optional then [S_If_Some ''_'' field [add]] else [add])))
                 | _ \<Rightarrow> Ok (Some (size_error
                     (''Expected string literal for '' @ [CHR 39] @ ''size_with'' @ [CHR 39] @ '' attribute''))))
            | Expr_Other \<Rightarrow> Ok (Some (size_error
                (''Expected literal expression for '' @ [CHR 39] @ ''size_with'' @ [CHR 39] @ '' attribute''))))
         else Ok None
     | _ \<Rightarrow> Ok None)"

definition size_with_path_tokens :: "ident \<Rightarrow> attribute \<Rightarrow> bool \<Rightarrow> bool \<Rightarrow> size_stmt list syn_result" where
  "size_with_path_tokens field attr property_field optional =
    (case parse_args attr of
       Ok nested \<Rightarrow>
         bind (find_map_res (size_with_arg field property_field optional) nested) (\<lambda>r.
           case r of Some tokens \<Rightarrow> Ok tokens
           | None \<Rightarrow> Ok (size_error
               (''Expected '' @ [CHR 39] @ ''size_with'' @ [CHR 39] @ '' attribute with a path literal'')))
     | _ \<Rightarrow> Ok (size_error (''Failed to parse '' @ [CHR 39] @ ''size_with'' @ [CHR 39] @ '' attribute'')))"

section \<open>Dispatch on the field\<close>

text \<open>The branch for \<open>Option\<close>.\<close>

definition size_for_option_tokens :: "ident \<Rightarrow> path \<Rightarrow> bool \<Rightarrow> size_stmt list syn_result" where
  "size_for_option_tokens field type_path is_property =
    bind (last_segment type_path) (\<lambda>seg.
      case seg_arguments seg of
        AngleBracketed args \<Rightarrow>
          bind (first_arg args) (\<lambda>generic_type.
            case generic_type of
              Arg_Type (Ty_Path inner_type_path) \<Rightarrow>
                bind (last_segment inner_type_path) (\<lambda>inner.
                  let type_name = seg_ident inner in
                  if type_name = ''Vec'' then size_for_vec_tokens field inner_type_path is_property True
                  else if type_name = ''String'' then
                    Ok (if is_property then size_for_string_property_tokens field True
                        else size_for_option_string_tokens field)
                  else if is_primitive_type type_name then
                    Ok (if is_property then size_for_primitive_property_tokens field type_name True
                        else size_for_primitive_optional_tokens field type_name)
                  else Ok (size_for_codec_size_tokens field is_property True))
            | _ \<Rightarrow> Ok (size_error ''Unsupported Option type for Size derive''))
      | _ \<Rightarrow> Ok (size_error ''Unsupported Option type for Size derive''))"

definition field_size :: "syn_field \<Rightarrow> size_stmt list syn_result" where
  "field_size field =
    (if unwrap_or (skip_field (fld_attrs field)) False then Ok []
     else
       bind (unwrap (has_attribute_with_name_value (fld_attrs field) ''codec'' ''property_type'')) (\<lambda>is_property.
       bind (unwrap (has_attribute_with_name_value (fld_attrs field) ''codec'' ''size_with'')) (\<lambda>codec_size_with.
       case fld_ty field of
         Ty_Path type_path \<Rightarrow>
           bind (last_segment type_path) (\<lambda>seg.
             let type_name = seg_ident seg in
             if codec_size_with then
               (case attribute_with_name_value (fld_attrs field) ''codec'' ''size_with'' of
                  Ok (Some attr) \<Rightarrow>
                    size_with_path_tokens (fld_ident field) attr is_property (type_name = ''Option'')
                | _ \<Rightarrow> Ok (size_error
                    (''Invalid '' @ [CHR 39] @ ''size_with'' @ [CHR 39] @ '' attribute for Size derive'')))
             else if type_name = ''Vec'' then size_for_vec_tokens (fld_ident field) type_path is_property False
             else if type_name = ''String'' then
               Ok (if is_property then size_for_string_property_tokens (fld_ident field) False
                   else size_for_string_tokens (fld_ident field))
             else if type_name = ''Option'' then size_for_option_tokens (fld_ident field) type_path is_property
             else if is_primitive_type type_name then
               (if is_property then Ok (size_for_primitive_property_tokens (fld_ident field) type_name False)
                else size_for_primitive_tokens (fld_ty field))
             else Ok (size_for_codec_size_tokens (fld_ident field) is_property False))
       | Ty_Other \<Rightarrow> Ok (size_error ''Unsupported field type for Size derive''))))"

definition field_size_skip_if :: "syn_field \<Rightarrow> size_stmt list syn_result" where
  "field_size_skip_if f =
    bind (get_skip_if_path (fld_attrs f)) (\<lambda>skip_path.
    bind (field_size f) (\<lambda>field_size_calc.
      Ok (case skip_path of Some p \<Rightarrow> [S_Unless p (fld_ident f) field_size_calc] | None \<Rightarrow> field_size_calc)))"

section \<open>The two derives\<close>

text \<open>\<open>derive_codec_property_size\<close>: the statements of \<open>property_size\<close>; nothing for a unit struct.\<close>

definition codec_property_size_tokens :: "item_struct \<Rightarrow> size_stmt list list expansion syn_result" where
  "codec_property_size_tokens input =
    (case it_fields input of
       Fields_Named fs \<Rightarrow>
         map_ok Expanded (each_res field_size_skip_if
           (filter (\<lambda>f. has_attribute_with_name_value (fld_attrs f) CODEC_ATTR CODEC_ATTR_PROPERTY_TYPE_ARG
             = Ok True) fs))
     | Fields_Unnamed \<Rightarrow> Ok (Refused (compile_error ''Size cannot be used for tuple structs''))
     | Fields_Unit \<Rightarrow> Ok Empty_Stream)"

text \<open>\<open>derive_codec_size\<close>: the abbreviation check is emitted only for a struct with properties.\<close>

record codec_size_impl =
  cs_field_sizes :: "size_stmt list list"
  cs_abbreviated_check :: "expr_text option"
  cs_non_abbreviated_field_sizes :: "size_stmt list list"
  cs_has_properties :: bool

definition codec_size_tokens :: "item_struct \<Rightarrow> codec_size_impl expansion syn_result" where
  "codec_size_tokens input =
    (if it_fields input = Fields_Unnamed then
       Ok (Refused (compile_error ''Size macro does not support tuple structs''))
     else
       let fs = named_fields (it_fields input);
           has_properties = struct_has_attribute_with_name_value fs CODEC_ATTR CODEC_ATTR_PROPERTY_TYPE_ARG;
           counted = filter (\<lambda>f. \<not> unwrap_or
             (has_attribute_with_name_value (fld_attrs f) CODEC_ATTR CODEC_ATTR_PROPERTY_TYPE_ARG) False) fs in
       bind (each_res field_size_skip_if (filter (\<lambda>f. \<not> is_abbreviated_out f) counted)) (\<lambda>field_sizes.
       bind (each_res field_size_skip_if (filter is_abbreviated_out counted)) (\<lambda>non_abbreviated.
       bind (abbreviated_when_expr (it_attrs input)) (\<lambda>abbreviated_when.
         Ok (Expanded \<lparr>
           cs_field_sizes = field_sizes,
           cs_abbreviated_check = (if has_properties then abbreviated_when else None),
           cs_non_abbreviated_field_sizes = non_abbreviated,
           cs_has_properties = has_properties\<rparr>)))))"

end
