(* ===== verification/Macro_Decode.thy ===== *)
theory Macro_Decode
  imports Macro_Encode
begin

text \<open>
  The decoder generator, \<open>vaux-macro/src/decode.rs\<close>.
\<close>

section \<open>Emitted statements\<close>

text \<open>The counter a read adds to.\<close>

datatype counter = Bytes_Read | Property_Bytes_Read

text \<open>
  The templates use one local variable, \<open>value\<close>. \<open>Vec::new()\<close> is emitted without its element type,
  which the compiler infers from the field; the statement carries it.
\<close>

datatype dec_stmt =
    D_Compile_Error string
  | D_Let_Default ty               \<comment> \<open>\<open>let mut value = T::default();\<close>\<close>
  | D_Let_Vec path                 \<comment> \<open>\<open>let mut value = Vec::new();\<close>\<close>
  | D_Decode counter place         \<comment> \<open>\<open>counter += place.decode(src)?;\<close>\<close>
  | D_Read ident bool string counter \<comment> \<open>\<open>self.f = src.get_u16(); counter += 2;\<close>, with \<open>Some(..)\<close> for an option\<close>
  | D_Let_Call path counter        \<comment> \<open>\<open>let (value, n) = path(src)?; counter += n;\<close>\<close>
  | D_While_Push path              \<comment> \<open>\<open>while src.has_remaining() { let mut item = T::default(); bytes_read += item.decode(src)?; value.push(item); }\<close>\<close>
  | D_Assign ident bool            \<comment> \<open>\<open>self.f = value;\<close> or \<open>self.f = Some(value);\<close>\<close>

text \<open>What \<open>decode_field\<close> returns: a match arm for a property, statements otherwise.\<close>

datatype dec_field = Dec_Arm path "dec_stmt list" | Dec_Stmts "dec_stmt list"

definition dec_error :: "string \<Rightarrow> dec_stmt list" where
  "dec_error message = [D_Compile_Error (compile_error message)]"

section \<open>One emitter per kind of field\<close>

definition read_counter :: "path option \<Rightarrow> counter" where
  "read_counter pt = (if pt \<noteq> None then Property_Bytes_Read else Bytes_Read)"

definition type_named :: "string \<Rightarrow> ty" where
  "type_named name = Ty_Path (Path False [Segment name No_Arguments])"

definition decode_for_type_tokens :: "ident \<Rightarrow> ty \<Rightarrow> bool \<Rightarrow> path option \<Rightarrow> dec_stmt list" where
  "decode_for_type_tokens field field_type optional_field pt =
    (if optional_field then
       [D_Let_Default field_type, D_Decode (read_counter pt) (Local ''value''), D_Assign field True]
     else [D_Decode (read_counter pt) (Self_Field field)])"

definition decode_for_string_tokens :: "ident \<Rightarrow> bool \<Rightarrow> path option \<Rightarrow> dec_stmt list" where
  "decode_for_string_tokens field optional_field pt =
    (if optional_field then
       [D_Let_Default (type_named ''String''), D_Decode (read_counter pt) (Local ''value''), D_Assign field True]
     else [D_Decode (read_counter pt) (Self_Field field)])"

definition decode_for_primitive_tokens :: "ident \<Rightarrow> ty \<Rightarrow> bool \<Rightarrow> path option \<Rightarrow> dec_stmt list syn_result" where
  "decode_for_primitive_tokens field field_type optional_field pt =
    (case field_type of
       Ty_Path type_path \<Rightarrow>
         bind (last_segment type_path) (\<lambda>seg.
           if seg_ident seg \<in> {''u8'', ''i8'', ''u16'', ''i16'', ''u32'', ''i32'', ''bool''} then
             Ok [D_Read field optional_field (seg_ident seg) (read_counter pt)]
           else Ok (dec_error ''Unsupported primitive type for Decode derive''))
     | Ty_Other \<Rightarrow> Ok (dec_error ''Unsupported primitive type for Decode derive''))"

text \<open>\<open>decode_for_vec\<close> counts in \<open>bytes_read\<close>, whether or not its field is a property.\<close>

definition decode_for_vec_tokens :: "ident \<Rightarrow> path \<Rightarrow> bool \<Rightarrow> dec_stmt list syn_result" where
  "decode_for_vec_tokens field type_path optional_field =
    bind (last_segment type_path) (\<lambda>seg.
      case seg_arguments seg of
        AngleBracketed args \<Rightarrow>
          bind (first_arg args) (\<lambda>arg.
            case arg of
              Arg_Type (Ty_Path inner_path) \<Rightarrow>
                bind (last_segment inner_path) (\<lambda>inner.
                  let type_name = seg_ident inner in
                  if type_name = ''u8'' then
                    Ok [D_Let_Vec inner_path, D_Decode Bytes_Read (Local ''value''), D_Assign field optional_field]
                  else if type_name \<in> {''i8'', ''u16'', ''i16'', ''u32'', ''i32'', ''u64'', ''i64'', ''f32'',
                      ''f64'', ''bool''} then
                    Ok (dec_error ''Decode derive does not support Vec of primitive types except Vec<u8>'')
                  else if type_name = ''String'' then
                    Ok [D_Let_Vec inner_path, D_While_Push inner_path, D_Assign field optional_field]
                  else Ok [D_Let_Vec inner_path, D_While_Push inner_path, D_Assign field False])
            | _ \<Rightarrow> Ok (dec_error ''Unsupported Vec inner type for Decode derive''))
      | _ \<Rightarrow> Ok (dec_error ''Unsupported Vec inner type for Decode derive''))"

definition decode_with_arg :: "meta \<Rightarrow> path option syn_result" where
  "decode_with_arg m =
    (case m of
       Meta_NameValue name (Expr_Lit (Lit_Str _ parsed _)) \<Rightarrow>
         if is_ident name CODEC_ATTR_DECODE_WITH_ARG then map_ok Some (unwrap_opt parsed) else Ok None
     | _ \<Rightarrow> Ok None)"

definition decode_for_decode_with_tokens :: "ident \<Rightarrow> attribute \<Rightarrow> path option \<Rightarrow> dec_stmt list syn_result" where
  "decode_for_decode_with_tokens field attr pt =
    (case parse_args attr of
       Ok nested \<Rightarrow>
         bind (find_map_res decode_with_arg nested) (\<lambda>decode_path.
         bind (unwrap_opt decode_path) (\<lambda>decode_with.
           Ok [D_Let_Call decode_with (read_counter pt), D_Assign field False]))
     | _ \<Rightarrow> Ok (dec_error ''decode_with attribute requires a function path''))"

section \<open>Dispatch on the field\<close>

text \<open>
  The type \<open>decode_field\<close> looks inside an \<open>Option\<close> for: \<open>Ok None\<close> is its early return of a compile
  error.
\<close>

definition option_inner_type :: "segment \<Rightarrow> ty option syn_result" where
  "option_inner_type seg =
    (case seg_arguments seg of
       AngleBracketed args \<Rightarrow>
         bind (first_arg args) (\<lambda>arg.
           case arg of
             Arg_Type (Ty_Path option_inner_type_path) \<Rightarrow> Ok (Some (Ty_Path option_inner_type_path))
           | _ \<Rightarrow> Ok None)
     | _ \<Rightarrow> Ok None)"

text \<open>
  The last match is on the outer type, so that an \<open>Option\<close> always goes to \<open>decode_for_type\<close> with its
  inner type.
\<close>

definition decode_field_stmts ::
    "syn_field \<Rightarrow> path \<Rightarrow> segment \<Rightarrow> ty \<Rightarrow> bool \<Rightarrow> attribute option \<Rightarrow> path option \<Rightarrow> dec_stmt list syn_result" where
  "decode_field_stmts field type_path seg inner_field_type optional_field decode_with pt =
    (let type_name = seg_ident seg in
     case decode_with of
       Some attr \<Rightarrow> decode_for_decode_with_tokens (fld_ident field) attr pt
     | None \<Rightarrow>
         if type_name = ''String'' then Ok (decode_for_string_tokens (fld_ident field) optional_field pt)
         else if type_name = ''Vec'' then decode_for_vec_tokens (fld_ident field) type_path optional_field
         else if is_primitive_type type_name then
           decode_for_primitive_tokens (fld_ident field) inner_field_type optional_field pt
         else Ok (decode_for_type_tokens (fld_ident field) inner_field_type optional_field pt))"

definition decode_field :: "syn_field \<Rightarrow> dec_field syn_result" where
  "decode_field field =
    (if unwrap_or (skip_field (fld_attrs field)) False then Ok (Dec_Stmts [])
     else
       bind (unwrap (has_attribute_with_name_value (fld_attrs field) CODEC_ATTR CODEC_ATTR_PROPERTY_TYPE_ARG)) (\<lambda>is_property.
       bind (unwrap (attribute_with_name_value (fld_attrs field) CODEC_ATTR CODEC_ATTR_DECODE_WITH_ARG)) (\<lambda>decode_with.
       bind (property_type (fld_attrs field)) (\<lambda>pt.
       if pt = None \<and> is_property then
         Ok (Dec_Stmts (dec_error ''Property attribute requires a property_type argument''))
       else
         let arm = (\<lambda>field_decode.
           case pt of Some p \<Rightarrow> if is_property then Dec_Arm p field_decode else Dec_Stmts field_decode
           | None \<Rightarrow> Dec_Stmts field_decode) in
         case fld_ty field of
           Ty_Path type_path \<Rightarrow>
             bind (last_segment type_path) (\<lambda>seg.
               if seg_ident seg = ''Option'' then
                 bind (option_inner_type seg) (\<lambda>inner.
                   case inner of
                     Some inner_field_type \<Rightarrow>
                       map_ok arm (decode_field_stmts field type_path seg inner_field_type True decode_with pt)
                   | None \<Rightarrow> Ok (Dec_Stmts (dec_error ''Unsupported Option inner type for Decode derive'')))
               else map_ok arm (decode_field_stmts field type_path seg (fld_ty field) False decode_with pt))
         | Ty_Other \<Rightarrow> Ok (Dec_Stmts (dec_error ''Unsupported field type for Decode derive''))))))"

section \<open>The implementation\<close>

text \<open>\<open>decode_internal\<close>: the parts of the emitted \<open>decode\<close>, in the order it runs them.\<close>

record decode_impl =
  di_min_size :: "nat option"
  di_header_fields :: "dec_field list"
  di_abbreviated_check :: bool
  di_non_abbreviated_fields :: "dec_field list"
  di_properties :: "dec_field list option"
  di_field_payload :: "dec_field list"
  di_remaining_payload :: "dec_field list"

text \<open>The fields whose \<open>payload_type\<close> is the given string; the lookup panics as \<open>payload_type\<close> does.\<close>

definition payload_fields_of :: "string \<Rightarrow> syn_field list \<Rightarrow> dec_field list syn_result" where
  "payload_fields_of kind fs =
    map_ok (map the \<circ> filter (\<lambda>d. d \<noteq> None)) (each_res (\<lambda>f.
      bind (payload_type (fld_attrs f)) (\<lambda>t.
        if t = Some kind then map_ok Some (decode_field f) else Ok None)) fs)"

definition decode_internal_tokens :: "item_struct \<Rightarrow> decode_impl expansion syn_result" where
  "decode_internal_tokens input =
    bind (min_decode_size (it_attrs input)) (\<lambda>min_size.
    if it_fields input = Fields_Unnamed then
      Ok (Refused (compile_error ''Decode does not support tuple structs''))
    else
      let fs = named_fields (it_fields input);
          header = filter is_header_field fs;
          has_properties = struct_has_attribute_with_name_value fs CODEC_ATTR CODEC_ATTR_PROPERTY_TYPE_ARG;
          has_payload = struct_has_attribute_with_name_value fs CODEC_ATTR CODEC_ATTR_PAYLOAD_ARG in
      bind (each_res decode_field (filter (\<lambda>f. \<not> is_abbreviated_out f) header)) (\<lambda>header_fields.
      bind (each_res decode_field (filter is_abbreviated_out header)) (\<lambda>non_abbreviated.
      bind (each_res decode_field
        (filter (\<lambda>f. unwrap_or (is_property_field (fld_attrs f)) False) fs)) (\<lambda>property_fields.
      bind (if has_payload then payload_fields_of CODEC_ATTR_PAYLOAD_TYPE_FIELD fs else Ok []) (\<lambda>field_payload.
      bind (if has_payload then payload_fields_of CODEC_ATTR_PAYLOAD_TYPE_REMAINING fs else Ok []) (\<lambda>remaining.
      if length remaining > 1 then
        Ok (Refused (compile_error (''Only one field can be marked with payload_type = '' @ [CHR 34] @ ''remaining'' @ [CHR 34])))
      else
        bind (abbreviated_when_expr (it_attrs input)) (\<lambda>abbreviated_when.
          Ok (Expanded \<lparr>
            di_min_size = min_size,
            di_header_fields = header_fields,
            di_abbreviated_check = (abbreviated_when \<noteq> None),
            di_non_abbreviated_fields = non_abbreviated,
            di_properties = (if has_properties then Some property_fields else None),
            di_field_payload = field_payload,
            di_remaining_payload = remaining\<rparr>))))))))"

end
