(* ===== verification/Macro_Meaning.thy ===== *)
theory Macro_Meaning
  imports Macro_Size Macro_Decode Packet_Connect Packet_Subscribe
begin

text \<open>
  What the emitted code does when it runs: an interpreter of the statements of \<open>Macro_Encode\<close>,
  \<open>Macro_Size\<close> and \<open>Macro_Decode\<close> on the fields of a struct. A field holds a value of one of the Rust
  types the packets use; a trait method on a value is the implementation for its type, modelled in
  the codec theories. \<open>None\<close> is code that does not compile (a \<open>compile_error!\<close>, an unknown name, a
  method its type does not have), or a loop that reads nothing and so does not end.
\<close>

section \<open>Values\<close>

datatype val =
    V_u8 u8 | V_u16 u16 | V_u32 u32 | V_bool bool | V_String string | V_bytes bytes
  | V_Reason Reason | V_QoSLevel QoSLevel | V_PayloadFormat PayloadFormat
  | V_UserProperty UserProperty | V_WillHeader WillHeader | V_SubscriptionFilter SubscriptionFilter
  | V_FixedHeader FixedHeader | V_Vec "val list" | V_Option "val option"

text \<open>The fields of a struct with their values, in declaration order.\<close>

type_synonym self = "(ident \<times> val) list"

text \<open>\<open>Encode\<close>, \<open>CodecSize\<close>, \<open>PropertyCodecSize\<close>, \<open>Decode\<close> and \<open>Default\<close> of the types.\<close>

fun val_encode :: "val \<Rightarrow> bytes codec_result option" where
  "val_encode (V_String s) = Some (encode_string s)"
| "val_encode (V_bytes d) = Some (encode_array_field d)"
| "val_encode (V_Reason r) = Some (Reason_encode r)"
| "val_encode (V_QoSLevel q) = Some (QoSLevel_encode q)"
| "val_encode (V_PayloadFormat f) = Some (PayloadFormat_encode f)"
| "val_encode (V_UserProperty u) = Some (UserProperty_encode u)"
| "val_encode (V_WillHeader w) = Some (WillHeader_encode w)"
| "val_encode (V_SubscriptionFilter f) = Some (SubscriptionFilter_encode f)"
| "val_encode _ = None"

fun val_codec_size :: "val \<Rightarrow> u32 option" where
  "val_codec_size (V_String s) = Some (String_codec_size s)"
| "val_codec_size (V_Reason r) = Some (Reason_codec_size r)"
| "val_codec_size (V_PayloadFormat f) = Some (PayloadFormat_codec_size f)"
| "val_codec_size (V_WillHeader w) = Some (WillHeader_codec_size w)"
| "val_codec_size (V_SubscriptionFilter f) = Some (SubscriptionFilter_codec_size f)"
| "val_codec_size _ = None"

fun val_property_size :: "val \<Rightarrow> u32 option" where
  "val_property_size (V_QoSLevel q) = Some (QoSLevel_property_size q)"
| "val_property_size (V_PayloadFormat f) = Some (PayloadFormat_property_size f)"
| "val_property_size (V_UserProperty u) = Some (UserProperty_property_size u)"
| "val_property_size (V_WillHeader w) = Some (WillHeader_property_size w)"
| "val_property_size _ = None"

type_synonym 'a reads = "('a \<times> nat \<times> bytes) codec_result"

definition typed :: "('a \<Rightarrow> val) \<Rightarrow> 'a reads \<Rightarrow> val reads" where
  "typed C = map_ok (\<lambda>(v, n, src). (C v, n, src))"

fun val_decode :: "val \<Rightarrow> bytes \<Rightarrow> val reads option" where
  "val_decode (V_u8 _) src = Some (typed V_u8 (u8_decode src))"
| "val_decode (V_u16 _) src = Some (typed V_u16 (u16_decode src))"
| "val_decode (V_u32 _) src = Some (typed V_u32 (u32_decode src))"
| "val_decode (V_bool _) src = Some (typed V_bool (bool_decode src))"
| "val_decode (V_String _) src = Some (typed V_String (String_decode src))"
| "val_decode (V_bytes _) src = Some (typed V_bytes (Vec_u8_decode src))"
| "val_decode (V_Reason _) src = Some (typed V_Reason (Reason_decode src))"
| "val_decode (V_QoSLevel _) src = Some (typed V_QoSLevel (QoSLevel_decode src))"
| "val_decode (V_PayloadFormat _) src = Some (typed V_PayloadFormat (PayloadFormat_decode src))"
| "val_decode (V_UserProperty u) src = Some (typed V_UserProperty (UserProperty_decode u src))"
| "val_decode (V_WillHeader w) src = Some (typed V_WillHeader (WillHeader_decode w src))"
| "val_decode (V_SubscriptionFilter _) src = Some (typed V_SubscriptionFilter (SubscriptionFilter_decode src))"
| "val_decode _ src = None"

definition type_name :: "path \<Rightarrow> ident" where
  "type_name p = (if segments p = [] then [] else seg_ident (last (segments p)))"

definition named_default :: "ident \<Rightarrow> val option" where
  "named_default n = map_of
    [(''u8'', V_u8 0), (''u16'', V_u16 0), (''u32'', V_u32 0), (''bool'', V_bool False),
     (''String'', V_String []), (''Reason'', V_Reason R_Success), (''QoSLevel'', V_QoSLevel AtMostOnce),
     (''PayloadFormat'', V_PayloadFormat PF_Bin), (''UserProperty'', V_UserProperty UserProperty_new),
     (''WillHeader'', V_WillHeader WillHeader_default),
     (''SubscriptionFilter'', V_SubscriptionFilter \<lparr>sf_filter = [], sf_options = 0\<rparr>),
     (''Option'', V_Option None)] n"

text \<open>\<open>Vec::new()\<close> for the element type: bytes have their own form.\<close>

definition new_vec :: "path \<Rightarrow> val" where
  "new_vec elem = (if type_name elem = ''u8'' then V_bytes [] else V_Vec [])"

definition default_val :: "ty \<Rightarrow> val option" where
  "default_val t =
    (case t of
       Ty_Path p \<Rightarrow>
         if type_name p = ''Vec'' then
           (case seg_arguments (last (segments p)) of
              AngleBracketed (Arg_Type (Ty_Path elem) # _) \<Rightarrow> Some (new_vec elem)
            | _ \<Rightarrow> None)
         else named_default (type_name p)
     | Ty_Other \<Rightarrow> None)"

section \<open>Names the attributes refer to\<close>

definition path_names :: "path \<Rightarrow> ident list" where
  "path_names p = map seg_ident (segments p)"

definition PropertyType_names :: "(ident \<times> PropertyType) list" where
  "PropertyType_names =
    [(''PayloadFormat'', P_PayloadFormat), (''MessageExpiry'', P_MessageExpiry),
     (''ContentType'', P_ContentType), (''ResponseTopic'', P_ResponseTopic),
     (''CorrelationData'', P_CorrelationData), (''SubscriptionIdentifier'', P_SubscriptionIdentifier),
     (''SessionExpiryInterval'', P_SessionExpiryInterval), (''AssignedClientId'', P_AssignedClientId),
     (''KeepAlive'', P_KeepAlive), (''AuthMethod'', P_AuthMethod), (''AuthData'', P_AuthData),
     (''ReqProblemInfo'', P_ReqProblemInfo), (''WillDelay'', P_WillDelay), (''ReqRespInfo'', P_ReqRespInfo),
     (''RespInfo'', P_RespInfo), (''ServerReference'', P_ServerReference),
     (''ReasonString'', P_ReasonString), (''RecvMax'', P_RecvMax), (''TopicAliasMax'', P_TopicAliasMax),
     (''TopicAlias'', P_TopicAlias), (''MaxQoS'', P_MaxQoS), (''RetainAvail'', P_RetainAvail),
     (''UserProperty'', P_UserProperty), (''MaxPacketSize'', P_MaxPacketSize),
     (''WildcardSubAvail'', P_WildcardSubAvail), (''SubIdAvail'', P_SubIdAvail),
     (''ShardSubAvail'', P_ShardSubAvail)]"

definition prop_of_path :: "path \<Rightarrow> PropertyType option" where
  "prop_of_path p =
    (case path_names p of [e, v] \<Rightarrow> if e = ''PropertyType'' then map_of PropertyType_names v else None
     | _ \<Rightarrow> None)"

text \<open>An \<open>Option<u32>\<close>, an \<open>Option<Bytes>\<close>, a \<open>Vec<Reason>\<close> as an argument of a named function.\<close>

fun as_opt_u32 :: "val \<Rightarrow> u32 option option" where
  "as_opt_u32 (V_Option None) = Some None"
| "as_opt_u32 (V_Option (Some (V_u32 n))) = Some (Some n)"
| "as_opt_u32 _ = None"

fun as_opt_bytes :: "val \<Rightarrow> bytes option option" where
  "as_opt_bytes (V_Option None) = Some None"
| "as_opt_bytes (V_Option (Some (V_bytes d))) = Some (Some d)"
| "as_opt_bytes _ = None"

fun as_reason :: "val \<Rightarrow> Reason option" where
  "as_reason (V_Reason r) = Some r"
| "as_reason _ = None"

fun as_reasons :: "val \<Rightarrow> Reason list option" where
  "as_reasons (V_Vec vs) = those (map as_reason vs)"
| "as_reasons _ = None"

text \<open>\<open>skip_if\<close>, \<open>encode_with\<close>, \<open>size_with\<close> and \<open>decode_with\<close> functions.\<close>

fun is_empty_val :: "val \<Rightarrow> ident \<Rightarrow> bool option" where
  "is_empty_val (V_bytes d) t = (if t = ''Vec'' then Some (d = []) else None)"
| "is_empty_val (V_Vec vs) t = (if t = ''Vec'' then Some (vs = []) else None)"
| "is_empty_val (V_String s) t = (if t = ''String'' then Some (s = []) else None)"
| "is_empty_val _ t = None"

definition call_skip_if :: "path \<Rightarrow> val \<Rightarrow> bool option" where
  "call_skip_if p v =
    (case path_names p of [t, f] \<Rightarrow> if f = ''is_empty'' then is_empty_val v t else None | _ \<Rightarrow> None)"

definition call_encode_with :: "path \<Rightarrow> val \<Rightarrow> bytes codec_result option" where
  "call_encode_with p v =
    (if path_names p = [''codec'', ''encode_opt_variable_byte_int_ref''] then
       map_option encode_opt_variable_byte_int (as_opt_u32 v)
     else if path_names p = [''codec'', ''encode_opt_vec_u8_raw_ref''] then
       map_option encode_opt_vec_u8_raw_ref (as_opt_bytes v)
     else None)"

definition call_size_with :: "path \<Rightarrow> val \<Rightarrow> u32 option" where
  "call_size_with p v =
    (if path_names p = [''codec'', ''codec_size_opt_variable_byte_int_ref''] then
       map_option codec_size_opt_variable_byte_int (as_opt_u32 v)
     else if path_names p = [''codec'', ''codec_size_opt_vec_u8_raw''] then
       map_option codec_size_opt_vec_u8_raw (as_opt_bytes v)
     else if path_names p = [''codec'', ''codec_size_vec_reason''] then
       map_option codec_size_vec_reason (as_reasons v)
     else None)"

definition call_decode_with :: "path \<Rightarrow> bytes \<Rightarrow> val reads option" where
  "call_decode_with p src =
    (if path_names p = [''codec'', ''decode_opt_variable_byte_int''] then
       Some (typed (\<lambda>v. V_Option (map_option V_u32 v)) (decode_opt_variable_byte_int src))
     else if path_names p = [''codec'', ''decode_opt_vec_u8_raw''] then
       Some (typed (\<lambda>v. V_Option (map_option V_bytes v)) (decode_opt_vec_u8_raw src))
     else None)"

section \<open>Running an encoder\<close>

fun eval_place :: "self \<Rightarrow> (ident \<times> val) list \<Rightarrow> place \<Rightarrow> val option" where
  "eval_place self locals (Self_Field f) = map_of self f"
| "eval_place self locals (Local x) = map_of locals x"

fun put_val :: "string \<Rightarrow> val \<Rightarrow> bytes option" where
  "put_val t (V_u8 b) = (if t = ''u8'' then Some (put_u8 b) else None)"
| "put_val t (V_u16 n) = (if t = ''u16'' then Some (put_u16 n) else None)"
| "put_val t (V_u32 n) = (if t = ''u32'' then Some (put_u32 n) else None)"
| "put_val t _ = None"

fun put_bool_val :: "val \<Rightarrow> bytes option" where
  "put_bool_val (V_bool b) = Some (put_u8 (if b then 1 else 0))"
| "put_bool_val _ = None"

text \<open>\<open>run_all\<close> runs statements in order: \<open>None\<close> when one of them does not compile.\<close>

definition run_all :: "bytes codec_result option list \<Rightarrow> bytes codec_result option" where
  "run_all rs = map_option seq_enc (those rs)"

fun exec_enc :: "self \<Rightarrow> u32 \<Rightarrow> (ident \<times> val) list \<Rightarrow> enc_stmt \<Rightarrow> bytes codec_result option" where
  "exec_enc self ps locals (E_Compile_Error m) = None"
| "exec_enc self ps locals (E_Put_Ident p) = map_option (\<lambda>pt. Ok (put_u8 (PropertyType_as_u8 pt))) (prop_of_path p)"
| "exec_enc self ps locals (E_Encode_String pl) =
    (case eval_place self locals pl of Some (V_String s) \<Rightarrow> Some (encode_string s) | _ \<Rightarrow> None)"
| "exec_enc self ps locals (E_Encode_Array pl) =
    (case eval_place self locals pl of Some (V_bytes d) \<Rightarrow> Some (encode_array_field d) | _ \<Rightarrow> None)"
| "exec_enc self ps locals (E_Put t pl) = map_option Ok (Option.bind (eval_place self locals pl) (put_val t))"
| "exec_enc self ps locals (E_Put_Bool pl) = map_option Ok (Option.bind (eval_place self locals pl) put_bool_val)"
| "exec_enc self ps locals (E_Encode pl) = Option.bind (eval_place self locals pl) val_encode"
| "exec_enc self ps locals (E_Call p f) = Option.bind (map_of self f) (call_encode_with p)"
| "exec_enc self ps locals (E_If_Some x f body) =
    (case map_of self f of
       Some (V_Option (Some v)) \<Rightarrow> run_all (map (exec_enc self ps ((x, v) # locals)) body)
     | Some (V_Option None) \<Rightarrow> Some (Ok [])
     | _ \<Rightarrow> None)"
| "exec_enc self ps locals (E_For x pl body) =
    (case eval_place self locals pl of
       Some (V_Vec vs) \<Rightarrow> run_all (map (\<lambda>v. run_all (map (exec_enc self ps ((x, v) # locals)) body)) vs)
     | _ \<Rightarrow> None)"
| "exec_enc self ps locals (E_Unless p f body) =
    (case Option.bind (map_of self f) (call_skip_if p) of
       Some skip \<Rightarrow> map_option (skip_if skip) (run_all (map (exec_enc self ps locals) body))
     | None \<Rightarrow> None)"
| "exec_enc self ps locals E_Property_Length = Some (encode_variable_byte_int ps)"

definition exec_encs :: "self \<Rightarrow> u32 \<Rightarrow> enc_stmt list \<Rightarrow> bytes codec_result option" where
  "exec_encs self ps body = run_all (map (exec_enc self ps []) body)"

text \<open>The \<open>compile_error!\<close>s among emitted statements, at any depth.\<close>

fun enc_errors :: "enc_stmt \<Rightarrow> string list" where
  "enc_errors (E_Compile_Error m) = [m]"
| "enc_errors (E_If_Some x f body) = concat (map enc_errors body)"
| "enc_errors (E_For x pl body) = concat (map enc_errors body)"
| "enc_errors (E_Unless p f body) = concat (map enc_errors body)"
| "enc_errors _ = []"

definition enc_compiles :: "enc_stmt list \<Rightarrow> bool" where
  "enc_compiles body \<longleftrightarrow> list_all (\<lambda>s. enc_errors s = []) body"

section \<open>Running a size\<close>

fun len_val :: "val \<Rightarrow> nat option" where
  "len_val (V_String s) = Some (length s)"
| "len_val (V_bytes d) = Some (length d)"
| "len_val (V_Vec vs) = Some (length vs)"
| "len_val _ = None"

fun eval_size :: "self \<Rightarrow> (ident \<times> val) list \<Rightarrow> size_expr \<Rightarrow> u32 option" where
  "eval_size self locals (S_Const n) = Some (of_nat n)"
| "eval_size self locals (S_Len pl) = map_option of_nat (Option.bind (eval_place self locals pl) len_val)"
| "eval_size self locals (S_Codec_Size pl) = Option.bind (eval_place self locals pl) val_codec_size"
| "eval_size self locals (S_Property_Size pl) = Option.bind (eval_place self locals pl) val_property_size"
| "eval_size self locals (S_Sum n pl) =
    (case eval_place self locals pl of
       Some (V_Vec vs) \<Rightarrow> map_option sum_list (those (map (\<lambda>v. map_option ((+) (of_nat n)) (val_codec_size v)) vs))
     | _ \<Rightarrow> None)"
| "eval_size self locals (S_Call p f) = Option.bind (map_of self f) (call_size_with p)"
| "eval_size self locals (S_Plus a b) =
    (case (eval_size self locals a, eval_size self locals b) of (Some m, Some n) \<Rightarrow> Some (m + n) | _ \<Rightarrow> None)"
| "eval_size self locals (S_Error m) = None"

text \<open>What the statements of a method add to its accumulator \<open>acc\<close>; the other one is not in scope.\<close>

definition add_all :: "u32 option list \<Rightarrow> u32 option" where
  "add_all rs = map_option sum_list (those rs)"

fun exec_size :: "self \<Rightarrow> accumulator \<Rightarrow> (ident \<times> val) list \<Rightarrow> size_stmt \<Rightarrow> u32 option" where
  "exec_size self acc locals (S_Compile_Error m) = None"
| "exec_size self acc locals (S_Add a e) = (if a = acc then eval_size self locals e else None)"
| "exec_size self acc locals (S_If_Some x f body) =
    (case map_of self f of
       Some (V_Option (Some v)) \<Rightarrow> add_all (map (exec_size self acc ((x, v) # locals)) body)
     | Some (V_Option None) \<Rightarrow> Some 0
     | _ \<Rightarrow> None)"
| "exec_size self acc locals (S_If_Not_Empty pl body) =
    (case Option.bind (eval_place self locals pl) len_val of
       Some n \<Rightarrow> if n \<noteq> 0 then add_all (map (exec_size self acc locals) body) else Some 0
     | None \<Rightarrow> None)"
| "exec_size self acc locals (S_Unless p f body) =
    (case Option.bind (map_of self f) (call_skip_if p) of
       Some skip \<Rightarrow> map_option (skip_if_size skip) (add_all (map (exec_size self acc locals) body))
     | None \<Rightarrow> None)"

definition exec_sizes :: "self \<Rightarrow> accumulator \<Rightarrow> size_stmt list \<Rightarrow> u32 option" where
  "exec_sizes self acc body = add_all (map (exec_size self acc []) body)"

fun expr_errors :: "size_expr \<Rightarrow> string list" where
  "expr_errors (S_Error m) = [m]"
| "expr_errors (S_Plus a b) = expr_errors a @ expr_errors b"
| "expr_errors _ = []"

fun size_errors :: "size_stmt \<Rightarrow> string list" where
  "size_errors (S_Compile_Error m) = [m]"
| "size_errors (S_Add a e) = expr_errors e"
| "size_errors (S_If_Some x f body) = concat (map size_errors body)"
| "size_errors (S_If_Not_Empty pl body) = concat (map size_errors body)"
| "size_errors (S_Unless p f body) = concat (map size_errors body)"

definition size_compiles :: "size_stmt list \<Rightarrow> bool" where
  "size_compiles body \<longleftrightarrow> list_all (\<lambda>s. size_errors s = []) body"

section \<open>Running a decoder\<close>

text \<open>\<open>?\<close> on an outcome that may not compile.\<close>

definition obind :: "'a codec_result option \<Rightarrow> ('a \<Rightarrow> 'b codec_result option) \<Rightarrow> 'b codec_result option" where
  "obind m f = (case m of None \<Rightarrow> None | Some (Ok x) \<Rightarrow> f x | Some (Err e) \<Rightarrow> Some (Err e) | Some Panic \<Rightarrow> Some Panic)"

lemma obind_cong [fundef_cong]:
  "m = m' \<Longrightarrow> (\<And>x. m' = Some (Ok x) \<Longrightarrow> f x = g x) \<Longrightarrow> obind m f = obind m' g"
  by (auto simp: obind_def split: option.splits res.splits)

lemma obind_simps [simp]:
  "obind None f = None" "obind (Some (Ok x)) f = f x"
  "obind (Some (Err e)) f = Some (Err e)" "obind (Some Panic) f = Some Panic"
  by (simp_all add: obind_def)

lemma obind_lift: "obind (Some m) (\<lambda>x. Some (f x)) = Some (bind m f)"
  by (cases m) simp_all

text \<open>The locals of \<open>decode\<close>: \<open>value\<close> and the two counters, with \<open>self\<close> and the buffer.\<close>

record dec_state =
  ds_self :: self
  ds_value :: "val option"
  ds_property_bytes_read :: nat
  ds_bytes_read :: nat
  ds_src :: bytes

definition count :: "counter \<Rightarrow> nat \<Rightarrow> dec_state \<Rightarrow> dec_state" where
  "count c n st =
    (case c of Bytes_Read \<Rightarrow> st\<lparr>ds_bytes_read := ds_bytes_read st + n\<rparr>
     | Property_Bytes_Read \<Rightarrow> st\<lparr>ds_property_bytes_read := ds_property_bytes_read st + n\<rparr>)"

definition set_field :: "ident \<Rightarrow> val \<Rightarrow> dec_state \<Rightarrow> dec_state codec_result option" where
  "set_field f v st =
    (if map_of (ds_self st) f = None then None
     else Some (Ok (st\<lparr>ds_self := AList.update f v (ds_self st)\<rparr>)))"

definition get_val :: "string \<Rightarrow> bytes \<Rightarrow> val reads option" where
  "get_val t src =
    (if t = ''u8'' then Some (typed V_u8 (u8_decode src))
     else if t = ''u16'' then Some (typed V_u16 (u16_decode src))
     else if t = ''u32'' then Some (typed V_u32 (u32_decode src))
     else if t = ''bool'' then
       Some (bind (get_u8 src) (\<lambda>(b, src). Ok (V_bool (b \<noteq> 0), 1, src)))
     else None)"

text \<open>
  The \<open>while src.has_remaining()\<close> loop of \<open>decode_for_vec\<close>. An item that reads nothing would make it
  run forever.
\<close>

function items_loop :: "(bytes \<Rightarrow> val reads option) \<Rightarrow> bytes \<Rightarrow> (val list \<times> nat \<times> bytes) codec_result option" where
  "items_loop dec src =
    (if src = [] then Some (Ok ([], 0, []))
     else obind (dec src) (\<lambda>(item, n, src').
       if length src' < length src then
         obind (items_loop dec src') (\<lambda>(items, m, src). Some (Ok (item # items, n + m, src)))
       else None))"
  by pat_completeness auto
termination
  by (relation "measure (\<lambda>(dec, src). length src)") auto

declare items_loop.simps [simp del]

fun exec_dec :: "dec_stmt \<Rightarrow> dec_state \<Rightarrow> dec_state codec_result option" where
  "exec_dec (D_Compile_Error m) st = None"
| "exec_dec (D_Let_Default t) st =
    (case default_val t of Some v \<Rightarrow> Some (Ok (st\<lparr>ds_value := Some v\<rparr>)) | None \<Rightarrow> None)"
| "exec_dec (D_Let_Vec elem) st = Some (Ok (st\<lparr>ds_value := Some (new_vec elem)\<rparr>))"
| "exec_dec (D_Decode c (Local x)) st =
    (case ds_value st of
       Some v \<Rightarrow>
         if x = ''value'' then
           obind (val_decode v (ds_src st)) (\<lambda>(v, n, src).
             Some (Ok (count c n (st\<lparr>ds_value := Some v, ds_src := src\<rparr>))))
         else None
     | None \<Rightarrow> None)"
| "exec_dec (D_Decode c (Self_Field f)) st =
    (case map_of (ds_self st) f of
       Some v \<Rightarrow>
         obind (val_decode v (ds_src st)) (\<lambda>(v, n, src). set_field f v (count c n (st\<lparr>ds_src := src\<rparr>)))
     | None \<Rightarrow> None)"
| "exec_dec (D_Read f optional t c) st =
    obind (get_val t (ds_src st)) (\<lambda>(v, n, src).
      set_field f (if optional then V_Option (Some v) else v) (count c n (st\<lparr>ds_src := src\<rparr>)))"
| "exec_dec (D_Let_Call p c) st =
    obind (call_decode_with p (ds_src st)) (\<lambda>(v, n, src).
      Some (Ok (count c n (st\<lparr>ds_value := Some v, ds_src := src\<rparr>))))"
| "exec_dec (D_While_Push elem) st =
    (case (ds_value st, default_val (Ty_Path elem)) of
       (Some (V_Vec vs), Some d) \<Rightarrow>
         obind (items_loop (val_decode d) (ds_src st)) (\<lambda>(items, n, src).
           Some (Ok (count Bytes_Read n (st\<lparr>ds_value := Some (V_Vec (vs @ items)), ds_src := src\<rparr>))))
     | _ \<Rightarrow> None)"
| "exec_dec (D_Assign f optional) st =
    (case ds_value st of
       Some v \<Rightarrow> set_field f (if optional then V_Option (Some v) else v) st
     | None \<Rightarrow> None)"

primrec exec_decs :: "dec_stmt list \<Rightarrow> dec_state \<Rightarrow> dec_state codec_result option" where
  "exec_decs [] st = Some (Ok st)"
| "exec_decs (s # ss) st = obind (exec_dec s st) (exec_decs ss)"

declare exec_decs.simps(2) [simp del]

text \<open>The emitted \<open>match\<close>: its arms, then the one that refuses.\<close>

definition begin_dec :: "self \<Rightarrow> bytes \<Rightarrow> dec_state" where
  "begin_dec self src =
    \<lparr>ds_self = self, ds_value = None, ds_property_bytes_read = 0, ds_bytes_read = 0, ds_src = src\<rparr>"

definition arm_for :: "PropertyType \<Rightarrow> dec_field \<Rightarrow> bool" where
  "arm_for pt d \<longleftrightarrow> (case d of Dec_Arm p _ \<Rightarrow> prop_of_path p = Some pt | _ \<Rightarrow> False)"

definition arm_out :: "dec_state \<Rightarrow> self \<times> nat \<times> nat \<times> bytes" where
  "arm_out st = (ds_self st, ds_property_bytes_read st, ds_bytes_read st, ds_src st)"

definition run_arms :: "dec_field list \<Rightarrow> PropertyType \<Rightarrow> self \<Rightarrow> bytes \<Rightarrow> self arm_result option" where
  "run_arms arms pt self src =
    (case find (arm_for pt) arms of
       Some (Dec_Arm _ body) \<Rightarrow> map_option (map_ok arm_out) (exec_decs body (begin_dec self src))
     | _ \<Rightarrow> Some (unsupported_property pt))"

text \<open>The emitted property loop.\<close>

function run_loop ::
    "(PropertyType \<Rightarrow> self \<Rightarrow> bytes \<Rightarrow> self arm_result option) \<Rightarrow> nat \<Rightarrow> nat \<Rightarrow> nat \<Rightarrow> self \<Rightarrow> bytes \<Rightarrow> self arm_result option" where
  "run_loop arms property_length property_bytes_read bytes_read self src =
    (if property_bytes_read < property_length then
       obind (Some (get_u8 src)) (\<lambda>(b, src).
       obind (Some (PropertyType_try_from b)) (\<lambda>pt.
       obind (arms pt self src) (\<lambda>(self, dp, db, src).
         run_loop arms property_length (property_bytes_read + 1 + dp) (bytes_read + db) self src)))
     else Some (Ok (self, property_bytes_read, bytes_read, src)))"
  by pat_completeness auto
termination
  by (relation "measure (\<lambda>(arms, len, read, bread, self, src). len - read)") auto

declare run_loop.simps [simp del]

definition run_properties :: "dec_field list option \<Rightarrow> dec_state \<Rightarrow> dec_state codec_result option" where
  "run_properties arms st =
    (case arms of
       None \<Rightarrow> Some (Ok st)
     | Some arms \<Rightarrow>
         obind (Some (decode_variable_byte_int (ds_src st))) (\<lambda>(property_length, var_bytes_read, src).
         obind (run_loop (run_arms arms) (unat property_length) 0 0 (ds_self st) src) (\<lambda>(self, pn, bn, src).
           Some (Ok (count Bytes_Read (var_bytes_read + bn + pn) (st\<lparr>ds_self := self, ds_src := src\<rparr>))))))"

text \<open>The emitted minimum size check, which may fail or end the decoder; \<open>k\<close> is what follows it.\<close>

definition min_size_check ::
    "nat option \<Rightarrow> dec_state \<Rightarrow> (dec_state \<Rightarrow> dec_state codec_result option) \<Rightarrow> dec_state codec_result option" where
  "min_size_check min_size st k =
    (case min_size of
       None \<Rightarrow> k st
     | Some m \<Rightarrow>
         let required_remaining = (if ds_bytes_read st < m then m - ds_bytes_read st else 0) in
         if length (ds_src st) < required_remaining then
           Some (Err (EK_InsufficientData required_remaining (length (ds_src st))))
         else if ds_src st = [] \<and> ds_bytes_read st = m then Some (Ok st)
         else k st)"

text \<open>Statements outside the \<open>match\<close>.\<close>

primrec exec_fields :: "dec_field list \<Rightarrow> dec_state \<Rightarrow> dec_state codec_result option" where
  "exec_fields [] st = Some (Ok st)"
| "exec_fields (d # ds) st =
    (case d of Dec_Stmts ss \<Rightarrow> obind (exec_decs ss st) (exec_fields ds) | Dec_Arm _ _ \<Rightarrow> None)"

definition dec_out :: "dec_state \<Rightarrow> self \<times> nat \<times> bytes" where
  "dec_out st = (ds_self st, ds_bytes_read st, ds_src st)"

definition exec_decode_impl :: "decode_impl \<Rightarrow> self \<Rightarrow> bytes \<Rightarrow> self reads option" where
  "exec_decode_impl di self src = map_option (map_ok dec_out)
    (min_size_check (di_min_size di) (begin_dec self src) (\<lambda>st.
     obind (exec_fields (di_header_fields di) st) (\<lambda>st.
       if di_abbreviated_check di \<and> ds_src st = [] then Some (Ok st)
       else
         obind (exec_fields (di_non_abbreviated_fields di) st) (\<lambda>st.
         min_size_check (di_min_size di) st (\<lambda>st.
         obind (run_properties (di_properties di) st) (\<lambda>st.
         obind (exec_fields (di_field_payload di) st)
           (exec_fields (di_remaining_payload di))))))))"

text \<open>
  A decoder compiles when none of its statements is a \<open>compile_error!\<close>, its match arms are for
  properties, and no match arm stands outside the \<open>match\<close>.
\<close>

fun stmt_error :: "dec_stmt \<Rightarrow> bool" where
  "stmt_error (D_Compile_Error m) = True"
| "stmt_error _ = False"

definition stmts_compile :: "dec_field \<Rightarrow> bool" where
  "stmts_compile d \<longleftrightarrow> (case d of Dec_Arm p ss \<Rightarrow> False | Dec_Stmts ss \<Rightarrow> \<not> list_ex stmt_error ss)"

definition arm_compiles :: "dec_field \<Rightarrow> bool" where
  "arm_compiles d \<longleftrightarrow> (case d of
     Dec_Arm p ss \<Rightarrow> prop_of_path p \<noteq> None \<and> \<not> list_ex stmt_error ss
   | Dec_Stmts ss \<Rightarrow> ss = [])"

definition dec_compiles :: "decode_impl \<Rightarrow> bool" where
  "dec_compiles di \<longleftrightarrow>
    list_all stmts_compile (di_header_fields di @ di_non_abbreviated_fields di @ di_field_payload di @ di_remaining_payload di)
    \<and> (case di_properties di of Some arms \<Rightarrow> list_all arm_compiles arms | None \<Rightarrow> True)"

section \<open>The methods a declaration expands to\<close>

text \<open>
  \<open>property_size\<close>, \<open>codec_size\<close>, \<open>property_encode\<close>, \<open>encode\<close> and \<open>decode\<close> of a declared struct. The
  expression of \<open>abbreviated_when\<close> is evaluated by \<open>eval\<close>.
\<close>

definition run_property_size :: "item_struct \<Rightarrow> self \<Rightarrow> u32 option" where
  "run_property_size input self =
    (case codec_property_size_tokens input of
       Ok (Expanded calculations) \<Rightarrow>
         if list_all size_compiles calculations then
           add_all (map (exec_sizes self Acc_property_size) calculations)
         else None
     | _ \<Rightarrow> None)"

text \<open>The value of an \<open>abbreviated_when\<close> check; without one the method goes on.\<close>

definition eval_check :: "(expr_text \<Rightarrow> bool option) \<Rightarrow> expr_text option \<Rightarrow> bool option" where
  "eval_check eval check = (case check of Some e \<Rightarrow> eval e | None \<Rightarrow> Some False)"

definition run_codec_size :: "item_struct \<Rightarrow> (expr_text \<Rightarrow> bool option) \<Rightarrow> self \<Rightarrow> u32 option" where
  "run_codec_size input eval self =
    (case codec_size_tokens input of
       Ok (Expanded cs) \<Rightarrow>
         if list_all size_compiles (cs_field_sizes cs @ cs_non_abbreviated_field_sizes cs) then
           Option.bind (those (map (exec_sizes self Acc_total_size) (cs_field_sizes cs))) (\<lambda>field_sizes.
           Option.bind (those (map (exec_sizes self Acc_total_size) (cs_non_abbreviated_field_sizes cs))) (\<lambda>non_abbreviated.
             if cs_has_properties cs then
               Option.bind (eval_check eval (cs_abbreviated_check cs)) (\<lambda>abbreviated.
                 map_option (derive_codec_size field_sizes abbreviated non_abbreviated)
                   (run_property_size input self))
             else Some (sum_list field_sizes + sum_list non_abbreviated)))
         else None
     | _ \<Rightarrow> None)"

definition exec_enc_fields :: "self \<Rightarrow> u32 \<Rightarrow> enc_stmt list list \<Rightarrow> bytes codec_result list option" where
  "exec_enc_fields self ps bodies =
    (if list_all enc_compiles bodies then those (map (exec_encs self ps) bodies) else None)"

definition run_property_encode :: "item_struct \<Rightarrow> self \<Rightarrow> bytes codec_result option" where
  "run_property_encode input self =
    (case property_encode_tokens input of
       Ok (Expanded property_fields) \<Rightarrow>
         Option.bind (run_property_size input self) (\<lambda>ps.
           map_option seq_enc (exec_enc_fields self ps property_fields))
     | _ \<Rightarrow> None)"

definition run_encode :: "item_struct \<Rightarrow> bool \<Rightarrow> (expr_text \<Rightarrow> bool option) \<Rightarrow> self \<Rightarrow> bytes codec_result option" where
  "run_encode input as_packet eval self =
    (case encode_internal_tokens input as_packet of
       Ok (Expanded ei) \<Rightarrow>
         Option.bind
           (if ei_packet_encode ei then
              (case map_of self ''fixed_header'' of
                 Some (V_FixedHeader h) \<Rightarrow> map_option (\<lambda>size. Some (h, size)) (run_codec_size input eval self)
               | _ \<Rightarrow> None)
            else Some None) (\<lambda>packet.
         Option.bind (exec_enc_fields self 0 (ei_header_fields ei)) (\<lambda>header_fields.
         Option.bind (eval_check eval (ei_abbreviated_check ei)) (\<lambda>abbreviated.
         Option.bind (exec_enc_fields self 0 (ei_non_abbreviated_header_fields ei)) (\<lambda>non_abbreviated.
         Option.bind (if ei_property_encode ei then map_option (\<lambda>m. [m]) (run_property_encode input self)
                      else Some []) (\<lambda>property_encode.
         Option.bind (exec_enc_fields self 0 (ei_payload_fields ei)) (\<lambda>payload_fields.
           Some (encode_internal packet header_fields abbreviated non_abbreviated property_encode payload_fields)))))))
     | _ \<Rightarrow> None)"

definition run_decode :: "item_struct \<Rightarrow> self \<Rightarrow> bytes \<Rightarrow> self reads option" where
  "run_decode input self src =
    (case decode_internal_tokens input of
       Ok (Expanded di) \<Rightarrow>
         if dec_compiles di then exec_decode_impl di self src else None
     | _ \<Rightarrow> None)"

section \<open>The property loop on a record\<close>

text \<open>
  When a record represents the fields and each emitted arm does to them what the model's arm does to
  the record, so does the emitted loop.
\<close>

definition map_arm :: "('r \<Rightarrow> self) \<Rightarrow> 'r arm_result \<Rightarrow> self arm_result" where
  "map_arm rep = map_ok (\<lambda>(r, dp, db, src). (rep r, dp, db, src))"

definition map_read :: "('r \<Rightarrow> self) \<Rightarrow> 'r reads \<Rightarrow> self reads" where
  "map_read rep = map_ok (\<lambda>(r, n, src). (rep r, n, src))"

lemma run_loop_refines:
  assumes arms: "\<And>pt r src. run pt (rep r) src = Some (map_arm rep (arms pt r src))"
  shows "run_loop run len n b (rep r) src = Some (map_arm rep (prop_loop arms len n b r src))"
proof (induction "len - n" arbitrary: n b r src rule: less_induct)
  case less
  show ?case
  proof (cases "n < len")
    case True
    have ih: "run_loop run len (n + 1 + dp) (b + db) (rep r') src' =
        Some (map_arm rep (prop_loop arms len (n + 1 + dp) (b + db) r' src'))" for dp db r' src'
      by (rule less.hyps) (use True in simp)
    show ?thesis
    proof (cases "get_u8 src :: (u8 \<times> bytes) codec_result")
      case (Ok p)
      note get = this
      obtain c src1 where p: "p = (c, src1)" by (cases p)
      show ?thesis
      proof (cases "PropertyType_try_from c")
        case (Ok pt)
        with get p True show ?thesis
          using ih by (subst run_loop.simps, subst prop_loop.simps, cases "arms pt r src1")
            (auto simp: arms map_arm_def split: prod.splits)
      qed (use get p True in \<open>subst run_loop.simps, subst prop_loop.simps, simp add: map_arm_def\<close>)+
    qed (use True in \<open>subst run_loop.simps, subst prop_loop.simps, simp add: map_arm_def\<close>)+
  next
    case False
    then show ?thesis by (subst run_loop.simps) (simp add: map_arm_def)
  qed
qed

lemma run_properties_refines:
  assumes "\<And>pt r src. run_arms tokens pt (rep r) src = Some (map_arm rep (arms pt r src))"
    and "ds_self st = rep r"
  shows "run_properties (Some tokens) st =
    Some (map_ok (\<lambda>(r, n, src). count Bytes_Read n (st\<lparr>ds_self := rep r, ds_src := src\<rparr>))
      (decode_properties arms r (ds_src st)))"
proof (cases "decode_variable_byte_int (ds_src st)")
  case (Ok x)
  obtain len vb src where x: "x = (len, vb, src)" by (cases x)
  show ?thesis
    using Ok x assms(2)
    by (cases "prop_loop arms (unat len) 0 0 r src")
      (auto simp: run_properties_def decode_properties_def run_loop_refines [where run = "run_arms tokens" and rep = rep and arms = arms, OF assms(1)] map_arm_def)
qed (simp_all add: run_properties_def decode_properties_def)

end
