(* ===== verification/Macro_Fields.thy ===== *)
theory Macro_Fields
  imports Macro_Meaning
begin

text \<open>
  Building declarations, and the correctness of each emitter: what the statements for a field do when
  they run is the definition of \<open>Codec_Macro\<close> that the packet theories use for such a field.
\<close>

section \<open>Writing declarations\<close>

definition ident_path :: "ident \<Rightarrow> path" where
  "ident_path n = Path False [Segment n No_Arguments]"

definition names_path :: "ident list \<Rightarrow> path" where
  "names_path ns = Path False (map (\<lambda>n. Segment n No_Arguments) ns)"

text \<open>A string literal that holds a path, and one that holds another expression.\<close>

fun joined :: "ident list \<Rightarrow> string" where
  "joined [] = []"
| "joined [n] = n"
| "joined (n # ns) = n @ ''::'' @ joined ns"

definition path_lit :: "ident list \<Rightarrow> lit" where
  "path_lit ns = Lit_Str (joined ns) (Some (names_path ns)) (Some (joined ns))"

definition expr_lit :: "string \<Rightarrow> lit" where
  "expr_lit e = Lit_Str e None (Some e)"

definition codec :: "meta list \<Rightarrow> attribute" where
  "codec ms = Attribute (ident_path ''codec'') (Some ms)"

definition arg :: "ident \<Rightarrow> ident list \<Rightarrow> meta" where
  "arg key ns = Meta_NameValue (ident_path key) (Expr_Lit (path_lit ns))"

definition expr_arg :: "ident \<Rightarrow> string \<Rightarrow> meta" where
  "expr_arg key e = Meta_NameValue (ident_path key) (Expr_Lit (expr_lit e))"

definition flag :: "ident \<Rightarrow> meta" where
  "flag key = Meta_Path (ident_path key)"

definition derives :: "ident list \<Rightarrow> attribute" where
  "derives ns = Attribute (ident_path ''derive'') (Some (map flag ns))"

definition property :: "ident \<Rightarrow> attribute" where
  "property v = codec [arg ''property_type'' [''PropertyType'', v]]"

definition ty_names :: "ident list \<Rightarrow> ty" where
  "ty_names ns = Ty_Path (names_path ns)"

definition ty_app :: "ident \<Rightarrow> ty \<Rightarrow> ty" where
  "ty_app c t = Ty_Path (Path False [Segment c (AngleBracketed [Arg_Type t])])"

definition declare_field :: "attribute list \<Rightarrow> visibility \<Rightarrow> ident \<Rightarrow> ty \<Rightarrow> syn_field" where
  "declare_field attrs vis name t = \<lparr>fld_attrs = attrs, fld_vis = vis, fld_ident = name, fld_ty = t\<rparr>"

named_theorems query_simps \<open>the attribute queries on a declaration\<close>

lemma ident_path_is [query_simps]: "is_ident (ident_path a) b \<longleftrightarrow> a = b"
  by (simp add: is_ident_def ident_path_def)

lemma arg_simps [query_simps]:
  "is_name_value_arg key (arg k ns) \<longleftrightarrow> k = key" "is_name_value_arg key (expr_arg k e) \<longleftrightarrow> k = key"
  "\<not> is_name_value_arg key (flag k)"
  "\<not> is_path_arg key (arg k ns)" "\<not> is_path_arg key (expr_arg k e)" "is_path_arg key (flag k) \<longleftrightarrow> k = key"
  "meta_path (arg k ns) = ident_path k" "meta_path (expr_arg k e) = ident_path k" "meta_path (flag k) = ident_path k"
  by (simp_all add: is_name_value_arg_def is_path_arg_def arg_def expr_arg_def flag_def ident_path_is)

lemma codec_simps_attr [query_simps]:
  "attr_is name (codec ms) \<longleftrightarrow> name = ''codec''" "parse_args (codec ms) = Ok ms"
  "attr_is name (derives ns) \<longleftrightarrow> name = ''derive''"
  by (auto simp: attr_is_def codec_def derives_def parse_args_def ident_path_is)

text \<open>What the value queries read from an argument.\<close>

lemma arg_value_simps [query_simps]:
  "arg_value key rd (arg k ns) = (if k = key then rd (path_lit ns) else Ok None)"
  "arg_value key rd (expr_arg k e) = (if k = key then rd (expr_lit e) else Ok None)"
  "arg_value key rd (flag k) = Ok None"
  "skip_if_arg (arg k ns) = (if k = CODEC_ATTR_SKIP_IF_ARG then Ok (Some (names_path ns)) else Ok None)"
  "skip_if_arg (flag k) = Ok None"
  "encode_with_arg f opt pt (arg k ns) =
    (if k = CODEC_ATTR_ENCODE_WITH_ARG then
       Ok (Some (if opt then [E_If_Some ''f'' f (prop_ident_tokens pt @ [E_Call (names_path ns) f])]
         else prop_ident_tokens pt @ [E_Call (names_path ns) f]))
     else Ok None)"
  "decode_with_arg (arg k ns) = (if k = CODEC_ATTR_DECODE_WITH_ARG then Ok (Some (names_path ns)) else Ok None)"
  "size_with_arg f is_property opt (arg k ns) =
    (if k = ''size_with'' then
       (let add = (if is_property then S_Add Acc_property_size (S_Plus (S_Const 1) (S_Call (names_path ns) f))
             else S_Add Acc_total_size (S_Call (names_path ns) f)) in
        Ok (Some (if opt then [S_If_Some ''_'' f [add]] else [add])))
     else Ok None)"
  by (simp_all add: arg_value_def skip_if_arg_def encode_with_arg_def decode_with_arg_def size_with_arg_def
      arg_def expr_arg_def flag_def path_lit_def expr_lit_def ident_path_is unwrap_opt_def)

lemma lit_simps [query_simps]:
  "parsed_path (path_lit ns) = Some (names_path ns)" "lit_value (path_lit ns) = joined ns"
  "(case path_lit ns of Lit_Str v p e \<Rightarrow> f v p e | Lit_Int n \<Rightarrow> g n | Lit_Other \<Rightarrow> h) = f (joined ns) (Some (names_path ns)) (Some (joined ns))"
  "(case expr_lit t of Lit_Str v p e \<Rightarrow> f v p e | Lit_Int n \<Rightarrow> g n | Lit_Other \<Rightarrow> h) = f t None (Some t)"
  by (simp_all add: path_lit_def expr_lit_def)

lemma ty_last_segment [query_simps]:
  "last_segment (names_path [a]) = Ok (Segment a No_Arguments)"
  "last_segment (names_path [a, b]) = Ok (Segment b No_Arguments)"
  "last_segment (Path False [s]) = Ok s"
  by (simp_all add: last_segment_def names_path_def)

lemma path_names_names_path [query_simps]: "path_names (names_path ns) = ns"
  by (simp add: path_names_def names_path_def comp_def)

lemma declare_field_simps [query_simps]:
  "fld_attrs (declare_field attrs vis name t) = attrs" "fld_ident (declare_field attrs vis name t) = name"
  "fld_ty (declare_field attrs vis name t) = t" "fld_vis (declare_field attrs vis name t) = vis"
  by (simp_all add: declare_field_def)

lemmas query_defs = has_attribute_with_path_def has_attribute_with_name_value_def
  attribute_with_name_value_def skip_field_def is_property_field_def is_payload_field_def
  is_non_abbreviated_field_def is_as_packet_def is_skip_decode_def payload_type_def min_decode_size_def
  abbreviated_when_expr_def property_type_def get_skip_if_path_def codec_find_map_def
  struct_has_attribute_with_name_value_def unwrap_opt_def is_header_field_def is_abbreviated_out_def

section \<open>Encoders\<close>

text \<open>The property whose identifier is written, for the path of a property field or none.\<close>

definition resolved :: "path option \<Rightarrow> PropertyType option option" where
  "resolved pt = (case pt of None \<Rightarrow> Some None | Some p \<Rightarrow> map_option Some (prop_of_path p))"

named_theorems exec_simps \<open>what the emitted statements for a field do\<close>

lemma run_all_single [simp]: "run_all [m] = m"
  by (cases m) (simp_all add: run_all_def)

lemma run_all_Nil [simp]: "run_all [] = Some (Ok [])"
  by (simp add: run_all_def)

lemma those_Some [simp]: "those (map (\<lambda>x. Some (f x)) xs) = Some (map f xs)"
  by (induction xs) simp_all

lemma run_prop_ident:
  assumes "resolved pt = Some q"
  shows "run_all (map (exec_enc self ps locals) (prop_ident_tokens pt) @ rs) =
    map_option (\<lambda>m. seq_enc [Ok (prop_ident_encode q), m]) (run_all rs)"
  using assms
  by (cases pt) (auto simp: resolved_def prop_ident_tokens_def prop_ident_encode_def run_all_def option.map_comp comp_def)

lemma exec_string [exec_simps]:
  assumes "map_of self f = Some (V_String s)" and "resolved pt = Some q"
  shows "exec_encs self ps (encode_for_string_tokens f False pt) = Some (encode_for_string q s)"
  using assms by (simp add: exec_encs_def encode_for_string_tokens_def run_prop_ident encode_for_string_def)

lemma exec_string_opt [exec_simps]:
  assumes "map_of self f = Some (V_Option (map_option V_String s))" and "resolved pt = Some q"
  shows "exec_encs self ps (encode_for_string_tokens f True pt) = Some (encode_for_string_opt q s)"
  using assms
  by (cases s) (simp_all add: exec_encs_def encode_for_string_tokens_def run_prop_ident encode_for_string_opt_def)

text \<open>\<open>prim_val\<close> and \<open>prim_name\<close>: the primitives of \<open>Codec_Macro\<close> as values and types of a declaration.\<close>

fun prim_val :: "prim \<Rightarrow> val" where
  "prim_val (Prim_u8 b) = V_u8 b"
| "prim_val (Prim_u16 n) = V_u16 n"
| "prim_val (Prim_u32 n) = V_u32 n"
| "prim_val (Prim_bool b) = V_bool b"

fun prim_name :: "prim \<Rightarrow> string" where
  "prim_name (Prim_u8 b) = ''u8''"
| "prim_name (Prim_u16 n) = ''u16''"
| "prim_name (Prim_u32 n) = ''u32''"
| "prim_name (Prim_bool b) = ''bool''"

lemma exec_primitive:
  assumes "map_of self f = Some (prim_val v)" and "resolved pt = Some q"
  shows "exec_encs self ps (encode_for_primitive_tokens f (prim_name v) False pt) = Some (encode_for_primitive q v)"
  using assms
  by (cases v) (simp_all add: exec_encs_def encode_for_primitive_tokens_def run_prop_ident encode_for_primitive_def)

lemma exec_primitive_opt:
  assumes "map_of self f = Some (V_Option (map_option prim_val v))" and "resolved pt = Some q"
    and "\<And>x. v = Some x \<Longrightarrow> prim_name x = t"
  shows "exec_encs self ps (encode_for_primitive_tokens f t True pt) = Some (encode_for_primitive_opt q v)"
proof (cases v)
  case None
  then show ?thesis
    using assms by (simp add: exec_encs_def encode_for_primitive_tokens_def Let_def encode_for_primitive_opt_def)
next
  case (Some x)
  with assms(1,2) show ?thesis
    by (cases x) (auto simp: exec_encs_def encode_for_primitive_tokens_def run_prop_ident
        encode_for_primitive_opt_def dest!: assms(3))
qed

lemma exec_primitive_typed [exec_simps]:
  "map_of self f = Some (V_u8 a) \<Longrightarrow> resolved pt = Some q \<Longrightarrow>
    exec_encs self ps (encode_for_primitive_tokens f ''u8'' False pt) = Some (encode_for_primitive q (Prim_u8 a))"
  "map_of self f = Some (V_u16 b) \<Longrightarrow> resolved pt = Some q \<Longrightarrow>
    exec_encs self ps (encode_for_primitive_tokens f ''u16'' False pt) = Some (encode_for_primitive q (Prim_u16 b))"
  using exec_primitive [of self f "Prim_u8 a" pt q ps] exec_primitive [of self f "Prim_u16 b" pt q ps] by simp_all

lemma exec_primitive_opt_typed [exec_simps]:
  "map_of self f = Some (V_Option (map_option V_u16 b)) \<Longrightarrow> resolved pt = Some q \<Longrightarrow>
    exec_encs self ps (encode_for_primitive_tokens f ''u16'' True pt) = Some (encode_for_primitive_opt q (map_option Prim_u16 b))"
  "map_of self f = Some (V_Option (map_option V_u32 c)) \<Longrightarrow> resolved pt = Some q \<Longrightarrow>
    exec_encs self ps (encode_for_primitive_tokens f ''u32'' True pt) = Some (encode_for_primitive_opt q (map_option Prim_u32 c))"
  "map_of self f = Some (V_Option (map_option V_bool d)) \<Longrightarrow> resolved pt = Some q \<Longrightarrow>
    exec_encs self ps (encode_for_primitive_tokens f ''bool'' True pt) = Some (encode_for_primitive_opt q (map_option Prim_bool d))"
  by (rule exec_primitive_opt, auto simp: option.map_comp comp_def)+

lemma exec_vec_u8 [exec_simps]:
  assumes "map_of self f = Some (V_bytes d)" and "resolved pt = Some q"
  shows "exec_encs self ps (prop_ident_tokens pt @ [E_Encode_Array (Self_Field f)]) = Some (encode_for_vec_u8 q d)"
  using assms by (simp add: exec_encs_def run_prop_ident encode_for_vec_u8_def)

lemma exec_vec:
  assumes "map_of self f = Some (V_Vec (map C xs))" and "\<And>x. val_encode (C x) = Some (enc x)"
  shows "exec_encs self ps [E_For ''item'' (Self_Field f) [E_Encode (Local ''item'')]] = Some (encode_for_vec enc xs)"
  using assms by (simp add: exec_encs_def comp_def encode_for_vec_def) (simp add: run_all_def)

lemmas exec_vec_typed [exec_simps] =
  exec_vec [where C = V_Reason and enc = Reason_encode, simplified]
  exec_vec [where C = V_String and enc = encode_string, simplified]
  exec_vec [where C = V_SubscriptionFilter and enc = SubscriptionFilter_encode, simplified]

lemma exec_type [exec_simps]:
  "map_of self f = Some v \<Longrightarrow> exec_encs self ps [E_Encode (Self_Field f)] = val_encode v"
  by (simp add: exec_encs_def)

lemma exec_option:
  assumes "map_of self f = Some (V_Option (map_option C x))" and "resolved pt = Some q" and "\<And>x. val_encode (C x) = Some (enc x)"
  shows "exec_encs self ps [E_If_Some f f (prop_ident_tokens pt @ [E_Encode (Local f)])] = Some (encode_for_option q enc x)"
  using assms by (cases x) (simp_all add: exec_encs_def run_prop_ident encode_for_option_def)

lemmas exec_option_typed [exec_simps] =
  exec_option [where C = V_Reason and enc = Reason_encode, simplified]
  exec_option [where C = V_QoSLevel and enc = QoSLevel_encode, simplified]
  exec_option [where C = V_PayloadFormat and enc = PayloadFormat_encode, simplified]
  exec_option [where C = V_WillHeader and enc = WillHeader_encode, simplified]

lemma exec_encode_with:
  assumes "map_of self f = Some (V_Option (map_option C x))" and "resolved pt = Some q"
    and "\<And>x. call_encode_with p (V_Option (map_option C x)) = Some (path x)"
  shows "exec_encs self ps [E_If_Some ''f'' f (prop_ident_tokens pt @ [E_Call p f])] =
    Some (encode_for_encode_with_opt q path x)"
  using assms assms(3) [of x]
  by (cases x) (simp_all add: exec_encs_def run_prop_ident encode_for_encode_with_opt_def)

lemma call_encode_with_typed:
  "call_encode_with (names_path [''codec'', ''encode_opt_variable_byte_int_ref'']) (V_Option (map_option V_u32 x)) =
    Some (encode_opt_variable_byte_int x)"
  "call_encode_with (names_path [''codec'', ''encode_opt_vec_u8_raw_ref'']) (V_Option (map_option V_bytes y)) =
    Some (encode_opt_vec_u8_raw_ref y)"
  by (cases x; cases y; simp add: call_encode_with_def query_simps)+

lemmas exec_encode_with_typed [exec_simps] =
  exec_encode_with [where C = V_u32, OF _ _ call_encode_with_typed(1)]
  exec_encode_with [where C = V_bytes, OF _ _ call_encode_with_typed(2)]

lemma exec_unless [exec_simps]:
  "map_of self f = Some v \<Longrightarrow> call_skip_if p v = Some skip \<Longrightarrow>
    exec_encs self ps [E_Unless p f body] = map_option (skip_if skip) (exec_encs self ps body)"
  by (simp add: exec_encs_def)

lemma call_skip_if_typed [exec_simps]:
  "call_skip_if (names_path [''Vec'', ''is_empty'']) (V_bytes d) = Some (d = [])"
  "call_skip_if (names_path [''String'', ''is_empty'']) (V_String s) = Some (s = [])"
  by (simp_all add: call_skip_if_def query_simps)

lemma exec_nothing [exec_simps]: "exec_encs self ps [] = Some (Ok [])"
  by (simp add: exec_encs_def)

lemma exec_property_length [exec_simps]: "exec_encs self ps [E_Property_Length] = Some (encode_variable_byte_int ps)"
  by (simp add: exec_encs_def)

lemma PropertyType_names_simps [exec_simps]:
  "map_of PropertyType_names ''PayloadFormat'' = Some P_PayloadFormat"
  "map_of PropertyType_names ''MessageExpiry'' = Some P_MessageExpiry"
  "map_of PropertyType_names ''ContentType'' = Some P_ContentType"
  "map_of PropertyType_names ''ResponseTopic'' = Some P_ResponseTopic"
  "map_of PropertyType_names ''CorrelationData'' = Some P_CorrelationData"
  "map_of PropertyType_names ''SubscriptionIdentifier'' = Some P_SubscriptionIdentifier"
  "map_of PropertyType_names ''SessionExpiryInterval'' = Some P_SessionExpiryInterval"
  "map_of PropertyType_names ''AssignedClientId'' = Some P_AssignedClientId"
  "map_of PropertyType_names ''KeepAlive'' = Some P_KeepAlive"
  "map_of PropertyType_names ''AuthMethod'' = Some P_AuthMethod"
  "map_of PropertyType_names ''AuthData'' = Some P_AuthData"
  "map_of PropertyType_names ''ReqProblemInfo'' = Some P_ReqProblemInfo"
  "map_of PropertyType_names ''WillDelay'' = Some P_WillDelay"
  "map_of PropertyType_names ''ReqRespInfo'' = Some P_ReqRespInfo"
  "map_of PropertyType_names ''RespInfo'' = Some P_RespInfo"
  "map_of PropertyType_names ''ServerReference'' = Some P_ServerReference"
  "map_of PropertyType_names ''ReasonString'' = Some P_ReasonString"
  "map_of PropertyType_names ''RecvMax'' = Some P_RecvMax"
  "map_of PropertyType_names ''TopicAliasMax'' = Some P_TopicAliasMax"
  "map_of PropertyType_names ''TopicAlias'' = Some P_TopicAlias"
  "map_of PropertyType_names ''MaxQoS'' = Some P_MaxQoS"
  "map_of PropertyType_names ''RetainAvail'' = Some P_RetainAvail"
  "map_of PropertyType_names ''UserProperty'' = Some P_UserProperty"
  "map_of PropertyType_names ''MaxPacketSize'' = Some P_MaxPacketSize"
  "map_of PropertyType_names ''WildcardSubAvail'' = Some P_WildcardSubAvail"
  "map_of PropertyType_names ''SubIdAvail'' = Some P_SubIdAvail"
  "map_of PropertyType_names ''ShardSubAvail'' = Some P_ShardSubAvail"
  by (simp_all add: PropertyType_names_def)

lemma resolved_simps [exec_simps]:
  "resolved None = Some None"
  "resolved (Some (names_path [''PropertyType'', v])) = map_option Some (map_of PropertyType_names v)"
  by (auto simp: resolved_def prop_of_path_def query_simps)

lemma enc_compiles_simps [exec_simps]:
  "enc_compiles []" "enc_compiles [E_Property_Length]" "enc_compiles (prop_ident_tokens pt @ ss) \<longleftrightarrow> enc_compiles ss"
  "enc_compiles [E_Encode pl]" "enc_compiles [E_Encode_Array pl]" "enc_compiles [E_Call p f]"
  "enc_compiles (encode_for_string_tokens f opt pt)"
  "enc_compiles (encode_for_primitive_tokens f ''u8'' opt pt)" "enc_compiles (encode_for_primitive_tokens f ''u16'' opt pt)"
  "enc_compiles (encode_for_primitive_tokens f ''u32'' opt pt)" "enc_compiles (encode_for_primitive_tokens f ''bool'' opt pt)"
  "enc_compiles [E_If_Some x f body] \<longleftrightarrow> enc_compiles body" "enc_compiles [E_For x pl body] \<longleftrightarrow> enc_compiles body"
  "enc_compiles [E_Unless p f body] \<longleftrightarrow> enc_compiles body"
  by (auto simp: enc_compiles_def prop_ident_tokens_def encode_for_string_tokens_def encode_for_primitive_tokens_def
      list_all_iff split: option.splits)

section \<open>Sizes\<close>

lemma add_all_simps [simp]: "add_all [m] = m" "add_all [] = Some 0"
  by (cases m) (simp_all add: add_all_def)

lemma add_all_two [simp]: "add_all [Some a, Some b] = Some (a + b)"
  by (simp add: add_all_def)

lemma exec_size_string [exec_simps]:
  "map_of self f = Some (V_String s) \<Longrightarrow>
    exec_sizes self Acc_total_size (size_for_string_tokens f) = Some (size_for_string s)"
  "map_of self f = Some (V_String s) \<Longrightarrow>
    exec_sizes self Acc_property_size (size_for_string_property_tokens f False) = Some (size_for_string_property s)"
  by (simp_all add: exec_sizes_def size_for_string_tokens_def size_for_string_property_tokens_def size_for_string_def
      size_for_string_property_def)

lemma exec_size_string_opt [exec_simps]:
  "map_of self f = Some (V_Option (map_option V_String s)) \<Longrightarrow>
    exec_sizes self Acc_total_size (size_for_option_string_tokens f) = Some (size_for_option_string s)"
  "map_of self f = Some (V_Option (map_option V_String s)) \<Longrightarrow>
    exec_sizes self Acc_property_size (size_for_string_property_tokens f True) = Some (size_for_string_property_opt s)"
  by (cases s; simp add: exec_sizes_def size_for_option_string_tokens_def size_for_string_property_tokens_def
      size_for_option_string_def size_for_string_property_opt_def)+

lemma exec_size_primitive [exec_simps]:
  "exec_sizes self Acc_total_size (size_for_primitive_internal ''u8'') = Some 1"
  "exec_sizes self Acc_total_size (size_for_primitive_internal ''u16'') = Some 2"
  by (simp_all add: exec_sizes_def size_for_primitive_internal_def primitive_width_def)

lemma exec_size_primitive_opt:
  assumes "map_of self f = Some (V_Option (map_option prim_val v))" and "\<And>x. v = Some x \<Longrightarrow> prim_name x = t"
  shows "exec_sizes self Acc_property_size (size_for_primitive_property_tokens f t True) =
      Some (size_for_primitive_property_opt v)"
    and "exec_sizes self Acc_total_size (size_for_primitive_optional_tokens f t) =
      Some (size_for_primitive_optional v)"
proof -
  show "exec_sizes self Acc_property_size (size_for_primitive_property_tokens f t True) =
      Some (size_for_primitive_property_opt v)"
  proof (cases v)
    case (Some x)
    with assms(1) assms(2) [OF Some] show ?thesis
      by (cases x) (auto simp: exec_sizes_def size_for_primitive_property_tokens_def
          size_for_primitive_property_opt_def primitive_width_def)
  qed (use assms(1) in \<open>simp add: exec_sizes_def size_for_primitive_property_tokens_def size_for_primitive_property_opt_def\<close>)
  show "exec_sizes self Acc_total_size (size_for_primitive_optional_tokens f t) = Some (size_for_primitive_optional v)"
  proof (cases v)
    case (Some x)
    with assms(1) assms(2) [OF Some] show ?thesis
      by (cases x) (auto simp: exec_sizes_def size_for_primitive_optional_tokens_def size_for_primitive_internal_def
          size_for_primitive_optional_def primitive_width_def)
  qed (use assms(1) in \<open>simp add: exec_sizes_def size_for_primitive_optional_tokens_def size_for_primitive_optional_def\<close>)
qed

lemma exec_size_primitive_opt_typed [exec_simps]:
  "map_of self f = Some (V_Option (map_option V_u16 b)) \<Longrightarrow> exec_sizes self Acc_property_size
    (size_for_primitive_property_tokens f ''u16'' True) = Some (size_for_primitive_property_opt (map_option Prim_u16 b))"
  "map_of self f = Some (V_Option (map_option V_u32 c)) \<Longrightarrow> exec_sizes self Acc_property_size
    (size_for_primitive_property_tokens f ''u32'' True) = Some (size_for_primitive_property_opt (map_option Prim_u32 c))"
  "map_of self f = Some (V_Option (map_option V_bool d)) \<Longrightarrow> exec_sizes self Acc_property_size
    (size_for_primitive_property_tokens f ''bool'' True) = Some (size_for_primitive_property_opt (map_option Prim_bool d))"
  "map_of self f = Some (V_Option (map_option V_u16 b)) \<Longrightarrow> exec_sizes self Acc_total_size
    (size_for_primitive_optional_tokens f ''u16'') = Some (size_for_primitive_optional (map_option Prim_u16 b))"
  by (rule exec_size_primitive_opt, auto simp: option.map_comp comp_def)+

lemma exec_size_codec_size [exec_simps]:
  "map_of self f = Some v \<Longrightarrow>
    exec_sizes self Acc_total_size (size_for_codec_size_tokens f False False) = val_codec_size v"
  "map_of self f = Some v \<Longrightarrow>
    exec_sizes self Acc_property_size (size_for_codec_size_tokens f True False) = val_property_size v"
  by (simp_all add: exec_sizes_def size_for_codec_size_tokens_def)

lemma exec_size_codec_size_opt:
  assumes "map_of self f = Some (V_Option (map_option C x))"
  shows "(\<And>x. val_codec_size (C x) = Some (size_of x)) \<Longrightarrow>
      exec_sizes self Acc_total_size (size_for_codec_size_tokens f False True) = Some (size_for_codec_size_opt size_of x)"
    and "(\<And>x. val_property_size (C x) = Some (size_of x)) \<Longrightarrow>
      exec_sizes self Acc_property_size (size_for_codec_size_tokens f True True) = Some (size_for_codec_size_opt size_of x)"
  using assms by (cases x; simp add: exec_sizes_def size_for_codec_size_tokens_def size_for_codec_size_opt_def)+

lemmas exec_size_codec_size_typed [exec_simps] =
  exec_size_codec_size_opt(1) [where C = V_Reason and size_of = Reason_codec_size, simplified]
  exec_size_codec_size_opt(1) [where C = V_WillHeader and size_of = WillHeader_codec_size, simplified]
  exec_size_codec_size_opt(2) [where C = V_QoSLevel and size_of = QoSLevel_property_size, simplified]
  exec_size_codec_size_opt(2) [where C = V_PayloadFormat and size_of = PayloadFormat_property_size, simplified]

lemma exec_size_vec_u8 [exec_simps]:
  "map_of self f = Some (V_bytes d) \<Longrightarrow> exec_sizes self Acc_property_size
    [S_If_Not_Empty (Self_Field f) [S_Add Acc_property_size (S_Plus (S_Const (Suc 0)) (S_Plus (S_Const 2) (S_Len (Self_Field f))))]] =
    Some (size_for_vec_u8 True d)"
  "map_of self f = Some (V_bytes d) \<Longrightarrow> exec_sizes self Acc_total_size
    [S_If_Not_Empty (Self_Field f) [S_Add Acc_total_size (S_Plus (S_Const 2) (S_Len (Self_Field f)))]] =
    Some (size_for_vec_u8 False d)"
  by (simp_all add: exec_sizes_def size_for_vec_u8_def)

lemma exec_size_vec:
  assumes "map_of self f = Some (V_Vec (map C xs))" and "\<And>x. val_codec_size (C x) = Some (size_of x)"
  shows "exec_sizes self Acc_total_size [S_If_Not_Empty (Self_Field f) [S_Add Acc_total_size (S_Sum 0 (Self_Field f))]] =
    Some (size_for_vec size_of xs)"
  using assms by (simp add: exec_sizes_def size_for_vec_def comp_def)

lemmas exec_size_vec_typed [exec_simps] =
  exec_size_vec [where C = V_Reason and size_of = Reason_codec_size, simplified]
  exec_size_vec [where C = V_String and size_of = String_codec_size, simplified]
  exec_size_vec [where C = V_SubscriptionFilter and size_of = SubscriptionFilter_codec_size, simplified]

lemma exec_size_with [exec_simps]:
  "map_of self f = Some v \<Longrightarrow>
    exec_sizes self Acc_total_size [S_Add Acc_total_size (S_Call p f)] = call_size_with p v"
  by (simp add: exec_sizes_def)

lemma exec_size_with_opt:
  assumes "map_of self f = Some (V_Option (map_option C x))"
    and "\<And>x. call_size_with p (V_Option (map_option C x)) = Some (path x)"
  shows "exec_sizes self Acc_property_size
      [S_If_Some ''_'' f [S_Add Acc_property_size (S_Plus (S_Const (Suc 0)) (S_Call p f))]] =
      Some (size_with_path_opt_property path x)"
    and "exec_sizes self Acc_total_size [S_If_Some ''_'' f [S_Add Acc_total_size (S_Call p f)]] =
      Some (size_with_path_opt path x)"
  using assms assms(2) [of x]
  by (cases x; simp add: exec_sizes_def size_with_path_opt_property_def size_with_path_opt_def)+

lemma call_size_with_typed:
  "call_size_with (names_path [''codec'', ''codec_size_opt_variable_byte_int_ref'']) (V_Option (map_option V_u32 x)) =
    Some (codec_size_opt_variable_byte_int x)"
  "call_size_with (names_path [''codec'', ''codec_size_opt_vec_u8_raw'']) (V_Option (map_option V_bytes y)) =
    Some (codec_size_opt_vec_u8_raw y)"
  "call_size_with (names_path [''codec'', ''codec_size_vec_reason'']) (V_Vec (map V_Reason rs)) =
    Some (codec_size_vec_reason rs)"
  by (cases x; cases y; simp add: call_size_with_def query_simps comp_def)+

lemmas exec_size_with_typed [exec_simps] = call_size_with_typed(3)
  exec_size_with_opt(1) [where C = V_u32, OF _ call_size_with_typed(1)]
  exec_size_with_opt(2) [where C = V_bytes, OF _ call_size_with_typed(2)]

lemma exec_size_unless [exec_simps]:
  "map_of self f = Some v \<Longrightarrow> call_skip_if p v = Some skip \<Longrightarrow>
    exec_sizes self acc [S_Unless p f body] = map_option (skip_if_size skip) (exec_sizes self acc body)"
  by (simp add: exec_sizes_def)

lemma exec_size_nothing [exec_simps]: "exec_sizes self acc [] = Some 0"
  by (simp add: exec_sizes_def)

lemma size_compiles_simps [exec_simps]:
  "size_compiles []" "size_compiles (size_for_string_tokens f)" "size_compiles (size_for_string_property_tokens f opt)"
  "size_compiles (size_for_option_string_tokens f)" "size_compiles (size_for_codec_size_tokens f is_property opt)"
  "size_compiles (size_for_primitive_internal ''u8'')" "size_compiles (size_for_primitive_internal ''u16'')"
  "size_compiles (size_for_primitive_property_tokens f ''u16'' opt)"
  "size_compiles (size_for_primitive_property_tokens f ''u32'' opt)"
  "size_compiles (size_for_primitive_property_tokens f ''bool'' opt)"
  "size_compiles (size_for_primitive_optional_tokens f ''u16'')"
  "size_compiles [S_If_Some x f body] \<longleftrightarrow> size_compiles body"
  "size_compiles [S_If_Not_Empty pl body] \<longleftrightarrow> size_compiles body"
  "size_compiles [S_Unless p f body] \<longleftrightarrow> size_compiles body"
  "size_compiles [S_Add acc e] \<longleftrightarrow> expr_errors e = []"
  by (auto simp: size_compiles_def size_for_string_tokens_def size_for_string_property_tokens_def
      size_for_option_string_tokens_def size_for_codec_size_tokens_def size_for_primitive_internal_def
      size_for_primitive_property_tokens_def size_for_primitive_optional_tokens_def primitive_width_def Let_def list_all_iff split: if_splits)

section \<open>Decoders\<close>

text \<open>The state after a read of \<open>n\<close> bytes that stores \<open>v\<close> in a field.\<close>

definition stored :: "counter \<Rightarrow> ident \<Rightarrow> val option \<Rightarrow> dec_state \<Rightarrow> val \<times> nat \<times> bytes \<Rightarrow> dec_state" where
  "stored c f value st = (\<lambda>(v, n, src).
    count c n (st\<lparr>ds_self := AList.update f v (ds_self st), ds_value := value, ds_src := src\<rparr>))"

lemma count_simps [simp]:
  "ds_self (count c n st) = ds_self st" "ds_value (count c n st) = ds_value st" "ds_src (count c n st) = ds_src st"
  "count c n (st\<lparr>ds_self := self\<rparr>) = (count c n st)\<lparr>ds_self := self\<rparr>"
  "count c n (st\<lparr>ds_value := value\<rparr>) = (count c n st)\<lparr>ds_value := value\<rparr>"
  "count c n (st\<lparr>ds_src := src\<rparr>) = (count c n st)\<lparr>ds_src := src\<rparr>"
  by (simp_all add: count_def split: counter.splits)

lemma count_counters [simp]:
  "ds_bytes_read (count Bytes_Read n st) = ds_bytes_read st + n"
  "ds_bytes_read (count Property_Bytes_Read n st) = ds_bytes_read st"
  "ds_property_bytes_read (count Bytes_Read n st) = ds_property_bytes_read st"
  "ds_property_bytes_read (count Property_Bytes_Read n st) = ds_property_bytes_read st + n"
  by (simp_all add: count_def)

lemma exec_read_opt:
  assumes "default_val t = Some d" and "\<And>src. val_decode d src = Some (typed C (dec src))"
    and "map_of (ds_self st) f = Some w"
  shows "exec_decs [D_Let_Default t, D_Decode c (Local ''value''), D_Assign f True] st =
    Some (map_ok (\<lambda>(v, n, src). stored c f (Some (C v)) st (V_Option (Some (C v)), n, src)) (dec (ds_src st)))"
  using assms
  by (cases "dec (ds_src st)") (auto simp: exec_decs.simps(2) typed_def set_field_def stored_def)

lemma exec_read_self:
  assumes "map_of (ds_self st) f = Some w" and "val_decode w (ds_src st) = Some (typed C (dec (ds_src st)))"
  shows "exec_decs [D_Decode c (Self_Field f)] st =
    Some (map_ok (\<lambda>(v, n, src). stored c f (ds_value st) st (C v, n, src)) (dec (ds_src st)))"
  using assms
  by (cases "dec (ds_src st)") (auto simp: exec_decs.simps(2) typed_def set_field_def stored_def)

lemma exec_read_primitive [exec_simps]:
  "map_of (ds_self st) f = Some w \<Longrightarrow> exec_decs [D_Read f False ''u8'' c] st =
    Some (map_ok (\<lambda>(v, n, src). stored c f (ds_value st) st (V_u8 v, n, src)) (u8_decode (ds_src st)))"
  "map_of (ds_self st) f = Some w \<Longrightarrow> exec_decs [D_Read f False ''u16'' c] st =
    Some (map_ok (\<lambda>(v, n, src). stored c f (ds_value st) st (V_u16 v, n, src)) (u16_decode (ds_src st)))"
  by (cases "u8_decode (ds_src st)"; cases "u16_decode (ds_src st)";
      auto simp: exec_decs.simps(2) get_val_def typed_def set_field_def stored_def)+

lemma default_val_simps [exec_simps]:
  "default_val (ty_names [''u16'']) = Some (V_u16 0)" "default_val (ty_names [''u32'']) = Some (V_u32 0)"
  "default_val (ty_names [''bool'']) = Some (V_bool False)" "default_val (ty_names [''String'']) = Some (V_String [])"
  "default_val (ty_names [''QoSLevel'']) = Some (V_QoSLevel AtMostOnce)"
  "default_val (ty_names [''PayloadFormat'']) = Some (V_PayloadFormat PF_Bin)"
  "default_val (ty_names [''codec'', ''Reason'']) = Some (V_Reason R_Success)"
  "default_val (ty_names [''Reason'']) = Some (V_Reason R_Success)"
  "default_val (ty_names [''SubscriptionFilter'']) = Some (V_SubscriptionFilter \<lparr>sf_filter = [], sf_options = 0\<rparr>)"
  by (simp_all add: default_val_def ty_names_def type_name_def names_path_def named_default_def)

lemmas exec_read_opt_typed [unfolded ty_names_def, exec_simps] =
  exec_read_opt [where t = "ty_names [''u16'']" and dec = u16_decode and C = V_u16, simplified default_val_simps, simplified]
  exec_read_opt [where t = "ty_names [''u32'']" and dec = u32_decode and C = V_u32, simplified default_val_simps, simplified]
  exec_read_opt [where t = "ty_names [''bool'']" and dec = bool_decode and C = V_bool, simplified default_val_simps, simplified]
  exec_read_opt [where t = "ty_names [''String'']" and dec = String_decode and C = V_String, simplified default_val_simps, simplified]
  exec_read_opt [where t = "ty_names [''QoSLevel'']" and dec = QoSLevel_decode and C = V_QoSLevel, simplified default_val_simps, simplified]
  exec_read_opt [where t = "ty_names [''PayloadFormat'']" and dec = PayloadFormat_decode and C = V_PayloadFormat, simplified default_val_simps, simplified]
  exec_read_opt [where t = "ty_names [''codec'', ''Reason'']" and dec = Reason_decode and C = V_Reason, simplified default_val_simps, simplified]

lemmas exec_read_self_typed [exec_simps] =
  exec_read_self [where w = "V_String s" and dec = String_decode and C = V_String for s, simplified]
  exec_read_self [where w = "V_Reason r" and dec = Reason_decode and C = V_Reason for r, simplified]
  exec_read_self [where w = "V_UserProperty u" and dec = "UserProperty_decode u" and C = V_UserProperty for u, simplified]

lemma exec_read_vec_u8 [exec_simps]:
  assumes "map_of (ds_self st) f = Some w"
  shows "exec_decs [D_Let_Vec (names_path [''u8'']), D_Decode Bytes_Read (Local ''value''), D_Assign f False] st =
    Some (map_ok (\<lambda>(v, n, src). stored Bytes_Read f (Some (V_bytes v)) st (V_bytes v, n, src)) (Vec_u8_decode (ds_src st)))"
  using assms
  by (cases "Vec_u8_decode (ds_src st)")
    (auto simp: exec_decs.simps(2) new_vec_def type_name_def names_path_def typed_def set_field_def stored_def)

text \<open>\<open>items_loop\<close> is the loop of \<open>Codec_Strings\<close> and \<open>Packet_Subscribe\<close> for the item types.\<close>

lemma items_loop_eq:
  assumes loop: "\<And>src. items src = (if src = [] then Ok ([], 0, []) else bind (dec src) (\<lambda>(item, n, src).
      bind (items src) (\<lambda>(xs, m, src). Ok (item # xs, n + m, src))))"
    and shrinks: "\<And>src x n rest. dec src = Ok (x, n, rest) \<Longrightarrow> length rest < length src"
    and vdec: "\<And>src. vdec src = Some (typed C (dec src))"
  shows "items_loop vdec src = Some (map_ok (\<lambda>(xs, n, src). (map C xs, n, src)) (items src))"
proof (induction "length src" arbitrary: src rule: less_induct)
  case less
  show ?case
  proof (cases "src = []")
    case True
    then show ?thesis by (subst items_loop.simps, subst loop) simp
  next
    case False
    show ?thesis
    proof (cases "dec src")
      case (Ok y)
      obtain x n rest where y: "y = (x, n, rest)" by (cases y)
      with Ok have "length rest < length src" using shrinks by blast
      with less [of rest] False Ok y show ?thesis
        by (subst items_loop.simps, subst loop, cases "items rest") (auto simp: vdec typed_def)
    qed (use False in \<open>subst items_loop.simps, subst loop, simp add: vdec typed_def\<close>)+
  qed
qed

lemma exec_read_items:
  assumes "default_val (Ty_Path elem) = Some d" and "new_vec elem = V_Vec []" and "map_of (ds_self st) f = Some w"
    and items: "\<And>src. items_loop (val_decode d) src = Some (map_ok (\<lambda>(xs, n, src). (map C xs, n, src)) (items src))"
  shows "exec_decs [D_Let_Vec elem, D_While_Push elem, D_Assign f False] st =
    Some (map_ok (\<lambda>(xs, n, src). stored Bytes_Read f (Some (V_Vec (map C xs))) st (V_Vec (map C xs), n, src)) (items (ds_src st)))"
  using assms
  by (cases "items (ds_src st)") (auto simp: exec_decs.simps(2) set_field_def stored_def)

lemma items_loop_typed:
  "items_loop (val_decode (V_Reason r)) src = Some (map_ok (\<lambda>(xs, n, src). (map V_Reason xs, n, src)) (decode_reasons src))"
  "items_loop (val_decode (V_String s)) src = Some (map_ok (\<lambda>(xs, n, src). (map V_String xs, n, src)) (decode_strings src))"
  "items_loop (val_decode (V_SubscriptionFilter f)) src =
    Some (map_ok (\<lambda>(xs, n, src). (map V_SubscriptionFilter xs, n, src)) (decode_filters src))"
  subgoal by (rule items_loop_eq [OF decode_reasons.simps]) (auto simp: Reason_decode_def dest: get_u8_length)
  subgoal by (rule items_loop_eq [OF decode_strings.simps]) (auto dest: String_decode_length)
  subgoal by (rule items_loop_eq [OF decode_filters.simps]) (auto dest: SubscriptionFilter_decode_length)
  done

lemma Ty_Path_names_path: "Ty_Path (names_path ns) = ty_names ns"
  by (simp add: ty_names_def)

lemma new_vec_names [exec_simps]: "new_vec (names_path [n]) = (if n = ''u8'' then V_bytes [] else V_Vec [])"
  by (simp add: new_vec_def type_name_def names_path_def)

lemma exec_read_items_typed [exec_simps]:
  "map_of (ds_self st) f = Some w \<Longrightarrow>
    exec_decs [D_Let_Vec (names_path [''Reason'']), D_While_Push (names_path [''Reason'']), D_Assign f False] st =
    Some (map_ok (\<lambda>(xs, n, src). stored Bytes_Read f (Some (V_Vec (map V_Reason xs))) st (V_Vec (map V_Reason xs), n, src))
      (decode_reasons (ds_src st)))"
  "map_of (ds_self st) f = Some w \<Longrightarrow>
    exec_decs [D_Let_Vec (names_path [''String'']), D_While_Push (names_path [''String'']), D_Assign f False] st =
    Some (map_ok (\<lambda>(xs, n, src). stored Bytes_Read f (Some (V_Vec (map V_String xs))) st (V_Vec (map V_String xs), n, src))
      (decode_strings (ds_src st)))"
  "map_of (ds_self st) f = Some w \<Longrightarrow>
    exec_decs [D_Let_Vec (names_path [''SubscriptionFilter'']), D_While_Push (names_path [''SubscriptionFilter'']), D_Assign f False] st =
    Some (map_ok (\<lambda>(xs, n, src). stored Bytes_Read f (Some (V_Vec (map V_SubscriptionFilter xs))) st
      (V_Vec (map V_SubscriptionFilter xs), n, src)) (decode_filters (ds_src st)))"
  subgoal by (rule exec_read_items [OF _ _ _ items_loop_typed(1)])
      (simp_all add: Ty_Path_names_path default_val_simps new_vec_names)
  subgoal by (rule exec_read_items [OF _ _ _ items_loop_typed(2)])
      (simp_all add: Ty_Path_names_path default_val_simps new_vec_names)
  subgoal by (rule exec_read_items [OF _ _ _ items_loop_typed(3)])
      (simp_all add: Ty_Path_names_path default_val_simps new_vec_names)
  done

lemma exec_decode_with [exec_simps]:
  assumes "map_of (ds_self st) f = Some w"
  shows "exec_decs [D_Let_Call (names_path [''codec'', ''decode_opt_variable_byte_int'']) c, D_Assign f False] st =
    Some (map_ok (\<lambda>(v, n, src). stored c f (Some (V_Option (map_option V_u32 v))) st (V_Option (map_option V_u32 v), n, src))
      (decode_opt_variable_byte_int (ds_src st)))"
  using assms
  by (cases "decode_opt_variable_byte_int (ds_src st)")
    (auto simp: exec_decs.simps(2) call_decode_with_def query_simps typed_def set_field_def stored_def)

text \<open>The match arm emitted for a property, by the kind of its field.\<close>

definition arm_opt :: "ident \<Rightarrow> ident \<Rightarrow> ident \<Rightarrow> dec_field" where
  "arm_opt v f t = Dec_Arm (names_path [''PropertyType'', v])
    [D_Let_Default (Ty_Path (names_path [t])), D_Decode Property_Bytes_Read (Local ''value''), D_Assign f True]"

definition arm_self :: "ident \<Rightarrow> ident \<Rightarrow> dec_field" where
  "arm_self v f = Dec_Arm (names_path [''PropertyType'', v]) [D_Decode Property_Bytes_Read (Self_Field f)]"

definition arm_vec_u8 :: "ident \<Rightarrow> ident \<Rightarrow> dec_field" where
  "arm_vec_u8 v f = Dec_Arm (names_path [''PropertyType'', v])
    [D_Let_Vec (names_path [''u8'']), D_Decode Bytes_Read (Local ''value''), D_Assign f False]"

definition arm_varint :: "ident \<Rightarrow> ident \<Rightarrow> dec_field" where
  "arm_varint v f = Dec_Arm (names_path [''PropertyType'', v])
    [D_Let_Call (names_path [''codec'', ''decode_opt_variable_byte_int'']) Property_Bytes_Read, D_Assign f False]"

named_theorems arm_simps \<open>running the emitted match\<close>

lemma arm_compiles_simps [exec_simps]:
  "arm_compiles (arm_opt v f t) \<longleftrightarrow> map_of PropertyType_names v \<noteq> None"
  "arm_compiles (arm_self v f) \<longleftrightarrow> map_of PropertyType_names v \<noteq> None"
  "arm_compiles (arm_vec_u8 v f) \<longleftrightarrow> map_of PropertyType_names v \<noteq> None"
  "arm_compiles (arm_varint v f) \<longleftrightarrow> map_of PropertyType_names v \<noteq> None"
  by (simp_all add: arm_compiles_def arm_opt_def arm_self_def arm_vec_u8_def arm_varint_def prop_of_path_def query_simps)

lemma run_arms_Nil [arm_simps]: "run_arms [] pt self src = Some (unsupported_property pt)"
  by (simp add: run_arms_def)

lemma run_arms_Cons:
  "run_arms (Dec_Arm p body # ds) pt self src =
    (if prop_of_path p = Some pt then map_option (map_ok arm_out) (exec_decs body (begin_dec self src))
     else run_arms ds pt self src)"
  by (simp add: run_arms_def arm_for_def)

lemma arm_result_of:
  assumes "exec_decs body (begin_dec self src) = Some (map_ok (\<lambda>(v, n, rest). stored c f (U v) (begin_dec self src) (C v, n, rest)) m)"
  shows "map_option (map_ok arm_out) (exec_decs body (begin_dec self src)) =
    Some (map_ok (\<lambda>(v, n, rest). (AList.update f (C v) self,
      (if c = Property_Bytes_Read then n else 0), (if c = Bytes_Read then n else 0), rest)) m)"
  unfolding assms
  by (cases m; cases c) (auto simp: arm_out_def stored_def begin_dec_def count_def)

lemma begin_dec_simps [simp]: "ds_self (begin_dec self src) = self" "ds_src (begin_dec self src) = src"
  "ds_bytes_read (begin_dec self src) = 0" "ds_value (begin_dec self src) = None"
  by (simp_all add: begin_dec_def)

text \<open>An arm for another property is passed over; the first one for the property runs.\<close>

lemma run_arms_skip [arm_simps]:
  "map_of PropertyType_names v \<noteq> Some pt \<Longrightarrow> run_arms (arm_opt v f t # ds) pt self src = run_arms ds pt self src"
  "map_of PropertyType_names v \<noteq> Some pt \<Longrightarrow> run_arms (arm_self v f # ds) pt self src = run_arms ds pt self src"
  "map_of PropertyType_names v \<noteq> Some pt \<Longrightarrow> run_arms (arm_vec_u8 v f # ds) pt self src = run_arms ds pt self src"
  "map_of PropertyType_names v \<noteq> Some pt \<Longrightarrow> run_arms (arm_varint v f # ds) pt self src = run_arms ds pt self src"
  by (simp_all add: arm_opt_def arm_self_def arm_vec_u8_def arm_varint_def run_arms_Cons prop_of_path_def query_simps)

lemma run_arm_opt:
  assumes "map_of PropertyType_names v = Some pt" and "map_of self f = Some w"
    and "default_val (Ty_Path (names_path [t])) = Some d" and "\<And>src. val_decode d src = Some (typed C (dec src))"
  shows "run_arms (arm_opt v f t # ds) pt self src =
    Some (map_ok (\<lambda>(x, n, rest). (AList.update f (V_Option (Some (C x))) self, n, 0, rest)) (dec src))"
  using arm_result_of [OF exec_read_opt [where C = C and dec = dec and c = Property_Bytes_Read and f = f and st = "begin_dec self src", OF assms(3,4), simplified, OF assms(2)]] assms(1)
  by (simp add: arm_opt_def run_arms_Cons prop_of_path_def query_simps)

lemmas run_arm_opt_typed [arm_simps] =
  run_arm_opt [where t = "''u16''" and dec = u16_decode and C = V_u16, OF _ _ default_val_simps(1) [unfolded ty_names_def], simplified]
  run_arm_opt [where t = "''u32''" and dec = u32_decode and C = V_u32, OF _ _ default_val_simps(2) [unfolded ty_names_def], simplified]
  run_arm_opt [where t = "''bool''" and dec = bool_decode and C = V_bool, OF _ _ default_val_simps(3) [unfolded ty_names_def], simplified]
  run_arm_opt [where t = "''String''" and dec = String_decode and C = V_String, OF _ _ default_val_simps(4) [unfolded ty_names_def], simplified]
  run_arm_opt [where t = "''QoSLevel''" and dec = QoSLevel_decode and C = V_QoSLevel, OF _ _ default_val_simps(5) [unfolded ty_names_def], simplified]
  run_arm_opt [where t = "''PayloadFormat''" and dec = PayloadFormat_decode and C = V_PayloadFormat, OF _ _ default_val_simps(6) [unfolded ty_names_def], simplified]

lemma run_arm_self:
  assumes "map_of PropertyType_names v = Some pt" and "map_of self f = Some w"
    and "val_decode w src = Some (typed C (dec src))"
  shows "run_arms (arm_self v f # ds) pt self src =
    Some (map_ok (\<lambda>(x, n, rest). (AList.update f (C x) self, n, 0, rest)) (dec src))"
  using arm_result_of [OF exec_read_self [where C = C and dec = dec and c = Property_Bytes_Read and f = f and st = "begin_dec self src", simplified, OF assms(2,3)]] assms(1)
  by (simp add: arm_self_def run_arms_Cons prop_of_path_def query_simps)

lemmas run_arm_self_typed [arm_simps] =
  run_arm_self [where w = "V_String s" and dec = String_decode and C = V_String for s, simplified]
  run_arm_self [where w = "V_UserProperty u" and dec = "UserProperty_decode u" and C = V_UserProperty for u, simplified]

lemma run_arm_vec_u8 [arm_simps]:
  assumes "map_of PropertyType_names v = Some pt" and "map_of self f = Some w"
  shows "run_arms (arm_vec_u8 v f # ds) pt self src =
    Some (map_ok (\<lambda>(x, n, rest). (AList.update f (V_bytes x) self, 0, n, rest)) (Vec_u8_decode src))"
  using arm_result_of [OF exec_read_vec_u8 [where f = f and st = "begin_dec self src", simplified, OF assms(2)]] assms(1)
  by (simp add: arm_vec_u8_def run_arms_Cons prop_of_path_def query_simps)

lemma run_arm_varint [arm_simps]:
  assumes "map_of PropertyType_names v = Some pt" and "map_of self f = Some w"
  shows "run_arms (arm_varint v f # ds) pt self src =
    Some (map_ok (\<lambda>(x, n, rest). (AList.update f (V_Option (map_option V_u32 x)) self, n, 0, rest))
      (decode_opt_variable_byte_int src))"
  using arm_result_of [OF exec_decode_with [where c = Property_Bytes_Read and f = f and st = "begin_dec self src", simplified, OF assms(2)]] assms(1)
  by (simp add: arm_varint_def run_arms_Cons prop_of_path_def query_simps)

text \<open>The model's arms in the same form.\<close>

lemma map_arm_simps [arm_simps]:
  "map_arm rep (decode_for_type dec upd src) = map_ok (\<lambda>(v, n, src). (rep (upd v), n, 0, src)) (dec src)"
  "map_arm rep (decode_for_vec_u8 updb src) = map_ok (\<lambda>(v, n, src). (rep (updb v), 0, n, src)) (Vec_u8_decode src)"
  "map_arm rep (unsupported_property pt) = unsupported_property pt"
  by (cases "dec src"; cases "Vec_u8_decode src";
      auto simp: map_arm_def decode_for_type_def decode_for_vec_u8_def unsupported_property_def)+

lemma map_arm_u32 [arm_simps]:
  "map_arm rep (decode_for_primitive get_u32 4 upd src) = map_ok (\<lambda>(v, n, src). (rep (upd v), n, 0, src)) (u32_decode src)"
  "map_arm rep (decode_for_primitive get_u16 2 updh src) = map_ok (\<lambda>(v, n, src). (rep (updh v), n, 0, src)) (u16_decode src)"
  using map_arm_simps(1) [of rep u32_decode upd src] map_arm_simps(1) [of rep u16_decode updh src] by simp_all

text \<open>
  The emitted statements of \<open>decode\<close> and the model's decoder, read by read: each rule takes one
  outcome apart on both sides.
\<close>

lemma obind_map_ok [simp]: "obind (Some (map_ok f m)) g = obind (Some m) (\<lambda>x. g (f x))"
  by (cases m) simp_all

lemma obind_assoc [simp]: "obind (obind m f) g = obind m (\<lambda>x. obind (f x) g)"
  by (simp add: obind_def split: option.splits res.splits)

lemma obind_case_prod [simp]: "obind (case p of (a, b) \<Rightarrow> f a b) g = (case p of (a, b) \<Rightarrow> obind (f a b) g)"
  by (cases p) simp

lemma obind_scalar [simp]:
  "obind (Some (u8_decode src)) g8 = obind (Some (get_u8 src)) (\<lambda>(v, src). g8 (v, 1, src))"
  "obind (Some (u16_decode src)) g16 = obind (Some (get_u16 src)) (\<lambda>(v, src). g16 (v, 2, src))"
  by (cases src rule: get_u16.cases; simp add: u8_decode_def u16_decode_def)+

definition decodes_as :: "('r \<Rightarrow> self) \<Rightarrow> dec_state codec_result option \<Rightarrow> 'r reads \<Rightarrow> bool" where
  "decodes_as rep m r \<longleftrightarrow> map_option (map_ok dec_out) m = Some (map_read rep r)"

lemma decodes_as_bind:
  "(\<And>x. m = Ok x \<Longrightarrow> decodes_as rep (g x) (k x)) \<Longrightarrow> decodes_as rep (obind (Some m) g) (bind m k)"
  by (cases m) (simp_all add: decodes_as_def map_read_def)

lemma run_decode_as:
  assumes "decode_internal_tokens input = Ok (Expanded di)" and "dec_compiles di" and "di_min_size di = None"
    and "decodes_as rep
      (obind (exec_fields (di_header_fields di) (begin_dec (rep r) src)) (\<lambda>st.
         if di_abbreviated_check di \<and> ds_src st = [] then Some (Ok st)
         else
           obind (exec_fields (di_non_abbreviated_fields di) st) (\<lambda>st.
           obind (run_properties (di_properties di) st) (\<lambda>st.
           obind (exec_fields (di_field_payload di) st) (exec_fields (di_remaining_payload di)))))) m"
  shows "run_decode input (rep r) src = Some (map_read rep m)"
  using assms by (simp add: run_decode_def exec_decode_impl_def min_size_check_def decodes_as_def cong: if_cong)

lemma decodes_as_Ok:
  "decodes_as rep (Some (Ok st)) (Ok (r, n, src)) \<longleftrightarrow> ds_self st = rep r \<and> ds_bytes_read st = n \<and> ds_src st = src"
  by (simp add: decodes_as_def map_read_def dec_out_def)

lemma stored_simps [simp]:
  "ds_self (stored c f value st (v, n, src)) = AList.update f v (ds_self st)"
  "ds_src (stored c f value st (v, n, src)) = src"
  "ds_bytes_read (stored Bytes_Read f value st (v, n, src)) = ds_bytes_read st + n"
  by (simp_all add: stored_def)

lemma decodes_as_properties:
  assumes "\<And>pt r src. run_arms tokens pt (rep r) src = Some (map_arm rep (arms pt r src))"
    and "ds_self st = rep r" and "ds_src st = src"
    and "\<And>r n rest. decodes_as rep (g (count Bytes_Read n (st\<lparr>ds_self := rep r, ds_src := rest\<rparr>))) (k (r, n, rest))"
  shows "decodes_as rep (obind (run_properties (Some tokens) st) g) (bind (decode_properties arms r src) k)"
  unfolding run_properties_refines [where rep = rep and arms = arms, OF assms(1,2)] assms(3) obind_map_ok
  by (rule decodes_as_bind) (use assms(4) in auto)

text \<open>A skipped field contributes an empty entry.\<close>

lemma skipped_field [exec_simps]:
  "derive_codec_size (0 # sizes) abbreviated more_sizes ps = derive_codec_size sizes abbreviated more_sizes ps"
  "encode_internal packet (Ok [] # header_fields) abbreviated non_abbreviated property_encode payload_fields =
    encode_internal packet header_fields abbreviated non_abbreviated property_encode payload_fields"
  by (simp_all add: derive_codec_size_def encode_internal_def split: option.splits)

text \<open>The definitions that expand a declaration.\<close>

lemmas expand_defs = property_encode_tokens_def encode_internal_tokens_def encode_field_skip_if_def encode_field_def
  codec_property_size_tokens_def codec_size_tokens_def field_size_skip_if_def field_size_def size_for_option_tokens_def
  decode_internal_tokens_def decode_field_def decode_field_stmts_def option_inner_type_def payload_fields_of_def
  encode_for_option_tokens_def encode_for_vec_tokens_def size_for_vec_tokens_def decode_for_vec_tokens_def
  size_for_primitive_tokens_def encode_for_encode_with_tokens_def size_with_path_tokens_def decode_for_decode_with_tokens_def
  decode_for_primitive_tokens_def decode_for_type_tokens_def decode_for_string_tokens_def read_counter_def type_named_def
  is_primitive_type_def query_defs query_simps attr_names property_def ty_app_def ty_names_def

lemmas arm_defs = arm_opt_def arm_self_def arm_vec_u8_def arm_varint_def

end
