(* ===== verification/Macro_Acks.thy ===== *)
theory Macro_Acks
  imports Macro_Fields Packet_ConnAck Packet_Resp
begin

text \<open>
  The declarations of CONNACK and the packets with an abbreviated form, as \<open>vaux-mqtt\<close> writes
  them, and what the macros make of them: running the emitted code on the fields of a packet is the
  codec that the packet theory defines for it.
\<close>

section \<open>CONNACK\<close>

definition ConnAck_decl_fields :: "syn_field list" where
  "ConnAck_decl_fields = [
     declare_field [] Vis_Inherited ''ack_flags'' (ty_names [''u8'']),
     declare_field [] Vis_Public ''reason'' (ty_names [''Reason'']),
     declare_field [property ''SessionExpiryInterval''] Vis_Public ''session_expiry_interval'' (ty_app ''Option'' (ty_names [''u32''])),
     declare_field [property ''RecvMax''] Vis_Public ''receive_maximum'' (ty_app ''Option'' (ty_names [''u16''])),
     declare_field [property ''MaxQoS''] Vis_Public ''maximum_qos'' (ty_app ''Option'' (ty_names [''QoSLevel''])),
     declare_field [property ''RetainAvail''] Vis_Public ''retain_available'' (ty_app ''Option'' (ty_names [''bool''])),
     declare_field [property ''MaxPacketSize''] Vis_Public ''maximum_packet_size'' (ty_app ''Option'' (ty_names [''u32''])),
     declare_field [property ''AssignedClientId''] Vis_Public ''assigned_client_id'' (ty_app ''Option'' (ty_names [''String''])),
     declare_field [property ''TopicAliasMax''] Vis_Public ''topic_alias_maximum'' (ty_app ''Option'' (ty_names [''u16''])),
     declare_field [property ''ReasonString''] Vis_Public ''reason_string'' (ty_app ''Option'' (ty_names [''String''])),
     declare_field [property ''SubIdAvail''] Vis_Public ''subscription_identifier_available'' (ty_app ''Option'' (ty_names [''bool''])),
     declare_field [property ''UserProperty''] Vis_Public ''user_properties'' (ty_names [''UserProperty'']),
     declare_field [property ''WildcardSubAvail''] Vis_Public ''wildcard_subscription_available'' (ty_app ''Option'' (ty_names [''bool''])),
     declare_field [property ''ShardSubAvail''] Vis_Public ''shared_subscription_available'' (ty_app ''Option'' (ty_names [''bool''])),
     declare_field [property ''KeepAlive''] Vis_Public ''server_keep_alive'' (ty_app ''Option'' (ty_names [''u16''])),
     declare_field [property ''RespInfo''] Vis_Public ''response_information'' (ty_app ''Option'' (ty_names [''String''])),
     declare_field [property ''ServerReference''] Vis_Public ''server_reference'' (ty_app ''Option'' (ty_names [''String''])),
     declare_field [property ''AuthMethod''] Vis_Public ''auth_method'' (ty_app ''Option'' (ty_names [''String''])),
     declare_field [codec [arg ''skip_if'' [''Vec'', ''is_empty''], arg ''property_type'' [''PropertyType'', ''AuthData'']]] Vis_Public ''auth_data'' (ty_app ''Vec'' (ty_names [''u8'']))]"

definition ConnAck_decl :: item_struct where
  "ConnAck_decl = \<lparr>it_attrs = [derives [''Debug'', ''Default'', ''Clone'', ''PartialEq'', ''Eq'']],
    it_vis = Vis_Public, it_ident = ''ConnAck'', it_fields = Fields_Named ConnAck_decl_fields\<rparr>"

lemma ConnAck_decl_simps:
  "it_attrs ConnAck_decl = [derives [''Debug'', ''Default'', ''Clone'', ''PartialEq'', ''Eq'']]" "it_fields ConnAck_decl = Fields_Named ConnAck_decl_fields"
  by (simp_all add: ConnAck_decl_def)

definition ConnAck_self :: "ConnAck \<Rightarrow> self" where
  "ConnAck_self p = [
     (''fixed_header'', V_FixedHeader (ca_fixed_header p)),
     (''ack_flags'', V_u8 (ca_ack_flags p)),
     (''reason'', V_Reason (ca_reason p)),
     (''session_expiry_interval'', V_Option (map_option V_u32 (ca_session_expiry_interval p))),
     (''receive_maximum'', V_Option (map_option V_u16 (ca_receive_maximum p))),
     (''maximum_qos'', V_Option (map_option V_QoSLevel (ca_maximum_qos p))),
     (''retain_available'', V_Option (map_option V_bool (ca_retain_available p))),
     (''maximum_packet_size'', V_Option (map_option V_u32 (ca_maximum_packet_size p))),
     (''assigned_client_id'', V_Option (map_option V_String (ca_assigned_client_id p))),
     (''topic_alias_maximum'', V_Option (map_option V_u16 (ca_topic_alias_maximum p))),
     (''reason_string'', V_Option (map_option V_String (ca_reason_string p))),
     (''subscription_identifier_available'', V_Option (map_option V_bool (ca_subscription_identifier_available p))),
     (''user_properties'', V_UserProperty (ca_user_properties p)),
     (''wildcard_subscription_available'', V_Option (map_option V_bool (ca_wildcard_subscription_available p))),
     (''shared_subscription_available'', V_Option (map_option V_bool (ca_shared_subscription_available p))),
     (''server_keep_alive'', V_Option (map_option V_u16 (ca_server_keep_alive p))),
     (''response_information'', V_Option (map_option V_String (ca_response_information p))),
     (''server_reference'', V_Option (map_option V_String (ca_server_reference p))),
     (''auth_method'', V_Option (map_option V_String (ca_auth_method p))),
     (''auth_data'', V_bytes (ca_auth_data p))]"

lemmas ConnAck_lookup = arg_cong [where f = map_of, OF ConnAck_self_def]

lemma ConnAck_run_property_size: "run_property_size ConnAck_decl (ConnAck_self p) = Some (ConnAck_property_size p)"
  by (simp add: run_property_size_def ConnAck_decl_simps ConnAck_decl_fields_def each_res_step expand_defs exec_simps ConnAck_lookup ConnAck_property_size_def add_all_def del: each_res.simps(2))

lemma ConnAck_run_codec_size: "run_codec_size ConnAck_decl eval (ConnAck_self p) = Some (ConnAck_codec_size p)"
  by (simp add: run_codec_size_def ConnAck_run_property_size ConnAck_decl_simps ConnAck_decl_fields_def each_res_step expand_defs exec_simps ConnAck_lookup ConnAck_codec_size_def ConnAck_field_sizes_def eval_check_def del: each_res.simps(2))

lemma ConnAck_run_property_encode: "run_property_encode ConnAck_decl (ConnAck_self p) =
    Some (property_encode_internal (ConnAck_property_size p) (ConnAck_property_fields p))"
  by (simp add: run_property_encode_def ConnAck_run_property_size exec_enc_fields_def ConnAck_decl_simps ConnAck_decl_fields_def each_res_step expand_defs exec_simps ConnAck_lookup
      property_encode_internal_def ConnAck_property_fields_def del: each_res.simps(2))

lemma ConnAck_run_encode: "run_encode ConnAck_decl True eval (ConnAck_self p) = Some (ConnAck_encode p)"
  by (simp add: run_encode_def ConnAck_run_codec_size ConnAck_run_property_encode exec_enc_fields_def ConnAck_decl_simps ConnAck_decl_fields_def each_res_step expand_defs exec_simps ConnAck_lookup
      ConnAck_encode_def ConnAck_header_fields_def eval_check_def del: each_res.simps(2))

definition ConnAck_dec_arms :: "dec_field list" where
  "ConnAck_dec_arms = [
     arm_opt ''SessionExpiryInterval'' ''session_expiry_interval'' ''u32'',
     arm_opt ''RecvMax'' ''receive_maximum'' ''u16'',
     arm_opt ''MaxQoS'' ''maximum_qos'' ''QoSLevel'',
     arm_opt ''RetainAvail'' ''retain_available'' ''bool'',
     arm_opt ''MaxPacketSize'' ''maximum_packet_size'' ''u32'',
     arm_opt ''AssignedClientId'' ''assigned_client_id'' ''String'',
     arm_opt ''TopicAliasMax'' ''topic_alias_maximum'' ''u16'',
     arm_opt ''ReasonString'' ''reason_string'' ''String'',
     arm_opt ''SubIdAvail'' ''subscription_identifier_available'' ''bool'',
     arm_self ''UserProperty'' ''user_properties'',
     arm_opt ''WildcardSubAvail'' ''wildcard_subscription_available'' ''bool'',
     arm_opt ''ShardSubAvail'' ''shared_subscription_available'' ''bool'',
     arm_opt ''KeepAlive'' ''server_keep_alive'' ''u16'',
     arm_opt ''RespInfo'' ''response_information'' ''String'',
     arm_opt ''ServerReference'' ''server_reference'' ''String'',
     arm_opt ''AuthMethod'' ''auth_method'' ''String'',
     arm_vec_u8 ''AuthData'' ''auth_data'']"

lemma ConnAck_decode_tokens:
  "decode_internal_tokens ConnAck_decl = Ok (Expanded \<lparr>di_min_size = None,
    di_header_fields = [Dec_Stmts [D_Read ''ack_flags'' False ''u8'' Bytes_Read], Dec_Stmts [D_Decode Bytes_Read (Self_Field ''reason'')]],
    di_abbreviated_check = False, di_non_abbreviated_fields = [],
    di_properties = Some ConnAck_dec_arms,
    di_field_payload = [], di_remaining_payload = []\<rparr>)"
  by (simp add: ConnAck_decl_simps ConnAck_decl_fields_def ConnAck_dec_arms_def arm_defs each_res_step expand_defs Let_def del: each_res.simps(2))

lemma ConnAck_run_arms:
  "run_arms ConnAck_dec_arms pt (ConnAck_self r) src = Some (map_arm ConnAck_self (ConnAck_arms pt r src))"
  by (cases pt; simp add: ConnAck_dec_arms_def arm_simps PropertyType_names_simps ConnAck_lookup ConnAck_arms_def)
    (simp_all add: ConnAck_self_def)

lemma ConnAck_run_decode:
  "run_decode ConnAck_decl (ConnAck_self r) src = Some (map_read ConnAck_self (ConnAck_decode r src))"
proof (rule run_decode_as [OF ConnAck_decode_tokens], goal_cases)
  case 1
  show ?case by (simp add: dec_compiles_def stmts_compile_def ConnAck_dec_arms_def arm_compiles_simps PropertyType_names_simps)
next
  case 3
  show ?case
    apply (simp add: exec_simps ConnAck_lookup ConnAck_decode_def)
    apply (rule decodes_as_bind, clarsimp)
    apply (simp add: exec_simps ConnAck_lookup update_conv')
    apply (rule decodes_as_bind, clarsimp)
    apply (rule decodes_as_properties [OF ConnAck_run_arms])
      apply (simp_all add: ConnAck_self_def decodes_as_Ok)
    done
qed simp

section \<open>PUBACK, PUBREC, PUBREL, PUBCOMP\<close>

definition PubResp_decl_fields :: "syn_field list" where
  "PubResp_decl_fields = [
     declare_field [codec [flag ''skip'']] Vis_Inherited ''fixed_header'' (ty_names [''codec'', ''FixedHeader'']),
     declare_field [] Vis_Public ''packet_id'' (ty_names [''u16'']),
     declare_field [codec [flag ''non_abbreviated'']] Vis_Inherited ''reason'' (ty_app ''Option'' (ty_names [''codec'', ''Reason''])),
     declare_field [property ''ReasonString''] Vis_Inherited ''reason_desc'' (ty_app ''Option'' (ty_names [''String''])),
     declare_field [property ''UserProperty''] Vis_Inherited ''user_properties'' (ty_names [''UserProperty''])]"

definition PubResp_decl :: item_struct where
  "PubResp_decl = \<lparr>it_attrs = [derives [''Default'', ''Debug'', ''Clone'', ''PartialEq'', ''Eq'', ''PropertyCodecSize'', ''PropertyEncode'', ''Encode'', ''Decode''], codec [flag ''as_packet'', expr_arg ''abbreviated_when'' ''self.reason.unwrap_or_default() == codec::Reason::Success && self.property_size() == 0''], derives [''CodecSize'']],
    it_vis = Vis_Public, it_ident = ''PubResp'', it_fields = Fields_Named PubResp_decl_fields\<rparr>"

lemma PubResp_decl_simps:
  "it_attrs PubResp_decl = [derives [''Default'', ''Debug'', ''Clone'', ''PartialEq'', ''Eq'', ''PropertyCodecSize'', ''PropertyEncode'', ''Encode'', ''Decode''], codec [flag ''as_packet'', expr_arg ''abbreviated_when'' ''self.reason.unwrap_or_default() == codec::Reason::Success && self.property_size() == 0''], derives [''CodecSize'']]" "it_fields PubResp_decl = Fields_Named PubResp_decl_fields"
  by (simp_all add: PubResp_decl_def)

definition PubResp_self :: "PubResp \<Rightarrow> self" where
  "PubResp_self p = [
     (''fixed_header'', V_FixedHeader (pr_fixed_header p)),
     (''packet_id'', V_u16 (pr_packet_id p)),
     (''reason'', V_Option (map_option V_Reason (pr_reason p))),
     (''reason_desc'', V_Option (map_option V_String (pr_reason_desc p))),
     (''user_properties'', V_UserProperty (pr_user_properties p))]"

lemmas PubResp_lookup = arg_cong [where f = map_of, OF PubResp_self_def]

definition PubResp_eval :: "PubResp \<Rightarrow> expr_text \<Rightarrow> bool option" where
  "PubResp_eval p e = (if e = ''self.reason.unwrap_or_default() == codec::Reason::Success && self.property_size() == 0'' then Some (PubResp_abbreviated p) else None)"

lemma PubResp_run_property_size: "run_property_size PubResp_decl (PubResp_self p) = Some (PubResp_property_size p)"
  by (simp add: run_property_size_def PubResp_decl_simps PubResp_decl_fields_def each_res_step expand_defs exec_simps PubResp_lookup PubResp_property_size_def add_all_def del: each_res.simps(2))

lemma PubResp_run_codec_size: "run_codec_size PubResp_decl (PubResp_eval p) (PubResp_self p) = Some (PubResp_codec_size p)"
  by (simp add: run_codec_size_def PubResp_run_property_size PubResp_decl_simps PubResp_decl_fields_def each_res_step expand_defs exec_simps PubResp_lookup PubResp_codec_size_def  eval_check_def PubResp_eval_def del: each_res.simps(2))

lemma PubResp_run_property_encode: "run_property_encode PubResp_decl (PubResp_self p) =
    Some (property_encode_internal (PubResp_property_size p) (PubResp_property_fields p))"
  by (simp add: run_property_encode_def PubResp_run_property_size exec_enc_fields_def PubResp_decl_simps PubResp_decl_fields_def each_res_step expand_defs exec_simps PubResp_lookup
      property_encode_internal_def PubResp_property_fields_def del: each_res.simps(2))

lemma PubResp_run_encode: "run_encode PubResp_decl False (PubResp_eval p) (PubResp_self p) = Some (PubResp_encode p)"
  by (simp add: run_encode_def PubResp_run_codec_size PubResp_run_property_encode exec_enc_fields_def PubResp_decl_simps PubResp_decl_fields_def each_res_step expand_defs exec_simps PubResp_lookup
      PubResp_encode_def  eval_check_def PubResp_eval_def del: each_res.simps(2))

definition PubResp_dec_arms :: "dec_field list" where
  "PubResp_dec_arms = [
     arm_opt ''ReasonString'' ''reason_desc'' ''String'',
     arm_self ''UserProperty'' ''user_properties'']"

lemma PubResp_decode_tokens:
  "decode_internal_tokens PubResp_decl = Ok (Expanded \<lparr>di_min_size = None,
    di_header_fields = [Dec_Stmts [], Dec_Stmts [D_Read ''packet_id'' False ''u16'' Bytes_Read]],
    di_abbreviated_check = True, di_non_abbreviated_fields = [Dec_Stmts [D_Let_Default (Ty_Path (names_path [''codec'', ''Reason''])), D_Decode Bytes_Read (Local ''value''), D_Assign ''reason'' True]],
    di_properties = Some PubResp_dec_arms,
    di_field_payload = [], di_remaining_payload = []\<rparr>)"
  by (simp add: PubResp_decl_simps PubResp_decl_fields_def PubResp_dec_arms_def arm_defs each_res_step expand_defs Let_def del: each_res.simps(2))

lemma PubResp_run_arms:
  "run_arms PubResp_dec_arms pt (PubResp_self r) src = Some (map_arm PubResp_self (PubResp_arms pt r src))"
  by (cases pt; simp add: PubResp_dec_arms_def arm_simps PropertyType_names_simps PubResp_lookup PubResp_arms_def)
    (simp_all add: PubResp_self_def)

lemma PubResp_run_decode:
  "run_decode PubResp_decl (PubResp_self r) src = Some (map_read PubResp_self (PubResp_decode r src))"
proof (rule run_decode_as [OF PubResp_decode_tokens], goal_cases)
  case 1
  show ?case by (simp add: dec_compiles_def stmts_compile_def PubResp_dec_arms_def arm_compiles_simps PropertyType_names_simps)
next
  case 3
  show ?case
    apply (simp add: exec_simps PubResp_lookup PubResp_decode_def Let_def)
    apply (rule decodes_as_bind, clarsimp)
    apply (rule conjI; clarsimp)
     apply (simp add: decodes_as_Ok PubResp_self_def)
    apply (simp add: exec_simps PubResp_lookup update_conv')
    apply (rule decodes_as_bind, clarsimp)
    apply (rule decodes_as_properties [OF PubResp_run_arms])
      apply (simp_all add: PubResp_self_def decodes_as_Ok)
    done
qed simp

section \<open>DISCONNECT\<close>

definition Disconnect_decl_fields :: "syn_field list" where
  "Disconnect_decl_fields = [
     declare_field [codec [flag ''skip'']] Vis_Inherited ''fixed_header'' (ty_names [''codec'', ''FixedHeader'']),
     declare_field [codec [flag ''non_abbreviated'']] Vis_Public ''reason'' (ty_names [''Reason'']),
     declare_field [property ''SessionExpiryInterval''] Vis_Public ''session_expiry_interval'' (ty_app ''Option'' (ty_names [''u32''])),
     declare_field [property ''ReasonString''] Vis_Public ''reason_string'' (ty_app ''Option'' (ty_names [''String''])),
     declare_field [property ''ServerReference''] Vis_Public ''server_reference'' (ty_app ''Option'' (ty_names [''String''])),
     declare_field [property ''UserProperty''] Vis_Public ''user_properties'' (ty_names [''UserProperty''])]"

definition Disconnect_decl :: item_struct where
  "Disconnect_decl = \<lparr>it_attrs = [derives [''Clone'', ''Debug'', ''PartialEq'', ''Eq'', ''PropertyCodecSize'', ''PropertyEncode'', ''Encode'', ''Decode''], codec [flag ''as_packet'', expr_arg ''abbreviated_when'' ''self.reason == Reason::NormalDisconnect && self.property_size() == 0''], derives [''CodecSize'']],
    it_vis = Vis_Public, it_ident = ''Disconnect'', it_fields = Fields_Named Disconnect_decl_fields\<rparr>"

lemma Disconnect_decl_simps:
  "it_attrs Disconnect_decl = [derives [''Clone'', ''Debug'', ''PartialEq'', ''Eq'', ''PropertyCodecSize'', ''PropertyEncode'', ''Encode'', ''Decode''], codec [flag ''as_packet'', expr_arg ''abbreviated_when'' ''self.reason == Reason::NormalDisconnect && self.property_size() == 0''], derives [''CodecSize'']]" "it_fields Disconnect_decl = Fields_Named Disconnect_decl_fields"
  by (simp_all add: Disconnect_decl_def)

definition Disconnect_self :: "Disconnect \<Rightarrow> self" where
  "Disconnect_self p = [
     (''fixed_header'', V_FixedHeader (dc_fixed_header p)),
     (''reason'', V_Reason (dc_reason p)),
     (''session_expiry_interval'', V_Option (map_option V_u32 (dc_session_expiry_interval p))),
     (''reason_string'', V_Option (map_option V_String (dc_reason_string p))),
     (''server_reference'', V_Option (map_option V_String (dc_server_reference p))),
     (''user_properties'', V_UserProperty (dc_user_properties p))]"

lemmas Disconnect_lookup = arg_cong [where f = map_of, OF Disconnect_self_def]

definition Disconnect_eval :: "Disconnect \<Rightarrow> expr_text \<Rightarrow> bool option" where
  "Disconnect_eval p e = (if e = ''self.reason == Reason::NormalDisconnect && self.property_size() == 0'' then Some (Disconnect_abbreviated p) else None)"

lemma Disconnect_run_property_size: "run_property_size Disconnect_decl (Disconnect_self p) = Some (Disconnect_property_size p)"
  by (simp add: run_property_size_def Disconnect_decl_simps Disconnect_decl_fields_def each_res_step expand_defs exec_simps Disconnect_lookup Disconnect_property_size_def add_all_def del: each_res.simps(2))

lemma Disconnect_run_codec_size: "run_codec_size Disconnect_decl (Disconnect_eval p) (Disconnect_self p) = Some (Disconnect_codec_size p)"
  by (simp add: run_codec_size_def Disconnect_run_property_size Disconnect_decl_simps Disconnect_decl_fields_def each_res_step expand_defs exec_simps Disconnect_lookup Disconnect_codec_size_def  eval_check_def Disconnect_eval_def del: each_res.simps(2))

lemma Disconnect_run_property_encode: "run_property_encode Disconnect_decl (Disconnect_self p) =
    Some (property_encode_internal (Disconnect_property_size p) (Disconnect_property_fields p))"
  by (simp add: run_property_encode_def Disconnect_run_property_size exec_enc_fields_def Disconnect_decl_simps Disconnect_decl_fields_def each_res_step expand_defs exec_simps Disconnect_lookup
      property_encode_internal_def Disconnect_property_fields_def del: each_res.simps(2))

lemma Disconnect_run_encode: "run_encode Disconnect_decl False (Disconnect_eval p) (Disconnect_self p) = Some (Disconnect_encode p)"
  by (simp add: run_encode_def Disconnect_run_codec_size Disconnect_run_property_encode exec_enc_fields_def Disconnect_decl_simps Disconnect_decl_fields_def each_res_step expand_defs exec_simps Disconnect_lookup
      Disconnect_encode_def  eval_check_def Disconnect_eval_def del: each_res.simps(2))

definition Disconnect_dec_arms :: "dec_field list" where
  "Disconnect_dec_arms = [
     arm_opt ''SessionExpiryInterval'' ''session_expiry_interval'' ''u32'',
     arm_opt ''ReasonString'' ''reason_string'' ''String'',
     arm_opt ''ServerReference'' ''server_reference'' ''String'',
     arm_self ''UserProperty'' ''user_properties'']"

lemma Disconnect_decode_tokens:
  "decode_internal_tokens Disconnect_decl = Ok (Expanded \<lparr>di_min_size = None,
    di_header_fields = [Dec_Stmts []],
    di_abbreviated_check = True, di_non_abbreviated_fields = [Dec_Stmts [D_Decode Bytes_Read (Self_Field ''reason'')]],
    di_properties = Some Disconnect_dec_arms,
    di_field_payload = [], di_remaining_payload = []\<rparr>)"
  by (simp add: Disconnect_decl_simps Disconnect_decl_fields_def Disconnect_dec_arms_def arm_defs each_res_step expand_defs Let_def del: each_res.simps(2))

lemma Disconnect_run_arms:
  "run_arms Disconnect_dec_arms pt (Disconnect_self r) src = Some (map_arm Disconnect_self (Disconnect_arms pt r src))"
  by (cases pt; simp add: Disconnect_dec_arms_def arm_simps PropertyType_names_simps Disconnect_lookup Disconnect_arms_def)
    (simp_all add: Disconnect_self_def)

lemma Disconnect_run_decode:
  "run_decode Disconnect_decl (Disconnect_self r) src = Some (map_read Disconnect_self (Disconnect_decode r src))"
proof (rule run_decode_as [OF Disconnect_decode_tokens], goal_cases)
  case 1
  show ?case by (simp add: dec_compiles_def stmts_compile_def Disconnect_dec_arms_def arm_compiles_simps PropertyType_names_simps)
next
  case 3
  show ?case
    apply (simp add: exec_simps Disconnect_lookup Disconnect_decode_def)
    apply (rule conjI; clarsimp)
     apply (simp add: decodes_as_Ok)
    apply (rule decodes_as_bind, clarsimp)
    apply (rule decodes_as_properties [OF Disconnect_run_arms])
      apply (simp_all add: Disconnect_self_def decodes_as_Ok)
    done
qed simp

end
