(* ===== verification/Macro_Lists.thy ===== *)
theory Macro_Lists
  imports Macro_Fields Packet_Subscribe Packet_Unsubscribe
begin

text \<open>
  The declarations of the packets that end in a list, as \<open>vaux-mqtt\<close> writes
  them, and what the macros make of them: running the emitted code on the fields of a packet is the
  codec that the packet theory defines for it.
\<close>

section \<open>Subscription filters\<close>

definition SubscriptionFilter_decl_fields :: "syn_field list" where
  "SubscriptionFilter_decl_fields = [
     declare_field [] Vis_Public ''filter'' (ty_names [''String'']),
     declare_field [] Vis_Inherited ''options'' (ty_names [''u8''])]"

definition SubscriptionFilter_decl :: item_struct where
  "SubscriptionFilter_decl = \<lparr>it_attrs = [derives [''Debug'', ''Default'', ''Clone'', ''PartialEq'', ''Eq'', ''Encode'', ''Decode'', ''CodecSize'']],
    it_vis = Vis_Public, it_ident = ''SubscriptionFilter'', it_fields = Fields_Named SubscriptionFilter_decl_fields\<rparr>"

lemma SubscriptionFilter_decl_simps:
  "it_attrs SubscriptionFilter_decl = [derives [''Debug'', ''Default'', ''Clone'', ''PartialEq'', ''Eq'', ''Encode'', ''Decode'', ''CodecSize'']]" "it_fields SubscriptionFilter_decl = Fields_Named SubscriptionFilter_decl_fields"
  by (simp_all add: SubscriptionFilter_decl_def)

definition SubscriptionFilter_self :: "SubscriptionFilter \<Rightarrow> self" where
  "SubscriptionFilter_self p = [
     (''filter'', V_String (sf_filter p)),
     (''options'', V_u8 (sf_options p))]"

lemmas SubscriptionFilter_lookup = arg_cong [where f = map_of, OF SubscriptionFilter_self_def]

lemma SubscriptionFilter_run_codec_size: "run_codec_size SubscriptionFilter_decl eval (SubscriptionFilter_self p) = Some (SubscriptionFilter_codec_size p)"
  by (simp add: run_codec_size_def SubscriptionFilter_decl_simps SubscriptionFilter_decl_fields_def each_res_step expand_defs exec_simps SubscriptionFilter_lookup SubscriptionFilter_codec_size_def  eval_check_def del: each_res.simps(2))

lemma SubscriptionFilter_run_encode: "run_encode SubscriptionFilter_decl False eval (SubscriptionFilter_self p) = Some (SubscriptionFilter_encode p)"
  by (simp add: run_encode_def SubscriptionFilter_run_codec_size exec_enc_fields_def SubscriptionFilter_decl_simps SubscriptionFilter_decl_fields_def each_res_step expand_defs exec_simps SubscriptionFilter_lookup
      SubscriptionFilter_encode_def  eval_check_def del: each_res.simps(2))

lemma SubscriptionFilter_decode_tokens:
  "decode_internal_tokens SubscriptionFilter_decl = Ok (Expanded \<lparr>di_min_size = None,
    di_header_fields = [Dec_Stmts [D_Decode Bytes_Read (Self_Field ''filter'')], Dec_Stmts [D_Read ''options'' False ''u8'' Bytes_Read]],
    di_abbreviated_check = False, di_non_abbreviated_fields = [],
    di_properties = None,
    di_field_payload = [], di_remaining_payload = []\<rparr>)"
  by (simp add: SubscriptionFilter_decl_simps SubscriptionFilter_decl_fields_def arm_defs each_res_step expand_defs Let_def del: each_res.simps(2))

lemma SubscriptionFilter_run_decode:
  "run_decode SubscriptionFilter_decl (SubscriptionFilter_self r) src = Some (map_read SubscriptionFilter_self (SubscriptionFilter_decode src))"
proof (rule run_decode_as [OF SubscriptionFilter_decode_tokens], goal_cases)
  case 1
  show ?case by (simp add: dec_compiles_def stmts_compile_def arm_compiles_simps PropertyType_names_simps)
next
  case 3
  show ?case
    apply (simp add: exec_simps SubscriptionFilter_lookup run_properties_def SubscriptionFilter_decode_def)
    apply (rule decodes_as_bind, clarsimp)
    apply (simp add: exec_simps SubscriptionFilter_lookup update_conv')
    apply (rule decodes_as_bind, clarsimp)
    apply (simp add: SubscriptionFilter_self_def decodes_as_Ok)
    done
qed simp

section \<open>SUBSCRIBE\<close>

definition Subscribe_decl_fields :: "syn_field list" where
  "Subscribe_decl_fields = [
     declare_field [] Vis_Public ''packet_id'' (ty_names [''u16'']),
     declare_field [property ''SubscriptionIdentifier'', codec [arg ''size_with'' [''codec'', ''codec_size_opt_variable_byte_int_ref''], arg ''encode_with'' [''codec'', ''encode_opt_variable_byte_int_ref''], arg ''decode_with'' [''codec'', ''decode_opt_variable_byte_int'']]] Vis_Public ''subscription_id'' (ty_app ''Option'' (ty_names [''u32''])),
     declare_field [property ''UserProperty''] Vis_Public ''user_props'' (ty_names [''UserProperty'']),
     declare_field [codec [arg ''payload_type'' [''remaining'']]] Vis_Public ''filter'' (ty_app ''Vec'' (ty_names [''SubscriptionFilter'']))]"

definition Subscribe_decl :: item_struct where
  "Subscribe_decl = \<lparr>it_attrs = [derives [''Debug'', ''Clone'', ''PartialEq'', ''Eq'']],
    it_vis = Vis_Public, it_ident = ''Subscribe'', it_fields = Fields_Named Subscribe_decl_fields\<rparr>"

lemma Subscribe_decl_simps:
  "it_attrs Subscribe_decl = [derives [''Debug'', ''Clone'', ''PartialEq'', ''Eq'']]" "it_fields Subscribe_decl = Fields_Named Subscribe_decl_fields"
  by (simp_all add: Subscribe_decl_def)

definition Subscribe_self :: "Subscribe \<Rightarrow> self" where
  "Subscribe_self p = [
     (''fixed_header'', V_FixedHeader (su_fixed_header p)),
     (''packet_id'', V_u16 (su_packet_id p)),
     (''subscription_id'', V_Option (map_option V_u32 (su_subscription_id p))),
     (''user_props'', V_UserProperty (su_user_props p)),
     (''filter'', V_Vec (map V_SubscriptionFilter (su_filter p)))]"

lemmas Subscribe_lookup = arg_cong [where f = map_of, OF Subscribe_self_def]

lemma Subscribe_run_property_size: "run_property_size Subscribe_decl (Subscribe_self p) = Some (Subscribe_property_size p)"
  by (simp add: run_property_size_def Subscribe_decl_simps Subscribe_decl_fields_def each_res_step expand_defs exec_simps Subscribe_lookup Subscribe_property_size_def add_all_def del: each_res.simps(2))

lemma Subscribe_run_codec_size: "run_codec_size Subscribe_decl eval (Subscribe_self p) = Some (Subscribe_codec_size p)"
  by (simp add: run_codec_size_def Subscribe_run_property_size Subscribe_decl_simps Subscribe_decl_fields_def each_res_step expand_defs exec_simps Subscribe_lookup Subscribe_codec_size_def  eval_check_def del: each_res.simps(2))

lemma Subscribe_run_property_encode: "run_property_encode Subscribe_decl (Subscribe_self p) =
    Some (property_encode_internal (Subscribe_property_size p) (Subscribe_property_fields p))"
  by (simp add: run_property_encode_def Subscribe_run_property_size exec_enc_fields_def Subscribe_decl_simps Subscribe_decl_fields_def each_res_step expand_defs exec_simps Subscribe_lookup
      property_encode_internal_def Subscribe_property_fields_def del: each_res.simps(2))

lemma Subscribe_run_encode: "run_encode Subscribe_decl True eval (Subscribe_self p) = Some (Subscribe_encode p)"
  by (simp add: run_encode_def Subscribe_run_codec_size Subscribe_run_property_encode exec_enc_fields_def Subscribe_decl_simps Subscribe_decl_fields_def each_res_step expand_defs exec_simps Subscribe_lookup
      Subscribe_encode_def  eval_check_def del: each_res.simps(2))

definition Subscribe_dec_arms :: "dec_field list" where
  "Subscribe_dec_arms = [
     arm_varint ''SubscriptionIdentifier'' ''subscription_id'',
     arm_self ''UserProperty'' ''user_props'']"

lemma Subscribe_decode_tokens:
  "decode_internal_tokens Subscribe_decl = Ok (Expanded \<lparr>di_min_size = None,
    di_header_fields = [Dec_Stmts [D_Read ''packet_id'' False ''u16'' Bytes_Read]],
    di_abbreviated_check = False, di_non_abbreviated_fields = [],
    di_properties = Some Subscribe_dec_arms,
    di_field_payload = [], di_remaining_payload = [Dec_Stmts [D_Let_Vec (names_path [''SubscriptionFilter'']), D_While_Push (names_path [''SubscriptionFilter'']), D_Assign ''filter'' False]]\<rparr>)"
  by (simp add: Subscribe_decl_simps Subscribe_decl_fields_def Subscribe_dec_arms_def arm_defs each_res_step expand_defs Let_def del: each_res.simps(2))

lemma Subscribe_run_arms:
  "run_arms Subscribe_dec_arms pt (Subscribe_self r) src = Some (map_arm Subscribe_self (Subscribe_arms pt r src))"
  by (cases pt; simp add: Subscribe_dec_arms_def arm_simps PropertyType_names_simps Subscribe_lookup Subscribe_arms_def)
    (simp_all add: Subscribe_self_def)

lemma Subscribe_run_decode:
  "run_decode Subscribe_decl (Subscribe_self r) src = Some (map_read Subscribe_self (Subscribe_decode r src))"
proof (rule run_decode_as [OF Subscribe_decode_tokens], goal_cases)
  case 1
  show ?case by (simp add: dec_compiles_def stmts_compile_def Subscribe_dec_arms_def arm_compiles_simps PropertyType_names_simps)
next
  case 3
  show ?case
    apply (simp add: exec_simps Subscribe_lookup Subscribe_decode_def)
    apply (rule decodes_as_bind, clarsimp)
    apply (rule decodes_as_properties [OF Subscribe_run_arms])
      apply (simp add: Subscribe_self_def)
     apply simp
    apply (simp add: exec_simps Subscribe_lookup update_conv')
    apply (rule decodes_as_bind, clarsimp)
    apply (simp add: Subscribe_self_def decodes_as_Ok)
    done
qed simp

section \<open>SUBACK\<close>

definition SubAck_decl_fields :: "syn_field list" where
  "SubAck_decl_fields = [
     declare_field [] Vis_Inherited ''packet_id'' (ty_names [''u16'']),
     declare_field [property ''ReasonString''] Vis_Public ''reason'' (ty_app ''Option'' (ty_names [''String''])),
     declare_field [property ''UserProperty''] Vis_Public ''user_properties'' (ty_names [''UserProperty'']),
     declare_field [codec [arg ''payload_type'' [''remaining''], arg ''size_with'' [''codec'', ''codec_size_vec_reason'']]] Vis_Public ''reason_codes'' (ty_app ''Vec'' (ty_names [''Reason'']))]"

definition SubAck_decl :: item_struct where
  "SubAck_decl = \<lparr>it_attrs = [derives [''Debug'', ''Default'', ''Clone'', ''PartialEq'', ''Eq'']],
    it_vis = Vis_Public, it_ident = ''SubAck'', it_fields = Fields_Named SubAck_decl_fields\<rparr>"

lemma SubAck_decl_simps:
  "it_attrs SubAck_decl = [derives [''Debug'', ''Default'', ''Clone'', ''PartialEq'', ''Eq'']]" "it_fields SubAck_decl = Fields_Named SubAck_decl_fields"
  by (simp_all add: SubAck_decl_def)

definition SubAck_self :: "SubAck \<Rightarrow> self" where
  "SubAck_self p = [
     (''fixed_header'', V_FixedHeader (sa_fixed_header p)),
     (''packet_id'', V_u16 (sa_packet_id p)),
     (''reason'', V_Option (map_option V_String (sa_reason p))),
     (''user_properties'', V_UserProperty (sa_user_properties p)),
     (''reason_codes'', V_Vec (map V_Reason (sa_reason_codes p)))]"

lemmas SubAck_lookup = arg_cong [where f = map_of, OF SubAck_self_def]

lemma SubAck_run_property_size: "run_property_size SubAck_decl (SubAck_self p) = Some (SubAck_property_size p)"
  by (simp add: run_property_size_def SubAck_decl_simps SubAck_decl_fields_def each_res_step expand_defs exec_simps SubAck_lookup SubAck_property_size_def add_all_def del: each_res.simps(2))

lemma SubAck_run_codec_size: "run_codec_size SubAck_decl eval (SubAck_self p) = Some (SubAck_codec_size p)"
  by (simp add: run_codec_size_def SubAck_run_property_size SubAck_decl_simps SubAck_decl_fields_def each_res_step expand_defs exec_simps SubAck_lookup SubAck_codec_size_def  eval_check_def del: each_res.simps(2))

lemma SubAck_run_property_encode: "run_property_encode SubAck_decl (SubAck_self p) =
    Some (property_encode_internal (SubAck_property_size p) (SubAck_property_fields p))"
  by (simp add: run_property_encode_def SubAck_run_property_size exec_enc_fields_def SubAck_decl_simps SubAck_decl_fields_def each_res_step expand_defs exec_simps SubAck_lookup
      property_encode_internal_def SubAck_property_fields_def del: each_res.simps(2))

lemma SubAck_run_encode: "run_encode SubAck_decl True eval (SubAck_self p) = Some (SubAck_encode p)"
  by (simp add: run_encode_def SubAck_run_codec_size SubAck_run_property_encode exec_enc_fields_def SubAck_decl_simps SubAck_decl_fields_def each_res_step expand_defs exec_simps SubAck_lookup
      SubAck_encode_def  eval_check_def del: each_res.simps(2))

definition SubAck_dec_arms :: "dec_field list" where
  "SubAck_dec_arms = [
     arm_opt ''ReasonString'' ''reason'' ''String'',
     arm_self ''UserProperty'' ''user_properties'']"

lemma SubAck_decode_tokens:
  "decode_internal_tokens SubAck_decl = Ok (Expanded \<lparr>di_min_size = None,
    di_header_fields = [Dec_Stmts [D_Read ''packet_id'' False ''u16'' Bytes_Read]],
    di_abbreviated_check = False, di_non_abbreviated_fields = [],
    di_properties = Some SubAck_dec_arms,
    di_field_payload = [], di_remaining_payload = [Dec_Stmts [D_Let_Vec (names_path [''Reason'']), D_While_Push (names_path [''Reason'']), D_Assign ''reason_codes'' False]]\<rparr>)"
  by (simp add: SubAck_decl_simps SubAck_decl_fields_def SubAck_dec_arms_def arm_defs each_res_step expand_defs Let_def del: each_res.simps(2))

lemma SubAck_run_arms:
  "run_arms SubAck_dec_arms pt (SubAck_self r) src = Some (map_arm SubAck_self (SubAck_arms pt r src))"
  by (cases pt; simp add: SubAck_dec_arms_def arm_simps PropertyType_names_simps SubAck_lookup SubAck_arms_def)
    (simp_all add: SubAck_self_def)

lemma SubAck_run_decode:
  "run_decode SubAck_decl (SubAck_self r) src = Some (map_read SubAck_self (SubAck_decode r src))"
proof (rule run_decode_as [OF SubAck_decode_tokens], goal_cases)
  case 1
  show ?case by (simp add: dec_compiles_def stmts_compile_def SubAck_dec_arms_def arm_compiles_simps PropertyType_names_simps)
next
  case 3
  show ?case
    apply (simp add: exec_simps SubAck_lookup SubAck_decode_def)
    apply (rule decodes_as_bind, clarsimp)
    apply (rule decodes_as_properties [OF SubAck_run_arms])
      apply (simp add: SubAck_self_def)
     apply simp
    apply (simp add: exec_simps SubAck_lookup update_conv')
    apply (rule decodes_as_bind, clarsimp)
    apply (simp add: SubAck_self_def decodes_as_Ok)
    done
qed simp

section \<open>UNSUBACK\<close>

definition UnsubAck_decl_fields :: "syn_field list" where
  "UnsubAck_decl_fields = [
     declare_field [] Vis_Public ''packet_id'' (ty_names [''u16'']),
     declare_field [property ''ReasonString''] Vis_Public ''reason'' (ty_names [''String'']),
     declare_field [property ''UserProperty''] Vis_Public ''user_properties'' (ty_names [''UserProperty'']),
     declare_field [codec [arg ''payload_type'' [''remaining'']]] Vis_Public ''reason_code'' (ty_app ''Vec'' (ty_names [''Reason'']))]"

definition UnsubAck_decl :: item_struct where
  "UnsubAck_decl = \<lparr>it_attrs = [derives [''Debug'', ''Default'', ''Clone'', ''PartialEq'', ''Eq'']],
    it_vis = Vis_Public, it_ident = ''UnsubAck'', it_fields = Fields_Named UnsubAck_decl_fields\<rparr>"

lemma UnsubAck_decl_simps:
  "it_attrs UnsubAck_decl = [derives [''Debug'', ''Default'', ''Clone'', ''PartialEq'', ''Eq'']]" "it_fields UnsubAck_decl = Fields_Named UnsubAck_decl_fields"
  by (simp_all add: UnsubAck_decl_def)

definition UnsubAck_self :: "UnsubAck \<Rightarrow> self" where
  "UnsubAck_self p = [
     (''fixed_header'', V_FixedHeader (ua_fixed_header p)),
     (''packet_id'', V_u16 (ua_packet_id p)),
     (''reason'', V_String (ua_reason p)),
     (''user_properties'', V_UserProperty (ua_user_properties p)),
     (''reason_code'', V_Vec (map V_Reason (ua_reason_code p)))]"

lemmas UnsubAck_lookup = arg_cong [where f = map_of, OF UnsubAck_self_def]

lemma UnsubAck_run_property_size: "run_property_size UnsubAck_decl (UnsubAck_self p) = Some (UnsubAck_property_size p)"
  by (simp add: run_property_size_def UnsubAck_decl_simps UnsubAck_decl_fields_def each_res_step expand_defs exec_simps UnsubAck_lookup UnsubAck_property_size_def add_all_def del: each_res.simps(2))

lemma UnsubAck_run_codec_size: "run_codec_size UnsubAck_decl eval (UnsubAck_self p) = Some (UnsubAck_codec_size p)"
  by (simp add: run_codec_size_def UnsubAck_run_property_size UnsubAck_decl_simps UnsubAck_decl_fields_def each_res_step expand_defs exec_simps UnsubAck_lookup UnsubAck_codec_size_def  eval_check_def del: each_res.simps(2))

lemma UnsubAck_run_property_encode: "run_property_encode UnsubAck_decl (UnsubAck_self p) =
    Some (property_encode_internal (UnsubAck_property_size p) (UnsubAck_property_fields p))"
  by (simp add: run_property_encode_def UnsubAck_run_property_size exec_enc_fields_def UnsubAck_decl_simps UnsubAck_decl_fields_def each_res_step expand_defs exec_simps UnsubAck_lookup
      property_encode_internal_def UnsubAck_property_fields_def del: each_res.simps(2))

lemma UnsubAck_run_encode: "run_encode UnsubAck_decl True eval (UnsubAck_self p) = Some (UnsubAck_encode p)"
  by (simp add: run_encode_def UnsubAck_run_codec_size UnsubAck_run_property_encode exec_enc_fields_def UnsubAck_decl_simps UnsubAck_decl_fields_def each_res_step expand_defs exec_simps UnsubAck_lookup
      UnsubAck_encode_def  eval_check_def del: each_res.simps(2))

definition UnsubAck_dec_arms :: "dec_field list" where
  "UnsubAck_dec_arms = [
     arm_self ''ReasonString'' ''reason'',
     arm_self ''UserProperty'' ''user_properties'']"

lemma UnsubAck_decode_tokens:
  "decode_internal_tokens UnsubAck_decl = Ok (Expanded \<lparr>di_min_size = None,
    di_header_fields = [Dec_Stmts [D_Read ''packet_id'' False ''u16'' Bytes_Read]],
    di_abbreviated_check = False, di_non_abbreviated_fields = [],
    di_properties = Some UnsubAck_dec_arms,
    di_field_payload = [], di_remaining_payload = [Dec_Stmts [D_Let_Vec (names_path [''Reason'']), D_While_Push (names_path [''Reason'']), D_Assign ''reason_code'' False]]\<rparr>)"
  by (simp add: UnsubAck_decl_simps UnsubAck_decl_fields_def UnsubAck_dec_arms_def arm_defs each_res_step expand_defs Let_def del: each_res.simps(2))

lemma UnsubAck_run_arms:
  "run_arms UnsubAck_dec_arms pt (UnsubAck_self r) src = Some (map_arm UnsubAck_self (UnsubAck_arms pt r src))"
  by (cases pt; simp add: UnsubAck_dec_arms_def arm_simps PropertyType_names_simps UnsubAck_lookup UnsubAck_arms_def)
    (simp_all add: UnsubAck_self_def)

lemma UnsubAck_run_decode:
  "run_decode UnsubAck_decl (UnsubAck_self r) src = Some (map_read UnsubAck_self (UnsubAck_decode r src))"
proof (rule run_decode_as [OF UnsubAck_decode_tokens], goal_cases)
  case 1
  show ?case by (simp add: dec_compiles_def stmts_compile_def UnsubAck_dec_arms_def arm_compiles_simps PropertyType_names_simps)
next
  case 3
  show ?case
    apply (simp add: exec_simps UnsubAck_lookup UnsubAck_decode_def)
    apply (rule decodes_as_bind, clarsimp)
    apply (rule decodes_as_properties [OF UnsubAck_run_arms])
      apply (simp add: UnsubAck_self_def)
     apply simp
    apply (simp add: exec_simps UnsubAck_lookup update_conv')
    apply (rule decodes_as_bind, clarsimp)
    apply (simp add: UnsubAck_self_def decodes_as_Ok)
    done
qed simp

section \<open>UNSUBSCRIBE\<close>

definition Unsubscribe_decl_fields :: "syn_field list" where
  "Unsubscribe_decl_fields = [
     declare_field [] Vis_Public ''packet_id'' (ty_names [''u16'']),
     declare_field [property ''UserProperty''] Vis_Public ''props'' (ty_names [''UserProperty'']),
     declare_field [codec [arg ''payload_type'' [''remaining'']]] Vis_Public ''topics'' (ty_app ''Vec'' (ty_names [''String'']))]"

definition Unsubscribe_decl :: item_struct where
  "Unsubscribe_decl = \<lparr>it_attrs = [derives [''Debug'', ''Default'', ''Clone'', ''PartialEq'', ''Eq'']],
    it_vis = Vis_Public, it_ident = ''Unsubscribe'', it_fields = Fields_Named Unsubscribe_decl_fields\<rparr>"

lemma Unsubscribe_decl_simps:
  "it_attrs Unsubscribe_decl = [derives [''Debug'', ''Default'', ''Clone'', ''PartialEq'', ''Eq'']]" "it_fields Unsubscribe_decl = Fields_Named Unsubscribe_decl_fields"
  by (simp_all add: Unsubscribe_decl_def)

definition Unsubscribe_self :: "Unsubscribe \<Rightarrow> self" where
  "Unsubscribe_self p = [
     (''fixed_header'', V_FixedHeader (us_fixed_header p)),
     (''packet_id'', V_u16 (us_packet_id p)),
     (''props'', V_UserProperty (us_props p)),
     (''topics'', V_Vec (map V_String (us_topics p)))]"

lemmas Unsubscribe_lookup = arg_cong [where f = map_of, OF Unsubscribe_self_def]

lemma Unsubscribe_run_property_size: "run_property_size Unsubscribe_decl (Unsubscribe_self p) = Some (Unsubscribe_property_size p)"
  by (simp add: run_property_size_def Unsubscribe_decl_simps Unsubscribe_decl_fields_def each_res_step expand_defs exec_simps Unsubscribe_lookup Unsubscribe_property_size_def add_all_def del: each_res.simps(2))

lemma Unsubscribe_run_codec_size: "run_codec_size Unsubscribe_decl eval (Unsubscribe_self p) = Some (Unsubscribe_codec_size p)"
  by (simp add: run_codec_size_def Unsubscribe_run_property_size Unsubscribe_decl_simps Unsubscribe_decl_fields_def each_res_step expand_defs exec_simps Unsubscribe_lookup Unsubscribe_codec_size_def  eval_check_def del: each_res.simps(2))

lemma Unsubscribe_run_property_encode: "run_property_encode Unsubscribe_decl (Unsubscribe_self p) =
    Some (property_encode_internal (Unsubscribe_property_size p) (Unsubscribe_property_fields p))"
  by (simp add: run_property_encode_def Unsubscribe_run_property_size exec_enc_fields_def Unsubscribe_decl_simps Unsubscribe_decl_fields_def each_res_step expand_defs exec_simps Unsubscribe_lookup
      property_encode_internal_def Unsubscribe_property_fields_def del: each_res.simps(2))

lemma Unsubscribe_run_encode: "run_encode Unsubscribe_decl True eval (Unsubscribe_self p) = Some (Unsubscribe_encode p)"
  by (simp add: run_encode_def Unsubscribe_run_codec_size Unsubscribe_run_property_encode exec_enc_fields_def Unsubscribe_decl_simps Unsubscribe_decl_fields_def each_res_step expand_defs exec_simps Unsubscribe_lookup
      Unsubscribe_encode_def  eval_check_def del: each_res.simps(2))

definition Unsubscribe_dec_arms :: "dec_field list" where
  "Unsubscribe_dec_arms = [
     arm_self ''UserProperty'' ''props'']"

lemma Unsubscribe_decode_tokens:
  "decode_internal_tokens Unsubscribe_decl = Ok (Expanded \<lparr>di_min_size = None,
    di_header_fields = [Dec_Stmts [D_Read ''packet_id'' False ''u16'' Bytes_Read]],
    di_abbreviated_check = False, di_non_abbreviated_fields = [],
    di_properties = Some Unsubscribe_dec_arms,
    di_field_payload = [], di_remaining_payload = [Dec_Stmts [D_Let_Vec (names_path [''String'']), D_While_Push (names_path [''String'']), D_Assign ''topics'' False]]\<rparr>)"
  by (simp add: Unsubscribe_decl_simps Unsubscribe_decl_fields_def Unsubscribe_dec_arms_def arm_defs each_res_step expand_defs Let_def del: each_res.simps(2))

lemma Unsubscribe_run_arms:
  "run_arms Unsubscribe_dec_arms pt (Unsubscribe_self r) src = Some (map_arm Unsubscribe_self (Unsubscribe_arms pt r src))"
  by (cases pt; simp add: Unsubscribe_dec_arms_def arm_simps PropertyType_names_simps Unsubscribe_lookup Unsubscribe_arms_def)
    (simp_all add: Unsubscribe_self_def)

lemma Unsubscribe_run_decode:
  "run_decode Unsubscribe_decl (Unsubscribe_self r) src = Some (map_read Unsubscribe_self (Unsubscribe_decode r src))"
proof (rule run_decode_as [OF Unsubscribe_decode_tokens], goal_cases)
  case 1
  show ?case by (simp add: dec_compiles_def stmts_compile_def Unsubscribe_dec_arms_def arm_compiles_simps PropertyType_names_simps)
next
  case 3
  show ?case
    apply (simp add: exec_simps Unsubscribe_lookup Unsubscribe_decode_def)
    apply (rule decodes_as_bind, clarsimp)
    apply (rule decodes_as_properties [OF Unsubscribe_run_arms])
      apply (simp add: Unsubscribe_self_def)
     apply simp
    apply (simp add: exec_simps Unsubscribe_lookup update_conv')
    apply (rule decodes_as_bind, clarsimp)
    apply (simp add: Unsubscribe_self_def decodes_as_Ok)
    done
qed simp

end
