(* ===== verification/Macro_Messages.thy ===== *)
theory Macro_Messages
  imports Macro_Fields Packet_Codec
begin

text \<open>
  The declarations of the will header, CONNECT, PUBLISH and the pings; CONNECT and PUBLISH have hand-written decoders (\<open>skip_decode\<close>), as \<open>vaux-mqtt\<close> writes
  them, and what the macros make of them: running the emitted code on the fields of a packet is the
  codec that the packet theory defines for it.
\<close>

section \<open>The will header\<close>

definition WillHeader_decl_fields :: "syn_field list" where
  "WillHeader_decl_fields = [
     declare_field [property ''WillDelay''] Vis_Public ''will_delay'' (ty_app ''Option'' (ty_names [''u32''])),
     declare_field [property ''PayloadFormat''] Vis_Public ''payload_format'' (ty_app ''Option'' (ty_names [''PayloadFormat''])),
     declare_field [property ''MessageExpiry''] Vis_Public ''message_expiry'' (ty_app ''Option'' (ty_names [''u32''])),
     declare_field [property ''ContentType''] Vis_Public ''content_type'' (ty_app ''Option'' (ty_names [''String''])),
     declare_field [property ''ResponseTopic''] Vis_Public ''response_topic'' (ty_app ''Option'' (ty_names [''String''])),
     declare_field [codec [arg ''skip_if'' [''Vec'', ''is_empty''], arg ''property_type'' [''PropertyType'', ''CorrelationData'']]] Vis_Public ''correlation_data'' (ty_app ''Vec'' (ty_names [''u8''])),
     declare_field [property ''UserProperty''] Vis_Public ''user_properties'' (ty_names [''UserProperty''])]"

definition WillHeader_decl :: item_struct where
  "WillHeader_decl = \<lparr>it_attrs = [derives [''Debug'', ''Default'', ''Clone'', ''Eq'', ''PartialEq'', ''Encode'', ''Decode'', ''PropertyEncode'', ''PropertyCodecSize'', ''CodecSize'']],
    it_vis = Vis_Public, it_ident = ''WillHeader'', it_fields = Fields_Named WillHeader_decl_fields\<rparr>"

lemma WillHeader_decl_simps:
  "it_attrs WillHeader_decl = [derives [''Debug'', ''Default'', ''Clone'', ''Eq'', ''PartialEq'', ''Encode'', ''Decode'', ''PropertyEncode'', ''PropertyCodecSize'', ''CodecSize'']]" "it_fields WillHeader_decl = Fields_Named WillHeader_decl_fields"
  by (simp_all add: WillHeader_decl_def)

definition WillHeader_self :: "WillHeader \<Rightarrow> self" where
  "WillHeader_self p = [
     (''will_delay'', V_Option (map_option V_u32 (wh_will_delay p))),
     (''payload_format'', V_Option (map_option V_PayloadFormat (wh_payload_format p))),
     (''message_expiry'', V_Option (map_option V_u32 (wh_message_expiry p))),
     (''content_type'', V_Option (map_option V_String (wh_content_type p))),
     (''response_topic'', V_Option (map_option V_String (wh_response_topic p))),
     (''correlation_data'', V_bytes (wh_correlation_data p)),
     (''user_properties'', V_UserProperty (wh_user_properties p))]"

lemmas WillHeader_lookup = arg_cong [where f = map_of, OF WillHeader_self_def]

lemma WillHeader_run_property_size: "run_property_size WillHeader_decl (WillHeader_self p) = Some (WillHeader_property_size p)"
  by (simp add: run_property_size_def WillHeader_decl_simps WillHeader_decl_fields_def each_res_step expand_defs exec_simps WillHeader_lookup WillHeader_property_size_def add_all_def del: each_res.simps(2))

lemma WillHeader_run_codec_size: "run_codec_size WillHeader_decl eval (WillHeader_self p) = Some (WillHeader_codec_size p)"
  by (simp add: run_codec_size_def WillHeader_run_property_size WillHeader_decl_simps WillHeader_decl_fields_def each_res_step expand_defs exec_simps WillHeader_lookup WillHeader_codec_size_def  eval_check_def del: each_res.simps(2))

lemma WillHeader_run_property_encode: "run_property_encode WillHeader_decl (WillHeader_self p) =
    Some (property_encode_internal (WillHeader_property_size p) (WillHeader_property_fields p))"
  by (simp add: run_property_encode_def WillHeader_run_property_size exec_enc_fields_def WillHeader_decl_simps WillHeader_decl_fields_def each_res_step expand_defs exec_simps WillHeader_lookup
      property_encode_internal_def WillHeader_property_fields_def del: each_res.simps(2))

lemma WillHeader_run_encode: "run_encode WillHeader_decl False eval (WillHeader_self p) = Some (WillHeader_encode p)"
  by (simp add: run_encode_def WillHeader_run_codec_size WillHeader_run_property_encode exec_enc_fields_def WillHeader_decl_simps WillHeader_decl_fields_def each_res_step expand_defs exec_simps WillHeader_lookup
      WillHeader_encode_def  eval_check_def del: each_res.simps(2))

definition WillHeader_dec_arms :: "dec_field list" where
  "WillHeader_dec_arms = [
     arm_opt ''WillDelay'' ''will_delay'' ''u32'',
     arm_opt ''PayloadFormat'' ''payload_format'' ''PayloadFormat'',
     arm_opt ''MessageExpiry'' ''message_expiry'' ''u32'',
     arm_opt ''ContentType'' ''content_type'' ''String'',
     arm_opt ''ResponseTopic'' ''response_topic'' ''String'',
     arm_vec_u8 ''CorrelationData'' ''correlation_data'',
     arm_self ''UserProperty'' ''user_properties'']"

lemma WillHeader_decode_tokens:
  "decode_internal_tokens WillHeader_decl = Ok (Expanded \<lparr>di_min_size = None,
    di_header_fields = [],
    di_abbreviated_check = False, di_non_abbreviated_fields = [],
    di_properties = Some WillHeader_dec_arms,
    di_field_payload = [], di_remaining_payload = []\<rparr>)"
  by (simp add: WillHeader_decl_simps WillHeader_decl_fields_def WillHeader_dec_arms_def arm_defs each_res_step expand_defs Let_def del: each_res.simps(2))

lemma WillHeader_run_arms:
  "run_arms WillHeader_dec_arms pt (WillHeader_self r) src = Some (map_arm WillHeader_self (WillHeader_arms pt r src))"
  by (cases pt; simp add: WillHeader_dec_arms_def arm_simps PropertyType_names_simps WillHeader_lookup WillHeader_arms_def)
    (simp_all add: WillHeader_self_def)

lemma WillHeader_run_decode:
  "run_decode WillHeader_decl (WillHeader_self r) src = Some (map_read WillHeader_self (WillHeader_decode r src))"
proof (rule run_decode_as [OF WillHeader_decode_tokens], goal_cases)
  case 1
  show ?case by (simp add: dec_compiles_def stmts_compile_def WillHeader_dec_arms_def arm_compiles_simps PropertyType_names_simps)
next
  case 3
  show ?case
    using decodes_as_properties [where k = Ok and g = "\<lambda>st. Some (Ok st)" and r = r and src = src
        and st = "begin_dec (WillHeader_self r) src", OF WillHeader_run_arms]
    by (simp add: WillHeader_decode_def decodes_as_Ok)
qed simp

section \<open>CONNECT\<close>

definition Connect_decl_fields :: "syn_field list" where
  "Connect_decl_fields = [
     declare_field [] Vis_Inherited ''protocol_name'' (ty_names [''String'']),
     declare_field [] Vis_Inherited ''protocol_version'' (ty_names [''u8'']),
     declare_field [] Vis_Inherited ''connect_flags'' (ty_names [''u8'']),
     declare_field [] Vis_Public ''keep_alive'' (ty_names [''u16'']),
     declare_field [property ''SessionExpiryInterval''] Vis_Public ''session_expiry_interval'' (ty_app ''Option'' (ty_names [''u32''])),
     declare_field [property ''RecvMax''] Vis_Public ''receive_maximum'' (ty_app ''Option'' (ty_names [''u16''])),
     declare_field [property ''MaxPacketSize''] Vis_Public ''max_packet_size'' (ty_app ''Option'' (ty_names [''u32''])),
     declare_field [property ''TopicAliasMax''] Vis_Public ''topic_alias_maximum'' (ty_app ''Option'' (ty_names [''u16''])),
     declare_field [property ''ReqRespInfo''] Vis_Public ''request_response_info'' (ty_app ''Option'' (ty_names [''bool''])),
     declare_field [property ''ReqProblemInfo''] Vis_Public ''request_problem_info'' (ty_app ''Option'' (ty_names [''bool''])),
     declare_field [property ''AuthMethod''] Vis_Public ''auth_method'' (ty_app ''Option'' (ty_names [''String''])),
     declare_field [codec [arg ''skip_if'' [''Vec'', ''is_empty''], arg ''property_type'' [''PropertyType'', ''AuthData'']]] Vis_Public ''auth_data'' (ty_app ''Vec'' (ty_names [''u8''])),
     declare_field [property ''UserProperty''] Vis_Public ''user_properties'' (ty_names [''property'', ''UserProperty'']),
     declare_field [codec [arg ''payload_type'' [''field'']]] Vis_Public ''client_id'' (ty_names [''String'']),
     declare_field [codec [arg ''payload_type'' [''field'']]] Vis_Crate ''will_properties'' (ty_app ''Option'' (ty_names [''WillHeader''])),
     declare_field [codec [arg ''payload_type'' [''field''], arg ''skip_if'' [''Vec'', ''is_empty'']]] Vis_Crate ''will_payload'' (ty_app ''Vec'' (ty_names [''u8''])),
     declare_field [codec [arg ''payload_type'' [''field'']]] Vis_Crate ''will_topic'' (ty_app ''Option'' (ty_names [''String''])),
     declare_field [codec [arg ''skip_if'' [''String'', ''is_empty''], arg ''payload_type'' [''field'']]] Vis_Inherited ''username'' (ty_names [''String'']),
     declare_field [codec [arg ''skip_if'' [''Vec'', ''is_empty''], arg ''payload_type'' [''field'']]] Vis_Inherited ''password'' (ty_app ''Vec'' (ty_names [''u8'']))]"

definition Connect_decl :: item_struct where
  "Connect_decl = \<lparr>it_attrs = [codec [flag ''skip_decode''], derives [''Debug'', ''Clone'', ''PartialEq'', ''Eq'']],
    it_vis = Vis_Public, it_ident = ''Connect'', it_fields = Fields_Named Connect_decl_fields\<rparr>"

lemma Connect_decl_simps:
  "it_attrs Connect_decl = [codec [flag ''skip_decode''], derives [''Debug'', ''Clone'', ''PartialEq'', ''Eq'']]" "it_fields Connect_decl = Fields_Named Connect_decl_fields"
  by (simp_all add: Connect_decl_def)

definition Connect_self :: "Connect \<Rightarrow> self" where
  "Connect_self p = [
     (''fixed_header'', V_FixedHeader (co_fixed_header p)),
     (''protocol_name'', V_String (co_protocol_name p)),
     (''protocol_version'', V_u8 (co_protocol_version p)),
     (''connect_flags'', V_u8 (co_connect_flags p)),
     (''keep_alive'', V_u16 (co_keep_alive p)),
     (''session_expiry_interval'', V_Option (map_option V_u32 (co_session_expiry_interval p))),
     (''receive_maximum'', V_Option (map_option V_u16 (co_receive_maximum p))),
     (''max_packet_size'', V_Option (map_option V_u32 (co_max_packet_size p))),
     (''topic_alias_maximum'', V_Option (map_option V_u16 (co_topic_alias_maximum p))),
     (''request_response_info'', V_Option (map_option V_bool (co_request_response_info p))),
     (''request_problem_info'', V_Option (map_option V_bool (co_request_problem_info p))),
     (''auth_method'', V_Option (map_option V_String (co_auth_method p))),
     (''auth_data'', V_bytes (co_auth_data p)),
     (''user_properties'', V_UserProperty (co_user_properties p)),
     (''client_id'', V_String (co_client_id p)),
     (''will_properties'', V_Option (map_option V_WillHeader (co_will_properties p))),
     (''will_payload'', V_bytes (co_will_payload p)),
     (''will_topic'', V_Option (map_option V_String (co_will_topic p))),
     (''username'', V_String (co_username p)),
     (''password'', V_bytes (co_password p))]"

lemmas Connect_lookup = arg_cong [where f = map_of, OF Connect_self_def]

lemma Connect_run_property_size: "run_property_size Connect_decl (Connect_self p) = Some (Connect_property_size p)"
  by (simp add: run_property_size_def Connect_decl_simps Connect_decl_fields_def each_res_step expand_defs exec_simps Connect_lookup Connect_property_size_def add_all_def del: each_res.simps(2))

lemma Connect_run_codec_size: "run_codec_size Connect_decl eval (Connect_self p) = Some (Connect_codec_size p)"
  by (simp add: run_codec_size_def Connect_run_property_size Connect_decl_simps Connect_decl_fields_def each_res_step expand_defs exec_simps Connect_lookup Connect_codec_size_def Connect_field_sizes_def eval_check_def del: each_res.simps(2))

lemma Connect_run_property_encode: "run_property_encode Connect_decl (Connect_self p) =
    Some (property_encode_internal (Connect_property_size p) (Connect_property_fields p))"
  by (simp add: run_property_encode_def Connect_run_property_size exec_enc_fields_def Connect_decl_simps Connect_decl_fields_def each_res_step expand_defs exec_simps Connect_lookup
      property_encode_internal_def Connect_property_fields_def del: each_res.simps(2))

lemma Connect_run_encode: "run_encode Connect_decl True eval (Connect_self p) = Some (Connect_encode p)"
  by (simp add: run_encode_def Connect_run_codec_size Connect_run_property_encode exec_enc_fields_def Connect_decl_simps Connect_decl_fields_def each_res_step expand_defs exec_simps Connect_lookup
      Connect_encode_def Connect_header_fields_def Connect_payload_fields_def eval_check_def del: each_res.simps(2))

section \<open>PUBLISH\<close>

definition Publish_decl_fields :: "syn_field list" where
  "Publish_decl_fields = [
     declare_field [] Vis_Public ''topic_name'' (ty_names [''String'']),
     declare_field [] Vis_Inherited ''packet_id'' (ty_app ''Option'' (ty_names [''u16''])),
     declare_field [property ''MessageExpiry''] Vis_Public ''message_expiry'' (ty_app ''Option'' (ty_names [''u32''])),
     declare_field [property ''PayloadFormat''] Vis_Public ''payload_format'' (ty_app ''Option'' (ty_names [''PayloadFormat''])),
     declare_field [property ''TopicAlias''] Vis_Public ''topic_alias'' (ty_app ''Option'' (ty_names [''u16''])),
     declare_field [property ''ResponseTopic''] Vis_Public ''response_topic'' (ty_app ''Option'' (ty_names [''String''])),
     declare_field [codec [arg ''property_type'' [''PropertyType'', ''CorrelationData''], arg ''skip_if'' [''Vec'', ''is_empty'']]] Vis_Public ''correlation_data'' (ty_app ''Vec'' (ty_names [''u8''])),
     declare_field [property ''SubscriptionIdentifier'', codec [arg ''size_with'' [''codec'', ''codec_size_opt_variable_byte_int_ref''], arg ''encode_with'' [''codec'', ''encode_opt_variable_byte_int_ref''], arg ''decode_with'' [''codec'', ''decode_opt_variable_byte_int'']]] Vis_Public ''subscription_identifiers'' (ty_app ''Option'' (ty_names [''u32''])),
     declare_field [property ''ContentType''] Vis_Public ''content_type'' (ty_app ''Option'' (ty_names [''String''])),
     declare_field [property ''UserProperty''] Vis_Public ''user_properties'' (ty_names [''UserProperty'']),
     declare_field [codec [arg ''payload_type'' [''remaining''], arg ''decode_with'' [''codec'', ''decode_opt_vec_u8_raw''], arg ''encode_with'' [''codec'', ''encode_opt_vec_u8_raw_ref''], arg ''size_with'' [''codec'', ''codec_size_opt_vec_u8_raw'']]] Vis_Public ''payload'' (ty_app ''Option'' (ty_names [''Bytes'']))]"

definition Publish_decl :: item_struct where
  "Publish_decl = \<lparr>it_attrs = [codec [flag ''skip_decode''], derives [''Debug'', ''Clone'', ''Eq'', ''PartialEq'']],
    it_vis = Vis_Public, it_ident = ''Publish'', it_fields = Fields_Named Publish_decl_fields\<rparr>"

lemma Publish_decl_simps:
  "it_attrs Publish_decl = [codec [flag ''skip_decode''], derives [''Debug'', ''Clone'', ''Eq'', ''PartialEq'']]" "it_fields Publish_decl = Fields_Named Publish_decl_fields"
  by (simp_all add: Publish_decl_def)

definition Publish_self :: "Publish \<Rightarrow> self" where
  "Publish_self p = [
     (''fixed_header'', V_FixedHeader (pu_fixed_header p)),
     (''topic_name'', V_String (pu_topic_name p)),
     (''packet_id'', V_Option (map_option V_u16 (pu_packet_id p))),
     (''message_expiry'', V_Option (map_option V_u32 (pu_message_expiry p))),
     (''payload_format'', V_Option (map_option V_PayloadFormat (pu_payload_format p))),
     (''topic_alias'', V_Option (map_option V_u16 (pu_topic_alias p))),
     (''response_topic'', V_Option (map_option V_String (pu_response_topic p))),
     (''correlation_data'', V_bytes (pu_correlation_data p)),
     (''subscription_identifiers'', V_Option (map_option V_u32 (pu_subscription_identifiers p))),
     (''content_type'', V_Option (map_option V_String (pu_content_type p))),
     (''user_properties'', V_UserProperty (pu_user_properties p)),
     (''payload'', V_Option (map_option V_bytes (pu_payload p)))]"

lemmas Publish_lookup = arg_cong [where f = map_of, OF Publish_self_def]

lemma Publish_run_property_size: "run_property_size Publish_decl (Publish_self p) = Some (Publish_property_size p)"
  by (simp add: run_property_size_def Publish_decl_simps Publish_decl_fields_def each_res_step expand_defs exec_simps Publish_lookup Publish_property_size_def add_all_def del: each_res.simps(2))

lemma Publish_run_codec_size: "run_codec_size Publish_decl eval (Publish_self p) = Some (Publish_codec_size p)"
  by (simp add: run_codec_size_def Publish_run_property_size Publish_decl_simps Publish_decl_fields_def each_res_step expand_defs exec_simps Publish_lookup Publish_codec_size_def Publish_field_sizes_def eval_check_def del: each_res.simps(2))

lemma Publish_run_property_encode: "run_property_encode Publish_decl (Publish_self p) =
    Some (property_encode_internal (Publish_property_size p) (Publish_property_fields p))"
  by (simp add: run_property_encode_def Publish_run_property_size exec_enc_fields_def Publish_decl_simps Publish_decl_fields_def each_res_step expand_defs exec_simps Publish_lookup
      property_encode_internal_def Publish_property_fields_def del: each_res.simps(2))

lemma Publish_run_encode: "run_encode Publish_decl True eval (Publish_self p) = Some (Publish_encode p)"
  by (simp add: run_encode_def Publish_run_codec_size Publish_run_property_encode exec_enc_fields_def Publish_decl_simps Publish_decl_fields_def each_res_step expand_defs exec_simps Publish_lookup
      Publish_encode_def Publish_header_fields_def Publish_payload_fields_def eval_check_def del: each_res.simps(2))

section \<open>PINGREQ\<close>

definition PingReq_decl :: item_struct where
  "PingReq_decl = \<lparr>it_attrs = [derives [''Debug'', ''Clone'', ''Eq'', ''PartialEq'']],
    it_vis = Vis_Public, it_ident = ''PingReq'', it_fields = Fields_Unit\<rparr>"

lemma PingReq_decl_simps:
  "it_attrs PingReq_decl = [derives [''Debug'', ''Clone'', ''Eq'', ''PartialEq'']]" "it_fields PingReq_decl = Fields_Unit"
  by (simp_all add: PingReq_decl_def)

definition PingReq_self :: "PingReq \<Rightarrow> self" where
  "PingReq_self p = [
     (''fixed_header'', V_FixedHeader (pq_fixed_header p))]"

lemmas PingReq_lookup = arg_cong [where f = map_of, OF PingReq_self_def]

lemma PingReq_run_codec_size: "run_codec_size PingReq_decl eval (PingReq_self p) = Some 0"
  by (simp add: run_codec_size_def PingReq_decl_simps each_res_step expand_defs exec_simps PingReq_lookup  eval_check_def del: each_res.simps(2))

lemma PingReq_run_encode: "run_encode PingReq_decl True eval (PingReq_self p) = Some (PingReq_encode p)"
  by (simp add: run_encode_def PingReq_run_codec_size exec_enc_fields_def PingReq_decl_simps each_res_step expand_defs exec_simps PingReq_lookup
      PingReq_encode_def  eval_check_def del: each_res.simps(2))

section \<open>PINGRESP\<close>

definition PingResp_decl :: item_struct where
  "PingResp_decl = \<lparr>it_attrs = [derives [''Debug'', ''Clone'', ''Eq'', ''PartialEq'']],
    it_vis = Vis_Public, it_ident = ''PingResp'', it_fields = Fields_Unit\<rparr>"

lemma PingResp_decl_simps:
  "it_attrs PingResp_decl = [derives [''Debug'', ''Clone'', ''Eq'', ''PartialEq'']]" "it_fields PingResp_decl = Fields_Unit"
  by (simp_all add: PingResp_decl_def)

definition PingResp_self :: "PingResp \<Rightarrow> self" where
  "PingResp_self p = [
     (''fixed_header'', V_FixedHeader (ps_fixed_header p))]"

lemmas PingResp_lookup = arg_cong [where f = map_of, OF PingResp_self_def]

lemma PingResp_run_codec_size: "run_codec_size PingResp_decl eval (PingResp_self p) = Some 0"
  by (simp add: run_codec_size_def PingResp_decl_simps each_res_step expand_defs exec_simps PingResp_lookup  eval_check_def del: each_res.simps(2))

lemma PingResp_run_encode: "run_encode PingResp_decl True eval (PingResp_self p) = Some (PingResp_encode p)"
  by (simp add: run_encode_def PingResp_run_codec_size exec_enc_fields_def PingResp_decl_simps each_res_step expand_defs exec_simps PingResp_lookup
      PingResp_encode_def  eval_check_def del: each_res.simps(2))

end
