(* ===== verification/Macro_Packet.thy ===== *)
theory Macro_Packet
  imports Macro_Acks Macro_Lists Macro_Messages
begin

text \<open>
  The attribute macro \<open>#[packet(..)]\<close> of \<open>vaux-macro/src/lib.rs\<close>: the struct it emits with its fixed
  header, its \<open>Default\<close>, \<open>new_with_fixed_header\<close>, and the derives it adds. The second half is the group
  a field falls into, for every declaration.
\<close>

section \<open>The emitted items\<close>

record packet_output =
  po_struct_attrs :: "attribute list"
  po_struct_vis :: visibility
  po_struct_name :: ident
  po_struct_fields :: "syn_field list"
  po_default_impl :: "ident list option"
  po_packet_type :: "path option"
  po_codec_size :: "codec_size_impl expansion"
  po_property_size :: "size_stmt list list expansion"
  po_property_encode :: "enc_stmt list list expansion"
  po_encode :: "encode_impl expansion"
  po_decode :: "decode_impl expansion"

text \<open>\<open>parse_args_with(Punctuated::<Path, _>)\<close> on a \<open>derive\<close> attribute.\<close>

definition parse_paths :: "attribute \<Rightarrow> path list option" where
  "parse_paths attr =
    (case attr_args attr of
       Some ms \<Rightarrow> if list_all (\<lambda>m. case m of Meta_Path _ \<Rightarrow> True | _ \<Rightarrow> False) ms then Some (map meta_path ms) else None
     | None \<Rightarrow> None)"

definition derives_default :: "attribute \<Rightarrow> bool" where
  "derives_default attr \<longleftrightarrow> attr_is ''derive'' attr \<and>
    (case parse_paths attr of Some nested \<Rightarrow> list_ex (\<lambda>p. is_ident p ''Default'') nested | None \<Rightarrow> False)"

text \<open>\<open>#[cfg(any())]\<close>, which is never satisfied, replaces a \<open>derive\<close> with nothing left.\<close>

definition without_default :: "attribute \<Rightarrow> attribute" where
  "without_default attr =
    (if attr_is ''derive'' attr then
       (case parse_paths attr of
          Some nested \<Rightarrow>
            let filtered = filter (\<lambda>p. \<not> is_ident p ''Default'') nested in
            if filtered = [] then Attribute (ident_path ''cfg'') (Some [Meta_List (ident_path ''any'')])
            else Attribute (ident_path ''derive'') (Some (map Meta_Path filtered))
        | None \<Rightarrow> attr)
     else attr)"

definition fixed_header_field :: syn_field where
  "fixed_header_field = declare_field [] Vis_Public ''fixed_header'' (ty_names [''codec'', ''FixedHeader''])"

text \<open>\<open>packet\<close>; the argument of the attribute is a name and a value.\<close>

definition packet :: "path \<Rightarrow> syn_expr \<Rightarrow> item_struct \<Rightarrow> packet_output expansion syn_result" where
  "packet nv_path nv_expr input =
    bind (codec_size_tokens input) (\<lambda>codec_size_impl.
    bind (codec_property_size_tokens input) (\<lambda>codec_property_size_impl.
    bind (property_encode_tokens input) (\<lambda>property_encode_impl.
    bind (encode_internal_tokens input True) (\<lambda>encode_impl.
    bind (if is_skip_decode (it_attrs input) then Ok Empty_Stream else decode_internal_tokens input) (\<lambda>decode_impl.
    bind (get_packet_type nv_path nv_expr) (\<lambda>packet_type.
      let struct_attrs = filter_attributes (it_attrs input) [PACKET_ATTR, CODEC_ATTR];
          has_default_derive = list_ex derives_default struct_attrs;
          struct_attrs = (if has_default_derive then map without_default struct_attrs else struct_attrs);
          fs = named_fields (it_fields input) in
      if it_fields input = Fields_Unnamed then
        Ok (Refused (compile_error ''packet attribute cannot be applied to tuple structs''))
      else
        Ok (Expanded \<lparr>
          po_struct_attrs = struct_attrs,
          po_struct_vis = it_vis input,
          po_struct_name = it_ident input,
          po_struct_fields = fixed_header_field #
            map (\<lambda>f. f\<lparr>fld_attrs := filter_attributes (fld_attrs f) [CODEC_ATTR]\<rparr>) fs,
          po_default_impl = (if has_default_derive then Some (map fld_ident fs) else None),
          po_packet_type = packet_type,
          po_codec_size = codec_size_impl,
          po_property_size = codec_property_size_impl,
          po_property_encode = property_encode_impl,
          po_encode = encode_impl,
          po_decode = decode_impl\<rparr>)))))))"

section \<open>Running the constructors\<close>

definition PacketType_names :: "(ident \<times> PacketType) list" where
  "PacketType_names =
    [(''Connect'', PT_Connect), (''ConnAck'', PT_ConnAck), (''Publish'', PT_Publish),
     (''Subscribe'', PT_Subscribe), (''SubAck'', PT_SubAck), (''Unsubscribe'', PT_Unsubscribe),
     (''UnsubAck'', PT_UnsubAck), (''PingReq'', PT_PingReq), (''PingResp'', PT_PingResp)]"

definition packet_type_of_path :: "path \<Rightarrow> PacketType option" where
  "packet_type_of_path p =
    (case path_names p of
       [m, e, v] \<Rightarrow> if m = ''codec'' \<and> e = ''PacketType'' then map_of PacketType_names v else None
     | _ \<Rightarrow> None)"

text \<open>The emitted \<open>Default\<close>: a fresh header, and the default value of each field's type.\<close>

definition run_default :: "packet_output \<Rightarrow> self option" where
  "run_default po =
    (case (po_default_impl po, Option.bind (po_packet_type po) packet_type_of_path) of
       (Some names, Some pt) \<Rightarrow>
         map_option (\<lambda>vs. (''fixed_header'', V_FixedHeader (FixedHeader_new pt)) # zip names vs)
           (those (map (\<lambda>f. default_val (fld_ty f)) (tl (po_struct_fields po))))
     | _ \<Rightarrow> None)"

text \<open>The emitted \<open>new_with_fixed_header\<close>; \<open>dflt\<close> is the struct's \<open>Default::default()\<close>.\<close>

definition run_new_with_fixed_header :: "packet_output \<Rightarrow> self \<Rightarrow> FixedHeader \<Rightarrow> self codec_result option" where
  "run_new_with_fixed_header po dflt h =
    map_option (\<lambda>pt. if fh_packet_type h \<noteq> pt then Err MqttCodecError_new
        else Ok (AList.update ''fixed_header'' (V_FixedHeader h) dflt))
      (Option.bind (po_packet_type po) packet_type_of_path)"

text \<open>The attribute as the packets write it, and what \<open>packet\<close> keeps of a declaration.\<close>

definition packet_as :: "ident \<Rightarrow> item_struct \<Rightarrow> packet_output expansion syn_result" where
  "packet_as v input = packet (ident_path ''packet_type'') (Expr_Lit (path_lit [''codec'', ''PacketType'', v])) input"

lemma parse_paths_derives [query_simps]: "parse_paths (derives ns) = Some (map ident_path ns)"
  by (simp add: parse_paths_def derives_def flag_def list_all_iff comp_def)

lemma packet_expanded:
  assumes "packet_as v input = Ok (Expanded po)"
  shows "po_packet_type po = Some (names_path [''codec'', ''PacketType'', v])"
    and "po_struct_name po = it_ident input"
    and "po_struct_fields po = fixed_header_field #
      map (\<lambda>f. f\<lparr>fld_attrs := filter_attributes (fld_attrs f) [CODEC_ATTR]\<rparr>) (named_fields (it_fields input))"
    and "po_default_impl po = (if list_ex derives_default (filter_attributes (it_attrs input) [PACKET_ATTR, CODEC_ATTR])
      then Some (map fld_ident (named_fields (it_fields input))) else None)"
    and "encode_internal_tokens input True = Ok (po_encode po)"
    and "codec_size_tokens input = Ok (po_codec_size po)"
    and "if is_skip_decode (it_attrs input) then po_decode po = Empty_Stream
      else decode_internal_tokens input = Ok (po_decode po)"
  using assms
  by (auto simp: packet_as_def packet_def get_packet_type_def ident_path_is PACKET_ATTR_PACKET_TYPE_ARG_def
      path_lit_def unwrap_opt_def Let_def split: if_splits)

lemma packet_type_simps [query_simps]:
  "packet_type_of_path (names_path [''codec'', ''PacketType'', v]) = map_of PacketType_names v"
  by (simp add: packet_type_of_path_def query_simps)

lemma new_with_fixed_header_expanded:
  assumes "packet_as v input = Ok (Expanded po)" and "map_of PacketType_names v = Some pt"
  shows "run_new_with_fixed_header po dflt h =
    Some (if fh_packet_type h \<noteq> pt then Err MqttCodecError_new
      else Ok (AList.update ''fixed_header'' (V_FixedHeader h) dflt))"
  using packet_expanded(1) [OF assms(1)] assms(2) by (simp add: run_new_with_fixed_header_def query_simps)

text \<open>A declaration whose methods all run is one that \<open>packet\<close> accepts.\<close>

lemma packet_accepts:
  assumes "run_property_size input self = Some ps" and "run_codec_size input eval self = Some n"
    and "run_property_encode input self = Some m" and "run_encode input True eval self = Some e"
    and "is_skip_decode (it_attrs input) \<or> run_decode input self src = Some d"
  shows "\<exists>po. packet_as v input = Ok (Expanded po)"
proof -
  obtain cs where cs: "codec_size_tokens input = Ok (Expanded cs)"
    using assms(2) by (auto simp: run_codec_size_def split: res.splits expansion.splits)
  obtain pz where pz: "codec_property_size_tokens input = Ok (Expanded pz)"
    using assms(1) by (auto simp: run_property_size_def split: res.splits expansion.splits)
  obtain pe where pe: "property_encode_tokens input = Ok (Expanded pe)"
    using assms(3) by (auto simp: run_property_encode_def split: res.splits expansion.splits)
  obtain ei where ei: "encode_internal_tokens input True = Ok (Expanded ei)"
    using assms(4) by (auto simp: run_encode_def split: res.splits expansion.splits)
  obtain di where di: "(if is_skip_decode (it_attrs input) then Ok Empty_Stream else decode_internal_tokens input) = Ok di"
    using assms(5) by (cases "is_skip_decode (it_attrs input)") (auto simp: run_decode_def split: res.splits)
  from ei have "it_fields input \<noteq> Fields_Unnamed"
    by (auto simp: encode_internal_tokens_def)
  with cs pz pe ei di show ?thesis
    by (simp add: packet_as_def packet_def get_packet_type_def ident_path_is PACKET_ATTR_PACKET_TYPE_ARG_def
        path_lit_def unwrap_opt_def Let_def)
qed

text \<open>What \<open>new_with_fixed_header\<close> of a packet theory has to be for the emitted one to be it.\<close>

lemma new_with_fixed_header_is:
  assumes "packet_as v input = Ok (Expanded po)" and "map_of PacketType_names v = Some pt"
    and "new h = (if fh_packet_type h \<noteq> pt then Err MqttCodecError_new else Ok (upd h))"
    and "AList.update ''fixed_header'' (V_FixedHeader h) dflt = rep (upd h)"
  shows "run_new_with_fixed_header po dflt h = Some (map_ok rep (new h))"
  using assms(3,4) by (simp add: new_with_fixed_header_expanded [OF assms(1,2)])

lemma default_val_names:
  "default_val (ty_names [n]) = (if n = ''Vec'' then None else named_default n)"
  "default_val (ty_app c (ty_names [n])) = (if c = ''Vec'' then Some (if n = ''u8'' then V_bytes [] else V_Vec [])
    else named_default c)"
  by (simp_all add: default_val_def ty_names_def ty_app_def type_name_def names_path_def new_vec_def)

lemmas run_default_simps = default_val_names filter_attributes_def derives_default_def query_simps attr_names
  PacketType_names_def fixed_header_field_def named_default_def property_def

lemma ConnAck_default_expanded:
  assumes "packet_as ''ConnAck'' ConnAck_decl = Ok (Expanded po)"
  shows "run_default po = Some (ConnAck_self ConnAck_default)"
  unfolding run_default_def packet_expanded [OF assms]
  by (simp add: run_default_simps ConnAck_decl_simps ConnAck_decl_fields_def ConnAck_self_def ConnAck_default_def UserProperty_new_def)

lemma SubAck_default_expanded:
  assumes "packet_as ''SubAck'' SubAck_decl = Ok (Expanded po)"
  shows "run_default po = Some (SubAck_self SubAck_default)"
  unfolding run_default_def packet_expanded [OF assms]
  by (simp add: run_default_simps SubAck_decl_simps SubAck_decl_fields_def SubAck_self_def SubAck_default_def UserProperty_new_def)

lemma UnsubAck_default_expanded:
  assumes "packet_as ''UnsubAck'' UnsubAck_decl = Ok (Expanded po)"
  shows "run_default po = Some (UnsubAck_self UnsubAck_default)"
  unfolding run_default_def packet_expanded [OF assms]
  by (simp add: run_default_simps UnsubAck_decl_simps UnsubAck_decl_fields_def UnsubAck_self_def UnsubAck_default_def UserProperty_new_def)

lemma Unsubscribe_default_expanded:
  assumes "packet_as ''Unsubscribe'' Unsubscribe_decl = Ok (Expanded po)"
  shows "run_default po = Some (Unsubscribe_self Unsubscribe_default)"
  unfolding run_default_def packet_expanded [OF assms]
  by (simp add: run_default_simps Unsubscribe_decl_simps Unsubscribe_decl_fields_def Unsubscribe_self_def Unsubscribe_default_def UserProperty_new_def)

lemma SubAck_new_with_fixed_header_expanded:
  assumes "packet_as ''SubAck'' SubAck_decl = Ok (Expanded po)"
  shows "run_new_with_fixed_header po (SubAck_self SubAck_default) h = Some (map_ok SubAck_self (SubAck_new_with_fixed_header h))"
  by (rule new_with_fixed_header_is [OF assms, where upd = "\<lambda>h. SubAck_default\<lparr>sa_fixed_header := h\<rparr>"])
    (simp_all add: PacketType_names_def SubAck_new_with_fixed_header_def SubAck_self_def)

lemma UnsubAck_new_with_fixed_header_expanded:
  assumes "packet_as ''UnsubAck'' UnsubAck_decl = Ok (Expanded po)"
  shows "run_new_with_fixed_header po (UnsubAck_self UnsubAck_default) h = Some (map_ok UnsubAck_self (UnsubAck_new_with_fixed_header h))"
  by (rule new_with_fixed_header_is [OF assms, where upd = "\<lambda>h. UnsubAck_default\<lparr>ua_fixed_header := h\<rparr>"])
    (simp_all add: PacketType_names_def UnsubAck_new_with_fixed_header_def UnsubAck_self_def)

lemma Unsubscribe_new_with_fixed_header_expanded:
  assumes "packet_as ''Unsubscribe'' Unsubscribe_decl = Ok (Expanded po)"
  shows "run_new_with_fixed_header po (Unsubscribe_self Unsubscribe_default) h = Some (map_ok Unsubscribe_self (Unsubscribe_new_with_fixed_header h))"
  by (rule new_with_fixed_header_is [OF assms, where upd = "\<lambda>h. Unsubscribe_default\<lparr>us_fixed_header := h\<rparr>"])
    (simp_all add: PacketType_names_def Unsubscribe_new_with_fixed_header_def Unsubscribe_self_def)

lemma Subscribe_new_with_fixed_header_expanded:
  assumes "packet_as ''Subscribe'' Subscribe_decl = Ok (Expanded po)"
  shows "run_new_with_fixed_header po (Subscribe_self Subscribe_default) h = Some (map_ok Subscribe_self (Subscribe_new_with_fixed_header h))"
  by (rule new_with_fixed_header_is [OF assms, where upd = "\<lambda>h. Subscribe_default\<lparr>su_fixed_header := h\<rparr>"])
    (simp_all add: PacketType_names_def Subscribe_new_with_fixed_header_def Subscribe_self_def)

lemma Publish_new_with_fixed_header_expanded:
  assumes "packet_as ''Publish'' Publish_decl = Ok (Expanded po)"
  shows "run_new_with_fixed_header po (Publish_self Publish_default) h = Some (map_ok Publish_self (Publish_new_with_fixed_header h))"
  by (rule new_with_fixed_header_is [OF assms, where upd = "\<lambda>h. Publish_default\<lparr>pu_fixed_header := h\<rparr>"])
    (simp_all add: PacketType_names_def Publish_new_with_fixed_header_def Publish_self_def)

lemma Connect_new_with_fixed_header_expanded:
  assumes "packet_as ''Connect'' Connect_decl = Ok (Expanded po)"
  shows "run_new_with_fixed_header po (Connect_self (Connect_new uuid)) h = Some (map_ok Connect_self (Connect_new_with_fixed_header uuid h))"
  by (rule new_with_fixed_header_is [OF assms, where upd = "\<lambda>h. (Connect_new uuid)\<lparr>co_fixed_header := h\<rparr>"])
    (simp_all add: PacketType_names_def Connect_new_with_fixed_header_def Connect_self_def)

end
