(* ===== verification/Macro_Generic.thy ===== *)
theory Macro_Generic
  imports Macro_Packet "HOL-Library.Multiset"
begin

text \<open>
  Facts about the macros that hold beyond the packets of \<open>vaux-mqtt\<close>: every field of a declaration is
  encoded exactly once, and a packet declared from the field shapes listed below announces exactly the bytes
  that follow. The shapes are a part of what the macros accept: payload fields, structs with
  \<open>abbreviated_when\<close> and functions named by \<open>encode_with\<close> other than the one for variable byte integers are
  not among them. The last section has declarations the macros accept and frame wrongly.
\<close>

section \<open>Every field is encoded once\<close>

abbreviation property_field :: "syn_field \<Rightarrow> bool" where
  "property_field f \<equiv> unwrap_or (is_property_field (fld_attrs f)) False"

abbreviation payload_field :: "syn_field \<Rightarrow> bool" where
  "payload_field f \<equiv> unwrap_or (is_payload_field (fld_attrs f)) False"

abbreviation non_abbreviated_field :: "syn_field \<Rightarrow> bool" where
  "non_abbreviated_field f \<equiv> unwrap_or (is_non_abbreviated_field (fld_attrs f)) False"

lemma field_groups_partition:
  assumes "\<forall>f \<in> set fs. \<not> (property_field f \<and> payload_field f)"
  shows "mset fs = mset (filter (\<lambda>f. \<not> property_field f \<and> \<not> payload_field f \<and> \<not> non_abbreviated_field f) fs)
    + mset (filter (\<lambda>f. \<not> property_field f \<and> \<not> payload_field f \<and> non_abbreviated_field f) fs)
    + mset (filter property_field fs) + mset (filter payload_field fs)"
  using assms by (induction fs) auto

lemma has_property_iff:
  "struct_has_attribute_with_name_value fs CODEC_ATTR CODEC_ATTR_PROPERTY_TYPE_ARG \<longleftrightarrow> (\<exists>f \<in> set fs. property_field f)"
  "struct_has_attribute_with_name_value fs CODEC_ATTR CODEC_ATTR_PAYLOAD_ARG \<longleftrightarrow> (\<exists>f \<in> set fs. payload_field f)"
proof -
  have "m = Ok True \<longleftrightarrow> unwrap_or m False" for m :: "bool syn_result" by (cases m) auto
  then show
    "struct_has_attribute_with_name_value fs CODEC_ATTR CODEC_ATTR_PROPERTY_TYPE_ARG \<longleftrightarrow> (\<exists>f \<in> set fs. property_field f)"
    "struct_has_attribute_with_name_value fs CODEC_ATTR CODEC_ATTR_PAYLOAD_ARG \<longleftrightarrow> (\<exists>f \<in> set fs. payload_field f)"
    by (simp_all add: struct_has_attribute_with_name_value_iff is_property_field_def is_payload_field_def)
qed

text \<open>
  The code of a field depends on the field alone (\<open>encode_field_skip_if\<close>); the groups are the fields of the
  declaration in their order, selected by their attributes.
\<close>

lemma fields_encoded_in_order:
  assumes "encode_internal_tokens input as_packet = Ok (Expanded ei)" and "property_encode_tokens input = Ok (Expanded pe)"
  defines "fs \<equiv> named_fields (it_fields input)"
  shows "each_res encode_field_skip_if (filter (\<lambda>f. \<not> property_field f \<and> \<not> payload_field f \<and> \<not> non_abbreviated_field f) fs) =
      Ok (ei_header_fields ei)"
    and "each_res encode_field_skip_if (filter (\<lambda>f. \<not> property_field f \<and> \<not> payload_field f \<and> non_abbreviated_field f) fs) =
      Ok (ei_non_abbreviated_header_fields ei)"
    and "each_res encode_field_skip_if (filter payload_field fs) = Ok (ei_payload_fields ei)"
    and "if \<exists>f \<in> set fs. property_field f
      then \<exists>codes. pe = [E_Property_Length] # codes \<and> each_res encode_field_skip_if (filter property_field fs) = Ok codes
      else pe = []"
proof -
  show "each_res encode_field_skip_if (filter (\<lambda>f. \<not> property_field f \<and> \<not> payload_field f \<and> \<not> non_abbreviated_field f) fs) =
      Ok (ei_header_fields ei)"
    and "each_res encode_field_skip_if (filter (\<lambda>f. \<not> property_field f \<and> \<not> payload_field f \<and> non_abbreviated_field f) fs) =
      Ok (ei_non_abbreviated_header_fields ei)"
    using assms(1)
    by (auto simp: encode_internal_tokens_def Let_def fs_def is_header_field_def is_abbreviated_out_def conj_ac split: if_splits)
  show "each_res encode_field_skip_if (filter payload_field fs) = Ok (ei_payload_fields ei)"
    using assms(1) by (cases "\<exists>f \<in> set fs. payload_field f")
      (auto simp: encode_internal_tokens_def has_property_iff Let_def filter_empty_conv fs_def split: if_splits)
  show "if \<exists>f \<in> set fs. property_field f
      then \<exists>codes. pe = [E_Property_Length] # codes \<and> each_res encode_field_skip_if (filter property_field fs) = Ok codes
      else pe = []"
    using assms(2) by (auto simp: property_encode_tokens_def has_property_iff Let_def fs_def split: if_splits)
qed

section \<open>Field shapes\<close>

text \<open>
  A field, with its value, of one of the types: \<open>u8\<close>, \<open>u16\<close>, \<open>u32\<close>, \<open>bool\<close> and \<open>String\<close>, plain or in an
  \<open>Option\<close>; \<open>Reason\<close>, plain, in an \<open>Option\<close> or in a \<open>Vec\<close>; \<open>QoSLevel\<close> and \<open>PayloadFormat\<close> in an \<open>Option\<close>; user
  properties; \<open>Vec<String>\<close>; a variable byte integer (an \<open>Option<u32>\<close> with the functions for it named in
  the attribute); and \<open>Vec<u8>\<close>, with \<open>skip_if\<close> (\<open>Sh_bytes\<close>) or without (\<open>Sh_plain_bytes\<close>).
\<close>

datatype shape =
    Sh_u8 u8 | Sh_u16 u16 | Sh_u32 u32 | Sh_bool bool | Sh_String string | Sh_Reason Reason | Sh_UserProperty UserProperty
  | Sh_opt_u8 "u8 option" | Sh_opt_u16 "u16 option" | Sh_opt_u32 "u32 option" | Sh_opt_bool "bool option"
  | Sh_opt_String "string option" | Sh_opt_Reason "Reason option" | Sh_opt_QoSLevel "QoSLevel option"
  | Sh_opt_PayloadFormat "PayloadFormat option" | Sh_opt_vbi "u32 option"
  | Sh_Reasons "Reason list" | Sh_Strings "string list" | Sh_bytes bytes | Sh_plain_bytes bytes

fun shape_ty :: "shape \<Rightarrow> ty" where
  "shape_ty (Sh_u8 _) = ty_names [''u8'']"
| "shape_ty (Sh_u16 _) = ty_names [''u16'']"
| "shape_ty (Sh_u32 _) = ty_names [''u32'']"
| "shape_ty (Sh_bool _) = ty_names [''bool'']"
| "shape_ty (Sh_String _) = ty_names [''String'']"
| "shape_ty (Sh_Reason _) = ty_names [''Reason'']"
| "shape_ty (Sh_UserProperty _) = ty_names [''UserProperty'']"
| "shape_ty (Sh_opt_u8 _) = ty_app ''Option'' (ty_names [''u8''])"
| "shape_ty (Sh_opt_u16 _) = ty_app ''Option'' (ty_names [''u16''])"
| "shape_ty (Sh_opt_u32 _) = ty_app ''Option'' (ty_names [''u32''])"
| "shape_ty (Sh_opt_bool _) = ty_app ''Option'' (ty_names [''bool''])"
| "shape_ty (Sh_opt_String _) = ty_app ''Option'' (ty_names [''String''])"
| "shape_ty (Sh_opt_Reason _) = ty_app ''Option'' (ty_names [''Reason''])"
| "shape_ty (Sh_opt_QoSLevel _) = ty_app ''Option'' (ty_names [''QoSLevel''])"
| "shape_ty (Sh_opt_PayloadFormat _) = ty_app ''Option'' (ty_names [''PayloadFormat''])"
| "shape_ty (Sh_opt_vbi _) = ty_app ''Option'' (ty_names [''u32''])"
| "shape_ty (Sh_Reasons _) = ty_app ''Vec'' (ty_names [''Reason''])"
| "shape_ty (Sh_Strings _) = ty_app ''Vec'' (ty_names [''String''])"
| "shape_ty (Sh_bytes _) = ty_app ''Vec'' (ty_names [''u8''])"
| "shape_ty (Sh_plain_bytes _) = ty_app ''Vec'' (ty_names [''u8''])"

fun shape_val :: "shape \<Rightarrow> val" where
  "shape_val (Sh_u8 a) = V_u8 a"
| "shape_val (Sh_u16 b) = V_u16 b"
| "shape_val (Sh_u32 c) = V_u32 c"
| "shape_val (Sh_bool d) = V_bool d"
| "shape_val (Sh_String s) = V_String s"
| "shape_val (Sh_Reason r) = V_Reason r"
| "shape_val (Sh_UserProperty u) = V_UserProperty u"
| "shape_val (Sh_opt_u8 a) = V_Option (map_option V_u8 a)"
| "shape_val (Sh_opt_u16 b) = V_Option (map_option V_u16 b)"
| "shape_val (Sh_opt_u32 c) = V_Option (map_option V_u32 c)"
| "shape_val (Sh_opt_bool d) = V_Option (map_option V_bool d)"
| "shape_val (Sh_opt_String s) = V_Option (map_option V_String s)"
| "shape_val (Sh_opt_Reason r) = V_Option (map_option V_Reason r)"
| "shape_val (Sh_opt_QoSLevel q) = V_Option (map_option V_QoSLevel q)"
| "shape_val (Sh_opt_PayloadFormat pf) = V_Option (map_option V_PayloadFormat pf)"
| "shape_val (Sh_opt_vbi c) = V_Option (map_option V_u32 c)"
| "shape_val (Sh_Reasons rs) = V_Vec (map V_Reason rs)"
| "shape_val (Sh_Strings ss) = V_Vec (map V_String ss)"
| "shape_val (Sh_bytes d) = V_bytes d"
| "shape_val (Sh_plain_bytes d) = V_bytes d"

text \<open>
  The attributes: \<open>property_type\<close> for a property, \<open>skip_if = "Vec::is_empty"\<close> on a byte vector that may be
  empty, \<open>encode_with\<close> and \<open>size_with\<close> on a variable byte integer.
\<close>

fun shape_attrs :: "shape \<Rightarrow> ident option \<Rightarrow> attribute list" where
  "shape_attrs (Sh_bytes _) None = [codec [arg ''skip_if'' [''Vec'', ''is_empty'']]]"
| "shape_attrs (Sh_bytes _) (Some v) =
    [codec [arg ''skip_if'' [''Vec'', ''is_empty''], arg ''property_type'' [''PropertyType'', v]]]"
| "shape_attrs (Sh_opt_vbi _) None = []"
| "shape_attrs (Sh_opt_vbi _) (Some v) =
    [property v, codec [arg ''size_with'' [''codec'', ''codec_size_opt_variable_byte_int_ref''],
      arg ''encode_with'' [''codec'', ''encode_opt_variable_byte_int_ref'']]]"
| "shape_attrs _ None = []"
| "shape_attrs _ (Some v) = [property v]"

text \<open>
  User properties, QoS levels, payload formats and variable byte integers are only properties; reason codes and
  vectors of them or of strings never are. A variable byte integer is below the limit of four bytes, and a byte
  vector without \<open>skip_if\<close> is not empty: for an empty one the announced length is wrong, below.
\<close>

fun shape_ok :: "shape \<Rightarrow> ident option \<Rightarrow> bool" where
  "shape_ok sh pname \<longleftrightarrow> pred_option (\<lambda>v. map_of PropertyType_names v \<noteq> None) pname \<and>
    (case sh of
       Sh_UserProperty _ \<Rightarrow> pname \<noteq> None
     | Sh_opt_QoSLevel _ \<Rightarrow> pname \<noteq> None
     | Sh_opt_PayloadFormat _ \<Rightarrow> pname \<noteq> None
     | Sh_opt_vbi c \<Rightarrow> pname \<noteq> None \<and> vbi_in_range c
     | Sh_Reason _ \<Rightarrow> pname = None
     | Sh_opt_Reason _ \<Rightarrow> pname = None
     | Sh_Reasons _ \<Rightarrow> pname = None
     | Sh_Strings _ \<Rightarrow> pname = None
     | Sh_plain_bytes d \<Rightarrow> d \<noteq> []
     | _ \<Rightarrow> True)"

type_synonym shaped = "ident \<times> shape \<times> ident option"

definition shaped_field :: "shaped \<Rightarrow> syn_field" where
  "shaped_field = (\<lambda>(f, sh, pname). declare_field (shape_attrs sh pname) Vis_Public f (shape_ty sh))"

definition shaped_self :: "shaped list \<Rightarrow> self" where
  "shaped_self fs = map (\<lambda>(f, sh, pname). (f, shape_val sh)) fs"

lemma sized_prim_property: "sized (encode_for_primitive (Some p) v) (1 + prim_size v)"
  by (auto simp: sized_def encode_for_primitive_def length_prop_ident)

lemma exec_primitive_more:
  "map_of self f = Some (V_u32 c) \<Longrightarrow> resolved pt = Some q \<Longrightarrow>
    exec_encs self ps (encode_for_primitive_tokens f ''u32'' False pt) = Some (encode_for_primitive q (Prim_u32 c))"
  "map_of self f = Some (V_bool d) \<Longrightarrow> resolved pt = Some q \<Longrightarrow>
    exec_encs self ps (encode_for_primitive_tokens f ''bool'' False pt) = Some (encode_for_primitive q (Prim_bool d))"
  "map_of self f = Some (V_Option (map_option V_u8 a)) \<Longrightarrow> resolved pt = Some q \<Longrightarrow>
    exec_encs self ps (encode_for_primitive_tokens f ''u8'' True pt) = Some (encode_for_primitive_opt q (map_option Prim_u8 a))"
proof -
  show "map_of self f = Some (V_Option (map_option V_u8 a)) \<Longrightarrow> resolved pt = Some q \<Longrightarrow>
    exec_encs self ps (encode_for_primitive_tokens f ''u8'' True pt) = Some (encode_for_primitive_opt q (map_option Prim_u8 a))"
    by (rule exec_primitive_opt) (auto simp: option.map_comp comp_def)
qed (use exec_primitive [of self f "Prim_u32 c" pt q ps] exec_primitive [of self f "Prim_bool d" pt q ps] in simp_all)

lemma exec_size_primitive_more:
  "exec_sizes self Acc_total_size (size_for_primitive_internal ''u32'') = Some 4"
  "exec_sizes self Acc_total_size (size_for_primitive_internal ''bool'') = Some 1"
  "exec_sizes self Acc_property_size (size_for_primitive_property_tokens f ''u8'' False) = Some 2"
  "exec_sizes self Acc_property_size (size_for_primitive_property_tokens f ''u16'' False) = Some 3"
  "exec_sizes self Acc_property_size (size_for_primitive_property_tokens f ''u32'' False) = Some 5"
  "exec_sizes self Acc_property_size (size_for_primitive_property_tokens f ''bool'' False) = Some 2"
  by (simp_all add: exec_sizes_def size_for_primitive_property_tokens_def size_for_primitive_internal_def primitive_width_def)

lemma exec_size_primitive_opt_more:
  "map_of self f = Some (V_Option (map_option V_u8 a)) \<Longrightarrow> exec_sizes self Acc_property_size
    (size_for_primitive_property_tokens f ''u8'' True) = Some (size_for_primitive_property_opt (map_option Prim_u8 a))"
  "map_of self f = Some (V_Option (map_option V_u8 a)) \<Longrightarrow> exec_sizes self Acc_total_size
    (size_for_primitive_optional_tokens f ''u8'') = Some (size_for_primitive_optional (map_option Prim_u8 a))"
  "map_of self f = Some (V_Option (map_option V_u32 c)) \<Longrightarrow> exec_sizes self Acc_total_size
    (size_for_primitive_optional_tokens f ''u32'') = Some (size_for_primitive_optional (map_option Prim_u32 c))"
  "map_of self f = Some (V_Option (map_option V_bool d)) \<Longrightarrow> exec_sizes self Acc_total_size
    (size_for_primitive_optional_tokens f ''bool'') = Some (size_for_primitive_optional (map_option Prim_bool d))"
  by (rule exec_size_primitive_opt, auto simp: option.map_comp comp_def)+

lemma size_compiles_primitive:
  "size_compiles (size_for_primitive_optional_tokens f ''u8'')" "size_compiles (size_for_primitive_optional_tokens f ''u16'')"
  "size_compiles (size_for_primitive_optional_tokens f ''u32'')" "size_compiles (size_for_primitive_optional_tokens f ''bool'')"
  "size_compiles (size_for_primitive_internal ''u8'')" "size_compiles (size_for_primitive_internal ''u16'')"
  "size_compiles (size_for_primitive_internal ''u32'')" "size_compiles (size_for_primitive_internal ''bool'')"
  "size_compiles (size_for_primitive_property_tokens f ''u8'' opt)" "size_compiles (size_for_primitive_property_tokens f ''u16'' opt)"
  "size_compiles (size_for_primitive_property_tokens f ''u32'' opt)" "size_compiles (size_for_primitive_property_tokens f ''bool'' opt)"
  by (simp_all add: size_compiles_def size_for_primitive_optional_tokens_def size_for_primitive_internal_def
      size_for_primitive_property_tokens_def primitive_width_def Let_def)

lemma sized_plain_bytes:
  "d \<noteq> [] \<Longrightarrow> sized (encode_for_vec_u8 (Some p) d) (size_for_vec_u8 True d)"
  "d \<noteq> [] \<Longrightarrow> sized (encode_for_vec_u8 None d) (size_for_vec_u8 False d)"
  using sized_vec_u8 [of d] by (simp_all add: skip_if_def skip_if_size_def)

lemmas shape_simps = exec_primitive_more exec_size_primitive_more exec_size_primitive_opt_more size_compiles_primitive
  sized_plain_bytes sized_vec [OF sized_reason] sized_vec [OF sized_encode_string]
  sized_prim [of "Prim_u8 a" for a, simplified] sized_prim [of "Prim_u16 a" for a, simplified]
  sized_prim [of "Prim_u32 a" for a, simplified] sized_prim [of "Prim_bool a" for a, simplified]
  sized_prim_property [where v = "Prim_u8 a" for a, simplified] sized_prim_property [where v = "Prim_u16 a" for a, simplified]
  sized_prim_property [where v = "Prim_u32 a" for a, simplified] sized_prim_property [where v = "Prim_bool a" for a, simplified]

text \<open>What the macros emit for a field of one of the shapes compiles and has the size it is given.\<close>

definition emits_sized :: "self \<Rightarrow> u32 \<Rightarrow> shaped \<Rightarrow> bool" where
  "emits_sized self ps x \<longleftrightarrow> (\<exists>toks m stmts n.
    encode_field_skip_if (shaped_field x) = Ok toks \<and> enc_compiles toks \<and> exec_encs self ps toks = Some m \<and>
    field_size_skip_if (shaped_field x) = Ok stmts \<and> size_compiles stmts \<and>
    exec_sizes self (if snd (snd x) = None then Acc_total_size else Acc_property_size) stmts = Some n \<and> sized m n)"

lemma shape_emits_sized:
  assumes "shape_ok sh pname" and "map_of self f = Some (shape_val sh)"
  shows "emits_sized self ps (f, sh, pname)"
proof (cases pname)
  case None
  with assms show ?thesis
    by (cases sh) (simp_all add: emits_sized_def shaped_field_def expand_defs exec_simps shape_simps)
next
  case (Some v)
  with assms obtain pt where "map_of PropertyType_names v = Some pt" by auto
  with Some assms show ?thesis
    by (cases sh) (simp_all add: emits_sized_def shaped_field_def expand_defs exec_simps shape_simps)
qed

section \<open>Packets of these shapes\<close>

definition shaped_decl :: "shaped list \<Rightarrow> item_struct" where
  "shaped_decl fs = \<lparr>it_attrs = [], it_vis = Vis_Public, it_ident = ''Packet'',
    it_fields = Fields_Named (map shaped_field fs)\<rparr>"

lemma shaped_decl_simps:
  "it_attrs (shaped_decl fs) = []" "it_fields (shaped_decl fs) = Fields_Named (map shaped_field fs)"
  by (simp_all add: shaped_decl_def)

definition is_prop :: "shaped \<Rightarrow> bool" where
  "is_prop x \<longleftrightarrow> snd (snd x) \<noteq> None"

lemma shaped_groups:
  "is_property_field (fld_attrs (shaped_field x)) = Ok (is_prop x)"
  "is_payload_field (fld_attrs (shaped_field x)) = Ok False"
  "is_non_abbreviated_field (fld_attrs (shaped_field x)) = Ok False"
  by (cases x; cases "fst (snd x)"; cases "snd (snd x)"; auto simp: shaped_field_def expand_defs is_prop_def)+

lemma shaped_filters:
  "filter property_field (map shaped_field fs) = map shaped_field (filter is_prop fs)"
  "filter is_header_field (map shaped_field fs) = map shaped_field (filter (\<lambda>x. \<not> is_prop x) fs)"
  "filter (\<lambda>f. \<not> property_field f) (map shaped_field fs) = map shaped_field (filter (\<lambda>x. \<not> is_prop x) fs)"
  "filter payload_field (map shaped_field fs) = []"
  "filter is_abbreviated_out (map shaped_field fs) = []"
  "filter (\<lambda>f. \<not> is_abbreviated_out f) (map shaped_field fs) = map shaped_field fs"
  by (simp_all add: filter_map comp_def is_header_field_def is_abbreviated_out_def shaped_groups)

lemma emits_sized_list:
  assumes "\<forall>x \<in> set xs. emits_sized self ps x" and "\<forall>x \<in> set xs. is_prop x \<longleftrightarrow> acc = Acc_property_size"
  shows "\<exists>tokss ms stmtss ns.
    each_res encode_field_skip_if (map shaped_field xs) = Ok tokss \<and> exec_enc_fields self ps tokss = Some ms \<and>
    each_res field_size_skip_if (map shaped_field xs) = Ok stmtss \<and> list_all size_compiles stmtss \<and>
    those (map (exec_sizes self acc) stmtss) = Some ns \<and> list_all2 sized ms ns"
  using assms
proof (induction xs)
  case Nil
  then show ?case by (simp add: exec_enc_fields_def)
next
  case (Cons x xs)
  then have "\<forall>x \<in> set xs. emits_sized self ps x" "\<forall>x \<in> set xs. is_prop x \<longleftrightarrow> acc = Acc_property_size"
    by simp_all
  from Cons.IH [OF this] obtain tokss ms stmtss ns where ih:
    "each_res encode_field_skip_if (map shaped_field xs) = Ok tokss" "exec_enc_fields self ps tokss = Some ms"
    "each_res field_size_skip_if (map shaped_field xs) = Ok stmtss" "list_all size_compiles stmtss"
    "those (map (exec_sizes self acc) stmtss) = Some ns" "list_all2 sized ms ns"
    by blast
  have "(if snd (snd x) = None then Acc_total_size else Acc_property_size) = acc"
    using Cons.prems(2) by (cases acc) (auto simp: is_prop_def)
  note acc = this
  have "emits_sized self ps x" using Cons.prems(1) by simp
  then obtain toks m stmts n where x:
    "encode_field_skip_if (shaped_field x) = Ok toks" "enc_compiles toks" "exec_encs self ps toks = Some m"
    "field_size_skip_if (shaped_field x) = Ok stmts" "size_compiles stmts" "exec_sizes self acc stmts = Some n" "sized m n"
    unfolding emits_sized_def acc by blast
  from ih(2) have "list_all enc_compiles tokss" "those (map (exec_encs self ps) tokss) = Some ms"
    by (simp_all add: exec_enc_fields_def split: if_splits)
  with ih x show ?case
    by (intro exI [of _ "toks # tokss"] exI [of _ "m # ms"] exI [of _ "stmts # stmtss"] exI [of _ "n # ns"])
      (simp add: exec_enc_fields_def)
qed

lemma shaped_self_lookup:
  assumes "distinct (''fixed_header'' # map fst fs)" and "(f, sh, pname) \<in> set fs"
  shows "map_of ((''fixed_header'', V_FixedHeader h) # shaped_self fs) f = Some (shape_val sh)"
proof -
  have "distinct (map fst (shaped_self fs))"
    using assms(1) by (simp add: shaped_self_def comp_def case_prod_beta)
  moreover have "(f, shape_val sh) \<in> set (shaped_self fs)"
    using assms(2) by (force simp: shaped_self_def)
  moreover have "f \<noteq> ''fixed_header''" using assms by (auto simp: rev_image_eqI)
  ultimately show ?thesis by simp
qed

lemma abbreviated_when_Nil: "abbreviated_when_expr [] = Ok None"
  by (simp add: abbreviated_when_expr_def codec_find_map_def)

lemma shaped_has:
  "struct_has_attribute_with_name_value (map shaped_field fs) CODEC_ATTR CODEC_ATTR_PROPERTY_TYPE_ARG \<longleftrightarrow> (\<exists>x \<in> set fs. is_prop x)"
  "\<not> struct_has_attribute_with_name_value (map shaped_field fs) CODEC_ATTR CODEC_ATTR_PAYLOAD_ARG"
  by (simp_all add: has_property_iff shaped_groups)

text \<open>The properties: their length, and what is written, which has that length.\<close>

lemma shaped_properties:
  assumes emits: "\<And>p x. x \<in> set fs \<Longrightarrow> emits_sized self p x"
  obtains pms pns where "run_property_size (shaped_decl fs) self = Some (sum_list pns)" "list_all2 sized pms pns"
    "\<exists>x \<in> set fs. is_prop x \<Longrightarrow> run_property_encode (shaped_decl fs) self = Some (property_encode_internal (sum_list pns) pms)"
proof -
  have px: "\<And>p. \<forall>x \<in> set (filter is_prop fs). emits_sized self p x"
    "\<forall>x \<in> set (filter is_prop fs). is_prop x \<longleftrightarrow> Acc_property_size = Acc_property_size"
    using emits by simp_all
  obtain pstmts pns where pz:
    "each_res field_size_skip_if (map shaped_field (filter is_prop fs)) = Ok pstmts" "list_all size_compiles pstmts"
    "those (map (exec_sizes self Acc_property_size) pstmts) = Some pns"
    using emits_sized_list [OF px] by blast
  obtain ptoks pms pstmts' pns' where pe:
    "each_res encode_field_skip_if (map shaped_field (filter is_prop fs)) = Ok ptoks" "exec_enc_fields self (sum_list pns) ptoks = Some pms"
    "each_res field_size_skip_if (map shaped_field (filter is_prop fs)) = Ok pstmts'"
    "those (map (exec_sizes self Acc_property_size) pstmts') = Some pns'" "list_all2 sized pms pns'"
    using emits_sized_list [OF px, of "sum_list pns"] by blast
  have size: "run_property_size (shaped_decl fs) self = Some (sum_list pns)"
    using pz
    by (simp add: run_property_size_def shaped_decl_def codec_property_size_tokens_def add_all_def flip: is_property_field_def)
      (simp add: filter_map comp_def shaped_groups add_all_def)
  have "run_property_encode (shaped_decl fs) self = Some (property_encode_internal (sum_list pns) pms)" if "\<exists>x \<in> set fs. is_prop x"
    using pe(1,2) size that
    by (simp add: run_property_encode_def property_encode_tokens_def shaped_decl_simps Let_def shaped_filters shaped_has
        exec_enc_fields_def property_encode_internal_def enc_compiles_simps exec_property_length split: if_splits)
  moreover have "pns' = pns" using pe(3,4) pz by simp
  ultimately show ?thesis using that [of pns pms] size pe(5) by simp
qed

text \<open>What the two lists of fields give is framed.\<close>

lemma shaped_framed:
  assumes hms: "list_all2 sized hms hns" and pms: "list_all2 sized pms pns" and ps: "unat (sum_list pns) < 268435456"
    and n: "n = (if hp then derive_codec_size hns False [] (sum_list pns) else sum_list hns)"
    and ok: "encode_internal (Some (h, n)) hms False [] (if hp then [property_encode_internal (sum_list pns) pms] else []) [] = Ok bs"
  shows "\<exists>body. bs = header_byte h # vbi_bytes n @ body \<and> n = of_nat (length body)"
proof (cases hp)
  case True
  show ?thesis
    by (rule packet_sized [of h n hms False "[]" "sum_list pns" pms "[]" bs hns "[]"])
      (use assms True sized_seq in auto)
next
  case False
  from sized_seq [OF hms] ok False n show ?thesis
    by (auto simp: encode_internal_def FixedHeader_encode_eq encode_variable_byte_int_def dest: sizedD)
qed

text \<open>The length announced in the header is the length of what follows.\<close>

lemma shaped_packet_framed:
  fixes fs :: "shaped list" and h :: FixedHeader
  assumes names: "distinct (''fixed_header'' # map fst fs)" and shapes: "\<forall>(f, sh, pname) \<in> set fs. shape_ok sh pname"
  defines "self \<equiv> (''fixed_header'', V_FixedHeader h) # shaped_self fs"
  shows "\<exists>ps n m. run_property_size (shaped_decl fs) self = Some ps \<and>
    run_codec_size (shaped_decl fs) eval self = Some n \<and> run_encode (shaped_decl fs) True eval self = Some m \<and>
    (unat ps < 268435456 \<longrightarrow> (\<forall>bs. m = Ok bs \<longrightarrow>
      (\<exists>body. bs = header_byte h # vbi_bytes n @ body \<and> n = of_nat (length body))))"
proof -
  let ?hp = "\<exists>x \<in> set fs. is_prop x" and ?header = "filter (\<lambda>x. \<not> is_prop x) fs"
  have emits: "emits_sized self p x" if "x \<in> set fs" for x p
    using shape_emits_sized [where self = self] shaped_self_lookup [OF names] shapes that
    by (cases x) (auto simp: self_def)
  then have hx: "\<forall>x \<in> set ?header. emits_sized self 0 x"
    "\<forall>x \<in> set ?header. is_prop x \<longleftrightarrow> Acc_total_size = Acc_property_size" by simp_all
  obtain htoks hms hstmts hns where hd:
    "each_res encode_field_skip_if (map shaped_field ?header) = Ok htoks" "exec_enc_fields self 0 htoks = Some hms"
    "each_res field_size_skip_if (map shaped_field ?header) = Ok hstmts" "list_all size_compiles hstmts"
    "those (map (exec_sizes self Acc_total_size) hstmts) = Some hns" "list_all2 sized hms hns"
    using emits_sized_list [OF hx] by blast
  obtain pms pns where pr: "run_property_size (shaped_decl fs) self = Some (sum_list pns)" "list_all2 sized pms pns"
    "?hp \<Longrightarrow> run_property_encode (shaped_decl fs) self = Some (property_encode_internal (sum_list pns) pms)"
    using shaped_properties [OF emits] by blast
  define n where "n = (if ?hp then derive_codec_size hns False [] (sum_list pns) else sum_list hns)"
  have codec: "run_codec_size (shaped_decl fs) eval self = Some n"
    using hd(3-5) pr(1)
    by (simp add: run_codec_size_def codec_size_tokens_def shaped_decl_simps n_def eval_check_def abbreviated_when_Nil
        Let_def shaped_filters shaped_has del: filter_filter flip: is_property_field_def)
  moreover have "run_encode (shaped_decl fs) True eval self =
      Some (encode_internal (Some (h, n)) hms False [] (if ?hp then [property_encode_internal (sum_list pns) pms] else []) [])"
    using hd(1,2) pr(3) codec
    by (simp add: run_encode_def encode_internal_tokens_def shaped_decl_simps Let_def shaped_filters shaped_has
        abbreviated_when_Nil eval_check_def self_def exec_enc_fields_def del: filter_filter)
  ultimately show ?thesis using pr(1) shaped_framed [OF hd(6) pr(2) _ n_def] by blast
qed

section \<open>Declarations that are framed wrongly\<close>

text \<open>
  \<open>derive_codec_size\<close> emits the \<open>abbreviated_when\<close> check only for a struct with properties,
  \<open>encode_internal\<close> always: without properties the size counts fields that are not written.
\<close>

definition abbreviated_decl :: item_struct where
  "abbreviated_decl = \<lparr>it_attrs = [codec [expr_arg ''abbreviated_when'' ''self.a == 0'']], it_vis = Vis_Public,
    it_ident = ''Packet'', it_fields = Fields_Named
      [declare_field [] Vis_Public ''a'' (ty_names [''u8'']),
       declare_field [codec [flag ''non_abbreviated'']] Vis_Public ''b'' (ty_names [''u8''])]\<rparr>"

lemma abbreviation_needs_properties:
  fixes a b :: u8 and h :: FixedHeader
  defines "self \<equiv> [(''fixed_header'', V_FixedHeader h), (''a'', V_u8 a), (''b'', V_u8 b)]"
  shows "run_codec_size abbreviated_decl (\<lambda>_. Some True) self = Some 2"
    and "run_encode abbreviated_decl True (\<lambda>_. Some True) self = Some (Ok (header_byte h # vbi_bytes 2 @ [a]))"
proof -
  show size: "run_codec_size abbreviated_decl (\<lambda>_. Some True) self = Some 2"
    by (simp add: abbreviated_decl_def self_def run_codec_size_def expand_defs exec_simps eval_check_def)
  show "run_encode abbreviated_decl True (\<lambda>_. Some True) self = Some (Ok (header_byte h # vbi_bytes 2 @ [a]))"
    using size
    by (simp add: abbreviated_decl_def run_encode_def)
      (simp add: self_def exec_enc_fields_def expand_defs exec_simps eval_check_def encode_internal_def
        FixedHeader_encode_eq encode_variable_byte_int_def encode_for_primitive_def prop_ident_encode_def put_u8_def)
qed

text \<open>
  An empty byte vector is given no size, but is written with its two length bytes; the packets avoid
  it with \<open>skip_if\<close>.
\<close>

definition bytes_decl :: item_struct where
  "bytes_decl = \<lparr>it_attrs = [], it_vis = Vis_Public, it_ident = ''Packet'',
    it_fields = Fields_Named [declare_field [] Vis_Public ''data'' (ty_app ''Vec'' (ty_names [''u8'']))]\<rparr>"

lemma empty_bytes_need_skip_if:
  fixes h :: FixedHeader
  defines "self \<equiv> [(''fixed_header'', V_FixedHeader h), (''data'', V_bytes [])]"
  shows "run_codec_size bytes_decl eval self = Some 0"
    and "run_encode bytes_decl True eval self = Some (Ok (header_byte h # vbi_bytes 0 @ [0, 0]))"
proof -
  show size: "run_codec_size bytes_decl eval self = Some 0"
    by (simp add: bytes_decl_def self_def run_codec_size_def expand_defs exec_simps eval_check_def size_for_vec_u8_def)
  show "run_encode bytes_decl True eval self = Some (Ok (header_byte h # vbi_bytes 0 @ [0, 0]))"
    using size
    by (simp add: bytes_decl_def run_encode_def)
      (simp add: self_def exec_enc_fields_def expand_defs exec_simps eval_check_def encode_internal_def
        FixedHeader_encode_eq encode_variable_byte_int_def encode_for_vec_u8_def prop_ident_encode_def
        encode_array_field_def put_u16_def)
qed

end
