(* ===== verification/Macro_Codec.thy ===== *)
theory Macro_Codec
  imports Macro_Generic
begin

text \<open>
  The packets of \<open>Packet_Codec\<close> and the code the macros emit for them, all kinds at once: the
  declaration of a packet's struct, its fields, and that the emitted \<open>encode\<close> and \<open>decode\<close> are the ones
  the packet codec calls.
\<close>

section \<open>The contract of the attribute macro\<close>

text \<open>
  What a packet theory provides for a \<open>#[packet]\<close> struct: the methods of its declaration, run on the
  fields of a packet, are its own definitions.
\<close>

locale packet_macro =
  fixes kind :: ident and input :: item_struct and eval :: "'p \<Rightarrow> expr_text \<Rightarrow> bool option"
    and rep :: "'p \<Rightarrow> self"
    and property_size :: "'p \<Rightarrow> u32" and codec_size :: "'p \<Rightarrow> u32" and encode :: "'p \<Rightarrow> bytes codec_result"
    and property_encode :: "'p \<Rightarrow> bytes codec_result"
  assumes property_size_run: "run_property_size input (rep p) = Some (property_size p)"
    and codec_size_run: "run_codec_size input (eval p) (rep p) = Some (codec_size p)"
    and property_encode_run: "run_property_encode input (rep p) = Some (property_encode p)"
    and encode_run: "run_encode input True (eval p) (rep p) = Some (encode p)"
    and decode_run: "is_skip_decode (it_attrs input) \<or> (\<exists>d. run_decode input (rep p) src = Some d)"
begin

lemma accepted: "\<exists>po. packet_as kind input = Ok (Expanded po)"
  using packet_accepts [OF property_size_run codec_size_run property_encode_run encode_run] decode_run by blast

text \<open>\<open>packet\<close> accepts the declaration, keeps its name, and puts the fixed header first.\<close>

lemma emitted_struct:
  "\<exists>po. packet_as kind input = Ok (Expanded po) \<and> po_struct_name po = it_ident input \<and>
    map fld_ident (po_struct_fields po) = ''fixed_header'' # map fld_ident (named_fields (it_fields input))"
proof -
  obtain po where po: "packet_as kind input = Ok (Expanded po)" using accepted by blast
  then show ?thesis
    using packet_expanded(2,3) [OF po] by (auto simp: fixed_header_field_def declare_field_simps comp_def)
qed

end

interpretation connack_macro: packet_macro "''ConnAck''" ConnAck_decl "\<lambda>_. eval" ConnAck_self
  ConnAck_property_size ConnAck_codec_size ConnAck_encode
  "\<lambda>p. property_encode_internal (ConnAck_property_size p) (ConnAck_property_fields p)" for eval
  by unfold_locales (simp_all add: ConnAck_run_property_size ConnAck_run_codec_size ConnAck_run_property_encode
      ConnAck_run_encode ConnAck_run_decode)

interpretation subscribe_macro: packet_macro "''Subscribe''" Subscribe_decl "\<lambda>_. eval" Subscribe_self
  Subscribe_property_size Subscribe_codec_size Subscribe_encode
  "\<lambda>p. property_encode_internal (Subscribe_property_size p) (Subscribe_property_fields p)" for eval
  by unfold_locales (simp_all add: Subscribe_run_property_size Subscribe_run_codec_size Subscribe_run_property_encode
      Subscribe_run_encode Subscribe_run_decode)

interpretation suback_macro: packet_macro "''SubAck''" SubAck_decl "\<lambda>_. eval" SubAck_self
  SubAck_property_size SubAck_codec_size SubAck_encode
  "\<lambda>p. property_encode_internal (SubAck_property_size p) (SubAck_property_fields p)" for eval
  by unfold_locales (simp_all add: SubAck_run_property_size SubAck_run_codec_size SubAck_run_property_encode
      SubAck_run_encode SubAck_run_decode)

interpretation unsubscribe_macro: packet_macro "''Unsubscribe''" Unsubscribe_decl "\<lambda>_. eval" Unsubscribe_self
  Unsubscribe_property_size Unsubscribe_codec_size Unsubscribe_encode
  "\<lambda>p. property_encode_internal (Unsubscribe_property_size p) (Unsubscribe_property_fields p)" for eval
  by unfold_locales (simp_all add: Unsubscribe_run_property_size Unsubscribe_run_codec_size
      Unsubscribe_run_property_encode Unsubscribe_run_encode Unsubscribe_run_decode)

interpretation unsuback_macro: packet_macro "''UnsubAck''" UnsubAck_decl "\<lambda>_. eval" UnsubAck_self
  UnsubAck_property_size UnsubAck_codec_size UnsubAck_encode
  "\<lambda>p. property_encode_internal (UnsubAck_property_size p) (UnsubAck_property_fields p)" for eval
  by unfold_locales (simp_all add: UnsubAck_run_property_size UnsubAck_run_codec_size UnsubAck_run_property_encode
      UnsubAck_run_encode UnsubAck_run_decode)

lemma skips_decode: "is_skip_decode (it_attrs Connect_decl)" "is_skip_decode (it_attrs Publish_decl)"
  by (simp_all add: Connect_decl_simps Publish_decl_simps expand_defs)

interpretation connect_macro: packet_macro "''Connect''" Connect_decl "\<lambda>_. eval" Connect_self
  Connect_property_size Connect_codec_size Connect_encode
  "\<lambda>p. property_encode_internal (Connect_property_size p) (Connect_property_fields p)" for eval
  by unfold_locales (simp_all add: Connect_run_property_size Connect_run_codec_size Connect_run_property_encode
      Connect_run_encode skips_decode)

interpretation publish_macro: packet_macro "''Publish''" Publish_decl "\<lambda>_. eval" Publish_self
  Publish_property_size Publish_codec_size Publish_encode
  "\<lambda>p. property_encode_internal (Publish_property_size p) (Publish_property_fields p)" for eval
  by unfold_locales (simp_all add: Publish_run_property_size Publish_run_codec_size Publish_run_property_encode
      Publish_run_encode skips_decode)

section \<open>All packets\<close>

primrec Packet_decl :: "Packet \<Rightarrow> item_struct" where
  "Packet_decl (Pkt_PingRequest p) = PingReq_decl"
| "Packet_decl (Pkt_PingResponse p) = PingResp_decl"
| "Packet_decl (Pkt_Connect p) = Connect_decl"
| "Packet_decl (Pkt_ConnAck p) = ConnAck_decl"
| "Packet_decl (Pkt_Publish p) = Publish_decl"
| "Packet_decl (Pkt_PubAck p) = PubResp_decl"
| "Packet_decl (Pkt_PubComp p) = PubResp_decl"
| "Packet_decl (Pkt_PubRec p) = PubResp_decl"
| "Packet_decl (Pkt_PubRel p) = PubResp_decl"
| "Packet_decl (Pkt_Disconnect p) = Disconnect_decl"
| "Packet_decl (Pkt_Subscribe p) = Subscribe_decl"
| "Packet_decl (Pkt_SubAck p) = SubAck_decl"
| "Packet_decl (Pkt_Unsubscribe p) = Unsubscribe_decl"
| "Packet_decl (Pkt_UnsubAck p) = UnsubAck_decl"

primrec Packet_self :: "Packet \<Rightarrow> self" where
  "Packet_self (Pkt_PingRequest p) = PingReq_self p"
| "Packet_self (Pkt_PingResponse p) = PingResp_self p"
| "Packet_self (Pkt_Connect p) = Connect_self p"
| "Packet_self (Pkt_ConnAck p) = ConnAck_self p"
| "Packet_self (Pkt_Publish p) = Publish_self p"
| "Packet_self (Pkt_PubAck p) = PubResp_self p"
| "Packet_self (Pkt_PubComp p) = PubResp_self p"
| "Packet_self (Pkt_PubRec p) = PubResp_self p"
| "Packet_self (Pkt_PubRel p) = PubResp_self p"
| "Packet_self (Pkt_Disconnect p) = Disconnect_self p"
| "Packet_self (Pkt_Subscribe p) = Subscribe_self p"
| "Packet_self (Pkt_SubAck p) = SubAck_self p"
| "Packet_self (Pkt_Unsubscribe p) = Unsubscribe_self p"
| "Packet_self (Pkt_UnsubAck p) = UnsubAck_self p"

text \<open>Whether the struct is declared with \<open>#[packet]\<close> or derives its traits, and its \<open>abbreviated_when\<close>.\<close>

fun by_packet_macro :: "Packet \<Rightarrow> bool" where
  "by_packet_macro (Pkt_PubAck p) = False"
| "by_packet_macro (Pkt_PubComp p) = False"
| "by_packet_macro (Pkt_PubRec p) = False"
| "by_packet_macro (Pkt_PubRel p) = False"
| "by_packet_macro (Pkt_Disconnect p) = False"
| "by_packet_macro _ = True"

fun Packet_eval :: "Packet \<Rightarrow> expr_text \<Rightarrow> bool option" where
  "Packet_eval (Pkt_PubAck p) = PubResp_eval p"
| "Packet_eval (Pkt_PubComp p) = PubResp_eval p"
| "Packet_eval (Pkt_PubRec p) = PubResp_eval p"
| "Packet_eval (Pkt_PubRel p) = PubResp_eval p"
| "Packet_eval (Pkt_Disconnect p) = Disconnect_eval p"
| "Packet_eval _ = Map.empty"

lemma generated_encoder:
  "run_encode (Packet_decl p) (by_packet_macro p) (Packet_eval p) (Packet_self p) = Some (Packet_encode p)"
  by (cases p) (simp_all add: PingReq_run_encode PingResp_run_encode Connect_run_encode ConnAck_run_encode
      Publish_run_encode PubResp_run_encode Disconnect_run_encode Subscribe_run_encode SubAck_run_encode
      Unsubscribe_run_encode UnsubAck_run_encode)

text \<open>The decoders the packet codec calls, for the kinds whose decoder is generated.\<close>

fun model_decode :: "Packet \<Rightarrow> bytes \<Rightarrow> self reads option" where
  "model_decode (Pkt_ConnAck p) src = Some (map_read ConnAck_self (ConnAck_decode p src))"
| "model_decode (Pkt_PubAck p) src = Some (map_read PubResp_self (PubResp_decode p src))"
| "model_decode (Pkt_PubComp p) src = Some (map_read PubResp_self (PubResp_decode p src))"
| "model_decode (Pkt_PubRec p) src = Some (map_read PubResp_self (PubResp_decode p src))"
| "model_decode (Pkt_PubRel p) src = Some (map_read PubResp_self (PubResp_decode p src))"
| "model_decode (Pkt_Disconnect p) src = Some (map_read Disconnect_self (Disconnect_decode p src))"
| "model_decode (Pkt_Subscribe p) src = Some (map_read Subscribe_self (Subscribe_decode p src))"
| "model_decode (Pkt_SubAck p) src = Some (map_read SubAck_self (SubAck_decode p src))"
| "model_decode (Pkt_Unsubscribe p) src = Some (map_read Unsubscribe_self (Unsubscribe_decode p src))"
| "model_decode (Pkt_UnsubAck p) src = Some (map_read UnsubAck_self (UnsubAck_decode p src))"
| "model_decode _ src = None"

lemma generated_decoder:
  "model_decode p src = Some m \<Longrightarrow> run_decode (Packet_decl p) (Packet_self p) src = Some m"
  by (cases p) (simp_all add: ConnAck_run_decode PubResp_run_decode Disconnect_run_decode Subscribe_run_decode
      SubAck_run_decode Unsubscribe_run_decode UnsubAck_run_decode)

text \<open>The emitted structs, through the interpretations.\<close>

lemmas emitted_structs = connack_macro.emitted_struct subscribe_macro.emitted_struct suback_macro.emitted_struct
  unsubscribe_macro.emitted_struct unsuback_macro.emitted_struct connect_macro.emitted_struct publish_macro.emitted_struct

end
