(* ===== verification/Spec2Isabelle.thy ===== *)
theory Spec2Isabelle
  imports Packet_Stream Broker_Wills Command_Line End_To_End Socket Developer_Tls Macro_Codec
begin

text \<open>
  A verification development of \<^verbatim>\<open>vaux\<close>, an MQTT 5 broker and client written in Rust.

  \<^bold>\<open>The program.\<close> \<open>vaux-mqtt\<close> holds the packets and their codec, most of it generated by the derive macros
  of \<open>vaux-macro\<close>. \<open>vaux-async\<close> reads and writes packets on a byte stream. \<open>vaux-broker\<close> serves
  connections: a pool of sessions, a tree of subscriptions, one loop per connection. \<open>vaux-client\<close> is the
  other side: a builder, a connection, a session with the QoS 1 and 2 exchanges, one task with a loop.
  \<open>vaux\<close> is the executable of the broker. Client and broker meet only on the wire.

  \<^bold>\<open>Conventions.\<close> Machine integers are words of their width. A fallible call returns a \<open>res\<close>: \<open>Ok\<close>, \<open>Err\<close>
  with the error kind (message texts are dropped), or \<open>Panic\<close>. A struct is a record whose fields have the
  name of the struct's field behind a short prefix. A method is a definition with the name of the method,
  behind the name of its type where several types have it. A method that changes its object returns it. A
  decoder takes the bytes that are left and returns those that are left afterwards. Strings are their UTF-8
  bytes as characters. Code that is not in the repository is a parameter: the socket (\<open>rd\<close>, \<open>io\<close>, \<open>wr\<close>), the
  channels (\<open>channel_ops\<close>, \<open>mk\<close>, the outcomes in the events of the client loop), name resolution, TCP and TLS
  (\<open>network\<close>), fresh identifiers (\<open>uuid\<close>), the time (\<open>now\<close>, in seconds), and the order in which a hash map is drained
  (\<open>io_rank\<close>).

  \<^bold>\<open>Theories.\<close>

  \<^item> \<open>Prelude\<close>: the result type, byte strings, words, bits; locales for the invariants of transition systems.
  \<^item> \<open>Codec_Basics\<close>, \<open>Varint\<close>, \<open>Codec_Strings\<close>: packet types, reasons, QoS levels, variable byte integers,
    strings and binary data (\<open>vaux-mqtt/src/codec/mod.rs\<close>). The locale \<open>item_codec\<close> is the interface of a
    codec for one field.
  \<^item> \<open>Fixed_Header\<close> (\<open>codec/fixed.rs\<close>), \<open>Properties\<close> (\<open>property.rs\<close>).
  \<^item> \<open>Codec_Macro\<close>: the code that \<open>vaux-macro\<close> emits, function by function of \<open>encode.rs\<close>, \<open>size.rs\<close> and
    \<open>decode.rs\<close>. The locale \<open>property_arms\<close> is what a packet's arms must promise for its properties to be
    read back. It is the code as functions on the fields, the form the packet theories use.
  \<^item> \<open>Packet_Connect\<close>, \<open>Packet_ConnAck\<close>, \<open>Packet_Publish\<close>, \<open>Packet_Resp\<close> (acknowledgements and DISCONNECT),
    \<open>Listing_Packets\<close>, \<open>Packet_Subscribe\<close>, \<open>Packet_Unsubscribe\<close>: the packets, their accessors and codecs.
  \<^item> \<open>Packet_Codec\<close>: the packet enum, \<open>encode\<close> and \<open>decode\<close>. The locales \<open>packet_codec\<close> and \<open>packet_variant\<close>
    take every packet type from its own codec to the dispatcher.
  \<^item> \<open>Macro_Syntax\<close> to \<open>Macro_Codec\<close>: the macros themselves, as functions from the declaration of a struct to
    the code they emit. \<open>Macro_Syntax\<close>: declarations as \<open>syn\<close> gives them to a macro (an attribute's literals
    come with what they parse to, \<open>None\<close> where they do not parse), and the attribute queries of \<open>util.rs\<close>.
    \<open>Macro_Encode\<close>, \<open>Macro_Size\<close>, \<open>Macro_Decode\<close>, \<open>Macro_Packet\<close>: \<open>encode.rs\<close>, \<open>size.rs\<close>, \<open>decode.rs\<close> and \<open>lib.rs\<close>, with a
    data type for the statements they quote; a compile error is a statement or refuses the declaration,
    an \<open>unwrap\<close> in the macro is a \<open>Panic\<close>. \<open>Macro_Meaning\<close>: what emitted code does on the values of the
    fields, \<open>None\<close> where it does not compile. \<open>Macro_Fields\<close>, \<open>Macro_Acks\<close>, \<open>Macro_Lists\<close>, \<open>Macro_Messages\<close>: the
    declarations of all packets with their attributes, and that the emitted methods are the ones of
    \<open>Codec_Macro\<close> and the packet theories. \<open>Macro_Generic\<close>: facts about declarations in general. \<open>Macro_Codec\<close>: all
    packets at once; the locale \<open>packet_macro\<close> is what \<open>#[packet]\<close> needs to accept a struct.
  \<^item> \<open>Socket\<close> (\<open>vaux-async/src/stream/mod.rs\<close>): the three kinds of socket behind one interface; the locale
    \<open>embedded_socket\<close> says that a wrapper changes nothing.
  \<^item> \<open>Packet_Stream\<close>: the buffer of \<open>vaux-async/src/stream/packet.rs\<close>. \<open>read\<close> is a partial function that is
    \<open>None\<close> where the code loops for ever.
  \<^item> \<open>Topic_Tree\<close> (\<open>topic.rs\<close>): the arena of nodes, refined to the set of subscriptions it stands for by the
    locale \<open>subscription_store\<close>.
  \<^item> \<open>Broker_Session\<close> (\<open>config.rs\<close>, \<open>session.rs\<close>), \<open>Broker\<close> (\<open>lib.rs\<close>): sessions, the pool, the handlers, the
    branches of the connection loop. References to sessions and channels are indices into stores, so that
    a session taken over is shared as in the code. \<open>Broker_Routing\<close>, \<open>Broker_Connect\<close>, \<open>Broker_World\<close>,
    \<open>Broker_Service\<close>: what the handlers keep and promise; the step relation of all connections together.
    \<open>Broker_Channels\<close>: the control channels of the sessions, over the hypothesis \<open>fifo\<close> that a channel has
    room below its capacity and keeps the order. \<open>Broker_Retention\<close>: what is owed to a client along a run, and
    that a client once known stays known. \<open>Broker_Wills\<close>: when a will is published, delayed, cancelled, or
    dropped. Both give the locale \<open>transition_system\<close> of \<open>Prelude\<close> the step relation and what it keeps.
    \<open>Broker_Run\<close>: the broker object and its accept loop, inside that relation. \<open>Command_Line\<close>: the executable (\<open>vaux/src/main.rs\<close>).
  \<^item> \<open>Client_Session\<close> (\<open>session.rs\<close>), \<open>Client_Exchange\<close>: the exchanges as a refinement of a table of what is
    awaited, by the locale \<open>pending_table\<close>. \<open>Client_Setup\<close> (\<open>connection.rs\<close>, \<open>builder.rs\<close>, \<open>client.rs\<close> up to the
    task), \<open>Client_Loop\<close> (the task). \<open>Developer_Tls\<close>: the certificate verifier for development.
  \<^item> \<open>Handshake\<close>, \<open>End_To_End\<close>: client and broker together, over the wire.

  \<^bold>\<open>What is shown.\<close> The wire: a sendable packet is decoded back from its bytes, but for the header and a
  success reason of acknowledgements and an absent payload (C1; user properties and what else the decoder miscounts are not sendable), a
  proper prefix is never taken for a packet, a stream cut into any chunks is put together again. The
  macros: for every packet the emitted encoder and decoder are those of the packet codec (C6, C7), so that
  the theorems on the wire are about the generated code; any packet declared from the field shapes
  of \<open>Macro_Generic\<close>, a part of what the macros accept, announces the bytes it writes, and every field is emitted once,
  in the order of the declaration. The broker: an invariant of
  every reachable state (C2), no branch of a connection loop panics (C3), a message recorded for a client stays
  recorded along every run until it is acknowledged or one of the named exceptions happens (C5), answers to
  CONNECT, what routing puts into the channel of a session and that no two sessions share one, delivery at the
  lower level, redelivery, the life of a will, matching by the wildcard rules of the code, which know no exception for
  topics that begin with \<open>$\<close>. The client: its exchanges refine the
  protocol, sending returns, the consumers get every packet in order whatever room they have, the
  invariant of its tables. Both: the handshake, and a QoS 1 message from client to client with both
  acknowledgements (C4). Some theorems show what the code does against its intention: a QoS 2 exchange
  that never ends, a panic on a reserved QoS, a read that never returns, a client that never pings because its timer starts again with every packet, a
  redelivery that loses messages when a write fails, sessions that never expire, a takeover that the old
  connection undoes.

  \<^bold>\<open>Bounds and fuel.\<close> No definition runs on fuel. Loops are structural, have a measure, or are
  \<open>partial_function (option)\<close>; that they return is proved as such. The bound 2097152 of the packet theorems
  is the one the decoder of variable byte integers has. Routing to more than 65535 subscribers in one call
  may reuse an identifier, so the theorem on delivery excludes it.

  \<^bold>\<open>Not modelled.\<close> Log output and the texts of errors. Sockets, TLS, channels, files and the parsing of
  arguments, as said above. The grammar of Rust: \<open>syn\<close> and \<open>quote\<close> are the data types of declarations and of
  emitted statements; the name of a type decides which implementation a call reaches, as the imports of the
  packets have it. The expressions of \<open>abbreviated_when\<close> are kept as text and given their value by
  \<open>PubResp_eval\<close> and \<open>Disconnect_eval\<close>. Locks: a branch of a loop is one step, but two calls that lock the same lock
  in one thread are told apart (\<open>handle_connack\<close>). The examples of \<open>vaux-client\<close>. The file \<open>vaux-mqtt/output.rs\<close> is
  the output of a macro expansion and belongs to no crate.
\<close>

section \<open>Concrete inputs for the witnesses\<close>

definition list_ops :: "SessionControl list channel_ops" where
  "list_ops = \<lparr>ch_new = (\<lambda>_. []), ch_send = (\<lambda>c m. c @ [m]),
    ch_try_send = (\<lambda>c m. if length c < 10 then Some (c @ [m]) else None),
    ch_recv = (\<lambda>c. case c of [] \<Rightarrow> None | m # c \<Rightarrow> Some (m, c))\<rparr>"

definition all_io :: conn_io where
  "all_io = \<lparr>io_write = (\<lambda>_. True), io_shutdown = True, io_rank = unat\<rparr>"

text \<open>A broker with one connected session and no subscription, the same after a subscription to \<open>t\<close>.\<close>

definition sample_state :: "SessionControl list BrokerState" where
  "sample_state = snd (new_session list_ops 0 ''s'' None 45 10 (BrokerState_new Config_default))"

definition sample_subscribe :: Subscribe where
  "sample_subscribe = Subscribe_default\<lparr>su_packet_id := 7, su_filter := [SubscriptionFilter_new ''t'' AtLeastOnce]\<rparr>"

definition sample_tree :: TopicTree where
  "sample_tree = [(TopicNode_new 0 [])\<lparr>tn_children := [''t'' \<mapsto> 1]\<rparr>,
    (TopicNode_new 0 ''t'')\<lparr>tn_subscribers := [\<lparr>sb_session_id = ''s'', sb_qos = AtLeastOnce, sb_no_local = False\<rparr>]\<rparr>]"

definition sample_publish :: Publish where
  "sample_publish = Publish_set_qos (Publish_default\<lparr>pu_topic_name := ''t'', pu_packet_id := Some 9, pu_payload := Some [1, 2]\<rparr>) AtLeastOnce"

definition sample_message :: Publish where
  "sample_message = Publish_default\<lparr>pu_topic_name := ''t'', pu_payload := Some [1, 2]\<rparr>"

lemma sample_inv: "broker_inv sample_state" "SessionPool_get_active ''s'' (bk_pool sample_state) = Some 0"
  "length (bk_sessions sample_state) = 1" "bk_tree sample_state = TopicTree_new"
proof -
  let ?st = "BrokerState_new Config_default :: SessionControl list BrokerState"
  note i = broker_invD [OF broker_inv_new [of Config_default], where ?'a = "SessionControl list"]
  have room: "room ?st 1" by (simp add: room_def BrokerState_new_def Config_default_def DEFAULT_MAX_ACTIVE_SESSIONS_def)
  have fresh: "sp_active (bk_pool ?st) ''s'' = None" "sp_inactive (bk_pool ?st) ''s'' = None"
    by (simp_all add: BrokerState_new_def SessionPool_new_with_config_def SessionPool_new_with_expiry_def)
  obtain r st' where n: "new_session list_ops 0 ''s'' None 45 10 ?st = (r, st')" by (metis prod.exhaust)
  note s = new_session_spec [OF i(1-3) room fresh n]
  have r: "r = 0" using s(4) by (simp add: BrokerState_new_def)
  have e: "sample_state = st'" by (simp add: sample_state_def n)
  show "broker_inv sample_state" "SessionPool_get_active ''s'' (bk_pool sample_state) = Some 0"
    using s(1,2) r by (simp_all add: e SessionPool_get_active_def)
  show "length (bk_sessions sample_state) = 1"
    using arg_cong [OF s(8), of length] by (simp add: e BrokerState_new_def)
  show "bk_tree sample_state = TopicTree_new" using s(7) by (simp add: e BrokerState_new_def)
qed

lemma sample_filter:
  "SubscriptionFilter_qos (SubscriptionFilter_new ''t'' AtLeastOnce) = AtLeastOnce"
  "SubscriptionFilter_no_local (SubscriptionFilter_new ''t'' AtLeastOnce) = False"
  "sf_filter (SubscriptionFilter_new ''t'' AtLeastOnce) = ''t''"
  by (simp_all add: SubscriptionFilter_new_def) (simp_all add: SubscriptionFilter_no_local_def SubscriptionFilter_set_qos_def sf_masks)

lemma sample_subscribe_tree: "subscribe TopicTree_new ''t'' ''s'' AtLeastOnce False = Ok sample_tree"
  by (simp add: subscribe_def TopicTree_new_def TopicNode_new_def ROOT_NODE_def update_list_def sample_tree_def Let_def
      del: bind_eq_Ok_iff)

lemma sample_subscribe_eq:
  "handle_subscribe sample_subscribe ''s'' sample_state =
    Ok (SubAck_default\<lparr>sa_packet_id := 7, sa_reason_codes := [R_GrantedQoS1]\<rparr>, sample_state\<lparr>bk_tree := sample_tree\<rparr>)"
  by (simp add: handle_subscribe_def sample_subscribe_def SubAck_new_with_packet_id_def SubAck_default_def Let_def sample_inv(4)
      sample_subscribe_tree sample_filter del: bind_eq_Ok_iff)

lemma sample_matching: "matching_subscribers sample_tree ''t'' = Ok [\<lparr>sb_session_id = ''s'', sb_qos = AtLeastOnce, sb_no_local = False\<rparr>]"
  by (simp add: matching_subscribers_def ROOT_NODE_def sample_tree_def TopicNode_new_def hash_child_def Let_def
      collect_matches.simps del: bind_eq_Ok_iff)

lemma sample_publish_qos: "has_qos sample_publish AtLeastOnce" "pu_topic_name sample_publish = ''t''" "pu_packet_id sample_publish = Some 9"
  by (simp_all add: sample_publish_def) (simp_all add: Publish_set_qos_def)

lemma sample_message_sendable: "Packet_sendable (Pkt_Publish sample_message)"
  by (simp add: sample_message_def Publish_sendable_def Publish_wf_def Publish_default_def wf_string_opt_def vbi_decodable_def
      wf_string_def rust_str_def as_bytes_def Publish_id_agrees_def Publish_body_def string_bytes_def packet_id_bytes_def
      payload_bytes_def Publish_entries_def entry_opt_def entry_vec_def Publish_property_size_def
      size_for_primitive_property_opt_def size_for_codec_size_opt_def size_for_string_property_opt_def skip_if_size_def
      size_with_path_opt_property_def UserProperty_property_size_def UserProperty_pairs_def vbi_bytes_last)

text \<open>A client: its session after a handshake, the same as a running task; a QoS 2 message.\<close>

definition sample_client :: ClientSession where
  "sample_client = \<lparr>cs_connected = True, cs_stream_open = True, cs_last_active = 0, cs_state = SessionState_new ''u'', cs_usable = True\<rparr>"

definition sample_task :: "unit ClientTask" where
  "sample_task = task_loop_start [(PT_Publish, ())] sample_client"

definition sample_qos2 :: Publish where
  "sample_qos2 = Publish_set_qos (Publish_default\<lparr>pu_topic_name := ''t'', pu_packet_id := Some 9, pu_payload := Some [1, 2]\<rparr>) ExactlyOnce"

lemma sample_client_fields:
  "cs_usable sample_client" "cs_connected sample_client" "ss_auto_ack (cs_state sample_client)" "ss_client_id (cs_state sample_client) = Some ''vaux-client-u''"
  "ss_keep_alive (cs_state sample_client) = 60" "ss_qos_recv_remaining (cs_state sample_client) = 65535" "send_table sample_client = []"
  "recv_table sample_client = []" "ss_qos_send_remaining (cs_state sample_client) = 65535" "ss_auto_packet_id (cs_state sample_client)"
  by (simp_all add: sample_client_def SessionState_new_def DEFAULT_CLIENT_ID_PREFIX_def DEFAULT_CLIENT_KEEP_ALIVE_def send_table_def recv_table_def)

lemma sample_client_inv: "client_inv sample_client"
  by (simp add: client_inv_def sample_client_fields table_ok_def)

lemma sample_task_fields:
  "ct_session sample_task = sample_client" "ct_pending_forward sample_task = None" "ct_keep_alive sample_task = 60"
  "ct_keep_alive_enabled sample_task"
  by (simp_all add: sample_task_def task_loop_start_def sample_client_fields) (simp_all add: sample_client_def SessionState_new_def)

lemma sample_qos2_fields: "has_qos sample_qos2 ExactlyOnce" "pu_packet_id sample_qos2 = Some 9"
  by (simp_all add: sample_qos2_def) (simp_all add: Publish_set_qos_def)

lemma sample_message_qos: "has_qos sample_message AtMostOnce"
  by (simp add: sample_message_def has_qos_def Publish_qos_def FixedHeader_qos_def Publish_default_def FixedHeader_new_def header_masks
      QoSLevel_try_from_def)




text \<open>Two sessions: the one that subscribed to \<open>t\<close>, and a publisher.\<close>

definition sample_two :: "SessionControl list BrokerState" where
  "sample_two = (snd (new_session list_ops 0 ''a'' None 45 10 sample_state))\<lparr>bk_tree := sample_tree\<rparr>"

lemma list_ops_fifo: "fifo list_ops (\<lambda>c. c) 10"
  by (simp add: fifo_def list_ops_def)

lemmas sample_defs = sample_state_def new_session_def new_channel_def BrokerState_new_def Session_new_def Session_set_connected_def
  list_ops_def Let_def SessionPool_new_with_config_def SessionPool_new_with_expiry_def SessionPool_add_def SessionPool_get_active_def

lemma sample_two_inv: "broker_inv sample_two"
proof -
  note i = broker_invD [OF sample_inv(1)]
  have room: "room sample_state 1" by (simp add: room_def sample_defs Config_default_def DEFAULT_MAX_ACTIVE_SESSIONS_def)
  have fresh: "sp_active (bk_pool sample_state) ''a'' = None" "sp_inactive (bk_pool sample_state) ''a'' = None"
    by (simp_all add: sample_defs)
  obtain r st' where n: "new_session list_ops 0 ''a'' None 45 10 sample_state = (r, st')" by (metis prod.exhaust)
  have "broker_inv st'" using new_session_spec [OF i(1-3) room fresh n] by simp
  moreover have "subscribe TopicTree_new ''t'' ''s'' AtLeastOnce False = (Ok sample_tree :: (BrokerError, TopicTree) res)"
    by (rule sample_subscribe_tree)
  then have "tree_inv sample_tree"
    using topics.sub_law [OF tree_inv_new, of "''t''" "''s''" AtLeastOnce False, where ?'a = BrokerError] by auto
  ultimately show ?thesis by (simp add: sample_two_def n broker_inv_tree)
qed

lemma sample_two_own: "channels_own sample_two"
  by (simp add: sample_two_def channels_own_def senders_def sample_defs)


definition sample_conn :: "nat \<Rightarrow> Conn" where
  "sample_conn r = Conn_init\<lparr>cn_connected := True, cn_session := Some r, cn_control := Some r\<rparr>"




text \<open>A reachable state: a client connects as \<open>s\<close> and subscribes to \<open>t\<close>.\<close>

lemma sample_connected:
  "\<exists>cn st out. on_packet list_ops all_io 0 [] (Pkt_Connect (Connect_new ''s'')) Conn_init (BrokerState_new Config_default) = (Ok (Some cn), st, out) \<and>
    cn_connected cn \<and> cn_session cn = Some 0 \<and> bk_tree st = TopicTree_new \<and> se_id (bk_sessions st ! 0) = ''s'' \<and>
    SessionPool_get_active ''s'' (bk_pool st) = Some 0 \<and> queue_of (\<lambda>c. c) 0 st = [] \<and> se_next_packet_id (bk_sessions st ! 0) = 1 \<and>
    bk_accept st"
  by (simp add: on_packet_def Conn_init_def handle_pre_connect_def handle_connect_def connect_keep_alive_def connect_expiry_def
      connect_id_def Connect_new_def SessionPool_at_capacity_def Config_default_def connect_session_def Connect_clean_start_def
      CONNECT_FLAG_CLEAN_START_def SessionPool_activate_def write_packet_def all_io_def finish_def and_then_def serve_def
      Session_take_control_receiver_def Session_drain_pending_def iteration_def upd_session_def case_prod_beta DEFAULT_MAX_ACTIVE_SESSIONS_def
      queue_of_def sample_defs)

lemma sample_served:
  "\<exists>w cn. reachable list_ops Config_default w \<and> live w 0 cn \<and> cn_connected cn \<and> cn_session cn = Some 0 \<and>
    SessionPool_get_active ''s'' (bk_pool (wd_state w)) = Some 0 \<and> se_id (bk_sessions (wd_state w) ! 0) = ''s'' \<and>
    bk_tree (wd_state w) = sample_tree \<and> queue_of (\<lambda>c. c) 0 (wd_state w) = [] \<and> se_next_packet_id (bk_sessions (wd_state w) ! 0) = 1 \<and>
    bk_accept (wd_state w)"
proof -
  obtain cn st out where c: "on_packet list_ops all_io 0 [] (Pkt_Connect (Connect_new ''s'')) Conn_init (BrokerState_new Config_default) =
      (Ok (Some cn), st, out)" and f: "cn_connected cn" "cn_session cn = Some 0" "bk_tree st = TopicTree_new" "se_id (bk_sessions st ! 0) = ''s''"
    "SessionPool_get_active ''s'' (bk_pool st) = Some 0" "queue_of (\<lambda>c. c) 0 st = []" "se_next_packet_id (bk_sessions st ! 0) = 1"
      "bk_accept st"
    using sample_connected by blast
  let ?w0 = "\<lparr>wd_state = BrokerState_new Config_default, wd_conns = [Some Conn_init]\<rparr>"
  let ?w1 = "\<lparr>wd_state = st, wd_conns = [Some cn]\<rparr>" and ?w2 = "\<lparr>wd_state = st\<lparr>bk_tree := sample_tree\<rparr>, wd_conns = [Some cn]\<rparr>"
  have "handle_subscribe sample_subscribe ''s'' st =
      Ok (SubAck_default\<lparr>sa_packet_id := 7, sa_reason_codes := [R_GrantedQoS1]\<rparr>, st\<lparr>bk_tree := sample_tree\<rparr>)"
    by (simp add: handle_subscribe_def sample_subscribe_def SubAck_new_with_packet_id_def SubAck_default_def Let_def f(3)
        sample_subscribe_tree sample_filter del: bind_eq_Ok_iff)
  then have s: "on_packet list_ops all_io 0 [] (Pkt_Subscribe sample_subscribe) cn st =
      (Ok (Some cn), st\<lparr>bk_tree := sample_tree\<rparr>, [Pkt_SubAck (SubAck_default\<lparr>sa_packet_id := 7, sa_reason_codes := [R_GrantedQoS1]\<rparr>)])"
    by (simp add: on_packet_def f handle_packet_def run_def write_packet_def finish_def and_then_def all_io_def)
  have "step list_ops (World_init Config_default) ?w0"
    using accept [of list_ops "World_init Config_default"] by (simp add: World_init_def)
  moreover have "step list_ops ?w0 ?w1"
    using packet [of ?w0 0 Conn_init "Pkt_Connect (Connect_new ''s'')" list_ops all_io 0 "[]"] by (simp add: live_def after_def c conn_after_def packet_ok_def)
  moreover have "step list_ops ?w1 ?w2"
    using packet [of ?w1 0 cn "Pkt_Subscribe sample_subscribe" list_ops all_io 0 "[]"]
    by (simp add: live_def after_def s conn_after_def packet_ok_def)
  ultimately have "reachable list_ops Config_default ?w2"
    unfolding reachable_def by (meson rtranclp.rtrancl_into_rtrancl rtranclp.rtrancl_refl)
  then show ?thesis using f by (intro exI [of _ ?w2] exI [of _ cn]) (simp add: queue_of_def live_def)
qed

lemma sample_reachable:
  "\<exists>w. reachable list_ops Config_default w \<and> SessionPool_get_active ''s'' (bk_pool (wd_state w)) = Some 0 \<and>
    bk_tree (wd_state w) = sample_tree \<and> queue_of (\<lambda>c. c) 0 (wd_state w) = [] \<and> bk_accept (wd_state w)"
  using sample_served by blast

definition sample_args :: Args where
  "sample_args = \<lparr>ar_listen_addr = None, ar_port = None, ar_max_sessions = None, ar_max_active_sessions = None,
    ar_session_expiration = Some 60, ar_session_timeout = None, ar_max_session_timeout = None, ar_tui = False, ar_tls_cert = None,
    ar_tls_key = None, ar_channel_size = None\<rparr>"

text \<open>A publisher with a will on the topic \<open>t\<close>, a session that left a delayed one, a session with two messages pending.\<close>

definition sample_will :: "u32 \<Rightarrow> WillMessage" where
  "sample_will delay = WillMessage_with_delay (WillMessage_new ''t'' [7] AtLeastOnce False) delay"

definition sample_willing :: "SessionControl list BrokerState" where
  "sample_willing = upd_session 1 (Session_set_will (Some (sample_will 0))) sample_two"

definition sample_waiting :: "SessionControl list World" where
  "sample_waiting = \<lparr>wd_state = (upd_session 0 (\<lambda>s. s\<lparr>se_pending_will := Some 0\<rparr>) sample_state)\<lparr>bk_wills := [(sample_will 5, 5, False)]\<rparr>,
    wd_conns = [Some Conn_init]\<rparr>"

definition sample_pending :: "SessionControl list BrokerState" where
  "sample_pending = upd_session 0 (\<lambda>s. s\<lparr>se_pending_ack := [(1, sample_publish\<lparr>pu_packet_id := Some 1\<rparr>),
    (2, sample_publish\<lparr>pu_packet_id := Some 2\<rparr>)]\<rparr>) sample_state"

lemma sample_will_fields:
  "wm_topic (sample_will d) = ''t''" "wm_payload (sample_will d) = [7]" "wm_qos (sample_will d) = AtLeastOnce" "will_delay (sample_will d) = d"
  by (simp_all add: sample_will_def WillMessage_with_delay_def WillMessage_new_def will_delay_def)

lemma sample_willing_inv: "broker_inv sample_willing" "channels_own sample_willing"
proof -
  have "evolves sample_two sample_willing"
    unfolding sample_willing_def by (rule evolves_upd_session) (simp_all add: Session_set_will_def session_ok_fields)
  then show "broker_inv sample_willing" by (rule broker_inv_evolves [OF sample_two_inv])
  show "channels_own sample_willing"
    unfolding sample_willing_def by (rule channels_own_keeps [OF sample_two_own keeps_upd_session]) (simp add: Session_set_will_def)
qed

lemma sample_willing_fields:
  "cn_session (sample_conn 1) = Some 1" "Suc 0 < length (bk_sessions sample_willing)" "bk_tree sample_willing = sample_tree"
  "se_will_message (bk_sessions sample_willing ! Suc 0) = Some (sample_will 0)" "SessionPool_get_active ''s'' (bk_pool sample_willing) = Some 0"
  "queue_of (\<lambda>c. c) 0 sample_willing = []"
  by (simp_all add: sample_willing_def sample_two_def queue_of_def sample_conn_def Session_set_will_def sample_defs)

lemma sample_connect: "connect_sid [] (Connect_new ''s'') = ''s''" "\<not> Connect_clean_start (Connect_new ''s'')"
  by (simp_all add: connect_sid_def Connect_new_def Connect_clean_start_def)

lemma sample_waiting_inv: "world_inv Config_default sample_waiting" "wills_own (wd_state sample_waiting)"
proof -
  let ?st = "upd_session 0 (\<lambda>s. s\<lparr>se_pending_will := Some 0\<rparr>) sample_state"
  have "evolves sample_state (?st\<lparr>bk_wills := [(sample_will 5, 5, False)]\<rparr>)"
    by (rule evolves_trans [OF evolves_upd_session evolves_wills]) (simp_all add: session_ok_fields)
  then have "broker_inv (wd_state sample_waiting)"
    unfolding sample_waiting_def by (simp add: broker_inv_evolves [OF sample_inv(1)])
  then show "world_inv Config_default sample_waiting"
    by (simp add: world_inv_def) (simp add: sample_waiting_def conn_ok_def Conn_init_def sample_defs)
  show "wills_own (wd_state sample_waiting)"
    using sample_inv(3) by (auto simp: sample_waiting_def wills_own_def tokens_def map_update length_Suc_conv)
qed

lemma sample_waiting_fields:
  "live sample_waiting 0 Conn_init" "\<not> cn_connected Conn_init" "bk_accept (wd_state sample_waiting)"
  "known (wd_state sample_waiting) (connect_sid [] (Connect_new ''s'')) = Some 0"
  "se_pending_will (bk_sessions (wd_state sample_waiting) ! 0) = Some 0" "\<not> Connect_clean_start (Connect_new ''s'')"
  "cf_max_active_sessions Config_default = None"
  by (simp_all add: sample_waiting_def live_def Conn_init_def known_def sample_connect Config_default_def
      DEFAULT_MAX_ACTIVE_SESSIONS_def sample_defs)

lemma sample_will_open: "will_task list_ops 0 (wd_state sample_waiting) \<noteq> Ok (wd_state sample_waiting)"
proof -
  have "bk_wills st = [(sample_will 5, 5, True)]" if "will_task list_ops 0 (wd_state sample_waiting) = Ok st" for st
    using that route_publish_frame(2) by (fastforce simp: sample_waiting_def will_task_def publish_will_def)
  then show ?thesis by (fastforce simp: sample_waiting_def)
qed

lemma sample_pending_inv:
  "broker_inv sample_pending" "0 < length (bk_sessions sample_pending)"
  "se_pending_ack (bk_sessions sample_pending ! 0) = [(1, sample_publish\<lparr>pu_packet_id := Some 1\<rparr>), (2, sample_publish\<lparr>pu_packet_id := Some 2\<rparr>)]"
proof -
  have "has_qos (sample_publish\<lparr>pu_packet_id := Some n\<rparr>) AtLeastOnce" for n using sample_publish_qos(1) by simp
  then have "session_ok (s\<lparr>se_pending_ack := [(1, sample_publish\<lparr>pu_packet_id := Some 1\<rparr>), (2, sample_publish\<lparr>pu_packet_id := Some 2\<rparr>)]\<rparr>)"
    if "session_ok s" for s
    using that by (simp add: session_ok_def)
  then have "evolves sample_state sample_pending"
    unfolding sample_pending_def by (intro evolves_upd_session) simp_all
  then show "broker_inv sample_pending" by (rule broker_inv_evolves [OF sample_inv(1)])
qed (use sample_inv(3) in \<open>simp_all add: sample_pending_def\<close>)

text \<open>A reachable state in which a message is owed: the client of \<open>sample_reachable\<close> publishes to itself.\<close>

lemma sample_matching_bound: "matching_subscribers sample_tree topic = Ok subs \<Longrightarrow> length subs \<le> 1"
  by (cases "split_topic topic")
    (auto simp: matching_subscribers_def ROOT_NODE_def sample_tree_def TopicNode_new_def hash_child_def Let_def
      collect_matches.simps split: if_splits option.splits)

lemma after_accept: "w\<lparr>wd_conns := wd_conns w @ [x]\<rparr> \<noteq> after w i h"
  by (auto simp: after_def dest!: arg_cong [where f = "\<lambda>w. length (wd_conns w)"])

lemma accept_leaves_owed:
  "far_from_reuse sid pid (wd_state w) \<Longrightarrow> leaves_owed ops sid pid w (w\<lparr>wd_conns := wd_conns w @ [Some Conn_init]\<rparr>)"
  by (simp add: leaves_owed_def acknowledges_def starts_afresh_def redelivery_cut_def after_accept accept)

lemma sample_owed:
  "\<exists>w p. reachable list_ops Config_default w \<and> pu_payload p = Some [1, 2] \<and> owes ''s'' 1 p (wd_state w) \<and>
    leaves_owed list_ops ''s'' 1 w (w\<lparr>wd_conns := wd_conns w @ [Some Conn_init]\<rparr>)"
proof -
  let ?sub = "\<lparr>sb_session_id = ''s'', sb_qos = AtLeastOnce, sb_no_local = False\<rparr>"
  let ?out = "(Publish_set_qos sample_publish AtLeastOnce)\<lparr>pu_packet_id := Some 1\<rparr>"
  obtain w cn where w: "reachable list_ops Config_default w" "live w 0 cn" "cn_connected cn" "cn_session cn = Some 0"
    "SessionPool_get_active ''s'' (bk_pool (wd_state w)) = Some 0" "se_id (bk_sessions (wd_state w) ! 0) = ''s''"
    "bk_tree (wd_state w) = sample_tree" "queue_of (\<lambda>c. c) 0 (wd_state w) = []" "se_next_packet_id (bk_sessions (wd_state w) ! 0) = 1"
    using sample_served by blast
  have inv: "broker_inv (wd_state w)" using reachable_inv [OF w(1)] by (simp add: world_inv_def)
  have m: "matching_subscribers (bk_tree (wd_state w)) (pu_topic_name sample_publish) = (Ok [?sub] :: (BrokerError, Subscriber list) res)"
    by (simp add: w(7) sample_publish_qos sample_matching)
  obtain st where st: "route_publish list_ops sample_publish ''s'' (wd_state w) = Ok st"
    "bk_sessions st ! 0 = Session_track_qos_publish 1 ?out (snd (Session_next_packet_id (bk_sessions (wd_state w) ! 0)))"
    using route_publish_queue [OF inv reachable_channels_own [OF w(1)] list_ops_fifo sample_publish_qos(1) w(5) m, of "''s''"] w(8,9)
    by (auto simp: min_qos1)
  have h: "handle_packet list_ops all_io (Pkt_Publish sample_publish) 0 (wd_state w) =
      (Ok (), st, [Pkt_PubAck (PubResp_new_puback_with_packet_id 9)])"
    using publish_acknowledged [OF inv sample_publish_qos(1,3), of all_io list_ops 0] st(1) w(6) by (simp add: all_io_def)
  let ?w = "after w 0 (on_packet list_ops all_io 0 [] (Pkt_Publish sample_publish) cn (wd_state w))"
  have s: "wd_state ?w = st" using w(3,4) h by (simp add: on_packet_def and_then_def finish_def after_def)
  have "step list_ops w ?w" using w(2) sample_publish_qos(1) by (intro packet) (auto simp: packet_ok_def)
  then have "reachable list_ops Config_default ?w" using w(1) by (auto simp: reachable_def intro: rtranclp.rtrancl_into_rtrancl)
  moreover have "known st ''s'' = Some 0"
    using evolvesD(3) [OF evolves_route_publish [OF st(1)]] w(5) by (simp add: known_def SessionPool_get_active_def)
  moreover have "pending_in st 0 1 = Some ?out" "next_in st 0 = 2"
    by (simp_all add: pending_in_def next_in_def st(2) track_fields) (simp add: Session_next_packet_id_def w(9) Let_def)
  moreover have "bk_tree st = sample_tree" using evolvesD(4) [OF evolves_route_publish [OF st(1)]] w(7) by simp
  ultimately have "reachable list_ops Config_default ?w" "owes ''s'' 1 ?out (wd_state ?w)" "far_from_reuse ''s'' 1 (wd_state ?w)"
    using sample_matching_bound by (auto simp: s owes_def far_from_reuse_def id_dist_def dest!: sample_matching_bound)
  moreover have "pu_payload ?out = Some [1, 2]" by (simp add: sample_publish_def) (simp add: Publish_set_qos_def)
  ultimately show ?thesis
    using accept_leaves_owed by blast
qed


text \<open>C1. Every sendable packet is encoded, and decoding its bytes, whatever follows them, gives their exact number and the packet as the last part says: every kind but five comes back unchanged; a PUBLISH comes back with an empty payload where it had none; a PUBACK, PUBREC, PUBREL or PUBCOMP comes back with the default fixed header (its type is CONNECT) and, where its reason is success and it has no description, without the reason. Sendable packets (\<open>Packet_sendable\<close>) have strings and data of at most 65535 bytes, a body below 2097152 bytes, a header and flags that agree with the fields, subscription identifiers below 2097152, a reason where an acknowledgement is not abbreviated, and none of the properties the decoder miscounts: user properties, the authentication data of a CONNACK, the correlation data of a will.\<close>

theorem packet_roundtrip:
  assumes "Packet_sendable p"
  shows "\<exists>bs. Packet_encode p = Ok bs \<and>
    (\<forall>uuid rest. decode uuid (bs @ rest) = Ok (Some (Packet_decoded p, length bs), [])) \<and>
    Packet_decoded p =
      (let ack = (\<lambda>a. a\<lparr>pr_fixed_header := FixedHeader_default,
         pr_reason := (if pr_reason a = Some R_Success \<and> pr_reason_desc a = None then None else pr_reason a)\<rparr>) in
       case p of
         Pkt_Publish q \<Rightarrow> Pkt_Publish (q\<lparr>pu_payload := Some (case pu_payload q of Some d \<Rightarrow> d | None \<Rightarrow> [])\<rparr>)
       | Pkt_PubAck a \<Rightarrow> Pkt_PubAck (ack a) | Pkt_PubRec a \<Rightarrow> Pkt_PubRec (ack a)
       | Pkt_PubRel a \<Rightarrow> Pkt_PubRel (ack a) | Pkt_PubComp a \<Rightarrow> Pkt_PubComp (ack a)
       | _ \<Rightarrow> p)"
  using Packet_encode_wire [OF assms] decode_wire [OF assms] Packet_decoded_eq [OF assms] by blast

theorem packet_roundtrip_witness:
  "Packet_sendable (Pkt_Publish sample_message) \<and>
   (\<exists>bs. Packet_encode (Pkt_Publish sample_message) = Ok bs \<and>
    (\<forall>uuid rest. decode uuid (bs @ rest) = Ok (Some (Packet_decoded (Pkt_Publish sample_message), length bs), [])))"
  using packet_roundtrip [OF sample_message_sendable] sample_message_sendable by blast

text \<open>C2. In every state the running broker can reach, the counters of active and of inactive sessions count them (modulo their width of 32 bits), no session is both active and inactive, the configured limit of active sessions holds, the subscription tree is well formed, and every unacknowledged message is a QoS 1 or 2 message, filed under the non-zero identifier it carries.\<close>

theorem reachable_broker_invariant:
  assumes "reachable ops config w"
  shows "let st = wd_state w; pool = bk_pool st in
    sp_active_sessions pool = of_nat (card (dom (sp_active pool))) \<and>
    sp_inactive_sessions pool = of_nat (card (dom (sp_inactive pool))) \<and>
    dom (sp_active pool) \<inter> dom (sp_inactive pool) = {} \<and>
    (\<forall>limit. cf_max_active_sessions config = Some limit \<longrightarrow> card (dom (sp_active pool)) \<le> unat limit) \<and>
    tree_inv (bk_tree st) \<and>
    (\<forall>s \<in> set (bk_sessions st). se_next_packet_id s \<noteq> 0 \<and>
      (\<forall>(pid, p) \<in> set (se_pending_ack s). pid \<noteq> 0 \<and> pu_packet_id p = Some pid \<and>
        (has_qos p AtLeastOnce \<or> has_qos p ExactlyOnce)))"
proof -
  have i: "broker_inv (wd_state w)" "bk_config (wd_state w) = config"
    using reachable_inv [OF assms] by (simp_all add: world_inv_def)
  note d = broker_invD [OF i(1)]
  have "\<forall>limit. cf_max_active_sessions config = Some limit \<longrightarrow> card (dom (sp_active (bk_pool (wd_state w)))) \<le> unat limit"
    using d(4) i(2) by (auto simp: room_def active_count_def)
  moreover have "\<forall>s \<in> set (bk_sessions (wd_state w)). se_next_packet_id s \<noteq> 0 \<and>
      (\<forall>(pid, p) \<in> set (se_pending_ack s). pid \<noteq> 0 \<and> pu_packet_id p = Some pid \<and> (has_qos p AtLeastOnce \<or> has_qos p ExactlyOnce))"
    using d(3) by (fastforce simp: sessions_ok_def session_ok_def)
  ultimately show ?thesis using pool_invD(3-5) [OF d(1)] d(2) by (simp add: Let_def)
qed

theorem reachable_broker_invariant_witness:
  "reachable list_ops Config_default (World_init Config_default) \<and> tree_inv (bk_tree (wd_state (World_init Config_default :: SessionControl list World)))"
  using reachable_broker_invariant [of list_ops Config_default "World_init Config_default"] by (simp add: reachable_def Let_def)

text \<open>C3. In every reachable state no branch of a connection loop panics: control messages, keep-alive expiry, any packet the decoder returns, the end of the stream, read errors.\<close>

theorem no_branch_panics:
  assumes "reachable ops config w" and "live w i cn" and "decode u src = Ok (Some (p, n), rest)"
  shows "fst (on_control io msg cn (wd_state w)) \<noteq> Panic \<and> fst (on_keep_alive ops io cn (wd_state w)) \<noteq> Panic \<and>
    fst (on_packet ops io now uuid p cn (wd_state w)) \<noteq> Panic \<and> fst (on_eof ops cn (wd_state w)) \<noteq> Panic \<and>
    fst (on_error ops cn (wd_state w)) \<noteq> Panic"
proof -
  have b: "broker_inv (wd_state w)" "conn_ok (wd_state w) cn"
    using live_ok [OF reachable_inv [OF assms(1)] assms(2)] by simp_all
  show ?thesis
    using on_control_ok [OF b, of io msg] on_keep_alive_ok [OF b, of ops io] on_eof_ok [OF b, of ops] on_error_ok [OF b, of ops]
      on_packet_ok [OF b decode_packet_ok [OF assms(3)], of ops io now uuid]
    by (simp add: branch_ok_def safe_def)
qed

theorem no_branch_panics_witness:
  "fst (on_packet list_ops all_io 0 ''u'' (Pkt_PingRequest PingReq_default) Conn_init
    (BrokerState_new Config_default :: SessionControl list BrokerState)) \<noteq> Panic"
proof -
  let ?w = "\<lparr>wd_state = BrokerState_new Config_default, wd_conns = [Some Conn_init]\<rparr> :: SessionControl list World"
  have "step list_ops (World_init Config_default) ?w"
    using accept [of list_ops "World_init Config_default"] by (simp add: World_init_def)
  then have r: "reachable list_ops Config_default ?w" by (simp add: reachable_def r_into_rtranclp)
  have l: "live ?w 0 Conn_init" by (simp add: live_def)
  have p: "Packet_sendable (Pkt_PingRequest PingReq_default)" by (simp add: PingReq_sendable_def)
  from no_branch_panics [OF r l decode_wire [OF p, of "[]" "[]"], of all_io undefined 0 "''u''"] show ?thesis by simp
qed



text \<open>C5. No message is lost: once a message is recorded for a client under an identifier, it stays recorded, as it is or marked as a duplicate, along every run of the broker however long, through connections and disconnections of this and of other clients, wills, commands and failing writes; unless in some step of the run the client acknowledges it, the client connects with a clean start, the redelivery to it is cut short by a failing write, or the identifiers of the session are about to come round to it, some topic matching more subscriptions than there are identifiers left before it.\<close>

theorem owed_until_acknowledged:
  assumes "reachable ops config w" and "owes sid pid p (wd_state w)" and "(leaves_owed ops sid pid)\<^sup>*\<^sup>* w w'"
  shows "owes sid pid p (wd_state w')"
  by (rule run_owes [OF assms(3,1,2)])

theorem owed_until_acknowledged_witness:
  "\<exists>w p. reachable list_ops Config_default w \<and> pu_payload p = Some [1, 2] \<and> owes ''s'' 1 p (wd_state w) \<and>
    owes ''s'' 1 p (wd_state (w\<lparr>wd_conns := wd_conns w @ [Some Conn_init]\<rparr>))"
proof -
  obtain w p where w: "reachable list_ops Config_default w" "pu_payload p = Some [1, 2]" "owes ''s'' 1 p (wd_state w)"
    "leaves_owed list_ops ''s'' 1 w (w\<lparr>wd_conns := wd_conns w @ [Some Conn_init]\<rparr>)"
    using sample_owed by blast
  from owed_until_acknowledged [OF w(1,3) r_into_rtranclp [where r = "leaves_owed list_ops ''s'' 1", OF w(4)]] w show ?thesis by blast
qed

text \<open>C6. The macros are correct on the packets of the library: for every packet, the encoder that the macros emit for the declaration of its struct compiles, and running it on the fields of the packet gives exactly what the packet codec is taken to write, errors included.\<close>

theorem expansion_encodes:
  "run_encode (Packet_decl p) (by_packet_macro p) (Packet_eval p) (Packet_self p) = Some (Packet_encode p)"
  by (rule generated_encoder)

text \<open>C7. For every kind of packet whose decoder is generated, the decoder that the macros emit for the declaration of its struct compiles, and on every input it returns, refuses or panics as the decoder of the packet codec does.\<close>

theorem expansion_decodes:
  assumes "model_decode p src = Some m"
  shows "run_decode (Packet_decl p) (Packet_self p) src = Some m"
  by (rule generated_decoder [OF assms])

theorem expansion_decodes_witness:
  "run_decode PubResp_decl (PubResp_self PubResp_default) [0, 9] = Some (map_read PubResp_self (PubResp_decode PubResp_default [0, 9]))"
  using expansion_decodes [of "Pkt_PubAck PubResp_default" "[0, 9]"] by simp



text \<open>C9. In every state the broker can reach: routing a message appends to the channel of an active session, when that has room for all of them (otherwise a copy is dropped and the session is told to disconnect), one copy for each of its matching subscriptions, in order and no other message, each at the lower of the published and the subscribed level and above level 0 under the next identifier of the session; the session has then recorded the copies above level 0.\<close>

theorem routing_queues_in_order:
  assumes "reachable ops config w" and "st = wd_state w" and "fifo ops queue capacity" and "has_qos publish q"
    and "SessionPool_get_active sid (bk_pool st) = Some r"
    and "matching_subscribers (bk_tree st) (pu_topic_name publish) = (Ok subs :: (BrokerError, Subscriber list) res)"
    and "length (queue_of queue r st) + length (copies_for publish q sender sid subs (se_next_packet_id (bk_sessions st ! r))) \<le> capacity"
  shows "\<exists>st'. route_publish ops publish sender st = Ok st' \<and> queue_of queue r st' =
      queue_of queue r st @ map SC_Deliver (copies_for publish q sender sid subs (se_next_packet_id (bk_sessions st ! r))) \<and>
    bk_sessions st' ! r = after_routing publish q sender sid subs (bk_sessions st ! r)"
proof -
  have "broker_inv st" using reachable_inv [OF assms(1)] by (simp add: world_inv_def assms(2))
  from route_publish_queue [OF this _ assms(3-7)] reachable_channels_own [OF assms(1)] show ?thesis by (simp add: assms(2))
qed

theorem routing_queues_in_order_witness:
  "\<exists>w st' out. reachable list_ops Config_default w \<and> route_publish list_ops sample_publish ''other'' (wd_state w) = Ok st' \<and>
    queue_of (\<lambda>c. c) 0 st' = [SC_Deliver out] \<and> pu_payload out = pu_payload sample_publish"
proof -
  obtain w where w: "reachable list_ops Config_default w" "SessionPool_get_active ''s'' (bk_pool (wd_state w)) = Some 0"
    "bk_tree (wd_state w) = sample_tree" "queue_of (\<lambda>c. c) 0 (wd_state w) = []"
    using sample_reachable by blast
  let ?sub = "\<lparr>sb_session_id = ''s'', sb_qos = AtLeastOnce, sb_no_local = False\<rparr>"
  have "matching_subscribers (bk_tree (wd_state w)) (pu_topic_name sample_publish) = (Ok [?sub] :: (BrokerError, Subscriber list) res)"
    by (simp add: w(3) sample_publish_qos sample_matching)
  from routing_queues_in_order [OF w(1) refl list_ops_fifo sample_publish_qos(1) w(2) this, of "''other''"] w
  show ?thesis by (force simp: min_qos1 Publish_set_qos_def)
qed

text \<open>C10. After a SUBSCRIBE with one filter by an active session: a message of another client on a matching topic without wildcards, for which the lower of the published and the granted level is 1 or 2 and which at most 65535 subscriptions match, is routed, and is recorded for that session at that level under a non-zero identifier. That the identifier was not in use is not claimed: it is the next one of the session, used or not.\<close>

theorem subscribed_session_is_owed:
  assumes "broker_inv st" and "SessionPool_get_active sid (bk_pool st) = Some r"
    and "su_filter p = [f]" and "handle_subscribe p sid st = Ok (suback, st1)"
    and "has_qos publish q" and "min q (SubscriptionFilter_qos f) \<noteq> AtMostOnce"
    and "plain_topic (split_topic (pu_topic_name publish))"
    and "matches (split_topic (sf_filter f)) (split_topic (pu_topic_name publish))" and "sender \<noteq> sid"
    and "\<forall>subs. matching_subscribers (bk_tree st1) (pu_topic_name publish) = (Ok subs :: (BrokerError, Subscriber list) res) \<longrightarrow>
      length subs \<le> 65535"
  shows "\<exists>st2 pid. route_publish ops publish sender st1 = Ok st2 \<and> pid \<noteq> 0 \<and>
    pending_in st2 r pid = Some ((Publish_set_qos publish (min q (SubscriptionFilter_qos f)))\<lparr>pu_packet_id := Some pid\<rparr>)"
  by (rule subscribe_then_publish [OF assms])

theorem subscribed_session_is_owed_witness:
  "\<exists>st2 pid. route_publish list_ops sample_publish ''other'' (sample_state\<lparr>bk_tree := sample_tree\<rparr>) = Ok st2 \<and> pid \<noteq> 0 \<and>
    pending_in st2 0 pid = Some ((Publish_set_qos sample_publish AtLeastOnce)\<lparr>pu_packet_id := Some pid\<rparr>)"
  using subscribed_session_is_owed [OF sample_inv(1,2) _ sample_subscribe_eq sample_publish_qos(1),
    of "SubscriptionFilter_new ''t'' AtLeastOnce" "''other''" list_ops]
  by (simp add: sample_subscribe_def sample_filter sample_publish_qos plain_topic_def sample_matching)

text \<open>C11. A CONNECT for which there is room is answered with a CONNACK of reason Success whose session-present flag is set exactly when a session is resumed; the session is then active, has the will of the CONNECT, and has the unacknowledged messages of the session resumed, or none.\<close>

theorem connect_answer:
  assumes "broker_inv st" and "\<forall>p. io_write io p" and "sid = connect_sid uuid connect"
    and "SessionPool_get_active sid (bk_pool st) \<noteq> None \<or>
      \<not> SessionPool_at_capacity (bk_pool st) (cf_max_active_sessions (bk_config st))"
  shows "\<exists>ack r st'. handle_connect ops io now uuid connect st = (Ok (Some r), st', [Pkt_ConnAck ack]) \<and>
    ca_reason ack = R_Success \<and> (ConnAck_session_present ack \<longleftrightarrow> resumed st connect sid \<noteq> None) \<and>
    SessionPool_get_active sid (bk_pool st') = Some r \<and> broker_inv st' \<and>
    se_will_message (bk_sessions st' ! r) = Connect_will_message connect \<and>
    se_pending_ack (bk_sessions st' ! r) =
      (case resumed st connect sid of Some k \<Rightarrow> se_pending_ack (bk_sessions st ! k) | None \<Rightarrow> [])"
  by (rule connect_accepted [OF assms])

theorem connect_answer_witness:
  "\<exists>ack r st'. handle_connect list_ops all_io 0 ''u'' (Connect_new ''s'') sample_state = (Ok (Some r), st', [Pkt_ConnAck ack]) \<and>
    ca_reason ack = R_Success \<and> ConnAck_session_present ack"
  using connect_answer [OF sample_inv(1), of all_io "''s''" "''u''" "Connect_new ''s''" list_ops 0] sample_inv(2)
  by (auto simp: all_io_def connect_sid_def resumed_def known_def Connect_new_def Connect_clean_start_def
      SessionPool_get_active_def CONNECT_FLAG_CLEAN_START_def split: option.splits)

text \<open>C12. When the connection of a client is lost, closed without a DISCONNECT, failing on read, or silent for longer than the keep-alive time, its will, when it has no delay, is published: the channel of an active session, when it has room for them, gets one copy for each of its matching subscriptions and nothing else; the will is used up and the session is inactive. The state has the invariants of the broker (C2, C19) and the channels keep their order.\<close>

theorem lost_connection_publishes_will:
  assumes "broker_inv st" and "channels_own st" and "fifo ops queue capacity" and "cn_session cn = Some r" and "r < length (bk_sessions st)"
    and "se_will_message (bk_sessions st ! r) = Some will" and "will_delay will = 0"
    and "SessionPool_get_active sid (bk_pool st) = Some k"
    and "matching_subscribers (bk_tree st) (wm_topic will) = (Ok subs :: (BrokerError, Subscriber list) res)"
    and "length (queue_of queue k st) +
      length (copies_for (will_publish will) (wm_qos will) [] sid subs (se_next_packet_id (bk_sessions st ! k))) \<le> capacity"
  shows "\<exists>st'. on_eof ops cn st = (Ok None, st', []) \<and> on_error ops cn st = (Err BE_Stream, st', []) \<and>
    on_keep_alive ops io cn st = (Ok (Some cn), st', []) \<and> queue_of queue k st' = queue_of queue k st @
      map SC_Deliver (copies_for (will_publish will) (wm_qos will) [] sid subs (se_next_packet_id (bk_sessions st ! k))) \<and>
    pu_topic_name (will_publish will) = wm_topic will \<and> pu_payload (will_publish will) = Some (wm_payload will) \<and>
    se_will_message (bk_sessions st' ! r) = None \<and> SessionPool_get_active (se_id (bk_sessions st ! r)) (bk_pool st') = None"
  using abandon_publishes_will [OF assms(1-3,5-10)] assms(4)
  by (auto simp: on_eof_def on_error_def on_keep_alive_def run_def finish_def will_message_kept)

theorem lost_connection_publishes_will_witness:
  "\<exists>st' out. on_eof list_ops (sample_conn 1) sample_willing = (Ok None, st', []) \<and>
    queue_of (\<lambda>c. c) 0 st' = [SC_Deliver out] \<and> pu_payload out = Some [7]"
proof -
  have "\<exists>st'. on_eof list_ops (sample_conn 1) sample_willing = (Ok None, st', []) \<and> queue_of (\<lambda>c. c) 0 st' = queue_of (\<lambda>c. c) 0 sample_willing @
      map SC_Deliver (copies_for (will_publish (sample_will 0)) AtLeastOnce [] ''s'' [\<lparr>sb_session_id = ''s'', sb_qos = AtLeastOnce, sb_no_local = False\<rparr>]
        (se_next_packet_id (bk_sessions sample_willing ! 0)))"
    using lost_connection_publishes_will [OF sample_willing_inv(1,2) list_ops_fifo, of "sample_conn 1" 1 "sample_will 0" "''s''" 0
        "[\<lparr>sb_session_id = ''s'', sb_qos = AtLeastOnce, sb_no_local = False\<rparr>]"] sample_willing_fields
    by (auto simp: sample_matching sample_will_fields min_qos1)
  then show ?thesis using sample_willing_fields by (auto simp: min_qos1 Publish_set_qos_def will_message_kept sample_will_fields)
qed

text \<open>C13. At a broker that accepts connections and has no limit of active sessions (at the limit the CONNECT may be refused), a client left a will with a delay and comes back, without a clean start, before it was published. Then the will is never published: whatever happens afterwards, when the task of the will is due it does nothing. It does not matter whether the CONNACK reaches the client.\<close>

theorem delayed_will_cancelled:
  assumes "world_inv config w" and "wills_own (wd_state w)" and "live w i cn" and "\<not> cn_connected cn" and "bk_accept (wd_state w)"
    and "known (wd_state w) (connect_sid uuid connect) = Some r"
    and "se_pending_will (bk_sessions (wd_state w) ! r) = Some t" and "\<not> Connect_clean_start connect"
    and "cf_max_active_sessions config = None"
    and "w1 = after w i (on_packet ops io now uuid (Pkt_Connect connect) cn (wd_state w))" and "(step ops)\<^sup>*\<^sup>* w1 w'"
  shows "will_task ops t (wd_state w') = Ok (wd_state w')"
  using assms by (rule reconnect_cancels_will)

theorem delayed_will_cancelled_witness:
  "let w = after sample_waiting 0 (on_packet list_ops all_io 0 [] (Pkt_Connect (Connect_new ''s'')) Conn_init (wd_state sample_waiting)) in
    will_task list_ops 0 (wd_state sample_waiting) \<noteq> Ok (wd_state sample_waiting) \<and> will_task list_ops 0 (wd_state w) = Ok (wd_state w)"
  using delayed_will_cancelled [OF sample_waiting_inv, of 0 Conn_init "[]" "Connect_new ''s''" 0 0 _ list_ops all_io 0, OF _ _ _ _ _ _ _ refl rtranclp.rtrancl_refl]
    sample_waiting_fields sample_will_open by (simp add: Let_def)

text \<open>C14. With automatic acknowledgement on, and as long as writes succeed, the client as the sender of QoS 1 and 2 messages refines a table of what is awaited for every identifier: PUBACK and PUBCOMP end the exchange, PUBREC is answered with PUBREL and moves it on to PUBCOMP, the packet is passed on to the application; a packet that is not the awaited one is a protocol error and leaves the table as it was.\<close>

theorem client_sender_refines:
  assumes "ss_auto_ack (cs_state cs)" and "\<forall>p. wr p" and "control_of pkt = Some (k, pid)" and "k \<noteq> QP_PubRel"
  shows "case tx_step k pid (awaits (send_table cs)) of
      Some T \<Rightarrow> \<exists>cs'. client_handle_packet wr pkt cs =
          (Ok (Some pkt), cs', if k = QP_PubRec then [Pkt_PubRel (PubResp_new_pubrel_with_packet_id pid)] else []) \<and>
        awaits (send_table cs') = T
    | None \<Rightarrow> \<exists>cs'. client_handle_packet wr pkt cs = (Err (CE_Protocol R_ProtocolErr), cs', []) \<and>
        awaits (send_table cs') = awaits (send_table cs)"
  using client_sender_follows [OF assms, unfolded follows_def]
  by (cases "tx_step k pid (awaits (send_table cs))") (auto simp only: option.case)

theorem client_sender_refines_witness:
  "\<exists>cs'. client_handle_packet (\<lambda>_. True) (Pkt_PubAck (PubResp_new_puback_with_packet_id 9)) sample_client =
    (Err (CE_Protocol R_ProtocolErr), cs', [])"
  using client_sender_refines [OF sample_client_fields(3), of "\<lambda>_. True" "Pkt_PubAck (PubResp_new_puback_with_packet_id 9)" QP_PubAck 9]
  by (auto simp: PubResp_new_puback_with_packet_id_def sample_client_fields awaits_def)

text \<open>C15. However often the consumer has no room, the packets handed over so far followed by the one held back are exactly the packets the session passed on, in the order they were read, as if the channels had no limit; each is in the channel registered for its type, or the default one.\<close>

theorem consumers_get_all_in_order:
  assumes "client_runs t evs acts t'"
  shows "option_list (ct_pending_forward t) @ received evs (ct_session t) = handed acts @ option_list (ct_pending_forward t') \<and>
    (\<forall>c p. Handed c p \<in> set acts \<longrightarrow> c = map_of (ct_filter_channel t) (PacketType_from_packet p))"
  using client_runs_delivers [OF assms] by (simp add: placed_well_def)

theorem consumers_get_all_in_order_witness:
  "received [message_event 5 sample_message] sample_client = [Pkt_Publish sample_message]"
  using consumers_get_all_in_order [of sample_task "[message_event 5 sample_message]" _ sample_task]
    busy_client_silent [OF sample_message_qos, of sample_task 5 1]
  by (auto simp: sample_task_fields sample_client_fields)

text \<open>C16. Along every run of the client task, in whatever order packets are read, sent and forwarded: the identifiers of the exchanges are distinct, and a message that waits for its first answer is kept under the identifier it carries.\<close>

theorem client_tables_invariant:
  assumes "client_runs t evs acts t'" and "client_inv (ct_session t)"
  shows "\<forall>table \<in> {send_table (ct_session t'), recv_table (ct_session t')}. distinct (map fst table) \<and>
    (\<forall>(pid, s) \<in> set table. qs_next s \<in> {QP_PubAck, QP_PubRec} \<longrightarrow>
      (\<exists>p. qs_packet s = Some (Pkt_Publish p) \<and> pu_packet_id p = Some pid))"
  using client_runs_inv [OF assms] by (fastforce simp: client_inv_def table_ok_def entry_ok_def)

theorem client_tables_invariant_witness:
  "client_runs sample_task [message_event 5 sample_message] [Handed (consumer sample_task (Pkt_Publish sample_message)) (Pkt_Publish sample_message)] sample_task \<and>
    distinct (map fst (send_table (ct_session sample_task)))"
  using busy_client_silent [OF sample_message_qos, of sample_task 5 1]
    client_tables_invariant [of sample_task "[message_event 5 sample_message]" _ sample_task]
  by (auto simp: sample_task_fields sample_client_fields sample_client_inv)





text \<open>C19. In every state the broker can reach, however connections come and go, each session sends its control messages on an existing channel that no other session sends on: a message for one client is never put into the channel of another.\<close>

theorem control_channels_distinct:
  assumes "reachable ops config w"
  shows "(\<forall>s \<in> set (bk_sessions (wd_state w)). fst (se_control s) < length (bk_channels (wd_state w))) \<and>
    distinct (map (\<lambda>s. fst (se_control s)) (bk_sessions (wd_state w)))"
  using reachable_channels_own [OF assms] by (simp add: channels_own_def senders_def)

theorem control_channels_distinct_witness:
  "\<exists>w. reachable list_ops Config_default w \<and> bk_sessions (wd_state w) \<noteq> [] \<and>
    distinct (map (\<lambda>s. fst (se_control s)) (bk_sessions (wd_state w)))"
proof -
  obtain w where w: "reachable list_ops Config_default w" "SessionPool_get_active ''s'' (bk_pool (wd_state w)) = Some 0"
    using sample_reachable by blast
  have "bk_sessions (wd_state w) \<noteq> []"
    using pool_invD(6) [OF broker_invD(1)] reachable_inv [OF w(1)] w(2) by (fastforce simp: world_inv_def SessionPool_get_active_def)
  with control_channels_distinct [OF w(1)] w(1) show ?thesis by blast
qed

text \<open>C20. When a connection starts to serve a session and its writes succeed, every unacknowledged message of the session is written to the client again exactly once, in the order in which the table of pending messages is drained, marked as a duplicate and under its identifier, and all of them stay recorded.\<close>

theorem reconnect_redelivers:
  assumes "broker_inv st" and "r < length (bk_sessions st)" and "\<forall>p. io_write io p"
  shows "\<exists>cn' st' sent. serve io r cn st =
      (Ok (Some cn'), st', map (\<lambda>e. Pkt_Publish (again e)) sent) \<and> mset sent = mset (se_pending_ack (bk_sessions st ! r)) \<and>
    cn_connected cn' \<and> cn_session cn' = Some r \<and> cn_control cn' = snd (se_control (bk_sessions st ! r)) \<and>
    se_pending_ack (bk_sessions st' ! r) = map (\<lambda>e. (fst e, again e)) sent"
  by (rule serve_redelivers [OF assms])

theorem reconnect_redelivers_witness:
  "\<exists>cn' st' out. serve all_io 0 Conn_init sample_pending = (Ok (Some cn'), st', out) \<and> cn_session cn' = Some 0 \<and>
    mset out = {#Pkt_Publish (again (1, sample_publish\<lparr>pu_packet_id := Some 1\<rparr>)), Pkt_Publish (again (2, sample_publish\<lparr>pu_packet_id := Some 2\<rparr>))#} \<and>
    length (se_pending_ack (bk_sessions st' ! 0)) = 2"
proof -
  let ?pending = "[(1, sample_publish\<lparr>pu_packet_id := Some 1\<rparr>), (2, sample_publish\<lparr>pu_packet_id := Some 2\<rparr>)]"
  obtain cn' st' sent where s: "serve all_io 0 Conn_init sample_pending = (Ok (Some cn'), st', map (\<lambda>e. Pkt_Publish (again e)) sent)"
    "mset sent = mset ?pending" "cn_session cn' = Some 0" "se_pending_ack (bk_sessions st' ! 0) = map (\<lambda>e. (fst e, again e)) sent"
    using reconnect_redelivers [OF sample_pending_inv(1,2), of all_io Conn_init] by (auto simp: all_io_def sample_pending_inv(3))
  have "length sent = 2" using arg_cong [OF s(2), of size] by simp
  with s show ?thesis by (simp del: again.simps)
qed

text \<open>C21. A client that says goodbye, with a DISCONNECT of reason success, has no will any more: handling the DISCONNECT, and the end of the connection after it, put nothing into any channel and leave no delayed will behind; the session is inactive.\<close>

theorem goodbye_drops_will:
  assumes "cn_connected cn" and "cn_session cn = Some r" and "r < length (bk_sessions st)" and "broker_inv st" and "dc_reason d = R_Success"
  shows "\<exists>st1 st2. on_packet ops io now uuid (Pkt_Disconnect d) cn st = (Ok (Some cn), st1, []) \<and>
    on_eof ops cn st1 = (Ok None, st2, []) \<and> bk_channels st2 = bk_channels st \<and> bk_wills st2 = bk_wills st \<and>
    se_will_message (bk_sessions st2 ! r) = None \<and> SessionPool_get_active (se_id (bk_sessions st ! r)) (bk_pool st2) = None"
  by (rule disconnect_drops_will [OF assms])

theorem goodbye_drops_will_witness:
  "se_will_message (bk_sessions sample_willing ! 1) \<noteq> None \<and>
    (\<exists>st1 st2. on_packet list_ops all_io 0 [] (Pkt_Disconnect Disconnect_default) (sample_conn 1) sample_willing = (Ok (Some (sample_conn 1)), st1, []) \<and>
    on_eof list_ops (sample_conn 1) st1 = (Ok None, st2, []) \<and> bk_channels st2 = bk_channels sample_willing)"
  using goodbye_drops_will [of "sample_conn 1" 1 sample_willing Disconnect_default list_ops all_io 0 "[]"] sample_willing_inv(1) sample_willing_fields
  by (auto simp: sample_conn_def Disconnect_default_def)



text \<open>C23. Decoding a proper prefix of the bytes of a packet reports insufficient data, never a packet and no other error.\<close>

theorem proper_prefix_is_incomplete:
  assumes "Packet_sendable p" and "Packet_encode p = Ok bs" and "k < length bs"
  shows "\<exists>a b. decode uuid (take k bs) = Err (EK_InsufficientData a b)"
  using decode_wire_prefix [OF assms(1)] Packet_encode_wire [OF assms(1)] assms(2,3) by simp

theorem proper_prefix_is_incomplete_witness:
  "\<exists>a b. decode ''u'' (take 1 (Packet_wire (Pkt_Publish sample_message))) = Err (EK_InsufficientData a b)"
  by (rule proper_prefix_is_incomplete [OF sample_message_sendable Packet_encode_wire [OF sample_message_sendable]])
    (use Packet_wire_nonempty [of "Pkt_Publish sample_message"] in simp)

text \<open>C24. For a topic without wildcard segments, the lookup returns exactly the subscribers registered under a filter that matches the topic: segment by segment, + for one segment, a final # for the rest, the parent level included. Topics that begin with $ are no exception, unlike in MQTT 5: the subscribers of # are among the result for every topic.\<close>

theorem matching_is_wildcard_matching:
  assumes "tree_inv tree" and "plain_topic (split_topic topic)"
  shows "\<exists>subs. matching_subscribers tree topic = (Ok subs :: (BrokerError, Subscriber list) res) \<and>
    set subs = {x. \<exists>f. matches f (split_topic topic) \<and> x \<in> set (subs_at tree f)} \<and> set (subs_at tree [''#'']) \<subseteq> set subs"
  using matching_subscribers_spec [OF assms] hash_matches by blast

theorem matching_is_wildcard_matching_witness:
  "\<exists>subs. matching_subscribers TopicTree_new ''a/b'' = (Ok subs :: (BrokerError, Subscriber list) res) \<and>
    set subs = {x. \<exists>f. matches f (split_topic ''a/b'') \<and> x \<in> set (subs_at TopicTree_new f)}"
  using matching_is_wildcard_matching [OF tree_inv_new, of "''a/b''"] by (auto simp: plain_topic_def)

text \<open>C25. Subscribing keeps the tree well formed, never panics, and changes the registered subscribers of the given filter only: the session is added, or its level and no-local option are updated in place.\<close>

theorem subscribe_registers:
  assumes "tree_inv tree"
  shows "\<exists>tree'. subscribe tree filt sid q nl = (Ok tree' :: (BrokerError, TopicTree) res) \<and> tree_inv tree' \<and>
    (\<forall>f. subs_at tree' f = (if f = split_topic filt
      then upsert (subs_at tree f) \<lparr>sb_session_id = sid, sb_qos = q, sb_no_local = nl\<rparr> else subs_at tree f))"
  by (rule topics.sub_law [OF assms])

theorem subscribe_registers_witness:
  "\<exists>tree'. subscribe TopicTree_new ''a/+'' ''s'' AtLeastOnce False = (Ok tree' :: (BrokerError, TopicTree) res) \<and>
    subs_at tree' [''a'', ''+''] = [\<lparr>sb_session_id = ''s'', sb_qos = AtLeastOnce, sb_no_local = False\<rparr>]"
  using subscribe_registers [OF tree_inv_new, of "''a/+''" "''s''" AtLeastOnce False] by (auto simp: subs_at_new)

text \<open>C26. Handling an UNSUBSCRIBE answers one reason per topic filter and removes the session from exactly these filters. Afterwards the lookup of a topic without wildcards returns exactly the subscribers it had under a matching filter, other than the session under a named one; when the session had no other filter that matches the topic, the lookup does not return it.\<close>

theorem unsubscribed_is_silent:
  assumes "broker_inv st"
  shows "\<exists>unsuback st'. handle_unsubscribe p sid st = Ok (unsuback, st') \<and> broker_inv st' \<and>
    ua_packet_id unsuback = us_packet_id p \<and> length (ua_reason_code unsuback) = length (us_topics p) \<and>
    (\<forall>x f. x \<in> set (subs_at (bk_tree st') f) \<longleftrightarrow>
      x \<in> set (subs_at (bk_tree st) f) \<and> \<not> (sb_session_id x = sid \<and> f \<in> split_topic ` set (us_topics p))) \<and>
    (\<forall>topic. plain_topic (split_topic topic) \<longrightarrow>
      (\<exists>subs. matching_subscribers (bk_tree st') topic = (Ok subs :: (BrokerError, Subscriber list) res) \<and>
        set subs = {x. \<exists>f. matches f (split_topic topic) \<and> x \<in> set (subs_at (bk_tree st) f) \<and>
          \<not> (sb_session_id x = sid \<and> f \<in> split_topic ` set (us_topics p))} \<and>
        ((\<forall>f. matches f (split_topic topic) \<and> sid \<in> sb_session_id ` set (subs_at (bk_tree st) f) \<longrightarrow>
            f \<in> split_topic ` set (us_topics p)) \<longrightarrow>
          sid \<notin> sb_session_id ` set subs)))"
  by (rule unsubscribe_silences [OF assms])

theorem unsubscribed_is_silent_witness:
  "\<exists>unsuback st' subs. handle_unsubscribe (Unsubscribe_default\<lparr>us_topics := [''t'']\<rparr>) ''s'' sample_state = Ok (unsuback, st') \<and>
    length (ua_reason_code unsuback) = 1 \<and>
    matching_subscribers (bk_tree st') ''t'' = (Ok subs :: (BrokerError, Subscriber list) res)"
proof -
  have "plain_topic (split_topic ''t'')" by (simp add: plain_topic_def)
  with unsubscribed_is_silent [OF sample_inv(1), of "Unsubscribe_default\<lparr>us_topics := [''t'']\<rparr>" "''s''"] show ?thesis
    by (elim exE conjE) (erule allE [where x = "''t''"], auto)
qed

text \<open>C27. A PUBLISH returned by the decoder has QoS 0, 1 or 2, and carries a packet identifier exactly when the level is not 0.\<close>

theorem decoded_publish_id_agrees:
  assumes "decode uuid src = Ok (Some (Pkt_Publish p, n), rest)"
  shows "\<exists>q. Publish_qos p = (Ok q :: QoSLevel codec_result) \<and> (pu_packet_id p = None \<longleftrightarrow> q = AtMostOnce)"
  using id_agrees_qos [OF decode_publish_id_agrees [OF assms]] by (simp add: has_qos_def)

theorem decoded_publish_id_agrees_witness:
  "\<exists>p q. decode ''u'' (Packet_wire (Pkt_Publish sample_message)) = Ok (Some (Pkt_Publish p, length (Packet_wire (Pkt_Publish sample_message))), []) \<and>
    Publish_qos p = (Ok q :: QoSLevel codec_result) \<and> (pu_packet_id p = None \<longleftrightarrow> q = AtMostOnce)"
  using decode_wire [OF sample_message_sendable, of "''u''" "[]"]
    decoded_publish_id_agrees [of "''u''" "Packet_wire (Pkt_Publish sample_message)"] by auto

text \<open>C28. The packet identifiers a session hands out are never 0 and run through 1, ..., 65535 in a circle.\<close>

theorem packet_ids_cycle:
  assumes "se_next_packet_id s \<noteq> 0"
  shows "fst (Session_next_packet_id s) = se_next_packet_id s \<and>
    unat (se_next_packet_id (snd (Session_next_packet_id s))) = unat (se_next_packet_id s) mod 65535 + 1"
  using Session_next_packet_id_cycle [OF assms] by (simp add: Session_next_packet_id_def Let_def)

theorem packet_ids_cycle_witness:
  "unat (se_next_packet_id (snd (Session_next_packet_id ((Session_new 0 ''s'' None 45 0)\<lparr>se_next_packet_id := 65535\<rparr>)))) = 1"
  using packet_ids_cycle [of "(Session_new 0 ''s'' None 45 0)\<lparr>se_next_packet_id := 65535\<rparr>"] by simp

text \<open>C29. A variable byte integer below 2097152 is decoded back from its bytes, as many as its size function says. Larger ones, although the encoder writes them and the limit is 268435455, are rejected by the decoder.\<close>

theorem varint_roundtrip:
  "encode_variable_byte_int v = Ok (vbi_bytes v) \<and>
   decode_variable_byte_int (vbi_bytes v @ rest) =
    (if unat v < 2097152 then Ok (v, unat (variable_byte_int_size v), rest) else Err MqttCodecError_new)"
  using length_vbi_bytes [of v] by (simp add: encode_variable_byte_int_def decode_variable_byte_int_enc)



text \<open>C31. Sending always returns, whatever the packet and the state of the session: the search for an identifier that is not in use starts only where there is one.\<close>

theorem client_send_returns:
  "\<exists>r cs' out. write_next wr pkt cs = Some (r, cs', out)"
  using write_next_returns [of wr pkt cs] by auto

text \<open>C32. With automatic acknowledgement, a receive quota that is not used up and writes that succeed, a received QoS 2 message is passed on and answered with PUBREC, its PUBREL is answered with PUBCOMP, and then the exchange is forgotten, the receive quota is what it was and what was sent is untouched.\<close>

theorem qos2_receive_completes:
  assumes "ss_auto_ack (cs_state cs)" and "0 < ss_qos_recv_remaining (cs_state cs)" and "\<forall>p. wr p"
    and "has_qos p ExactlyOnce" and "pu_packet_id p = Some pid" and "pr_packet_id rel = pid"
  shows "\<exists>cs1 cs2. client_handle_packet wr (Pkt_Publish p) cs =
      (Ok (Some (Pkt_Publish p)), cs1, [Pkt_PubRec (PubResp_new_pubrec_with_packet_id pid)]) \<and>
    client_handle_packet wr (Pkt_PubRel rel) cs1 =
      (Ok (Some (Pkt_PubRel rel)), cs2, [Pkt_PubComp (PubResp_new_pubcomp_with_packet_id pid)]) \<and>
    awaits (recv_table cs2) = (awaits (recv_table cs))(pid := None) \<and> send_table cs2 = send_table cs \<and>
    ss_qos_recv_remaining (cs_state cs2) = ss_qos_recv_remaining (cs_state cs)"
  by (rule qos2_receive [OF assms])

theorem qos2_receive_completes_witness:
  "\<exists>cs1 cs2. client_handle_packet (\<lambda>_. True) (Pkt_Publish sample_qos2) sample_client =
      (Ok (Some (Pkt_Publish sample_qos2)), cs1, [Pkt_PubRec (PubResp_new_pubrec_with_packet_id 9)]) \<and>
    client_handle_packet (\<lambda>_. True) (Pkt_PubRel (PubResp_new_pubrel_with_packet_id 9)) cs1 =
      (Ok (Some (Pkt_PubRel (PubResp_new_pubrel_with_packet_id 9))), cs2, [Pkt_PubComp (PubResp_new_pubcomp_with_packet_id 9)])"
  using qos2_receive_completes [OF sample_client_fields(3) _ _ sample_qos2_fields, of "\<lambda>_. True" "PubResp_new_pubrel_with_packet_id 9"]
  by (auto simp: sample_client_fields PubResp_new_pubrel_with_packet_id_def)

text \<open>C33. The keep-alive timer starts again with every iteration. A connected client with the timer on writes a PINGREQ in an iteration that lasts longer than the keep-alive time: no other branch is possible then. But when QoS 0 messages come at an interval below the keep-alive time, it goes on for any length of time, far beyond the keep-alive time, without writing anything, no PINGREQ either.\<close>

theorem busy_client_never_pings:
  assumes "has_qos p AtMostOnce" and "cs_connected (ct_session t)" and "ct_pending_forward t = None"
    and "ct_keep_alive_enabled t" and "0 < d" and "d < ct_keep_alive t"
  shows "(\<forall>time. \<exists>n acts. time \<le> run_time (replicate n (message_event d p)) \<and>
      client_runs t (replicate n (message_event d p)) acts t \<and> length acts = n \<and> (\<forall>w. Written w \<notin> set acts)) \<and>
    (\<forall>ev. enabled ev t \<and> ct_keep_alive t < ev_elapsed ev \<and> ev_writes ev (Pkt_PingRequest PingReq_default) \<longrightarrow>
      (\<exists>t'. client_step ev t = Some (None, t', [Written (Pkt_PingRequest PingReq_default)])))"
proof -
  have "\<exists>n acts. time \<le> run_time (replicate n (message_event d p)) \<and>
      client_runs t (replicate n (message_event d p)) acts t \<and> length acts = n \<and> (\<forall>w. Written w \<notin> set acts)" for time
    using busy_client_silent [OF assms(1-4), of d time] assms(5,6)
    by (intro exI [of _ time] exI [of _ "replicate time (Handed (consumer t (Pkt_Publish p)) (Pkt_Publish p))"])
      (auto simp: run_time_messages)
  then show ?thesis using idle_client_pings [OF assms(4,2)] by blast
qed

theorem busy_client_never_pings_witness:
  "\<exists>n acts. 1000000 \<le> run_time (replicate n (message_event 59 sample_message)) \<and>
    client_runs sample_task (replicate n (message_event 59 sample_message)) acts sample_task \<and> (\<forall>w. Written w \<notin> set acts)"
proof -
  have "cs_connected (ct_session sample_task)" "ct_pending_forward sample_task = None" "ct_keep_alive_enabled sample_task"
    "(0::nat) < 59" "59 < ct_keep_alive sample_task"
    by (simp_all add: sample_task_fields sample_client_fields)
  from busy_client_never_pings [OF sample_message_qos this, THEN conjunct1, THEN spec [of _ 1000000]] show ?thesis by blast
qed

text \<open>C34. A QoS 2 message that is sent again while its exchange is still open is passed on to the application a second time.\<close>

theorem qos2_duplicate_seen_twice:
  assumes "ss_auto_ack (cs_state cs)" and "1 < ss_qos_recv_remaining (cs_state cs)" and "\<forall>p. wr p"
    and "has_qos p ExactlyOnce" and "pu_packet_id p = Some pid"
  shows "\<exists>cs1 cs2 out1 out2. client_handle_packet wr (Pkt_Publish p) cs = (Ok (Some (Pkt_Publish p)), cs1, out1) \<and>
    awaits (recv_table cs1) pid = Some QP_PubRel \<and>
    client_handle_packet wr (Pkt_Publish p) cs1 = (Ok (Some (Pkt_Publish p)), cs2, out2)"
  by (rule qos2_duplicate_passed_on [OF assms])

theorem qos2_duplicate_seen_twice_witness:
  "\<exists>cs1 cs2 out1 out2. client_handle_packet (\<lambda>_. True) (Pkt_Publish sample_qos2) sample_client = (Ok (Some (Pkt_Publish sample_qos2)), cs1, out1) \<and>
    client_handle_packet (\<lambda>_. True) (Pkt_Publish sample_qos2) cs1 = (Ok (Some (Pkt_Publish sample_qos2)), cs2, out2)"
  using qos2_duplicate_seen_twice [OF sample_client_fields(3) _ _ sample_qos2_fields, of "\<lambda>_. True"]
  by (auto simp: sample_client_fields)

text \<open>C35. When the other side closes the connection after a part of a packet, \<open>read\<close> never returns: a read of 0 bytes is not taken for the end while bytes are buffered.\<close>

theorem truncated_stream_never_returns:
  assumes "Packet_sendable p" and "stream_inv st" and "length (Packet_wire p) \<le> st_max_buffer_size st"
    and "0 < st_read_offset st" and "st_read_offset st < length (st_read_buffer st)"
    and "st_read_offset st < length (Packet_wire p)" and "buffered st = take (st_read_offset st) (Packet_wire p)"
    and "\<forall>k. rd s k = (Rd_Ok [], s)"
  shows "PacketStream_read rd uuid st s = None"
  using assms by (intro read_stuck) simp_all

theorem truncated_stream_never_returns_witness:
  "PacketStream_read (\<lambda>s k. (Rd_Ok [], s)) ''u''
    \<lparr>st_read_buffer = [0xC0, 0], st_read_offset = 1, st_initial_buffer_size = 2, st_max_buffer_size = 64\<rparr> () = None"
proof -
  have w: "Packet_wire (Pkt_PingRequest PingReq_default) = [0xC0, 0]"
    by (simp add: frame_def header_byte_def PingReq_default_def FixedHeader_new_def header_masks vbi_bytes_last)
  show ?thesis
    by (rule truncated_stream_never_returns [of "Pkt_PingRequest PingReq_default"], unfold w)
      (simp_all add: PingReq_sendable_def stream_inv_def buffered_def)
qed

text \<open>C36. A PUBLISH whose header has the reserved QoS bits 3 is not reported as malformed: the decoder panics.\<close>

theorem reserved_qos_panics:
  assumes "fh_packet_type h = PT_Publish" and "wf_header h" and "fh_flags h AND QOS_MASK = QOS_MASK"
    and "wf_string topic" and "length (string_bytes topic @ props) < 2097152"
  shows "decode uuid (frame h (string_bytes topic @ props) @ rest) = Panic"
  by (rule decode_reserved_qos_panics [OF assms])

theorem reserved_qos_panics_witness:
  "decode ''u'' (frame ((FixedHeader_new PT_Publish)\<lparr>fh_flags := 6\<rparr>) (string_bytes ''t'' @ [0]) @ []) = Panic"
  by (rule reserved_qos_panics)
    (simp_all add: FixedHeader_new_def wf_header_def header_masks wf_string_def rust_str_def as_bytes_def string_bytes_def)

text \<open>C37. The broker answers a QoS 2 PUBLISH with nothing and writes no PUBREC in any branch: a client that has sent a QoS 2 message still waits for the PUBREC after any sequence of packets the broker may write to it.\<close>

theorem qos2_publish_never_completes:
  assumes "awaits (send_table cs) pid = Some QP_PubRec" and "\<forall>p \<in> set ps. broker_writes ops p"
  shows "awaits (send_table (client_after wr ps cs)) pid = Some QP_PubRec"
  by (rule qos2_exchange_stays_open [OF assms])

theorem qos2_publish_never_completes_witness:
  "awaits (send_table (client_after (\<lambda>_. True) [Pkt_PingResponse PingResp_default]
    (upd_state (\<lambda>s. s\<lparr>ss_pending_qos_send := [(9, QoSPacketState_new_qos2 (Pkt_Publish sample_qos2))]\<rparr>) sample_client))) 9 = Some QP_PubRec"
proof (rule qos2_publish_never_completes [where ops = list_ops])
  have "Pkt_PingResponse PingResp_default \<in> set (snd (snd (on_packet list_ops all_io 0 [] (Pkt_PingRequest PingReq_default) Conn_init sample_state)))"
    by (simp add: on_packet_def Conn_init_def handle_pre_connect_def write_packet_def finish_def and_then_def all_io_def)
  then have "broker_writes list_ops (Pkt_PingResponse PingResp_default)" unfolding broker_writes_def by blast
  then show "\<forall>p \<in> set [Pkt_PingResponse PingResp_default]. broker_writes list_ops p" by simp
qed (simp add: upd_state_def awaits_def send_table_def QoSPacketState_new_qos2_def)

text \<open>C38. When the redelivery after a reconnect fails at some message, the messages before it and it itself are recorded again, but all messages that come after it in the order in which the table is drained are gone; and the session is left active, although the connection has ended.\<close>

theorem redelivery_cut_short:
  assumes "broker_inv st" and "r < length (bk_sessions st)" and "iteration (io_rank io) (se_pending_ack (bk_sessions st ! r)) = sent @ e # lost"
    and "\<forall>x \<in> set sent. io_write io (Pkt_Publish (again x))" and "\<not> io_write io (Pkt_Publish (again e))"
  shows "\<exists>st'. serve io r cn st = (Err BE_Stream, st', map (\<lambda>x. Pkt_Publish (again x)) sent) \<and>
    se_pending_ack (bk_sessions st' ! r) = map (\<lambda>x. (fst x, again x)) (sent @ [e]) \<and> bk_pool st' = bk_pool st \<and>
    (\<forall>x \<in> set lost. pending_in st' r (fst x) = None)"
  by (rule cut_redelivery_loses [OF assms])

theorem redelivery_cut_short_witness:
  "\<exists>st'. serve \<lparr>io_write = (\<lambda>_. False), io_shutdown = True, io_rank = unat\<rparr> 0 Conn_init sample_pending = (Err BE_Stream, st', []) \<and>
    pending_in sample_pending 0 2 \<noteq> None \<and> pending_in st' 0 2 = None"
  using redelivery_cut_short [OF sample_pending_inv(1), of 0 "\<lparr>io_write = (\<lambda>_. False), io_shutdown = True, io_rank = unat\<rparr>" "[]"
      "(1, sample_publish\<lparr>pu_packet_id := Some 1\<rparr>)" "[(2, sample_publish\<lparr>pu_packet_id := Some 2\<rparr>)]" Conn_init]
    sample_pending_inv(2) by (auto simp: sample_pending_inv(3) pending_in_def iteration_def)

text \<open>C39. Sessions never expire. A client that the broker knows in some state is known in every later state, and a CONNECT without clean start at any later time is answered with success and the session present, whatever session expiry was set for it, as long as the broker accepts connections and the session is active or the limit of active sessions is not reached (otherwise the CONNECT is refused, as any other), and the CONNACK can be written.\<close>

theorem sessions_never_expire:
  assumes "(step ops)\<^sup>*\<^sup>* w w'" and "reachable ops config w" and "known (wd_state w) sid \<noteq> None"
    and "connect_sid uuid connect = sid" and "\<not> Connect_clean_start connect" and "\<forall>p. io_write io p"
    and "bk_accept (wd_state w')"
    and "SessionPool_get_active sid (bk_pool (wd_state w')) \<noteq> None \<or>
      \<not> SessionPool_at_capacity (bk_pool (wd_state w')) (cf_max_active_sessions config)"
  shows "\<exists>ack r st'. handle_pre_connect ops io now uuid (Pkt_Connect connect) (wd_state w') = (Ok (Some r), st', [Pkt_ConnAck ack]) \<and>
    ca_reason ack = R_Success \<and> ConnAck_session_present ack"
  by (rule session_outlives_expiry [OF assms])

theorem sessions_never_expire_witness:
  "\<exists>w ack r st'. reachable list_ops Config_default w \<and>
    handle_pre_connect list_ops all_io 1000000 [] (Pkt_Connect (Connect_new ''s'')) (wd_state w) = (Ok (Some r), st', [Pkt_ConnAck ack]) \<and>
    ConnAck_session_present ack"
proof -
  obtain w where w: "reachable list_ops Config_default w" "SessionPool_get_active ''s'' (bk_pool (wd_state w)) = Some 0" "bk_accept (wd_state w)"
    using sample_reachable by blast
  from sessions_never_expire [OF rtranclp.rtrancl_refl w(1), of "''s''" "[]" "Connect_new ''s''" all_io 1000000] w(2,3)
  have "\<exists>ack r st'. handle_pre_connect list_ops all_io 1000000 [] (Pkt_Connect (Connect_new ''s'')) (wd_state w) =
      (Ok (Some r), st', [Pkt_ConnAck ack]) \<and> ConnAck_session_present ack"
    by (auto simp: sample_connect all_io_def known_def SessionPool_get_active_def)
  with w(1) show ?thesis by blast
qed

text \<open>C40. A client takes over the session of another connection. When the old connection then closes, the session of the client that took over becomes inactive, although that client is connected and served: what is published from then on is not routed to it.\<close>

theorem closing_undoes_takeover:
  assumes "broker_inv st" and "SessionPool_get_active sid (bk_pool st) = Some r" and "cn_session cn = Some r"
    and "connect_sid uuid connect = sid" and "\<not> Connect_clean_start connect" and "\<forall>p. io_write io p"
  shows "\<exists>ack st1 cn' out st2 st3. handle_connect ops io now uuid connect st = (Ok (Some r), st1, [Pkt_ConnAck ack]) \<and>
    serve io r Conn_init st1 = (Ok (Some cn'), st2, out) \<and> cn_connected cn' \<and> cn_session cn' = Some r \<and>
    SessionPool_get_active sid (bk_pool st2) = Some r \<and>
    on_eof ops cn st2 = (Ok None, st3, []) \<and> SessionPool_get_active sid (bk_pool st3) = None"
  by (rule stale_close_deactivates [OF assms])

theorem closing_undoes_takeover_witness:
  "\<exists>ack st1 cn' out st2 st3. handle_connect list_ops all_io 0 [] (Connect_new ''s'') sample_state = (Ok (Some 0), st1, [Pkt_ConnAck ack]) \<and>
    serve all_io 0 Conn_init st1 = (Ok (Some cn'), st2, out) \<and> cn_connected cn' \<and>
    on_eof list_ops (sample_conn 0) st2 = (Ok None, st3, []) \<and> SessionPool_get_active ''s'' (bk_pool st3) = None"
  using closing_undoes_takeover [OF sample_inv(1,2), of "sample_conn 0" "[]" "Connect_new ''s''" all_io list_ops 0]
  by (auto simp: sample_connect all_io_def sample_conn_def)

end
